(* ===== verification/Prelude.thy ===== *)
theory Prelude
  imports Main "HOL-Library.AList"
begin

text \<open>
  What every component of the development shares: the shape of a fallible, stateful
  operation and its sequencing, Go's error values with \<open>errors.Is\<close>, the script
  that decides how calls to the outside world turn out, and the generic facts about lists
  and association lists that the component theories use through the simplifier.
\<close>

named_theorems op_simps \<open>unfolding rules for the operations of the model\<close>
named_theorems inv_intros \<open>preservation of a component's invariant\<close>

section \<open>Errors\<close>

text \<open>
  A Go \<open>error\<close> is a message, a sentinel value that callers test with
  \<open>errors.Is\<close>, a message wrapping another error (\<open>fmt.Errorf\<close> with
  \<open>%w\<close>), or several errors joined (\<open>errors.Join\<close>).
\<close>

datatype sentinel =
    ErrTaskNotFound
  | ErrTaskNotStopped
  | ErrTaskCleanupPending
  | ErrCancelled
  | ErrProcessAbsent
  | ErrProcessStillRunning
  | ErrProcessDone
  | ErrUnexpectedEOF
  | ErrEOF

datatype goerr =
    Sentinel sentinel
  | Msg string
  | Wrap string goerr
  | Join "goerr list"

fun errors_is :: "goerr \<Rightarrow> sentinel \<Rightarrow> bool" where
  "errors_is (Sentinel s) t = (s = t)"
| "errors_is (Msg m) t = False"
| "errors_is (Wrap m e) t = errors_is e t"
| "errors_is (Join es) t = (\<exists>e \<in> set es. errors_is e t)"

text \<open>
  \<open>errors.Join\<close> drops nil operands and is nil when all of them are nil.
\<close>

definition errors_join :: "goerr option list \<Rightarrow> goerr option" where
  "errors_join es =
     (case List.map_filter (\<lambda>e. e) es of [] \<Rightarrow> None | x # xs \<Rightarrow> Some (Join (x # xs)))"

lemma errors_join_None [simp]: "errors_join es = None \<longleftrightarrow> (\<forall>e \<in> set es. e = None)"
  by (induction es) (auto simp: errors_join_def List.map_filter_def split: list.splits option.splits)

lemma errors_join_single [simp]: "errors_join [Some e, None] = Some (Join [e])"
  by (simp add: errors_join_def List.map_filter_def)

section \<open>Fallible operations on a state\<close>

text \<open>
  An operation takes the state and returns an error or a value together with the new
  state; the state changes of the calls made before an error stay, as in the code.
\<close>

type_synonym ('s, 'a) op = "'s \<Rightarrow> (goerr + 'a) \<times> 's"

definition ok :: "'a \<Rightarrow> ('s, 'a) op" where
  "ok a = (\<lambda>s. (Inr a, s))"

definition fail :: "goerr \<Rightarrow> ('s, 'a) op" where
  "fail e = (\<lambda>s. (Inl e, s))"

text \<open>\<open>call m f\<close> is a call followed by the \<open>if err != nil { return err }\<close> of the code.\<close>

definition call :: "('s, 'a) op \<Rightarrow> ('a \<Rightarrow> ('s, 'b) op) \<Rightarrow> ('s, 'b) op" where
  "call m f = (\<lambda>s. case m s of (Inl e, s') \<Rightarrow> (Inl e, s') | (Inr a, s') \<Rightarrow> f a s')"

text \<open>\<open>call_wrap\<close> returns \<open>fmt.Errorf("msg: %w", err)\<close> instead.\<close>

definition wrap :: "string \<Rightarrow> ('s, 'a) op \<Rightarrow> ('s, 'a) op" where
  "wrap msg m = (\<lambda>s. case m s of (Inl e, s') \<Rightarrow> (Inl (Wrap msg e), s') | (Inr a, s') \<Rightarrow> (Inr a, s'))"

definition call_wrap :: "string \<Rightarrow> ('s, 'a) op \<Rightarrow> ('a \<Rightarrow> ('s, 'b) op) \<Rightarrow> ('s, 'b) op" where
  "call_wrap msg m f = call (wrap msg m) f"

text \<open>A call whose error the code drops, logs, or branches on.\<close>

definition ignore :: "('s, 'a) op \<Rightarrow> ('s, 'b) op \<Rightarrow> ('s, 'b) op" where
  "ignore m k = (\<lambda>s. k (snd (m s)))"

definition attempt :: "('s, 'a) op \<Rightarrow> (goerr + 'a \<Rightarrow> ('s, 'b) op) \<Rightarrow> ('s, 'b) op" where
  "attempt m k = (\<lambda>s. case m s of (r, s') \<Rightarrow> k r s')"

text \<open>An operation on one field of a larger state.\<close>

definition zoom :: "('s \<Rightarrow> 't) \<Rightarrow> ('t \<Rightarrow> 's \<Rightarrow> 's) \<Rightarrow> ('t, 'a) op \<Rightarrow> ('s, 'a) op" where
  "zoom getf putf m = (\<lambda>s. case m (getf s) of (r, t) \<Rightarrow> (r, putf t s))"

definition pure_step :: "('s \<Rightarrow> 's) \<Rightarrow> ('s, 'b) op \<Rightarrow> ('s, 'b) op" where
  "pure_step f k = (\<lambda>s. k (f s))"

lemma ok_eq [simp]: "ok a s = (Inr a, s)"
  by (simp add: ok_def)

lemma fail_eq [simp]: "fail e s = (Inl e, s)"
  by (simp add: fail_def)

lemma call_Inr_iff:
  "call m f s = (Inr b, t) \<longleftrightarrow> (\<exists>a u. m s = (Inr a, u) \<and> f a u = (Inr b, t))"
  by (auto simp: call_def split: prod.splits sum.splits)

lemma call_Inl_iff:
  "call m f s = (Inl e, t) \<longleftrightarrow>
     m s = (Inl e, t) \<or> (\<exists>a u. m s = (Inr a, u) \<and> f a u = (Inl e, t))"
  by (auto simp: call_def split: prod.splits sum.splits)

lemma wrap_Inr_iff [simp]: "wrap msg m s = (Inr a, t) \<longleftrightarrow> m s = (Inr a, t)"
  by (auto simp: wrap_def split: prod.splits sum.splits)

lemma wrap_Inl_iff:
  "wrap msg m s = (Inl e, t) \<longleftrightarrow> (\<exists>e'. e = Wrap msg e' \<and> m s = (Inl e', t))"
  by (auto simp: wrap_def split: prod.splits sum.splits)

lemma call_wrap_Inr_iff:
  "call_wrap msg m f s = (Inr b, t) \<longleftrightarrow> (\<exists>a u. m s = (Inr a, u) \<and> f a u = (Inr b, t))"
  by (simp add: call_wrap_def call_Inr_iff)

text \<open>Running a sequence whose first call's outcome is known.\<close>

lemma call_Inr: "m s = (Inr a, u) \<Longrightarrow> call m f s = f a u"
  by (simp add: call_def)

lemma call_Inl: "m s = (Inl e, u) \<Longrightarrow> call m f s = (Inl e, u)"
  by (simp add: call_def)

lemma call_wrap_Inr: "m s = (Inr a, u) \<Longrightarrow> call_wrap msg m f s = f a u"
  by (simp add: call_wrap_def call_def wrap_def)

lemma call_wrap_Inl: "m s = (Inl e, u) \<Longrightarrow> call_wrap msg m f s = (Inl (Wrap msg e), u)"
  by (simp add: call_wrap_def call_def wrap_def)

lemma attempt_eq: "m s = (r, u) \<Longrightarrow> attempt m k s = k r u"
  by (simp add: attempt_def)

lemmas op_Inr_iff = call_Inr_iff call_wrap_Inr_iff

text \<open>What a value returned by a sequence satisfies: it comes from the last call.\<close>

definition returns :: "('a \<Rightarrow> bool) \<Rightarrow> ('s, 'a) op \<Rightarrow> bool" where
  "returns Q m \<longleftrightarrow> (\<forall>s a s'. m s = (Inr a, s') \<longrightarrow> Q a)"

lemma returnsD: "returns Q m \<Longrightarrow> m s = (Inr a, s') \<Longrightarrow> Q a"
  by (auto simp: returns_def)

lemma returns_intros:
  "Q a \<Longrightarrow> returns Q (ok a)"
  "returns Q (fail e)"
  "(\<And>b. returns Q (k b)) \<Longrightarrow> returns Q (call m k)"
  "(\<And>b. returns Q (k b)) \<Longrightarrow> returns Q (call_wrap msg m k)"
  "(\<And>r. returns Q (k' r)) \<Longrightarrow> returns Q (attempt m' k')"
  "returns Q n \<Longrightarrow> returns Q (ignore m' n)"
  "returns Q n \<Longrightarrow> returns Q (pure_step f n)"
  "(\<And>e. returns Q (g e)) \<Longrightarrow> (\<And>a. returns Q (h a)) \<Longrightarrow> returns Q (case x of Inl e \<Rightarrow> g e | Inr a \<Rightarrow> h a)"
  "returns Q n \<Longrightarrow> (\<And>a. returns Q (h' a)) \<Longrightarrow> returns Q (case y of None \<Rightarrow> n | Some a \<Rightarrow> h' a)"
  "returns Q n \<Longrightarrow> returns Q n' \<Longrightarrow> returns Q (if c then n else n')"
  "(\<And>a b. returns Q (h'' a b)) \<Longrightarrow> returns Q (case z of (a, b) \<Rightarrow> h'' a b)"
  by (auto simp: returns_def op_Inr_iff attempt_def ignore_def pure_step_def
      split: prod.splits sum.splits option.splits)

section \<open>What an operation leaves alone\<close>

text \<open>
  \<open>keeps f m\<close>: the operation does not change the observation \<open>f\<close> of the state.
  \<open>shrinks P m\<close>: what holds of the state afterwards held before, so the operation
  makes nothing appear. Both follow for a sequence from its calls.
\<close>

definition keeps :: "('s \<Rightarrow> 'x) \<Rightarrow> ('s, 'a) op \<Rightarrow> bool" where
  "keeps f m \<longleftrightarrow> (\<forall>s. f (snd (m s)) = f s)"

definition shrinks :: "('s \<Rightarrow> 'x \<Rightarrow> bool) \<Rightarrow> ('s, 'a) op \<Rightarrow> bool" where
  "shrinks P m \<longleftrightarrow> (\<forall>s x. P (snd (m s)) x \<longrightarrow> P s x)"

named_theorems frame_intros \<open>compositional rules for keeps and shrinks\<close>

lemma keepsD: "keeps f m \<Longrightarrow> m s = (r, s') \<Longrightarrow> f s' = f s"
  by (metis keeps_def snd_conv)

lemma shrinksD: "shrinks P m \<Longrightarrow> m s = (r, s') \<Longrightarrow> P s' x \<Longrightarrow> P s x"
  by (metis shrinks_def snd_conv)

lemma keeps_shrinks: "keeps P m \<Longrightarrow> shrinks P m"
  by (simp add: keeps_def shrinks_def)

lemma keeps_ok [frame_intros]: "keeps f (ok a)"
  and keeps_fail [frame_intros]: "keeps f (fail e)"
  and shrinks_ok [frame_intros]: "shrinks P (ok a)"
  and shrinks_fail [frame_intros]: "shrinks P (fail e)"
  by (simp_all add: keeps_def shrinks_def)

lemma keeps_return [frame_intros]: "keeps f (\<lambda>s. (r, s))"
  and shrinks_return [frame_intros]: "shrinks P (\<lambda>s. (r, s))"
  by (simp_all add: keeps_def shrinks_def)

lemma keeps_outcome: "keeps f m \<longleftrightarrow> (\<forall>s r s'. m s = (r, s') \<longrightarrow> f s' = f s)"
  unfolding keeps_def by (metis prod.collapse snd_conv)

lemma shrinks_outcome: "shrinks P m \<longleftrightarrow> (\<forall>s r s' x. m s = (r, s') \<longrightarrow> P s' x \<longrightarrow> P s x)"
  unfolding shrinks_def by (metis prod.collapse snd_conv)

lemma wrap_state: "snd (wrap msg m s) = snd (m s)"
  by (simp add: wrap_def split: prod.split sum.split)

lemma keeps_wrap [frame_intros]: "keeps f m \<Longrightarrow> keeps f (wrap msg m)"
  and shrinks_wrap [frame_intros]: "shrinks P m \<Longrightarrow> shrinks P (wrap msg m)"
  by (simp_all add: keeps_def shrinks_def wrap_state)

lemma call_state: "snd (call m k s) = (case fst (m s) of Inl _ \<Rightarrow> snd (m s) | Inr a \<Rightarrow> snd (k a (snd (m s))))"
  by (simp add: call_def split: prod.split sum.split)

lemma keeps_call [frame_intros]: "keeps f m \<Longrightarrow> (\<And>a. keeps f (k a)) \<Longrightarrow> keeps f (call m k)"
  by (simp add: keeps_def call_state split: sum.split)

lemma shrinks_call [frame_intros]: "shrinks P m \<Longrightarrow> (\<And>a. shrinks P (k a)) \<Longrightarrow> shrinks P (call m k)"
  unfolding shrinks_def
proof (intro allI impI)
  fix s x
  assume m: "\<forall>s x. P (snd (m s)) x \<longrightarrow> P s x" and k: "\<And>a. \<forall>s x. P (snd (k a s)) x \<longrightarrow> P s x"
    and P: "P (snd (call m k s)) x"
  show "P s x"
  proof (cases "fst (m s)")
    case (Inl e)
    then show ?thesis using m P by (simp add: call_state)
  next
    case (Inr a)
    then have "P (snd (k a (snd (m s)))) x" using P by (simp add: call_state)
    then have "P (snd (m s)) x" using k [of a] by blast
    then show ?thesis using m by blast
  qed
qed

lemma keeps_call_wrap [frame_intros]:
  "keeps f m \<Longrightarrow> (\<And>a. keeps f (k a)) \<Longrightarrow> keeps f (call_wrap msg m k)"
  unfolding call_wrap_def by (intro keeps_call keeps_wrap)

lemma shrinks_call_wrap [frame_intros]:
  "shrinks P m \<Longrightarrow> (\<And>a. shrinks P (k a)) \<Longrightarrow> shrinks P (call_wrap msg m k)"
  unfolding call_wrap_def by (intro shrinks_call shrinks_wrap)

lemma attempt_state: "snd (attempt m k s) = snd (k (fst (m s)) (snd (m s)))"
  by (simp add: attempt_def split: prod.split)

lemma keeps_attempt [frame_intros]: "keeps f m \<Longrightarrow> (\<And>r. keeps f (k r)) \<Longrightarrow> keeps f (attempt m k)"
  by (simp add: keeps_def attempt_state)

lemma shrinks_attempt [frame_intros]: "shrinks P m \<Longrightarrow> (\<And>r. shrinks P (k r)) \<Longrightarrow> shrinks P (attempt m k)"
  unfolding shrinks_def attempt_state by blast

lemma keeps_ignore [frame_intros]: "keeps f m \<Longrightarrow> keeps f k \<Longrightarrow> keeps f (ignore m k)"
  by (simp add: keeps_def ignore_def)

lemma shrinks_ignore [frame_intros]: "shrinks P m \<Longrightarrow> shrinks P k \<Longrightarrow> shrinks P (ignore m k)"
  unfolding shrinks_def ignore_def by blast

lemma keeps_if [frame_intros]: "(b \<Longrightarrow> keeps f m) \<Longrightarrow> (\<not> b \<Longrightarrow> keeps f n) \<Longrightarrow> keeps f (if b then m else n)"
  and shrinks_if [frame_intros]: "(b \<Longrightarrow> shrinks P m) \<Longrightarrow> (\<not> b \<Longrightarrow> shrinks P n) \<Longrightarrow> shrinks P (if b then m else n)"
  by simp_all

lemma keeps_case_option [frame_intros]:
    "keeps f m \<Longrightarrow> (\<And>a. x = Some a \<Longrightarrow> keeps f (k a)) \<Longrightarrow> keeps f (case x of None \<Rightarrow> m | Some a \<Rightarrow> k a)"
  and shrinks_case_option [frame_intros]:
    "shrinks P m \<Longrightarrow> (\<And>a. x = Some a \<Longrightarrow> shrinks P (k a)) \<Longrightarrow> shrinks P (case x of None \<Rightarrow> m | Some a \<Rightarrow> k a)"
  by (auto split: option.split)

lemma keeps_case_sum [frame_intros]:
    "(\<And>e. keeps f (m e)) \<Longrightarrow> (\<And>a. keeps f (k a)) \<Longrightarrow> keeps f (case x of Inl e \<Rightarrow> m e | Inr a \<Rightarrow> k a)"
  and shrinks_case_sum [frame_intros]:
    "(\<And>e. shrinks P (m e)) \<Longrightarrow> (\<And>a. shrinks P (k a)) \<Longrightarrow> shrinks P (case x of Inl e \<Rightarrow> m e | Inr a \<Rightarrow> k a)"
  by (auto split: sum.split)

lemma keeps_case_prod [frame_intros]: "(\<And>a b. keeps f (k a b)) \<Longrightarrow> keeps f (case x of (a, b) \<Rightarrow> k a b)"
  and shrinks_case_prod [frame_intros]: "(\<And>a b. shrinks P (k a b)) \<Longrightarrow> shrinks P (case x of (a, b) \<Rightarrow> k a b)"
  by (auto split: prod.split)

lemma keeps_pure_step [frame_intros]: "(\<And>s. f (g s) = f s) \<Longrightarrow> keeps f k \<Longrightarrow> keeps f (pure_step g k)"
  by (simp add: keeps_def pure_step_def)

lemma shrinks_pure_step [frame_intros]: "(\<And>s x. P (g s) x \<Longrightarrow> P s x) \<Longrightarrow> shrinks P k \<Longrightarrow> shrinks P (pure_step g k)"
  unfolding shrinks_def pure_step_def by blast

section \<open>Scripts of outcomes\<close>

text \<open>
  Statements sent to the database, file operations and external commands can fail at any
  call. A script lists how the next calls turn out: \<open>True\<close> at its head means that the
  next call fails; an exhausted script means that no further call fails.
\<close>

type_synonym faults = "bool list"

fun next_fault :: "faults \<Rightarrow> bool \<times> faults" where
  "next_fault [] = (False, [])"
| "next_fault (b # bs) = (b, bs)"

section \<open>The context and the outside world\<close>

text \<open>
  The operations of a request share a \<open>context.Context\<close> and the world outside the
  daemon (processes, files, ZFS). \<open>ctx\<close> says when the context is cancelled:
  \<open>None\<close> never, \<open>Some n\<close> after \<open>n\<close> more looks at it, and then for
  good. \<open>ctx_err\<close> is \<open>ctx.Err()\<close>.
\<close>

record 'e env =
  ctx :: "nat option"
  outside :: 'e

definition ctx_err :: "('e env, unit) op" where
  "ctx_err = (\<lambda>w. case ctx w of
     None \<Rightarrow> (Inr (), w)
   | Some 0 \<Rightarrow> (Inl (Sentinel ErrCancelled), w)
   | Some (Suc n) \<Rightarrow> (Inr (), w\<lparr>ctx := Some n\<rparr>))"

lemma ctx_err_outside [simp]: "outside (snd (ctx_err w)) = outside w"
  by (simp add: ctx_err_def split: option.splits nat.splits)

lemma ctx_err_outsideD: "ctx_err w = (r, w') \<Longrightarrow> outside w' = outside w"
  using ctx_err_outside [of w] by simp

lemma ctx_err_never: "ctx w = None \<Longrightarrow> ctx_err w = (Inr (), w)"
  by (simp add: ctx_err_def)

lemma ctx_err_cancelled: "ctx_err w = (Inl e, w') \<Longrightarrow> e = Sentinel ErrCancelled \<and> w' = w \<and> ctx w = Some 0"
  by (auto simp: ctx_err_def split: option.splits nat.splits)

lemma keeps_ctx_err [frame_intros]: "keeps (\<lambda>w. f (outside w)) ctx_err"
  and shrinks_ctx_err [frame_intros]: "shrinks (\<lambda>w. P (outside w)) ctx_err"
  by (simp_all add: keeps_def shrinks_def)

text \<open>A call that only touches the outside world, and the result of an external command.\<close>

definition external :: "('e, 'a) op \<Rightarrow> ('e env, 'a) op" where
  "external m = zoom outside (\<lambda>o' w. w\<lparr>outside := o'\<rparr>) m"

datatype cmd_exit = ExitOk | ExitCode int | NotRun

record cmd_result =
  stdout :: string
  stderr :: string
  exit :: cmd_exit

lemma external_eq: "m (outside w) = (r, o') \<Longrightarrow> external m w = (r, w\<lparr>outside := o'\<rparr>)"
  by (simp add: external_def zoom_def)

section \<open>Association lists and lists\<close>

lemma map_of_delete [simp]: "map_of (AList.delete k xs) = (map_of xs)(k := None)"
  by (simp add: delete_conv')

lemma map_of_update [simp]: "map_of (AList.update k v xs) = (map_of xs)(k \<mapsto> v)"
  by (simp add: update_conv')

lemma ran_map_of_distinct:
  "distinct (map fst xs) \<Longrightarrow> ran (map_of xs) = set (map snd xs)"
  by (simp add: ran_distinct)

lemma map_of_Some_in_snd: "map_of xs k = Some v \<Longrightarrow> v \<in> snd ` set xs"
  by (metis image_eqI map_of_SomeD snd_conv)

lemma map_of_rev_distinct: "distinct (map fst xs) \<Longrightarrow> map_of (rev xs) = map_of xs"
  by (simp add: map_of_inject_set rev_map [symmetric])

lemma distinct_values_inj:
  "distinct (map snd xs) \<Longrightarrow> map_of xs v = Some x \<Longrightarrow> map_of xs w = Some x \<Longrightarrow> v = w"
  by (metis distinct_map inj_onD map_of_SomeD prod.inject snd_conv)

lemma remove1_notin [simp]: "x \<notin> set xs \<Longrightarrow> remove1 x xs = xs"
  by (induction xs) auto

lemma take_append_drop_prefix: "take (length p) (p @ s) = p"
  by simp

end
