(* ===== verification/Task_Locks.thy ===== *)
theory Task_Locks
  imports Prelude
begin

text \<open>
  The per-task lifecycle locks of \<open>pkg/daemon/task_lifecycle.go\<close>
  (\<open>withTaskLock\<close>): a table of reference-counted mutexes under a mutex of its own.
  Goroutines are numbered. Each critical section of the table mutex is one atomic step, and
  so are taking and leaving an entry's mutex; the steps of the goroutines interleave freely.
\<close>

section \<open>State\<close>

text \<open>An entry: its reference count and the goroutine that holds its mutex.\<close>

record lock_entry =
  refs :: int
  holder :: "nat option"

text \<open>
  Where a goroutine is in \<open>withTaskLock\<close>: outside; counted in the entry and waiting
  for its mutex; running \<open>fn\<close>; past the deferred decrement, about to unlock. Both
  deferred calls run in reverse order of their statements, so the decrement comes first.
\<close>

datatype pc =
    Outside
  | Waiting string nat
  | Running string nat
  | Leaving string nat

text \<open>Entries live on a heap; the table refers to them by their address.\<close>

record lifecycle_locks =
  entries :: "string \<Rightarrow> nat option"
  lock_heap :: "nat \<Rightarrow> lock_entry option"
  next_entry :: nat
  pcs :: "nat \<Rightarrow> pc"

section \<open>Steps\<close>

text \<open>Find or create the task's entry and count the caller, under the table mutex.\<close>

definition lock_register :: "nat \<Rightarrow> string \<Rightarrow> lifecycle_locks \<Rightarrow> lifecycle_locks" where
  "lock_register t i s =
     (case entries s i of
        Some e \<Rightarrow>
          s\<lparr>lock_heap := (lock_heap s)(e := map_option (\<lambda>x. x\<lparr>refs := refs x + 1\<rparr>) (lock_heap s e)),
            pcs := (pcs s)(t := Waiting i e)\<rparr>
      | None \<Rightarrow>
          (let e = next_entry s in
           s\<lparr>entries := (entries s)(i \<mapsto> e),
             lock_heap := (lock_heap s)(e \<mapsto> \<lparr>refs = 1, holder = None\<rparr>),
             next_entry := Suc e, pcs := (pcs s)(t := Waiting i e)\<rparr>))"

definition lock_acquire :: "nat \<Rightarrow> string \<Rightarrow> nat \<Rightarrow> lifecycle_locks \<Rightarrow> lifecycle_locks" where
  "lock_acquire t i e s =
     s\<lparr>lock_heap := (lock_heap s)(e := map_option (\<lambda>x. x\<lparr>holder := Some t\<rparr>) (lock_heap s e)),
       pcs := (pcs s)(t := Running i e)\<rparr>"

text \<open>The deferred decrement, under the table mutex; the last user removes the entry.\<close>

definition lock_release_ref :: "nat \<Rightarrow> string \<Rightarrow> nat \<Rightarrow> lifecycle_locks \<Rightarrow> lifecycle_locks" where
  "lock_release_ref t i e s =
     (case lock_heap s e of
        None \<Rightarrow> s
      | Some x \<Rightarrow>
          s\<lparr>lock_heap := (lock_heap s)(e \<mapsto> x\<lparr>refs := refs x - 1\<rparr>),
            entries := (if refs x - 1 = 0 then (entries s)(i := None) else entries s),
            pcs := (pcs s)(t := Leaving i e)\<rparr>)"

definition lock_unlock :: "nat \<Rightarrow> nat \<Rightarrow> lifecycle_locks \<Rightarrow> lifecycle_locks" where
  "lock_unlock t e s =
     s\<lparr>lock_heap := (lock_heap s)(e := map_option (\<lambda>x. x\<lparr>holder := None\<rparr>) (lock_heap s e)),
       pcs := (pcs s)(t := Outside)\<rparr>"

text \<open>One step of goroutine \<open>t\<close>.\<close>

inductive lock_step :: "nat \<Rightarrow> lifecycle_locks \<Rightarrow> lifecycle_locks \<Rightarrow> bool" where
  register: "pcs s t = Outside \<Longrightarrow> lock_step t s (lock_register t i s)"
| acquire: "pcs s t = Waiting i e \<Longrightarrow> lock_heap s e = Some x \<Longrightarrow> holder x = None \<Longrightarrow>
    lock_step t s (lock_acquire t i e s)"
| release: "pcs s t = Running i e \<Longrightarrow> lock_step t s (lock_release_ref t i e s)"
| unlock: "pcs s t = Leaving i e \<Longrightarrow> lock_step t s (lock_unlock t e s)"

definition locks_init :: lifecycle_locks where
  "locks_init = \<lparr>entries = (\<lambda>_. None), lock_heap = (\<lambda>_. None), next_entry = 0, pcs = (\<lambda>_. Outside)\<rparr>"

inductive locks_reachable :: "lifecycle_locks \<Rightarrow> bool" where
  init: "locks_reachable locks_init"
| step: "locks_reachable s \<Longrightarrow> lock_step t s s' \<Longrightarrow> locks_reachable s'"

inductive_cases lock_stepE: "lock_step t s s'"

section \<open>The invariant\<close>

text \<open>The goroutines counted in an entry.\<close>

definition user_of :: "pc \<Rightarrow> (string \<times> nat) option" where
  "user_of p = (case p of Waiting i e \<Rightarrow> Some (i, e) | Running i e \<Rightarrow> Some (i, e) | _ \<Rightarrow> None)"

definition holds :: "pc \<Rightarrow> (string \<times> nat) option" where
  "holds p = (case p of Running i e \<Rightarrow> Some (i, e) | Leaving i e \<Rightarrow> Some (i, e) | _ \<Rightarrow> None)"

definition users :: "(nat \<Rightarrow> pc) \<Rightarrow> nat \<Rightarrow> nat set" where
  "users p e = {t. \<exists>i. user_of (p t) = Some (i, e)}"

lemma user_of_simps [simp]:
  "user_of Outside = None" "user_of (Waiting i e) = Some (i, e)"
  "user_of (Running i e) = Some (i, e)" "user_of (Leaving i e) = None"
  by (simp_all add: user_of_def)

lemma holds_simps [simp]:
  "holds Outside = None" "holds (Waiting i e) = None"
  "holds (Running i e) = Some (i, e)" "holds (Leaving i e) = Some (i, e)"
  by (simp_all add: holds_def)

text \<open>
  The reference count is the number of users; the table maps a task to the entry of its
  users and to nothing when it has none; the holder of an entry's mutex is the goroutine
  that runs or leaves under it.
\<close>

definition refs_ok :: "(nat \<Rightarrow> lock_entry option) \<Rightarrow> (nat \<Rightarrow> pc) \<Rightarrow> bool" where
  "refs_ok h p \<longleftrightarrow> (\<forall>e x. h e = Some x \<longrightarrow> refs x = int (card (users p e)))"

definition table_ok :: "(string \<Rightarrow> nat option) \<Rightarrow> (nat \<Rightarrow> pc) \<Rightarrow> bool" where
  "table_ok en p \<longleftrightarrow>
     (\<forall>t i e. user_of (p t) = Some (i, e) \<longrightarrow> en i = Some e) \<and>
     (\<forall>i e. en i = Some e \<longrightarrow> (\<exists>t. user_of (p t) = Some (i, e))) \<and>
     (\<forall>i j e. en i = Some e \<longrightarrow> en j = Some e \<longrightarrow> i = j)"

definition heap_ok :: "(nat \<Rightarrow> lock_entry option) \<Rightarrow> nat \<Rightarrow> (nat \<Rightarrow> pc) \<Rightarrow> bool" where
  "heap_ok h n p \<longleftrightarrow> (\<forall>e. h e \<noteq> None \<longrightarrow> e < n) \<and>
     (\<forall>t i e. user_of (p t) = Some (i, e) \<longrightarrow> h e \<noteq> None)"

definition held_ok :: "(nat \<Rightarrow> lock_entry option) \<Rightarrow> (nat \<Rightarrow> pc) \<Rightarrow> bool" where
  "held_ok h p \<longleftrightarrow>
     (\<forall>e t. map_option snd (holds (p t)) = Some e \<longleftrightarrow> (\<exists>x. h e = Some x \<and> holder x = Some t))"

definition locks_ok :: "lifecycle_locks \<Rightarrow> bool" where
  "locks_ok s \<longleftrightarrow> finite {t. pcs s t \<noteq> Outside} \<and> refs_ok (lock_heap s) (pcs s) \<and>
     table_ok (entries s) (pcs s) \<and> heap_ok (lock_heap s) (next_entry s) (pcs s) \<and>
     held_ok (lock_heap s) (pcs s)"

lemma pcs_update: "finite {u. p u \<noteq> Outside} \<Longrightarrow> finite {u. (p(t := q)) u \<noteq> Outside}"
  by (rule finite_subset [of _ "insert t {u. p u \<noteq> Outside}"]) auto

lemma users_finite: "finite {t. p t \<noteq> Outside} \<Longrightarrow> finite (users p e)"
  by (erule rev_finite_subset) (auto simp: users_def)

text \<open>How the users of the entries change when goroutine \<open>t\<close> moves.\<close>

lemma users_enter:
  "user_of (p t) = None \<Longrightarrow> user_of q = Some (i, e) \<Longrightarrow>
     users (p(t := q)) e' = (if e' = e then insert t (users p e) else users p e')"
  by (auto simp: users_def)

lemma users_stay:
  "user_of q = user_of (p t) \<Longrightarrow> users (p(t := q)) e' = users p e'"
  by (auto simp: users_def)

lemma users_leave:
  "user_of (p t) = Some (i, e) \<Longrightarrow> user_of q = None \<Longrightarrow>
     users (p(t := q)) e' = (if e' = e then users p e - {t} else users p e')"
  by (auto simp: users_def)

lemma user_notin: "user_of (p t) = None \<Longrightarrow> t \<notin> users p e"
  by (simp add: users_def)

lemma user_in: "user_of (p t) = Some (i, e) \<Longrightarrow> t \<in> users p e"
  by (auto simp: users_def)

text \<open>How the table changes.\<close>

lemma table_okD:
  assumes "table_ok en p"
  shows "user_of (p t) = Some (i, e) \<Longrightarrow> en i = Some e"
    and "en i = Some e \<Longrightarrow> \<exists>t. user_of (p t) = Some (i, e)"
    and "en i = Some e \<Longrightarrow> en j = Some e \<Longrightarrow> i = j"
  using assms unfolding table_ok_def by blast+

lemma table_enter:
  assumes T: "table_ok en p" and t: "user_of (p t) = None" "user_of q = Some (i, e)"
    and new: "en i = Some e \<or> (\<forall>j. en j \<noteq> Some e) \<and> en i = None"
  shows "table_ok (en(i \<mapsto> e)) (p(t := q))"
  unfolding table_ok_def
proof (intro conjI allI impI)
  fix u j f assume "user_of ((p(t := q)) u) = Some (j, f)"
  then show "(en(i \<mapsto> e)) j = Some f"
    using t(2) new table_okD(1) [OF T, of u j f] by (cases "u = t") auto
next
  fix j f assume en: "(en(i \<mapsto> e)) j = Some f"
  show "\<exists>u. user_of ((p(t := q)) u) = Some (j, f)"
  proof (cases "j = i")
    case True
    then show ?thesis using en t(2) by (intro exI [of _ t]) simp
  next
    case False
    then obtain u where "user_of (p u) = Some (j, f)" using en table_okD(2) [OF T, of j f] by auto
    then show ?thesis using t(1) by (intro exI [of _ u]) auto
  qed
next
  fix j k f assume "(en(i \<mapsto> e)) j = Some f" "(en(i \<mapsto> e)) k = Some f"
  then show "j = k" using new table_okD(3) [OF T] by (auto split: if_splits)
qed

lemma table_leave:
  assumes T: "table_ok en p" and t: "user_of (p t) = Some (i, e)" "user_of q = None"
  shows "table_ok (if users p e - {t} = {} then en(i := None) else en) (p(t := q))"
    (is "table_ok ?en _")
  unfolding table_ok_def
proof (intro conjI allI impI)
  have ie: "en i = Some e" using table_okD(1) [OF T t(1)] .
  {
    fix u j f assume u: "user_of ((p(t := q)) u) = Some (j, f)"
    then have "u \<noteq> t" using t(2) by auto
    with u have "user_of (p u) = Some (j, f)" by simp
    moreover from this have "en j = Some f" using table_okD(1) [OF T] by blast
    ultimately show "?en j = Some f" using \<open>u \<noteq> t\<close> ie user_in [of p u j f] by auto
  next
    fix j f assume en: "?en j = Some f"
    then have "en j = Some f" by (auto split: if_splits)
    then obtain u where u: "user_of (p u) = Some (j, f)" using table_okD(2) [OF T] by blast
    show "\<exists>u. user_of ((p(t := q)) u) = Some (j, f)"
    proof (cases "u = t")
      case True
      then have "j = i" "f = e" using u t(1) by auto
      with en have "users p e - {t} \<noteq> {}" by (auto split: if_splits)
      then obtain v k where "v \<noteq> t" "user_of (p v) = Some (k, e)" by (auto simp: users_def)
      moreover from this have "k = i" using table_okD(1,3) [OF T] ie by blast
      ultimately show ?thesis using \<open>j = i\<close> \<open>f = e\<close> by (intro exI [of _ v]) simp
    qed (use u in \<open>auto intro!: exI [of _ u]\<close>)
  next
    fix j k f assume "?en j = Some f" "?en k = Some f"
    then show "j = k" using table_okD(3) [OF T] by (auto split: if_splits)
  }
qed

text \<open>How the holder of an entry's mutex changes.\<close>

lemma held_keep:
  assumes "held_ok h p" "h e = None \<longrightarrow> holder x' = None" "\<And>x. h e = Some x \<Longrightarrow> holder x' = holder x"
    and "map_option snd (holds q) = map_option snd (holds (p t))"
  shows "held_ok (h(e \<mapsto> x')) (p(t := q))"
  unfolding held_ok_def
proof (intro allI)
  fix f u
  have "map_option snd (holds ((p(t := q)) u)) = map_option snd (holds (p u))" using assms(4) by simp
  moreover have "(\<exists>x. (h(e \<mapsto> x')) f = Some x \<and> holder x = Some u) \<longleftrightarrow> (\<exists>x. h f = Some x \<and> holder x = Some u)"
    using assms(2,3) by (cases "h e") auto
  ultimately show "map_option snd (holds ((p(t := q)) u)) = Some f \<longleftrightarrow>
      (\<exists>x. (h(e \<mapsto> x')) f = Some x \<and> holder x = Some u)"
    using assms(1) by (simp only: held_ok_def)
qed

lemma held_take:
  assumes "held_ok h p" "h e = Some x" "holder x = None" "holder x' = Some t"
    and "holds (p t) = None" "holds q = Some (i, e)"
  shows "held_ok (h(e \<mapsto> x')) (p(t := q))"
  unfolding held_ok_def
proof (intro allI)
  fix f u
  have "map_option snd (holds (p u)) = Some f \<longleftrightarrow> (\<exists>x. h f = Some x \<and> holder x = Some u)"
    using assms(1) by (simp only: held_ok_def)
  then show "map_option snd (holds ((p(t := q)) u)) = Some f \<longleftrightarrow>
      (\<exists>x. (h(e \<mapsto> x')) f = Some x \<and> holder x = Some u)"
    using assms(2-6) by (cases "f = e"; cases "u = t") auto
qed

lemma held_drop:
  assumes "held_ok h p" "h e = Some x" "holder x = Some t" "holder x' = None"
    and "holds (p t) = Some (i, e)" "holds q = None"
  shows "held_ok (h(e \<mapsto> x')) (p(t := q))"
  unfolding held_ok_def
proof (intro allI)
  fix f u
  have "map_option snd (holds (p u)) = Some f \<longleftrightarrow> (\<exists>x. h f = Some x \<and> holder x = Some u)"
    using assms(1) by (simp only: held_ok_def)
  then show "map_option snd (holds ((p(t := q)) u)) = Some f \<longleftrightarrow>
      (\<exists>x. (h(e \<mapsto> x')) f = Some x \<and> holder x = Some u)"
    using assms(2-6) by (cases "f = e"; cases "u = t") auto
qed

lemma locks_ok_register:
  assumes ok: "locks_ok s" and out: "pcs s t = Outside"
  shows "locks_ok (lock_register t i s)"
proof (cases "entries s i")
  case None
  let ?e = "next_entry s"
  let ?p = "(pcs s)(t := Waiting i ?e)"
  let ?h = "(lock_heap s)(?e \<mapsto> \<lparr>refs = 1, holder = None\<rparr>)"
  have eq: "lock_register t i s = s\<lparr>entries := (entries s)(i \<mapsto> ?e), lock_heap := ?h,
      next_entry := Suc ?e, pcs := ?p\<rparr>"
    by (simp add: lock_register_def None Let_def)
  have fresh: "lock_heap s ?e = None" using ok by (auto simp: locks_ok_def heap_ok_def)
  have nouser: "user_of (pcs s u) \<noteq> Some (j, ?e)" for u j
    using ok fresh by (fastforce simp: locks_ok_def heap_ok_def)
  then have "users (pcs s) ?e = {}" by (auto simp: users_def)
  then have "refs_ok ?h ?p"
    using ok users_enter [of "pcs s" t "Waiting i ?e" i ?e] out
    by (auto simp: locks_ok_def refs_ok_def)
  moreover have "table_ok ((entries s)(i \<mapsto> ?e)) ?p"
  proof (rule table_enter)
    show T: "table_ok (entries s) (pcs s)" using ok by (simp add: locks_ok_def)
    show "entries s i = Some ?e \<or> (\<forall>j. entries s j \<noteq> Some ?e) \<and> entries s i = None"
      using nouser table_okD(2) [OF T] None by blast
  qed (use out in simp_all)
  moreover have "heap_ok ?h (Suc ?e) ?p"
    using ok by (auto simp: locks_ok_def heap_ok_def less_Suc_eq)
  moreover have "held_ok ?h ?p"
    by (rule held_keep) (use ok out fresh in \<open>auto simp: locks_ok_def\<close>)
  ultimately show ?thesis
    using ok pcs_update [of "pcs s" t "Waiting i ?e"] unfolding locks_ok_def eq by simp
next
  case (Some e)
  let ?p = "(pcs s)(t := Waiting i e)"
  have "table_ok (entries s) (pcs s)" using ok by (simp add: locks_ok_def)
  then obtain u where u: "user_of (pcs s u) = Some (i, e)" using table_okD(2) Some by blast
  then obtain x where x: "lock_heap s e = Some x" using ok by (fastforce simp: locks_ok_def heap_ok_def)
  let ?h = "(lock_heap s)(e \<mapsto> x\<lparr>refs := refs x + 1\<rparr>)"
  have eq: "lock_register t i s = s\<lparr>lock_heap := ?h, pcs := ?p\<rparr>"
    by (simp add: lock_register_def Some x)
  have "refs_ok ?h ?p"
    using ok users_enter [of "pcs s" t "Waiting i e" i e] out users_finite [of "pcs s" e] x
      user_notin [of "pcs s" t e]
    by (auto simp: locks_ok_def refs_ok_def)
  moreover have "table_ok (entries s) ?p"
    using table_enter [of "entries s" "pcs s" t "Waiting i e" i e] ok Some out
    by (simp add: locks_ok_def fun_upd_idem)
  moreover have "heap_ok ?h (next_entry s) ?p"
    using ok x by (auto simp: locks_ok_def heap_ok_def)
  moreover have "held_ok ?h ?p"
    by (rule held_keep) (use ok out x in \<open>auto simp: locks_ok_def\<close>)
  ultimately show ?thesis
    using ok pcs_update [of "pcs s" t "Waiting i e"] unfolding locks_ok_def eq by simp
qed

lemma locks_ok_acquire:
  assumes ok: "locks_ok s" and wait: "pcs s t = Waiting i e"
    and x: "lock_heap s e = Some x" "holder x = None"
  shows "locks_ok (lock_acquire t i e s)"
proof -
  let ?p = "(pcs s)(t := Running i e)"
  let ?h = "(lock_heap s)(e \<mapsto> x\<lparr>holder := Some t\<rparr>)"
  have eq: "lock_acquire t i e s = s\<lparr>lock_heap := ?h, pcs := ?p\<rparr>"
    by (simp add: lock_acquire_def x)
  have same: "user_of (?p u) = user_of (pcs s u)" for u using wait by simp
  have "refs_ok ?h ?p"
    using ok users_stay [of "Running i e" "pcs s" t] wait x by (auto simp: locks_ok_def refs_ok_def)
  moreover have "table_ok (entries s) ?p"
    using ok unfolding table_ok_def same by (simp add: locks_ok_def table_ok_def)
  moreover have "heap_ok ?h (next_entry s) ?p"
    using ok x unfolding heap_ok_def same by (auto simp: locks_ok_def heap_ok_def)
  moreover have "held_ok ?h ?p"
    by (rule held_take [where h = "lock_heap s" and e = e and x = x]) (use ok wait x in \<open>auto simp: locks_ok_def\<close>)
  ultimately show ?thesis
    using ok pcs_update [of "pcs s" t "Running i e"] unfolding locks_ok_def eq by simp
qed

lemma locks_ok_unlock:
  assumes ok: "locks_ok s" and pc: "pcs s t = Leaving i e"
  shows "locks_ok (lock_unlock t e s)"
proof -
  let ?p = "(pcs s)(t := Outside)"
  obtain x where x: "lock_heap s e = Some x" "holder x = Some t"
    using ok pc unfolding locks_ok_def held_ok_def
    by (metis holds_simps(4) option.simps(9) snd_conv)
  let ?h = "(lock_heap s)(e \<mapsto> x\<lparr>holder := None\<rparr>)"
  have eq: "lock_unlock t e s = s\<lparr>lock_heap := ?h, pcs := ?p\<rparr>"
    by (simp add: lock_unlock_def x)
  have same: "user_of (?p u) = user_of (pcs s u)" for u using pc by simp
  have "refs_ok ?h ?p"
    using ok users_stay [of Outside "pcs s" t] pc x by (auto simp: locks_ok_def refs_ok_def)
  moreover have "table_ok (entries s) ?p"
    using ok unfolding table_ok_def same by (simp add: locks_ok_def table_ok_def)
  moreover have "heap_ok ?h (next_entry s) ?p"
    using ok x unfolding heap_ok_def same by (auto simp: locks_ok_def heap_ok_def)
  moreover have "held_ok ?h ?p"
    by (rule held_drop [where h = "lock_heap s" and e = e and x = x]) (use ok pc x in \<open>auto simp: locks_ok_def\<close>)
  ultimately show ?thesis
    using ok pcs_update [of "pcs s" t Outside] unfolding locks_ok_def eq by simp
qed

lemma locks_ok_release:
  assumes ok: "locks_ok s" and pc: "pcs s t = Running i e"
  shows "locks_ok (lock_release_ref t i e s)"
proof -
  let ?p = "(pcs s)(t := Leaving i e)"
  obtain x where x: "lock_heap s e = Some x"
    using ok pc unfolding locks_ok_def heap_ok_def by (metis not_Some_eq user_of_simps(3))
  let ?h = "(lock_heap s)(e \<mapsto> x\<lparr>refs := refs x - 1\<rparr>)"
  let ?en = "if refs x - 1 = 0 then (entries s)(i := None) else entries s"
  have eq: "lock_release_ref t i e s = s\<lparr>entries := ?en, lock_heap := ?h, pcs := ?p\<rparr>"
    by (simp add: lock_release_ref_def x)
  have us: "users ?p e' = (if e' = e then users (pcs s) e - {t} else users (pcs s) e')" for e'
    using users_leave [of "pcs s" t i e "Leaving i e" e'] pc by simp
  have fin: "finite (users (pcs s) e)" using ok by (simp add: locks_ok_def users_finite)
  have t: "t \<in> users (pcs s) e" using pc by (intro user_in) simp
  have refs: "refs x = int (card (users (pcs s) e))" using ok x by (simp add: locks_ok_def refs_ok_def)
  have card: "int (card (users (pcs s) e - {t})) = refs x - 1"
    using refs fin t card_Suc_Diff1 [OF fin t] by linarith
  then have "refs_ok ?h ?p"
    using ok x us by (auto simp: locks_ok_def refs_ok_def)
  moreover have "refs x - 1 = 0 \<longleftrightarrow> users (pcs s) e - {t} = {}"
    unfolding card [symmetric] using fin by (simp only: of_nat_eq_0_iff card_0_eq finite_Diff)
  then have "table_ok ?en ?p"
    using table_leave [of "entries s" "pcs s" t i e "Leaving i e"] ok pc by (simp add: locks_ok_def)
  moreover have "heap_ok ?h (next_entry s) ?p"
    using ok x by (auto simp: locks_ok_def heap_ok_def)
  moreover have "held_ok ?h ?p"
    by (rule held_keep) (use ok pc x in \<open>auto simp: locks_ok_def\<close>)
  ultimately show ?thesis
    using ok pcs_update [of "pcs s" t "Leaving i e"] unfolding locks_ok_def eq by simp
qed

lemma locks_ok_step: "lock_step t s s' \<Longrightarrow> locks_ok s \<Longrightarrow> locks_ok s'"
  by (erule lock_stepE)
     (auto intro: locks_ok_register locks_ok_acquire locks_ok_release locks_ok_unlock)

lemma locks_ok_init: "locks_ok locks_init"
  by (simp add: locks_ok_def locks_init_def refs_ok_def table_ok_def heap_ok_def held_ok_def)

lemma reachable_ok: "locks_reachable s \<Longrightarrow> locks_ok s"
  by (induction rule: locks_reachable.induct) (auto intro: locks_ok_init locks_ok_step)

text \<open>All goroutines at one entry work on the same task.\<close>

definition at_entry :: "pc \<Rightarrow> (string \<times> nat) option" where
  "at_entry p = (case p of Outside \<Rightarrow> None | Waiting i e \<Rightarrow> Some (i, e) | Running i e \<Rightarrow> Some (i, e)
     | Leaving i e \<Rightarrow> Some (i, e))"

definition same_task :: "(nat \<Rightarrow> pc) \<Rightarrow> bool" where
  "same_task p \<longleftrightarrow> (\<forall>t u i j e. at_entry (p t) = Some (i, e) \<longrightarrow> at_entry (p u) = Some (j, e) \<longrightarrow> i = j)"

lemma at_entry_cases: "at_entry p = Some k \<longleftrightarrow> user_of p = Some k \<or> holds p = Some k"
  by (cases p) (auto simp: at_entry_def)

lemma same_task_move:
  assumes "same_task p" "\<And>u j. at_entry (p u) = Some (j, e) \<Longrightarrow> j = i" "at_entry q \<in> {None, Some (i, e)}"
  shows "same_task (p(t := q))"
  using assms unfolding same_task_def by (auto split: if_splits)

lemma same_task_step:
  assumes "lock_step t s s'" "locks_ok s" "same_task (pcs s)"
  shows "same_task (pcs s')"
  using assms(1)
proof cases
  case (register i)
  show ?thesis
  proof (cases "entries s i")
    case None
    let ?e = "next_entry s"
    have fresh: "lock_heap s ?e = None" using assms(2) by (auto simp: locks_ok_def heap_ok_def)
    have "at_entry (pcs s u) \<noteq> Some (j, ?e)" for u j
    proof
      assume "at_entry (pcs s u) = Some (j, ?e)"
      then have "lock_heap s ?e \<noteq> None"
        using assms(2) unfolding at_entry_cases locks_ok_def heap_ok_def held_ok_def
        by (metis option.distinct(1) option.simps(9) snd_conv)
      then show False using fresh by simp
    qed
    then show ?thesis
      using register same_task_move [OF assms(3), of ?e i "Waiting i ?e" t]
      by (simp add: lock_register_def None Let_def at_entry_def)
  next
    case (Some e)
    have "table_ok (entries s) (pcs s)" using assms(2) by (simp add: locks_ok_def)
    then obtain v where "user_of (pcs s v) = Some (i, e)" using table_okD(2) Some by blast
    then have "at_entry (pcs s v) = Some (i, e)" by (simp add: at_entry_cases)
    then have "at_entry (pcs s u) = Some (j, e) \<Longrightarrow> j = i" for u j
      using assms(3) unfolding same_task_def by blast
    then show ?thesis
      using register same_task_move [OF assms(3), of e i "Waiting i e" t]
      by (simp add: lock_register_def Some at_entry_def)
  qed
next
  case (acquire i e x)
  then have "at_entry (pcs s u) = Some (j, e) \<Longrightarrow> j = i" for u j
    using assms(3) unfolding same_task_def by (metis at_entry_cases user_of_simps(2))
  then show ?thesis using acquire same_task_move [OF assms(3), of e i "Running i e" t]
    by (simp add: lock_acquire_def at_entry_def)
next
  case (release i e)
  then have "at_entry (pcs s u) = Some (j, e) \<Longrightarrow> j = i" for u j
    using assms(3) unfolding same_task_def by (metis at_entry_cases user_of_simps(3))
  then show ?thesis using release assms(3) same_task_move [OF assms(3), of e i "Leaving i e" t]
    by (simp add: lock_release_ref_def at_entry_def split: option.splits)
next
  case (unlock i e)
  then have "at_entry (pcs s u) = Some (j, e) \<Longrightarrow> j = i" for u j
    using assms(3) unfolding same_task_def by (metis at_entry_cases holds_simps(4))
  then show ?thesis using unlock same_task_move [OF assms(3), of e i Outside t]
    by (simp add: lock_unlock_def at_entry_def)
qed

lemma reachable_same_task: "locks_reachable s \<Longrightarrow> same_task (pcs s)"
proof (induction rule: locks_reachable.induct)
  case init
  then show ?case by (simp add: same_task_def locks_init_def at_entry_def)
next
  case (step s t s')
  then show ?case using same_task_step reachable_ok by blast
qed

section \<open>Properties\<close>

definition two_goroutines :: lifecycle_locks where
  "two_goroutines = lock_acquire 0 ''a'' 0 (lock_register 1 ''a'' (lock_register 0 ''a'' locks_init))"

lemma two_goroutines_pcs:
  "pcs two_goroutines 0 = Running ''a'' 0" "pcs two_goroutines 1 = Waiting ''a'' 0"
  by (simp_all add: two_goroutines_def lock_acquire_def lock_register_def locks_init_def Let_def)

lemma two_goroutines_reachable: "locks_reachable two_goroutines"
proof -
  have "locks_reachable (lock_register 1 ''a'' (lock_register 0 ''a'' locks_init))" (is "locks_reachable ?s")
    by (rule locks_reachable.step [OF locks_reachable.step [OF locks_reachable.init]];
        rule lock_step.register) (simp_all add: locks_init_def lock_register_def Let_def)
  moreover have "lock_step 0 ?s two_goroutines"
    unfolding two_goroutines_def
    by (rule lock_step.acquire [where x = "\<lparr>refs = 2, holder = None\<rparr>"])
       (simp_all add: locks_init_def lock_register_def Let_def)
  ultimately show ?thesis by (rule locks_reachable.step)
qed

text \<open>C17. Operations on one task are serialized: in every reachable state of any number of
  goroutines, at most one runs its function under the lock of a given task, although the
  last user removes the entry before it unlocks and a new one may be made meanwhile.\<close>

theorem task_lock_mutual_exclusion:
  assumes "locks_reachable s" "pcs s t = Running i e" "pcs s u = Running i e'"
  shows "t = u"
proof -
  have ok: "locks_ok s" using reachable_ok assms(1) by blast
  then have T: "table_ok (entries s) (pcs s)" by (simp add: locks_ok_def)
  have "e = e'" using table_okD(1) [OF T, of t i e] table_okD(1) [OF T, of u i e'] assms(2,3) by simp
  moreover have "holds (pcs s t) = Some (i, e)" "holds (pcs s u) = Some (i, e')"
    using assms(2,3) by simp_all
  ultimately show ?thesis
    using ok unfolding locks_ok_def held_ok_def by (metis option.inject option.simps(9) snd_conv)
qed

lemma task_lock_mutual_exclusion_witness:
  "locks_reachable two_goroutines \<and> {u. \<exists>e. pcs two_goroutines u = Running ''a'' e} = {0}"
  using task_lock_mutual_exclusion [OF two_goroutines_reachable two_goroutines_pcs(1)]
    two_goroutines_reachable two_goroutines_pcs by blast

text \<open>C23. The lock cannot deadlock: in every reachable state a goroutine inside
  \<open>withTaskLock\<close> either can take its next step or waits for the mutex of an entry whose
  holder works on the same task and can take its next step.\<close>

theorem task_lock_progress:
  assumes "locks_reachable s" "pcs s t \<noteq> Outside"
  shows "(\<exists>s'. lock_step t s s') \<or>
    (\<exists>i e u. pcs s t = Waiting i e \<and> (pcs s u = Running i e \<or> pcs s u = Leaving i e) \<and>
       (\<exists>s'. lock_step u s s'))"
proof (cases "pcs s t")
  case (Waiting i e)
  have ok: "locks_ok s" using reachable_ok assms(1) by blast
  then obtain x where x: "lock_heap s e = Some x"
    using Waiting unfolding locks_ok_def heap_ok_def by (metis not_Some_eq user_of_simps(2))
  show ?thesis
  proof (cases "holder x")
    case None
    then show ?thesis using Waiting x lock_step.acquire by blast
  next
    case (Some u)
    with x ok have "map_option snd (holds (pcs s u)) = Some e"
      unfolding locks_ok_def held_ok_def by blast
    then obtain j where j: "holds (pcs s u) = Some (j, e)" by (auto simp: map_option_case split: option.splits)
    then have "j = i"
      using reachable_same_task [OF assms(1)] Waiting unfolding same_task_def
      by (metis at_entry_cases user_of_simps(2))
    then have "pcs s u = Running i e \<or> pcs s u = Leaving i e"
      using j by (cases "pcs s u") auto
    then show ?thesis using Waiting lock_step.release lock_step.unlock by metis
  qed
qed (use assms(2) lock_step.release lock_step.unlock in blast)+

lemma task_lock_progress_witness: "\<exists>t s'. lock_step t two_goroutines s'"
proof -
  have "pcs two_goroutines 1 \<noteq> Outside" by (subst two_goroutines_pcs) simp
  from task_lock_progress [OF two_goroutines_reachable this] show ?thesis by blast
qed

text \<open>The table neither leaks nor loses entries: in every reachable state a task has an
  entry exactly when some goroutine waits for or runs under its lock, and the entry counts
  exactly those goroutines.\<close>

theorem task_lock_table_exact:
  assumes "locks_reachable s"
  shows "(entries s i \<noteq> None \<longleftrightarrow> (\<exists>t e. pcs s t = Waiting i e \<or> pcs s t = Running i e)) \<and>
    (\<forall>e. entries s i = Some e \<longrightarrow> (\<exists>x. lock_heap s e = Some x \<and>
       refs x = int (card {t. pcs s t = Waiting i e \<or> pcs s t = Running i e})))"
proof -
  have ok: "locks_ok s" using reachable_ok assms by blast
  then have T: "table_ok (entries s) (pcs s)" by (simp add: locks_ok_def)
  have user: "user_of (pcs s t) = Some (j, e) \<longleftrightarrow> pcs s t = Waiting j e \<or> pcs s t = Running j e" for t j e
    by (cases "pcs s t") auto
  have "users (pcs s) e = {t. pcs s t = Waiting i e \<or> pcs s t = Running i e}" if "entries s i = Some e" for e
    using table_okD(1,3) [OF T] that by (auto simp: users_def user [symmetric])
  moreover have "\<exists>x. lock_heap s e = Some x \<and> refs x = int (card (users (pcs s) e))" if "entries s i = Some e" for e
    using ok table_okD(2) [OF T that] unfolding locks_ok_def heap_ok_def refs_ok_def by (metis not_Some_eq)
  moreover have "entries s i \<noteq> None \<longleftrightarrow> (\<exists>t e. user_of (pcs s t) = Some (i, e))"
    using table_okD(1,2) [OF T] by (metis not_Some_eq)
  ultimately show ?thesis by (simp add: user)
qed

lemma task_lock_table_exact_witness: "entries two_goroutines ''a'' \<noteq> None"
  using task_lock_table_exact [OF two_goroutines_reachable, of "''a''"] two_goroutines_pcs by blast

end
