(* ===== verification/Task_Store.thy ===== *)
theory Task_Store
  imports Prelude Go_Strings "HOL-Library.Word"
begin

text \<open>
  The task database of \<open>pkg/daemon/state.go\<close>: the tables of the schema as lists of rows
  in insertion order, one operation per method of \<open>State\<close>, the status change callback
  and its events. A statement can fail (\<open>db_faults\<close>); SQLite runs a statement entirely
  or not at all, so a failed one changes nothing. Times are the nanoseconds of an instant;
  the text the driver stores orders the same way.
\<close>

section \<open>Tables\<close>

definition TaskStatusCleanupPending :: string where
  "TaskStatusCleanupPending = ''cleanup_pending''"

record task =
  ID :: string
  Name :: string
  Command :: string
  Status :: string
  VMID :: string
  CID :: "32 word"
  VsockPath :: string
  IP :: string
  Owner :: string
  TailscaleHostname :: string
  Image :: string
  CreatedAt :: nat
  StoppedAt :: "nat option"

text \<open>A row of \<open>tasks\<close>: the columns the schema lets be NULL are options.\<close>

record task_row =
  row_id :: string
  row_name :: "string option"
  row_command :: string
  row_status :: string
  row_vmid :: "string option"
  row_cid :: "int option"
  row_vsock_path :: "string option"
  row_ip :: "string option"
  row_owner :: "string option"
  row_tailscale_hostname :: "string option"
  row_image :: "string option"
  row_created_at :: nat
  row_stopped_at :: "nat option"

record snapshot_row =
  snap_task :: string
  snap_name :: string
  snap_created_at :: nat

record image_record =
  im_name :: string
  im_dataset :: string
  im_kernel_path :: string
  im_size_bytes :: int
  im_created_at :: nat

text \<open>
  \<open>status_callback\<close> says whether a callback is registered; \<open>status_events\<close>
  are its calls so far: task, old status, new status.
\<close>

record db =
  tasks :: "task_row list"
  snapshots :: "snapshot_row list"
  images :: "image_record list"
  status_callback :: bool
  status_events :: "(string \<times> string \<times> string) list"
  db_faults :: faults

definition sql_stmt :: "(db, 'a) op \<Rightarrow> (db, 'a) op" where
  "sql_stmt act = (\<lambda>d. case next_fault (db_faults d) of
     (True, bs) \<Rightarrow> (Inl (Msg ''sql''), d\<lparr>db_faults := bs\<rparr>)
   | (False, bs) \<Rightarrow> act (d\<lparr>db_faults := bs\<rparr>))"

section \<open>Tasks\<close>

definition row_of_task :: "task \<Rightarrow> task_row" where
  "row_of_task t =
     \<lparr>row_id = ID t, row_name = Some (Name t), row_command = Command t, row_status = Status t,
      row_vmid = Some (VMID t), row_cid = Some (uint (CID t)), row_vsock_path = Some (VsockPath t),
      row_ip = Some (IP t), row_owner = Some (Owner t),
      row_tailscale_hostname = Some (TailscaleHostname t), row_image = Some (Image t),
      row_created_at = CreatedAt t, row_stopped_at = StoppedAt t\<rparr>"

text \<open>
  Scanning a row: NULL in a column scanned through a \<open>sql.Null\<close> type leaves the zero
  value; NULL in \<open>image\<close> is a scan error. \<open>uint32(cid.Int64)\<close> truncates.
\<close>

definition text_or_empty :: "string option \<Rightarrow> string" where
  "text_or_empty c = (case c of None \<Rightarrow> [] | Some s \<Rightarrow> s)"

definition scan_task :: "task_row \<Rightarrow> goerr + task" where
  "scan_task r =
     (case row_image r of
        None \<Rightarrow> Inl (Msg ''converting NULL to string is unsupported'')
      | Some img \<Rightarrow>
          Inr \<lparr>ID = row_id r, Name = text_or_empty (row_name r), Command = row_command r,
            Status = row_status r, VMID = text_or_empty (row_vmid r),
            CID = (case row_cid r of None \<Rightarrow> 0 | Some c \<Rightarrow> word_of_int c),
            VsockPath = text_or_empty (row_vsock_path r), IP = text_or_empty (row_ip r),
            Owner = text_or_empty (row_owner r),
            TailscaleHostname = text_or_empty (row_tailscale_hostname r), Image = img,
            CreatedAt = row_created_at r, StoppedAt = row_stopped_at r\<rparr>)"

definition find_row :: "string \<Rightarrow> task_row list \<Rightarrow> task_row option" where
  "find_row i rs = find (\<lambda>r. row_id r = i) rs"

text \<open>\<open>UPDATE tasks SET ... WHERE id = ?\<close>, returning the number of rows affected.\<close>

definition update_rows :: "(task_row \<Rightarrow> task_row) \<Rightarrow> string \<Rightarrow> (db, nat) op" where
  "update_rows f i = sql_stmt (\<lambda>d.
     (Inr (length (filter (\<lambda>r. row_id r = i) (tasks d))),
      d\<lparr>tasks := map (\<lambda>r. if row_id r = i then f r else r) (tasks d)\<rparr>))"

definition not_found :: "string \<Rightarrow> goerr" where
  "not_found i = Wrap i (Sentinel ErrTaskNotFound)"

definition state_CreateTask :: "task \<Rightarrow> (db, unit) op" where
  "state_CreateTask t =
     (if Status t = TaskStatusCleanupPending
      then fail (Wrap ''only destruction may retain cleanup pending'' (Sentinel ErrTaskCleanupPending))
      else wrap ''failed to create task'' (sql_stmt (\<lambda>d.
        if find_row (ID t) (tasks d) \<noteq> None then (Inl (Msg ''UNIQUE constraint failed: tasks.id''), d)
        else (Inr (), d\<lparr>tasks := tasks d @ [row_of_task t]\<rparr>))))"

text \<open>The error of \<open>QueryRow(...).Scan\<close> is inspected: no row is the sentinel.\<close>

definition state_GetTask :: "string \<Rightarrow> (db, task) op" where
  "state_GetTask i =
     call_wrap ''failed to get task'' (sql_stmt (\<lambda>d. (Inr (find_row i (tasks d)), d))) (\<lambda>row.
       case row of
         None \<Rightarrow> fail (not_found i)
       | Some r \<Rightarrow> (\<lambda>d. (case scan_task r of
           Inl e \<Rightarrow> Inl (Wrap ''failed to get task'' e) | Inr t \<Rightarrow> Inr t, d)))"

fun scan_all :: "task_row list \<Rightarrow> goerr + task list" where
  "scan_all [] = Inr []"
| "scan_all (r # rs) =
     (case scan_task r of
        Inl e \<Rightarrow> Inl (Wrap ''failed to scan task'' e)
      | Inr t \<Rightarrow> (case scan_all rs of Inl e \<Rightarrow> Inl e | Inr ts \<Rightarrow> Inr (t # ts)))"

definition state_ListTasks :: "string \<Rightarrow> (db, task list) op" where
  "state_ListTasks status =
     call_wrap ''failed to list tasks''
       (sql_stmt (\<lambda>d. (Inr (sort_key (\<lambda>r. - int (row_created_at r))
          (filter (\<lambda>r. status = [] \<or> row_status r = status) (tasks d))), d)))
       (\<lambda>rows d. (scan_all rows, d))"

definition set_status :: "string \<Rightarrow> nat \<Rightarrow> task_row \<Rightarrow> task_row" where
  "set_status status now r =
     (if status = ''stopped'' then r\<lparr>row_status := status, row_stopped_at := Some now\<rparr>
      else r\<lparr>row_status := status\<rparr>)"

definition state_UpdateTaskStatus :: "string \<Rightarrow> string \<Rightarrow> nat \<Rightarrow> (db, unit) op" where
  "state_UpdateTaskStatus i status now =
     (if status = TaskStatusCleanupPending
      then fail (Wrap ''use destruction transaction'' (Sentinel ErrTaskCleanupPending))
      else
        call_wrap ''failed to get current task status''
          (sql_stmt (\<lambda>d. (Inr (map_option row_status (find_row i (tasks d))), d))) (\<lambda>old.
        case old of
          None \<Rightarrow> fail (not_found i)
        | Some oldStatus \<Rightarrow>
            call_wrap ''failed to update task status'' (update_rows (set_status status now) i) (\<lambda>_ d.
              if oldStatus \<noteq> status \<and> status_callback d
              then (Inr (), d\<lparr>status_events := status_events d @ [(i, oldStatus, status)]\<rparr>)
              else (Inr (), d))))"

definition update_one :: "string \<Rightarrow> (task_row \<Rightarrow> task_row) \<Rightarrow> string \<Rightarrow> (db, unit) op" where
  "update_one what f i =
     call_wrap what (update_rows f i) (\<lambda>rows. if rows = 0 then fail (not_found i) else ok ())"

definition state_MarkTaskCleanupPending :: "string \<Rightarrow> (db, unit) op" where
  "state_MarkTaskCleanupPending i =
     update_one ''mark task cleanup pending'' (\<lambda>r. r\<lparr>row_status := TaskStatusCleanupPending\<rparr>) i"

definition state_UpdateTaskVMID :: "string \<Rightarrow> string \<Rightarrow> (db, unit) op" where
  "state_UpdateTaskVMID i vmid =
     update_one ''failed to update task VMID'' (\<lambda>r. r\<lparr>row_vmid := Some vmid\<rparr>) i"

definition state_UpdateTaskCID :: "string \<Rightarrow> 32 word \<Rightarrow> (db, unit) op" where
  "state_UpdateTaskCID i cid =
     update_one ''failed to update task CID'' (\<lambda>r. r\<lparr>row_cid := Some (uint cid)\<rparr>) i"

definition state_UpdateTaskVsockPath :: "string \<Rightarrow> string \<Rightarrow> (db, unit) op" where
  "state_UpdateTaskVsockPath i p =
     update_one ''failed to update task vsock path'' (\<lambda>r. r\<lparr>row_vsock_path := Some p\<rparr>) i"

definition state_UpdateTaskIP :: "string \<Rightarrow> string \<Rightarrow> (db, unit) op" where
  "state_UpdateTaskIP i ip =
     update_one ''failed to update task IP'' (\<lambda>r. r\<lparr>row_ip := Some ip\<rparr>) i"

text \<open>The row of a running task with the context id; several would give the first.\<close>

definition state_GetTaskByCID :: "32 word \<Rightarrow> (db, task) op" where
  "state_GetTaskByCID cid =
     call_wrap ''failed to get task by CID''
       (sql_stmt (\<lambda>d. (Inr (find (\<lambda>r. row_cid r = Some (uint cid) \<and> row_status r = ''running'') (tasks d)), d)))
       (\<lambda>row. case row of
          None \<Rightarrow> fail (Msg (''no running task with CID '' @ itoa (unat cid)))
        | Some r \<Rightarrow> (\<lambda>d. (case scan_task r of
            Inl e \<Rightarrow> Inl (Wrap ''failed to get task by CID'' e) | Inr t \<Rightarrow> Inr t, d)))"

definition state_DeleteTask :: "string \<Rightarrow> (db, unit) op" where
  "state_DeleteTask i =
     call_wrap ''failed to delete task''
       (sql_stmt (\<lambda>d. (Inr (length (filter (\<lambda>r. row_id r = i) (tasks d))),
          d\<lparr>tasks := filter (\<lambda>r. row_id r \<noteq> i) (tasks d)\<rparr>)))
       (\<lambda>rows. if rows = 0 then fail (not_found i) else ok ())"

section \<open>Snapshots\<close>

definition state_RecordSnapshot :: "string \<Rightarrow> string \<Rightarrow> nat \<Rightarrow> (db, unit) op" where
  "state_RecordSnapshot taskID name now =
     wrap ''failed to record snapshot'' (sql_stmt (\<lambda>d. (Inr (),
       d\<lparr>snapshots := snapshots d @ [\<lparr>snap_task = taskID, snap_name = name, snap_created_at = now\<rparr>]\<rparr>)))"

definition state_ListTaskSnapshots :: "string \<Rightarrow> (db, (string \<times> nat) list) op" where
  "state_ListTaskSnapshots taskID =
     wrap ''failed to list snapshots'' (sql_stmt (\<lambda>d.
       (Inr (map (\<lambda>s. (snap_name s, snap_created_at s))
          (sort_key (\<lambda>s. - int (snap_created_at s)) (filter (\<lambda>s. snap_task s = taskID) (snapshots d)))), d)))"

section \<open>Images\<close>

definition find_image :: "string \<Rightarrow> image_record list \<Rightarrow> image_record option" where
  "find_image n ims = find (\<lambda>r. im_name r = n) ims"

definition state_CreateImage :: "image_record \<Rightarrow> (db, unit) op" where
  "state_CreateImage rec =
     wrap ''failed to create image'' (sql_stmt (\<lambda>d.
       if \<exists>r \<in> set (images d). im_name r = im_name rec \<or> im_dataset r = im_dataset rec
       then (Inl (Msg ''UNIQUE constraint failed: images''), d)
       else (Inr (), d\<lparr>images := images d @ [rec]\<rparr>)))"

definition state_GetImage :: "string \<Rightarrow> (db, image_record) op" where
  "state_GetImage name =
     call_wrap ''failed to get image'' (sql_stmt (\<lambda>d. (Inr (find_image name (images d)), d))) (\<lambda>row.
       case row of None \<Rightarrow> fail (Msg (''image not found: '' @ name)) | Some r \<Rightarrow> ok r)"

definition state_GetImageByDataset :: "string \<Rightarrow> (db, image_record) op" where
  "state_GetImageByDataset dataset =
     call_wrap ''failed to get image by dataset''
       (sql_stmt (\<lambda>d. (Inr (find (\<lambda>r. im_dataset r = dataset) (images d)), d))) (\<lambda>row.
       case row of None \<Rightarrow> fail (Msg (''image with dataset '' @ dataset @ '' not found'')) | Some r \<Rightarrow> ok r)"

definition state_ListImages :: "(db, image_record list) op" where
  "state_ListImages = wrap ''failed to list images'' (sql_stmt (\<lambda>d. (Inr (sort_key im_name (images d)), d)))"

definition state_UpdateImageSize :: "string \<Rightarrow> int \<Rightarrow> (db, unit) op" where
  "state_UpdateImageSize name sizeBytes =
     wrap ''failed to update image size'' (sql_stmt (\<lambda>d. (Inr (),
       d\<lparr>images := map (\<lambda>r. if im_name r = name then r\<lparr>im_size_bytes := sizeBytes\<rparr> else r) (images d)\<rparr>)))"

definition state_DeleteImage :: "string \<Rightarrow> (db, unit) op" where
  "state_DeleteImage name =
     call_wrap ''failed to delete image''
       (sql_stmt (\<lambda>d. (Inr (length (filter (\<lambda>r. im_name r = name) (images d))),
          d\<lparr>images := filter (\<lambda>r. im_name r \<noteq> name) (images d)\<rparr>)))
       (\<lambda>rows. if rows = 0 then fail (Msg (''image not found: '' @ name)) else ok ())"

section \<open>Rows and tasks\<close>

lemma scan_row_of_task [simp]: "scan_task (row_of_task t) = Inr t"
  by (simp add: scan_task_def row_of_task_def text_or_empty_def)

lemma row_id_of_task [simp]: "row_id (row_of_task t) = ID t"
  by (simp add: row_of_task_def)

lemma find_row_Nil [simp]: "find_row i [] = None"
  by (simp add: find_row_def)

lemma find_row_Cons [simp]:
  "find_row i (r # rs) = (if row_id r = i then Some r else find_row i rs)"
  by (simp add: find_row_def)

lemma find_row_id: "find_row i rs = Some r \<Longrightarrow> row_id r = i"
  by (induction rs) (auto split: if_splits)

lemma find_row_append [simp]:
  "find_row i (rs @ [r]) =
     (case find_row i rs of Some x \<Rightarrow> Some x | None \<Rightarrow> if row_id r = i then Some r else None)"
  by (induction rs) auto

lemma find_row_update [simp]:
  "(\<And>r. row_id (f r) = row_id r) \<Longrightarrow>
     find_row j (map (\<lambda>r. if row_id r = i then f r else r) rs) =
       (if j = i then map_option f (find_row j rs) else find_row j rs)"
  by (induction rs) auto

lemma find_row_delete [simp]:
  "find_row j (filter (\<lambda>r. row_id r \<noteq> i) rs) = (if j = i then None else find_row j rs)"
  by (induction rs) auto

lemma affected_zero [simp]: "filter (\<lambda>r. row_id r = i) rs = [] \<longleftrightarrow> find_row i rs = None"
  by (induction rs) auto

lemma set_status_id [simp]: "row_id (set_status st now r) = row_id r"
  by (simp add: set_status_def)

text \<open>What a statement does.\<close>

lemma sql_stmt_cases:
  "sql_stmt act d = (r, d') \<longleftrightarrow>
     (fst (next_fault (db_faults d)) \<and> r = Inl (Msg ''sql'') \<and>
        d' = d\<lparr>db_faults := snd (next_fault (db_faults d))\<rparr>) \<or>
     (\<not> fst (next_fault (db_faults d)) \<and> act (d\<lparr>db_faults := snd (next_fault (db_faults d))\<rparr>) = (r, d'))"
  by (auto simp: sql_stmt_def split: prod.splits bool.splits)

lemma sql_stmt_no_fault: "db_faults d = [] \<Longrightarrow> sql_stmt act d = act d"
  by (cases d) (simp add: sql_stmt_def)

section \<open>The store as a map from ids to tasks\<close>

text \<open>What \<open>GetTask\<close> finds, and the operations that change tasks as one type.\<close>

definition task_of :: "db \<Rightarrow> string \<Rightarrow> task option" where
  "task_of d i = (case find_row i (tasks d) of
     None \<Rightarrow> None | Some r \<Rightarrow> (case scan_task r of Inl _ \<Rightarrow> None | Inr t \<Rightarrow> Some t))"

definition scannable :: "db \<Rightarrow> bool" where
  "scannable d \<longleftrightarrow> (\<forall>r \<in> set (tasks d). row_image r \<noteq> None)"

datatype store_request =
    CreateReq task
  | StatusReq string string nat
  | PendingReq string
  | VMIDReq string string
  | CIDReq string "32 word"
  | VsockReq string string
  | IPReq string string
  | DeleteReq string

fun store_step :: "store_request \<Rightarrow> (db, unit) op" where
  "store_step (CreateReq t) = state_CreateTask t"
| "store_step (StatusReq i st now) = state_UpdateTaskStatus i st now"
| "store_step (PendingReq i) = state_MarkTaskCleanupPending i"
| "store_step (VMIDReq i v) = state_UpdateTaskVMID i v"
| "store_step (CIDReq i c) = state_UpdateTaskCID i c"
| "store_step (VsockReq i p) = state_UpdateTaskVsockPath i p"
| "store_step (IPReq i a) = state_UpdateTaskIP i a"
| "store_step (DeleteReq i) = state_DeleteTask i"

definition change :: "string \<Rightarrow> (task \<Rightarrow> task) \<Rightarrow> (string \<Rightarrow> task option) \<Rightarrow> (string \<Rightarrow> task option) option" where
  "change i f m = map_option (\<lambda>t. m(i \<mapsto> f t)) (m i)"

text \<open>The same on a map; \<open>None\<close> is a rejected request.\<close>

fun map_step :: "store_request \<Rightarrow> (string \<Rightarrow> task option) \<Rightarrow> (string \<Rightarrow> task option) option" where
  "map_step (CreateReq t) m =
     (if Status t = TaskStatusCleanupPending \<or> m (ID t) \<noteq> None then None else Some (m(ID t \<mapsto> t)))"
| "map_step (StatusReq i st now) m =
     (if st = TaskStatusCleanupPending then None
      else change i (\<lambda>t. if st = ''stopped'' then t\<lparr>Status := st, StoppedAt := Some now\<rparr>
                         else t\<lparr>Status := st\<rparr>) m)"
| "map_step (PendingReq i) m = change i (\<lambda>t. t\<lparr>Status := TaskStatusCleanupPending\<rparr>) m"
| "map_step (VMIDReq i v) m = change i (\<lambda>t. t\<lparr>VMID := v\<rparr>) m"
| "map_step (CIDReq i c) m = change i (\<lambda>t. t\<lparr>CID := c\<rparr>) m"
| "map_step (VsockReq i p) m = change i (\<lambda>t. t\<lparr>VsockPath := p\<rparr>) m"
| "map_step (IPReq i a) m = change i (\<lambda>t. t\<lparr>IP := a\<rparr>) m"
| "map_step (DeleteReq i) m = (if m i = None then None else Some (m(i := None)))"

lemma find_row_in: "find_row i rs = Some r \<Longrightarrow> r \<in> set rs"
  by (induction rs) (auto split: if_splits)

lemma task_of_None: "scannable d \<Longrightarrow> task_of d i = None \<longleftrightarrow> find_row i (tasks d) = None"
  using find_row_in [of i "tasks d"]
  by (fastforce simp: task_of_def scannable_def scan_task_def split: option.splits)

lemma task_of_faults [simp]: "task_of (d\<lparr>db_faults := bs\<rparr>) = task_of d"
  by (simp add: task_of_def fun_eq_iff)

lemma task_of_events [simp]: "task_of (d\<lparr>status_events := es\<rparr>) = task_of d"
  by (simp add: task_of_def fun_eq_iff)

text \<open>An update that commutes with scanning changes one task of the map.\<close>

lemma task_of_update:
  assumes "\<And>r. row_id (f r) = row_id r"
    and "\<And>r t. scan_task r = Inr t \<Longrightarrow> scan_task (f r) = Inr (g t)"
    and "scannable d" "find_row i (tasks d) \<noteq> None"
  shows "change i g (task_of d) =
    Some (task_of (d\<lparr>tasks := map (\<lambda>r. if row_id r = i then f r else r) (tasks d)\<rparr>))"
proof -
  obtain r where r: "find_row i (tasks d) = Some r" using assms(4) by blast
  then obtain t where t: "scan_task r = Inr t"
    using assms(3) by (fastforce simp: scannable_def scan_task_def dest: find_row_in)
  then show ?thesis using r assms(1) assms(2) [OF t]
    by (simp add: change_def task_of_def fun_eq_iff)
qed

lemma update_one_map:
  assumes "\<And>r. row_id (f r) = row_id r"
    and "\<And>r t. scan_task r = Inr t \<Longrightarrow> scan_task (f r) = Inr (g t)"
    and "scannable d" "update_one what f i d = (q, d')"
  shows "(case q of Inr _ \<Rightarrow> change i g (task_of d) = Some (task_of d') | Inl _ \<Rightarrow> task_of d' = task_of d) \<and>
    (db_faults d = [] \<longrightarrow> isl q = (change i g (task_of d) = None))"
proof (cases "find_row i (tasks d)")
  case None
  have "map (\<lambda>r. if row_id r = i then f r else r) (tasks d) = tasks d"
    using None by (intro map_idI) (auto simp: find_row_def find_None_iff)
  with None assms(3,4) show ?thesis
    by (auto simp: update_one_def update_rows_def call_wrap_def call_def wrap_def sql_stmt_def
        task_of_None change_def split: prod.splits bool.splits)
next
  case (Some r)
  then have rows: "filter (\<lambda>r. row_id r = i) (tasks d) \<noteq> []" by simp
  let ?bs = "snd (next_fault (db_faults d))"
  have "scannable (d\<lparr>db_faults := ?bs\<rparr>)" using assms(3) by (simp add: scannable_def)
  from task_of_update [of f g, OF assms(1,2) this] Some
  have upd: "change i g (task_of d) =
      Some (task_of (d\<lparr>db_faults := ?bs, tasks := map (\<lambda>r. if row_id r = i then f r else r) (tasks d)\<rparr>))"
    by simp
  show ?thesis using assms(4) rows upd
    by (cases "next_fault (db_faults d)")
       (auto simp: update_one_def update_rows_def call_wrap_def call_def wrap_def sql_stmt_def
         split: bool.splits)
qed

lemma scan_set_status:
  "scan_task r = Inr t \<Longrightarrow> scan_task (set_status st now r) =
     Inr (if st = ''stopped'' then t\<lparr>Status := st, StoppedAt := Some now\<rparr> else t\<lparr>Status := st\<rparr>)"
  by (auto simp: scan_task_def set_status_def split: option.splits)

lemma scan_field_updates:
  assumes "scan_task r = Inr t"
  shows "scan_task (r\<lparr>row_status := x\<rparr>) = Inr (t\<lparr>Status := x\<rparr>)"
    and "scan_task (r\<lparr>row_vmid := Some x\<rparr>) = Inr (t\<lparr>VMID := x\<rparr>)"
    and "scan_task (r\<lparr>row_cid := Some (uint c)\<rparr>) = Inr (t\<lparr>CID := c\<rparr>)"
    and "scan_task (r\<lparr>row_vsock_path := Some x\<rparr>) = Inr (t\<lparr>VsockPath := x\<rparr>)"
    and "scan_task (r\<lparr>row_ip := Some x\<rparr>) = Inr (t\<lparr>IP := x\<rparr>)"
proof -
  obtain img where img: "row_image r = Some img" using assms by (auto simp: scan_task_def split: option.splits)
  with assms show "scan_task (r\<lparr>row_status := x\<rparr>) = Inr (t\<lparr>Status := x\<rparr>)"
    and "scan_task (r\<lparr>row_vmid := Some x\<rparr>) = Inr (t\<lparr>VMID := x\<rparr>)"
    and "scan_task (r\<lparr>row_cid := Some (uint c)\<rparr>) = Inr (t\<lparr>CID := c\<rparr>)"
    and "scan_task (r\<lparr>row_vsock_path := Some x\<rparr>) = Inr (t\<lparr>VsockPath := x\<rparr>)"
    and "scan_task (r\<lparr>row_ip := Some x\<rparr>) = Inr (t\<lparr>IP := x\<rparr>)"
    by (simp_all add: scan_task_def text_or_empty_def) (cases t; simp)+
qed

lemma scannable_simps [simp]:
  "scannable (d\<lparr>db_faults := bs\<rparr>) = scannable d"
  "scannable (d\<lparr>status_events := es\<rparr>) = scannable d"
  "scannable (d\<lparr>db_faults := bs, tasks := rs\<rparr>) = scannable (d\<lparr>tasks := rs\<rparr>)"
  by (simp_all add: scannable_def)

text \<open>What a request owes the map.\<close>

definition refines_map :: "store_request \<Rightarrow> db \<Rightarrow> goerr + unit \<Rightarrow> db \<Rightarrow> bool" where
  "refines_map req d q d' \<longleftrightarrow> scannable d' \<and>
     (case q of Inr _ \<Rightarrow> map_step req (task_of d) = Some (task_of d') | Inl _ \<Rightarrow> task_of d' = task_of d) \<and>
     (db_faults d = [] \<longrightarrow> isl q = (map_step req (task_of d) = None))"

lemma update_one_refines:
  assumes "update_one what f i d = (q, d')" "scannable d"
    and "\<And>r t. scan_task r = Inr t \<Longrightarrow> scan_task (f r) = Inr (g t)"
    and "\<And>r. row_id (f r) = row_id r" "\<And>r. row_image (f r) = row_image r"
    and "map_step req (task_of d) = change i g (task_of d)"
  shows "refines_map req d q d'"
proof -
  have "scannable (snd (update_one what f i d))" using assms(2,5)
    by (auto simp: update_one_def update_rows_def call_wrap_def call_def wrap_def sql_stmt_def scannable_def
        split: prod.splits bool.splits)
  then show ?thesis
    using update_one_map [where f = f and g = g, OF assms(4,3,2,1)] assms(1)
    unfolding refines_map_def assms(6) by simp
qed

lemma rejected_refines:
  assumes "isl q" "d' = d\<lparr>db_faults := db_faults d'\<rparr>" "scannable d"
    and "db_faults d = [] \<longrightarrow> map_step req (task_of d) = None"
  shows "refines_map req d q d'"
proof -
  have "task_of d' = task_of d" "scannable d'"
    using assms(2,3) by (metis task_of_faults, metis scannable_simps(1))
  then show ?thesis using assms by (auto simp: refines_map_def isl_def)
qed

lemma CreateTask_refines:
  assumes "scannable d" "state_CreateTask t d = (q, d')"
  shows "refines_map (CreateReq t) d q d'"
proof (cases "Status t = TaskStatusCleanupPending \<or> find_row (ID t) (tasks d) \<noteq> None")
  case True
  then have "isl q \<and> d' = d\<lparr>db_faults := db_faults d'\<rparr>" using assms(2)
    by (cases "next_fault (db_faults d)")
       (auto simp: state_CreateTask_def wrap_def sql_stmt_def split: bool.splits if_splits)
  then show ?thesis using True assms(1) task_of_None [OF assms(1), of "ID t"]
    by (intro rejected_refines) auto
next
  case False
  then have "task_of (d\<lparr>db_faults := bs, tasks := tasks d @ [row_of_task t]\<rparr>) = (task_of d)(ID t \<mapsto> t)" for bs
    by (auto simp: task_of_def fun_eq_iff split: option.splits)
  then show ?thesis using False assms task_of_None [OF assms(1), of "ID t"]
    by (auto simp: refines_map_def state_CreateTask_def wrap_def sql_stmt_def scannable_def row_of_task_def
        split: prod.splits bool.splits)
qed

lemma DeleteTask_refines:
  assumes "scannable d" "state_DeleteTask i d = (q, d')"
  shows "refines_map (DeleteReq i) d q d'"
proof -
  have del: "task_of (d\<lparr>db_faults := bs, tasks := filter (\<lambda>r. row_id r \<noteq> i) (tasks d)\<rparr>) = (task_of d)(i := None)" for bs
    by (auto simp: task_of_def fun_eq_iff)
  have "filter (\<lambda>r. row_id r \<noteq> i) (tasks d) = tasks d" if "find_row i (tasks d) = None"
    using that by (simp add: find_row_def find_None_iff)
  with del show ?thesis using assms task_of_None [OF assms(1), of i]
    by (auto simp: refines_map_def state_DeleteTask_def call_wrap_def call_def wrap_def sql_stmt_def
        scannable_def split: prod.splits bool.splits)
qed

text \<open>The status update, which reads the old status first and reports a change.\<close>

lemma UpdateTaskStatus_cases:
  assumes "state_UpdateTaskStatus i st now d = (q, d')" "st \<noteq> TaskStatusCleanupPending"
  obtains (failed) e where "q = Inl e" "d' = d\<lparr>db_faults := db_faults d'\<rparr>"
      "db_faults d = [] \<longrightarrow> find_row i (tasks d) = None"
  | (updated) r d2 where "q = Inr ()" "find_row i (tasks d) = Some r"
      "d2 = d\<lparr>tasks := map (\<lambda>r. if row_id r = i then set_status st now r else r) (tasks d),
              db_faults := snd (next_fault (snd (next_fault (db_faults d))))\<rparr>"
      "d' = (if row_status r \<noteq> st \<and> status_callback d
             then d2\<lparr>status_events := status_events d @ [(i, row_status r, st)]\<rparr> else d2)"
proof (cases "find_row i (tasks d)")
  case None
  have "isl q \<and> d' = d\<lparr>db_faults := db_faults d'\<rparr>"
    using assms None
    by (auto simp: state_UpdateTaskStatus_def call_wrap_def call_def wrap_def sql_stmt_def
        split: prod.splits bool.splits)
  then show ?thesis using failed None by (metis isl_def)
next
  case (Some r)
  let ?f1 = "next_fault (db_faults d)" and ?f2 = "next_fault (snd (next_fault (db_faults d)))"
  show ?thesis
  proof (cases "fst ?f1 \<or> fst ?f2")
    case True
    then have "isl q \<and> d' = d\<lparr>db_faults := db_faults d'\<rparr>"
      using assms Some
      by (auto simp: state_UpdateTaskStatus_def update_rows_def call_wrap_def call_def wrap_def sql_stmt_def
          split: prod.splits bool.splits)
    moreover have "db_faults d \<noteq> []" using True by auto
    ultimately show ?thesis using failed by (metis isl_def)
  next
    case False
    then show ?thesis using assms Some
      by (intro updated [OF _ Some refl])
        (auto simp: state_UpdateTaskStatus_def update_rows_def call_wrap_def call_def wrap_def sql_stmt_def
          split: prod.splits bool.splits if_splits)
  qed
qed

lemma UpdateTaskStatus_refines:
  assumes "scannable d" "state_UpdateTaskStatus i st now d = (q, d')"
  shows "refines_map (StatusReq i st now) d q d'"
proof (cases "st = TaskStatusCleanupPending")
  case True
  with assms have "isl q \<and> d' = d" by (auto simp: state_UpdateTaskStatus_def)
  then show ?thesis using True assms(1) by (intro rejected_refines) auto
next
  case False
  with assms(2) show ?thesis
  proof (cases rule: UpdateTaskStatus_cases)
    case (failed e)
    then show ?thesis using False assms(1) task_of_None [OF assms(1), of i]
      by (intro rejected_refines) (auto simp: change_def)
  next
    case (updated r d2)
    let ?rs = "map (\<lambda>r. if row_id r = i then set_status st now r else r) (tasks d)"
    have "map_step (StatusReq i st now) (task_of d) = Some (task_of (d\<lparr>tasks := ?rs\<rparr>))"
      using task_of_update [OF set_status_id scan_set_status assms(1), where i = i] updated(2) False by simp
    moreover have "task_of d' = task_of (d\<lparr>tasks := ?rs\<rparr>)"
      using updated by (simp add: task_of_def fun_eq_iff)
    moreover have "scannable d'"
      using updated assms(1) by (auto simp: scannable_def set_status_def)
    ultimately show ?thesis using updated(1) by (simp add: refines_map_def)
  qed
qed

lemma store_step_refines:
  assumes "scannable d" "store_step req d = (q, d')"
  shows "refines_map req d q d'"
proof (cases req)
  case (PendingReq i)
  with assms show ?thesis
    by (intro update_one_refines [OF _ _ scan_field_updates(1)]) (simp_all add: state_MarkTaskCleanupPending_def)
next
  case (VMIDReq i v)
  with assms show ?thesis
    by (intro update_one_refines [OF _ _ scan_field_updates(2)]) (simp_all add: state_UpdateTaskVMID_def)
next
  case (CIDReq i c)
  with assms show ?thesis
    by (intro update_one_refines [OF _ _ scan_field_updates(3)]) (simp_all add: state_UpdateTaskCID_def)
next
  case (VsockReq i x)
  with assms show ?thesis
    by (intro update_one_refines [OF _ _ scan_field_updates(4)]) (simp_all add: state_UpdateTaskVsockPath_def)
next
  case (IPReq i a)
  with assms show ?thesis
    by (intro update_one_refines [OF _ _ scan_field_updates(5)]) (simp_all add: state_UpdateTaskIP_def)
qed (use assms CreateTask_refines UpdateTaskStatus_refines DeleteTask_refines in auto)

lemma state_GetTask_task_of:
  assumes "scannable d" "db_faults d = []"
  shows "state_GetTask i d = ((case task_of d i of None \<Rightarrow> Inl (not_found i) | Some t \<Rightarrow> Inr t), d)"
proof (cases "find_row i (tasks d)")
  case None
  then show ?thesis using assms
    by (simp add: state_GetTask_def call_wrap_def call_def wrap_def sql_stmt_no_fault task_of_def)
next
  case (Some r)
  then have "row_image r \<noteq> None" using assms(1) by (auto simp: scannable_def dest: find_row_in)
  then obtain t where "scan_task r = Inr t" by (auto simp: scan_task_def)
  then show ?thesis using Some assms
    by (simp add: state_GetTask_def call_wrap_def call_def wrap_def sql_stmt_no_fault task_of_def)
qed

lemma GetTask_run:
  assumes "db_faults x = []" "task_of x i = Some t"
  shows "state_GetTask i x = (Inr t, x)"
proof -
  have "x\<lparr>db_faults := []\<rparr> = x" using assms(1) by (cases x) simp
  then show ?thesis using assms
    by (auto simp: state_GetTask_def call_wrap_def call_def wrap_def sql_stmt_def task_of_def
        split: option.splits sum.splits)
qed

lemma update_run:
  assumes "db_faults x = []" "task_of x i = Some t" "scannable x" "st \<noteq> TaskStatusCleanupPending"
    and "state_UpdateTaskStatus i st now x = (r, x')"
  shows "r = Inr ()" "task_of x' = (task_of x)(i \<mapsto> (if st = ''stopped'' then t\<lparr>Status := st, StoppedAt := Some now\<rparr>
    else t\<lparr>Status := st\<rparr>))"
  using store_step_refines [of x "StatusReq i st now" r x'] assms
  by (auto simp: refines_map_def change_def isl_def split: sum.splits)

lemma find_image_append:
  "n \<noteq> im_name r \<Longrightarrow> find_image n (ims @ [r]) = find_image n ims"
  by (induction ims) (auto simp: find_image_def)

text \<open>Requests one after the other.\<close>

fun store_run :: "store_request list \<Rightarrow> db \<Rightarrow> db" where
  "store_run [] d = d"
| "store_run (req # reqs) d = store_run reqs (snd (store_step req d))"

definition not_pending :: "string \<Rightarrow> (string \<Rightarrow> task option) \<Rightarrow> bool" where
  "not_pending i m \<longleftrightarrow> (case m i of None \<Rightarrow> True | Some t \<Rightarrow> Status t \<noteq> TaskStatusCleanupPending)"

lemma map_step_not_pending:
  "map_step req m = Some m' \<Longrightarrow> req \<noteq> PendingReq i \<Longrightarrow> not_pending i m \<Longrightarrow> not_pending i m'"
  by (cases req) (auto simp: not_pending_def change_def split: option.splits if_splits)

lemma store_step_not_pending:
  assumes "scannable d" "req \<noteq> PendingReq i" "not_pending i (task_of d)"
  shows "scannable (snd (store_step req d)) \<and> not_pending i (task_of (snd (store_step req d)))"
proof -
  obtain q d' where step: "store_step req d = (q, d')" by fastforce
  note ref = store_step_refines [OF assms(1) step, unfolded refines_map_def]
  then have "not_pending i (task_of d')"
    using map_step_not_pending [OF _ assms(2,3)] assms(3) by (cases q) auto
  then show ?thesis using step ref by simp
qed

definition images_ok :: "db \<Rightarrow> bool" where
  "images_ok d \<longleftrightarrow> distinct (map im_name (images d)) \<and> distinct (map im_dataset (images d))"

lemma find_distinct:
  "distinct (map f xs) \<Longrightarrow> x \<in> set xs \<Longrightarrow> find (\<lambda>y. f y = f x) xs = Some x"
  by (induction xs) (auto simp: image_iff)

section \<open>Properties\<close>

text \<open>C22. The database implements a map from ids to tasks: a request that succeeds makes the
  same change to the map as the map's own operation, one that fails leaves every task as it
  was, and without database failures it fails exactly when the map rejects the request
  (an unknown id, a taken id, or a cleanup-pending status from outside the destruction).\<close>

theorem store_refines_map:
  assumes "scannable d" "store_step req d = (q, d')"
  shows "scannable d' \<and>
    (case q of Inr _ \<Rightarrow> map_step req (task_of d) = Some (task_of d') | Inl _ \<Rightarrow> task_of d' = task_of d) \<and>
    (db_faults d = [] \<longrightarrow> isl q = (map_step req (task_of d) = None))"
  using store_step_refines [OF assms] unfolding refines_map_def .

definition db0 :: db where
  "db0 = \<lparr>tasks = [], snapshots = [], images = [], status_callback = True, status_events = [], db_faults = []\<rparr>"

definition task0 :: task where
  "task0 = \<lparr>ID = ''t1'', Name = ''n'', Command = ''make'', Status = ''pending'', VMID = [], CID = 7,
     VsockPath = [], IP = [], Owner = ''o'', TailscaleHostname = [], Image = ''img'', CreatedAt = 5,
     StoppedAt = None\<rparr>"

lemma scannable_db0: "scannable db0"
  by (simp add: scannable_def db0_def)

lemma store_refines_map_witness:
  "\<exists>d'. store_step (CreateReq task0) db0 = (Inr (), d') \<and> Some (task_of d') = Some ((task_of db0)(''t1'' \<mapsto> task0))"
proof -
  obtain q d' where step: "store_step (CreateReq task0) db0 = (q, d')" by fastforce
  have "task_of db0 ''t1'' = None" "Status task0 \<noteq> TaskStatusCleanupPending" "ID task0 = ''t1''" "db_faults db0 = []"
    by code_simp+
  then show ?thesis using store_refines_map [OF scannable_db0 step] step by (cases q) auto
qed

text \<open>Only the destruction's mark makes a task cleanup-pending: any sequence of requests
  without a mark for the task, with any database failures, leaves it not pending.\<close>

theorem pending_only_by_mark:
  assumes "scannable d" "PendingReq i \<notin> set reqs" "not_pending i (task_of d)"
  shows "not_pending i (task_of (store_run reqs d))"
  using assms
proof (induction reqs arbitrary: d)
  case (Cons req reqs)
  then have "req \<noteq> PendingReq i" by auto
  from store_step_not_pending [OF Cons.prems(1) this Cons.prems(3)] show ?case
    using Cons by simp
qed simp

lemma pending_only_by_mark_witness:
  "not_pending ''t1'' (task_of (store_run [CreateReq task0, StatusReq ''t1'' ''cleanup_pending'' 3, PendingReq ''t2''] db0))"
proof -
  have "not_pending ''t1'' (task_of db0)" by code_simp
  then show ?thesis by (intro pending_only_by_mark [OF scannable_db0]) simp_all
qed

text \<open>A status update calls the registered callback exactly once when it succeeds and the
  status really changed, with the old and the new status, and never otherwise.\<close>

theorem status_callback_exact:
  assumes "state_UpdateTaskStatus i st now d = (q, d')"
  shows "status_events d' = status_events d @
    (case (q, find_row i (tasks d)) of
       (Inr _, Some r) \<Rightarrow> if status_callback d \<and> row_status r \<noteq> st then [(i, row_status r, st)] else []
     | _ \<Rightarrow> [])"
proof (cases "st = TaskStatusCleanupPending")
  case True
  with assms show ?thesis by (auto simp: state_UpdateTaskStatus_def)
next
  case False
  with assms show ?thesis
  proof (cases rule: UpdateTaskStatus_cases)
    case (failed e)
    have "status_events d' = status_events d" by (subst failed(2)) simp
    then show ?thesis using failed(1) by simp
  qed simp
qed

lemma status_callback_exact_witness:
  "status_events (snd (state_UpdateTaskStatus ''t1'' ''running'' 9 (snd (state_CreateTask task0 db0)))) =
     [(''t1'', ''pending'', ''running'')]"
proof -
  let ?d = "snd (state_CreateTask task0 db0)"
  obtain q d' where step: "state_UpdateTaskStatus ''t1'' ''running'' 9 ?d = (q, d')" by fastforce
  have "fst (state_UpdateTaskStatus ''t1'' ''running'' 9 ?d) = Inr ()" by code_simp
  moreover have "map_option row_status (find_row ''t1'' (tasks ?d)) = Some ''pending''"
      "status_events ?d = []" "status_callback ?d" by code_simp+
  ultimately show ?thesis using status_callback_exact [OF step] step by auto
qed

text \<open>Registered images keep unique names and datasets: creating one succeeds only when
  both are new, and then both lookups find exactly that record while the records of other
  names stay as they were.\<close>

theorem CreateImage_lookup:
  assumes "images_ok d" "state_CreateImage rec d = (Inr (), d')" "db_faults d' = []"
  shows "images_ok d' \<and>
    find_image (im_name rec) (images d) = None \<and>
    state_GetImage (im_name rec) d' = (Inr rec, d') \<and>
    state_GetImageByDataset (im_dataset rec) d' = (Inr rec, d') \<and>
    (\<forall>n. n \<noteq> im_name rec \<longrightarrow> find_image n (images d') = find_image n (images d))"
proof -
  from assms(2) have new: "\<forall>r \<in> set (images d). im_name r \<noteq> im_name rec \<and> im_dataset r \<noteq> im_dataset rec"
    and im: "images d' = images d @ [rec]"
    by (auto simp: state_CreateImage_def wrap_def sql_stmt_def split: prod.splits bool.splits sum.splits if_splits)
  have ok': "images_ok d'" using assms(1) new by (auto simp: images_ok_def im)
  then have "find (\<lambda>r. im_name r = im_name rec) (images d') = Some rec"
      "find (\<lambda>r. im_dataset r = im_dataset rec) (images d') = Some rec"
    using find_distinct [of im_name "images d'" rec] find_distinct [of im_dataset "images d'" rec]
    by (auto simp: images_ok_def im)
  moreover have "find_image n (images d @ [rec]) = find_image n (images d)" if "n \<noteq> im_name rec" for n
    using that by (simp add: find_image_append)
  ultimately show ?thesis using ok' new assms(3)
    by (auto simp: state_GetImage_def state_GetImageByDataset_def call_wrap_def call_def wrap_def
        sql_stmt_no_fault find_image_def im find_None_iff)
qed

definition image0 :: image_record where
  "image0 = \<lparr>im_name = ''dev'', im_dataset = ''dev'', im_kernel_path = [], im_size_bytes = 1, im_created_at = 0\<rparr>"

lemma CreateImage_lookup_witness:
  "fst (state_GetImage ''dev'' (snd (state_CreateImage image0 db0))) = Inr image0"
proof -
  obtain d' where step: "state_CreateImage image0 db0 = (Inr (), d')" "db_faults d' = []"
    by (auto simp: state_CreateImage_def wrap_def sql_stmt_def db0_def)
  have "images_ok db0" "im_name image0 = ''dev''" by code_simp+
  then show ?thesis using CreateImage_lookup [OF _ step] step by simp
qed

end
