(* ===== verification/Store_Types.thy ===== *)
theory Store_Types
  imports Task_Store
begin

text \<open>
  The well-formedness of the task table (\<open>pkg/daemon/state.go\<close>): what every row of a
  database the daemon wrote looks like, whatever requests it served and whichever of them failed.
\<close>

definition row_typed :: "task_row \<Rightarrow> bool" where
  "row_typed r \<longleftrightarrow> row_image r \<noteq> None \<and> row_name r \<noteq> None \<and> row_owner r \<noteq> None \<and> row_tailscale_hostname r \<noteq> None \<and>
     (\<exists>c :: 32 word. row_cid r = Some (uint c)) \<and> row_vmid r \<noteq> None \<and> row_vsock_path r \<noteq> None \<and> row_ip r \<noteq> None \<and>
     (row_status r = ''stopped'' \<longrightarrow> row_stopped_at r \<noteq> None)"

definition table_typed :: "db \<Rightarrow> bool" where
  "table_typed d \<longleftrightarrow> distinct (map row_id (tasks d)) \<and> (\<forall>r \<in> set (tasks d). row_typed r)"

definition typed_request :: "store_request \<Rightarrow> bool" where
  "typed_request req \<longleftrightarrow> (case req of CreateReq t \<Rightarrow> Status t = ''stopped'' \<longrightarrow> StoppedAt t \<noteq> None | _ \<Rightarrow> True)"

lemma typed_faults [simp]: "table_typed (d\<lparr>db_faults := fs\<rparr>) = table_typed d" "table_typed (d\<lparr>status_events := ev\<rparr>) = table_typed d"
  by (simp_all add: table_typed_def)

lemma typed_stmt:
  "table_typed d \<Longrightarrow> (\<And>d. table_typed d \<Longrightarrow> table_typed (snd (act d))) \<Longrightarrow> table_typed (snd (sql_stmt act d))"
  by (auto simp: sql_stmt_def split: prod.split bool.split)

lemma typed_rows:
  assumes "\<And>r. row_typed r \<Longrightarrow> row_typed (f r)" "\<And>r. row_id (f r) = row_id r"
  shows "table_typed d \<Longrightarrow> table_typed (snd (update_rows f i d))"
proof -
  have "row_id \<circ> (\<lambda>r. if row_id r = i then f r else r) = row_id" using assms(2) by auto
  then show "table_typed d \<Longrightarrow> table_typed (snd (update_rows f i d))"
    unfolding update_rows_def using assms(1) by (intro typed_stmt) (auto simp: table_typed_def)
qed

lemma typed_call:
  "table_typed (snd (m d)) \<Longrightarrow> (\<And>a d. table_typed d \<Longrightarrow> table_typed (snd (f a d))) \<Longrightarrow> table_typed (snd (call_wrap msg m f d))"
  by (auto simp: call_wrap_def call_def wrap_def split: prod.split sum.split)

lemma typed_update:
  assumes "\<And>r. row_typed r \<Longrightarrow> row_typed (f r)" "\<And>r. row_id (f r) = row_id r" "table_typed d"
  shows "table_typed (snd (update_one what f i d))"
proof -
  have "table_typed (snd (update_rows f i d))" by (rule typed_rows [OF assms])
  then show ?thesis unfolding update_one_def by (rule typed_call) simp
qed

lemma step_typed:
  assumes "table_typed d" "typed_request req"
  shows "table_typed (snd (store_step req d))"
proof (cases req)
  case (CreateReq t)
  have "row_typed (row_of_task t)" using assms(2) CreateReq by (auto simp: row_typed_def row_of_task_def typed_request_def)
  then have "table_typed (d'\<lparr>tasks := tasks d' @ [row_of_task t]\<rparr>)" if "table_typed d'" "find_row (ID t) (tasks d') = None" for d'
    using that by (auto simp: table_typed_def find_row_def find_None_iff row_of_task_def)
  then have "table_typed (snd (sql_stmt (\<lambda>d. if find_row (ID t) (tasks d) \<noteq> None
      then (Inl (Msg ''UNIQUE constraint failed: tasks.id''), d) else (Inr (), d\<lparr>tasks := tasks d @ [row_of_task t]\<rparr>)) d))"
    by (intro typed_stmt [OF assms(1)]) auto
  then show ?thesis using assms(1)
    by (auto simp: CreateReq state_CreateTask_def wrap_def split: prod.split sum.split)
next
  case (StatusReq i st now)
  have update: "table_typed (snd (call_wrap ''failed to update task status'' (update_rows (set_status st now) i) (\<lambda>_ d.
      if old \<noteq> st \<and> status_callback d then (Inr (), d\<lparr>status_events := status_events d @ [(i, old, st)]\<rparr>) else (Inr (), d)) d'))"
    if "table_typed d'" for old d'
  proof (rule typed_call [where m = "update_rows (set_status st now) i"])
    show "table_typed (snd (update_rows (set_status st now) i d'))"
      by (rule typed_rows [OF _ _ that]) (auto simp: row_typed_def set_status_def)
  qed simp
  have "table_typed (snd (sql_stmt (\<lambda>d. (Inr (map_option row_status (find_row i (tasks d))), d)) d))"
    using assms(1) by (rule typed_stmt) simp
  then have "table_typed (snd (state_UpdateTaskStatus i st now d))" if "st \<noteq> TaskStatusCleanupPending"
    unfolding state_UpdateTaskStatus_def if_not_P [OF that]
    by (rule typed_call [where m = "sql_stmt _"]) (simp add: update split: option.split)
  then show ?thesis using assms(1) by (cases "st = TaskStatusCleanupPending") (simp_all add: StatusReq state_UpdateTaskStatus_def)
next
  case (DeleteReq i)
  have "table_typed (d\<lparr>tasks := filter (\<lambda>r. row_id r \<noteq> i) (tasks d)\<rparr>)" if "table_typed d" for d
    using that by (auto simp: table_typed_def distinct_map_filter)
  then have "table_typed (snd (sql_stmt (\<lambda>d. (Inr (length (filter (\<lambda>r. row_id r = i) (tasks d))),
      d\<lparr>tasks := filter (\<lambda>r. row_id r \<noteq> i) (tasks d)\<rparr>)) d))"
    using assms(1) by (intro typed_stmt) simp_all
  then show ?thesis unfolding DeleteReq store_step.simps state_DeleteTask_def
    by (rule typed_call [where m = "sql_stmt _"]) simp
qed (use assms(1) in \<open>auto simp: state_MarkTaskCleanupPending_def state_UpdateTaskVMID_def state_UpdateTaskCID_def
    state_UpdateTaskVsockPath_def state_UpdateTaskIP_def TaskStatusCleanupPending_def row_typed_def intro!: typed_update\<close>)

text \<open>C15. The task table stays well formed. After any requests, of which any may fail, the identifiers are unique, every row
  scans to a task with its identifier and status, no column the daemon writes is NULL, a context id is a 32-bit number that
  is read back unchanged, and a stopped task has the time it was stopped.\<close>

theorem store_rows_typed:
  assumes "table_typed d" "list_all typed_request reqs"
  shows "table_typed (store_run reqs d) \<and>
    (\<forall>r \<in> set (tasks (store_run reqs d)). \<exists>t. scan_task r = Inr t \<and> ID t = row_id r \<and> Status t = row_status r \<and>
       row_cid r = Some (uint (CID t)) \<and> task_of (store_run reqs d) (row_id r) = Some t \<and>
       (Status t = ''stopped'' \<longrightarrow> StoppedAt t \<noteq> None))"
proof -
  have typed: "table_typed (store_run reqs d)"
    using assms by (induction reqs arbitrary: d) (auto intro: step_typed)
  moreover have "find_row (row_id r) rs = Some r" if "distinct (map row_id rs)" "r \<in> set rs" for r rs
    using that by (induction rs) (auto simp: find_row_def)
  ultimately show ?thesis
    by (auto simp: table_typed_def row_typed_def scan_task_def task_of_def)
qed

lemma store_rows_typed_witness:
  "table_typed (store_run [CreateReq \<lparr>ID = ''a'', Name = [], Command = [], Status = ''starting'', VMID = ''a'', CID = 0, VsockPath = [],
     IP = [], Owner = [], TailscaleHostname = [], Image = [], CreatedAt = 1, StoppedAt = None\<rparr>, StatusReq ''a'' ''stopped'' 5]
     \<lparr>tasks = [], snapshots = [], images = [], status_callback = True, status_events = [], db_faults = [False, True]\<rparr>)"
proof -
  let ?d = "\<lparr>tasks = [], snapshots = [], images = [], status_callback = True, status_events = [], db_faults = [False, True]\<rparr>"
  have "table_typed ?d" by (simp add: table_typed_def)
  from store_rows_typed [OF this, of "[CreateReq \<lparr>ID = ''a'', Name = [], Command = [], Status = ''starting'', VMID = ''a'', CID = 0,
      VsockPath = [], IP = [], Owner = [], TailscaleHostname = [], Image = [], CreatedAt = 1, StoppedAt = None\<rparr>, StatusReq ''a'' ''stopped'' 5]"]
  show ?thesis by (simp add: typed_request_def)
qed

end
