(* ===== verification/Ipv4.thy ===== *)
theory Ipv4
  imports Go_Strings "HOL-Library.Word"
begin

unbundle bit_operations_syntax

text \<open>
  IPv4 addresses as the pool handles them: four octets, their big-endian value, Go's
  \<open>net.CIDRMask\<close>, \<open>IP.Mask\<close>, \<open>IPNet.Contains\<close>,
  \<open>IP.String\<close> and \<open>net.ParseIP\<close>. The text of an IPv6 address is read by
  a parameter (\<open>p6\<close>), since the repository only passes it on to the check that the
  gateway is an IPv4 address.
\<close>

type_synonym octets = "8 word \<times> 8 word \<times> 8 word \<times> 8 word"

text \<open>\<open>binary.BigEndian.Uint32\<close>.\<close>

fun be32 :: "octets \<Rightarrow> 32 word" where
  "be32 (a, b, c, d) =
     ucast d OR push_bit 8 (ucast c) OR push_bit 16 (ucast b) OR push_bit 24 (ucast a)"

fun and_octets :: "octets \<Rightarrow> octets \<Rightarrow> octets" where
  "and_octets (a, b, c, d) (a', b', c', d') = (a AND a', b AND b', c AND c', d AND d')"

text \<open>\<open>net.CIDRMask(n, 32)\<close>; \<open>None\<close> is its nil for a length out of range.\<close>

definition mask_octet :: "nat \<Rightarrow> 8 word" where
  "mask_octet n = (if 8 \<le> n then 255 else NOT (drop_bit n 255))"

definition cidr_mask :: "int \<Rightarrow> octets option" where
  "cidr_mask n =
     (if 0 \<le> n \<and> n \<le> 32 then
        (let k = nat n in
         Some (mask_octet k, mask_octet (k - 8), mask_octet (k - 16), mask_octet (k - 24)))
      else None)"

text \<open>\<open>IPMask.Size\<close> of a mask with leading ones: the number of ones.\<close>

definition mask_ones :: "octets \<Rightarrow> nat" where
  "mask_ones m = (case m of (a, b, c, d) \<Rightarrow> length (filter (\<lambda>i. bit (be32 m) i) [0..<32]))"

definition contains_ip :: "octets \<times> octets \<Rightarrow> octets \<Rightarrow> bool" where
  "contains_ip nw ip \<longleftrightarrow> and_octets (fst nw) (snd nw) = and_octets ip (snd nw)"

text \<open>The byte loop that increments an address in place, from the last octet up.\<close>

fun inc_ip :: "octets \<Rightarrow> octets" where
  "inc_ip (a, b, c, d) =
     (if d + 1 \<noteq> 0 then (a, b, c, d + 1)
      else if c + 1 \<noteq> 0 then (a, b, c + 1, 0)
      else if b + 1 \<noteq> 0 then (a, b + 1, 0, 0)
      else (a + 1, 0, 0, 0))"

fun ip_string :: "octets \<Rightarrow> string" where
  "ip_string (a, b, c, d) =
     itoa (unat a) @ CHR ''.'' # itoa (unat b) @ CHR ''.'' # itoa (unat c) @ CHR ''.'' # itoa (unat d)"

definition parse_octet :: "string \<Rightarrow> 8 word option" where
  "parse_octet f =
     (case parse_digits f of
        None \<Rightarrow> None
      | Some n \<Rightarrow>
          if n \<le> 255 \<and> (length f = 1 \<or> hd f \<noteq> CHR ''0'') then Some (word_of_nat n) else None)"

definition parse_ipv4 :: "string \<Rightarrow> octets option" where
  "parse_ipv4 s =
     (case map parse_octet (split_byte (CHR ''.'') s) of
        [Some a, Some b, Some c, Some d] \<Rightarrow> Some (a, b, c, d)
      | _ \<Rightarrow> None)"

text \<open>
  \<open>net.ParseIP\<close> followed by \<open>To4\<close>: the first of \<open>.\<close>, \<open>:\<close> and
  \<open>%\<close> selects the syntax; the results are an invalid address, an address that is
  not IPv4, and an IPv4 address (which a mapped IPv6 text also denotes).
\<close>

datatype parsed_ip = BadIP | NotV4 | V4 octets

fun first_sep :: "string \<Rightarrow> char option" where
  "first_sep [] = None"
| "first_sep (c # cs) =
     (if c = CHR ''.'' \<or> c = CHR '':'' \<or> c = CHR ''%'' then Some c else first_sep cs)"

definition to4 :: "8 word list \<Rightarrow> octets option" where
  "to4 bs =
     (case drop 12 bs of
        [a, b, c, d] \<Rightarrow> if take 12 bs = replicate 10 0 @ [255, 255] then Some (a, b, c, d) else None
      | _ \<Rightarrow> None)"

definition parse_ip :: "(string \<Rightarrow> 8 word list option) \<Rightarrow> string \<Rightarrow> parsed_ip" where
  "parse_ip p6 s =
     (if first_sep s = Some (CHR ''.'') then
        (case parse_ipv4 s of None \<Rightarrow> BadIP | Some ip \<Rightarrow> V4 ip)
      else if first_sep s = Some (CHR '':'') then
        (case p6 s of
           None \<Rightarrow> BadIP
         | Some bs \<Rightarrow> (case to4 bs of None \<Rightarrow> NotV4 | Some ip \<Rightarrow> V4 ip))
      else BadIP)"

section \<open>The value of an address\<close>

lemma unat8_less: "unat (x :: 8 word) < 256"
  using unsigned_less [of x, where ?'a = nat] by simp

lemma unat32_less: "unat (x :: 32 word) < 4294967296"
  using unsigned_less [of x, where ?'a = nat] by simp

lemma unat8_minus_1: "unat (- 1 :: 8 word) = 255"
  by (simp add: unsigned_minus_1_eq_mask mask_eq_exp_minus_1)

lemma unat32_minus_1: "unat (- 1 :: 32 word) = 4294967295"
  by (simp add: unsigned_minus_1_eq_mask mask_eq_exp_minus_1)

lemma unat_push32: "n + 8 \<le> 32 \<Longrightarrow> unat (push_bit n (ucast x) :: 32 word) = 2 ^ n * unat (x :: 8 word)"
proof -
  assume n: "n + 8 \<le> 32"
  have "unat x * 2 ^ n < 2 ^ 8 * 2 ^ n"
    using unat8_less [of x] by simp
  also have "\<dots> \<le> (2 :: nat) ^ 32"
    using n by (simp only: power_add [symmetric]) (rule power_increasing, auto)
  finally have "unat x * 2 ^ n < 2 ^ 32" .
  then have "unat (word_of_nat (unat x * 2 ^ n) :: 32 word) = unat x * 2 ^ n"
    by (simp only: unsigned_of_nat) (simp add: take_bit_nat_eq_self)
  moreover have "push_bit n (ucast x :: 32 word) = word_of_nat (unat x * 2 ^ n)"
    by (simp add: push_bit_eq_mult)
  ultimately show ?thesis by (simp only: mult.commute)
qed

lemma low_digit: "(d :: nat) < 256 \<Longrightarrow> d' < 256 \<Longrightarrow> d + 256 * x = d' + 256 * x' \<Longrightarrow> d = d' \<and> x = x'"
  by (metis add_left_cancel mod_less mod_mult_self2 mult_left_cancel zero_neq_numeral)

lemma octet_sum_inj:
  assumes "(d :: nat) + 256 * c + 65536 * b + 16777216 * a = d' + 256 * c' + 65536 * b' + 16777216 * a'"
    and "a < 256" "b < 256" "c < 256" "d < 256" "a' < 256" "b' < 256" "c' < 256" "d' < 256"
  shows "a = a' \<and> b = b' \<and> c = c' \<and> d = d'"
proof -
  from assms(1) have "d + 256 * (c + 256 * (b + 256 * a)) = d' + 256 * (c' + 256 * (b' + 256 * a'))"
    by simp
  with low_digit assms(2-) show ?thesis by metis
qed

lemma octet_sum_max:
  "d + 256 * c + 65536 * b + 16777216 * a = (4294967295 :: nat) \<Longrightarrow>
     a < 256 \<Longrightarrow> b < 256 \<Longrightarrow> c < 256 \<Longrightarrow> d < 256 \<Longrightarrow> a = 255 \<and> b = 255 \<and> c = 255 \<and> d = 255"
  using octet_sum_inj [of d c b a 255 255 255 255] by simp

lemma unat_or_disjoint:
  assumes "\<And>n. \<not> bit a n \<or> \<not> bit b n" "unat a + unat b < 2 ^ 32"
  shows "unat (a OR b :: 32 word) = unat a + unat b"
proof -
  have "a OR b = a + b" using assms(1) by (simp add: disjunctive_add)
  with assms(2) show ?thesis by (simp add: unat_word_ariths)
qed

lemma unat_be32:
  "unat (be32 (a, b, c, d)) = unat d + 256 * unat c + 65536 * unat b + 16777216 * unat a"
proof -
  note lt = unat8_less [of a] unat8_less [of b] unat8_less [of c] unat8_less [of d]
  note pu = unat_push32 [of 8] unat_push32 [of 16] unat_push32 [of 24] unat_push32 [of 0]
  define u v w z :: "32 word" where
    "u = ucast d" and "v = push_bit 8 (ucast c)" and "w = push_bit 16 (ucast b)"
    and "z = push_bit 24 (ucast a)"
  have vals: "unat u = unat d" "unat v = 256 * unat c" "unat w = 65536 * unat b"
      "unat z = 16777216 * unat a"
    using pu by (simp_all add: u_def v_def w_def z_def)
  have "unat (u OR v) = unat u + unat v"
    by (rule unat_or_disjoint)
      (use vals lt in \<open>auto simp: u_def v_def bit_simps dest: bit_imp_le_length\<close>)
  moreover have "unat ((u OR v) OR w) = unat (u OR v) + unat w"
    by (rule unat_or_disjoint)
      (use calculation vals lt in \<open>auto simp: u_def v_def w_def bit_simps dest: bit_imp_le_length\<close>)
  moreover have "unat (((u OR v) OR w) OR z) = unat ((u OR v) OR w) + unat z"
    by (rule unat_or_disjoint)
      (use calculation vals lt in \<open>auto simp: u_def v_def w_def z_def bit_simps dest: bit_imp_le_length\<close>)
  moreover have "be32 (a, b, c, d) = ((u OR v) OR w) OR z"
    by (simp add: u_def v_def w_def z_def or.assoc)
  ultimately show ?thesis by (simp only: vals)
qed

lemma word8_max: "x + 1 = 0 \<Longrightarrow> unat (x :: 8 word) = 255"
proof -
  assume "x + 1 = 0"
  then have "x = -1" by (simp add: eq_neg_iff_add_eq_0)
  then show ?thesis by (simp add: unat8_minus_1)
qed

lemma word8_succ: "x + 1 \<noteq> 0 \<Longrightarrow> unat (x + 1 :: 8 word) = Suc (unat x)"
  using unatSuc [of x] by (simp add: add.commute)

lemma inc_ip_value: "unat (be32 ip) < 2 ^ 32 - 1 \<Longrightarrow> unat (be32 (inc_ip ip)) = unat (be32 ip) + 1"
proof -
  obtain a b c d where ip: "ip = (a, b, c, d)" by (metis prod_cases4)
  assume "unat (be32 ip) < 2 ^ 32 - 1"
  moreover have "unat d = 255 \<and> unat c = 255 \<and> unat b = 255 \<and> unat a = 255 \<Longrightarrow> unat (be32 ip) = 2 ^ 32 - 1"
    by (simp add: ip unat_be32 del: be32.simps)
  ultimately have "\<not> (d + 1 = 0 \<and> c + 1 = 0 \<and> b + 1 = 0 \<and> a + 1 = 0)"
    using word8_max by auto
  then show ?thesis
    by (auto simp: ip unat_be32 word8_succ dest!: word8_max simp del: be32.simps)
qed

lemma inc_ip_wrap: "unat (be32 ip) = 2 ^ 32 - 1 \<Longrightarrow> be32 (inc_ip ip) = 0"
proof -
  obtain a b c d where ip: "ip = (a, b, c, d)" by (metis prod_cases4)
  assume "unat (be32 ip) = 2 ^ 32 - 1"
  then have "unat a = 255" "unat b = 255" "unat c = 255" "unat d = 255"
    using octet_sum_max [OF _ unat8_less [of a] unat8_less [of b] unat8_less [of c] unat8_less [of d]]
    by (simp_all add: ip unat_be32 del: be32.simps)
  then have "a = -1" "b = -1" "c = -1" "d = -1"
    by (simp_all add: word_unat_eq_iff unat8_minus_1 unat32_minus_1)
  then show ?thesis by (simp add: ip)
qed

text \<open>Incrementing the octets increments the value, wrapping around at the last address.\<close>

lemma be32_inc: "be32 (inc_ip ip) = be32 ip + 1"
proof (cases "unat (be32 ip) = 2 ^ 32 - 1")
  case True
  then have "be32 ip = -1" by (simp add: word_unat_eq_iff unat8_minus_1 unat32_minus_1)
  with inc_ip_wrap [OF True] show ?thesis by simp
next
  case False
  then have "unat (be32 ip) < 2 ^ 32 - 1" using unat32_less [of "be32 ip"] by simp
  moreover from this have "unat (be32 ip + 1) = unat (be32 ip) + 1"
    by (simp add: unat_word_ariths)
  ultimately show ?thesis using inc_ip_value by (simp add: word_unat_eq_iff)
qed

lemma be32_inj: "be32 x = be32 y \<Longrightarrow> x = y"
proof -
  obtain a b c d where x: "x = (a, b, c, d)" by (metis prod_cases4)
  obtain a' b' c' d' where y: "y = (a', b', c', d')" by (metis prod_cases4)
  assume "be32 x = be32 y"
  then have "unat (be32 x) = unat (be32 y)" by simp
  then have "unat a = unat a' \<and> unat b = unat b' \<and> unat c = unat c' \<and> unat d = unat d'"
    using octet_sum_inj [OF _ unat8_less [of a] unat8_less [of b] unat8_less [of c] unat8_less [of d]
      unat8_less [of a'] unat8_less [of b'] unat8_less [of c'] unat8_less [of d']]
    by (simp add: x y unat_be32 del: be32.simps)
  then show ?thesis by (simp add: x y word_unat_eq_iff)
qed

section \<open>Masks and networks\<close>

lemma be32_and: "be32 (and_octets x m) = be32 x AND be32 m"
proof -
  obtain a b c d where x: "x = (a, b, c, d)" by (metis prod_cases4)
  obtain a' b' c' d' where m: "m = (a', b', c', d')" by (metis prod_cases4)
  show ?thesis
    by (rule bit_eqI) (auto simp: x m bit_simps dest: bit_imp_le_length)
qed

lemma contains_ip_iff:
  "contains_ip nw ip \<longleftrightarrow> be32 (fst nw) AND be32 (snd nw) = be32 ip AND be32 (snd nw)"
  by (metis be32_and be32_inj contains_ip_def)

lemma cidr_mask_value_all:
  "\<forall>k \<in> set [0..<33].
     be32 (mask_octet k, mask_octet (k - 8), mask_octet (k - 16), mask_octet (k - 24))
       = NOT (mask (32 - k))"
  by code_simp

lemma cidr_mask_Some:
  assumes "k \<le> 32"
  obtains m where "cidr_mask (int k) = Some m" "be32 m = NOT (mask (32 - k))"
  using cidr_mask_value_all assms by (auto simp: cidr_mask_def Let_def)

lemma contains_host:
  assumes "be32 m = NOT (mask h)" "be32 nw AND mask h = 0" "d < 2 ^ h"
    and ip: "be32 ip = be32 nw + word_of_nat d"
  shows "contains_ip (nw, m) ip"
proof -
  let ?b = "be32 nw" and ?d = "word_of_nat d :: 32 word"
  have low: "\<not> bit ?b n" if "n < h" for n
  proof
    assume "bit ?b n"
    moreover from this have "n < 32" by (auto dest: bit_imp_le_length)
    ultimately have "bit (?b AND mask h) n" using that by (simp add: bit_simps)
    with assms(2) show False by simp
  qed
  have highd: "\<not> bit d n" if "h \<le> n" for n
    using assms(3) that by (metis bit_take_bit_iff not_le take_bit_nat_eq_self)
  then have high: "\<not> bit ?d n" if "h \<le> n" for n
    using that by (simp add: bit_simps)
  have "?b + ?d = ?b OR ?d"
    by (rule disjunctive_add) (metis high low not_le_imp_less)
  then have "be32 ip AND NOT (mask h) = ?b AND NOT (mask h)"
    unfolding ip by (auto intro!: bit_eqI simp: bit_simps not_less dest: highd)
  then show ?thesis using assms(1) by (simp add: contains_ip_iff)
qed

section \<open>The text of an address\<close>

lemma split_byte_append:
  "b \<notin> set x \<Longrightarrow> split_byte b (x @ b # y) = x # split_byte b y"
  by (induction x) auto

lemma itoa_lead: "length (itoa n) = 1 \<or> hd (itoa n) \<noteq> CHR ''0''"
  using hd_itoa [of n] by (cases "n = 0") (simp_all add: itoa_zero)

lemma parse_octet_itoa: "parse_octet (itoa (unat w)) = Some w"
  using unat8_less [of w] itoa_lead [of "unat w"] by (simp add: parse_octet_def)

lemma dot_not_in_itoa [simp]: "CHR ''.'' \<notin> set (itoa n)"
  by (rule not_in_itoa) (simp add: is_digit_def)

lemma parse_ipv4_string [simp]: "parse_ipv4 (ip_string ip) = Some ip"
  by (cases ip) (simp add: parse_ipv4_def split_byte_append parse_octet_itoa)

lemma ip_string_inj: "ip_string x = ip_string y \<longleftrightarrow> x = y"
  by (metis option.inject parse_ipv4_string)

end
