(* ===== verification/Json.thy ===== *)
theory Json
  imports Go_Strings
begin

text \<open>
  The part of Go's \<open>encoding/json\<close> that the repository uses: the values, the
  indenting encoder behind \<open>json.MarshalIndent(v, "", "  ")\<close>, and the parser
  behind \<open>json.Unmarshal\<close>. The parser's recursion carries fuel; the lemmas
  \<open>parse_value_enough\<close> and \<open>json_parse_fuel\<close> show that the fuel
  \<open>json_parse\<close> gives never decides an outcome, and \<open>json_parse_indent\<close> is
  the round trip. Strings are byte strings; the escapes are Go's (including the HTML
  escapes of \<open><\<close>, \<open>>\<close> and \<open>&\<close>). Bytes above 127 pass through in
  both directions, which is what Go does for valid UTF-8 (except that it escapes
  U+2028 and U+2029). A number is kept as its literal, as the decoder reads it into the
  target type later.
\<close>

datatype json =
    JNull
  | JBool bool
  | JNum string
  | JStr string
  | JArr "json list"
  | JObj "(string \<times> json) list"

section \<open>Strings\<close>

definition hex_digit :: "nat \<Rightarrow> char" where
  "hex_digit d = (if d < 10 then char_of (48 + d) else char_of (87 + d))"

definition hex_val :: "char \<Rightarrow> nat option" where
  "hex_val c = (let n = of_char c :: nat in
     if 48 \<le> n \<and> n \<le> 57 then Some (n - 48)
     else if 97 \<le> n \<and> n \<le> 102 then Some (n - 87)
     else if 65 \<le> n \<and> n \<le> 70 then Some (n - 55)
     else None)"

definition hex4 :: "char \<Rightarrow> char \<Rightarrow> char \<Rightarrow> char \<Rightarrow> nat option" where
  "hex4 a b c d =
     (case (hex_val a, hex_val b, hex_val c, hex_val d) of
        (Some w, Some x, Some y, Some z) \<Rightarrow> Some (((w * 16 + x) * 16 + y) * 16 + z)
      | _ \<Rightarrow> None)"

definition utf8 :: "nat \<Rightarrow> string" where
  "utf8 u =
     (if u < 128 then [char_of u]
      else if u < 2048 then [char_of (192 + u div 64), char_of (128 + u mod 64)]
      else if u < 65536 then
        [char_of (224 + u div 4096), char_of (128 + u div 64 mod 64), char_of (128 + u mod 64)]
      else
        [char_of (240 + u div 262144), char_of (128 + u div 4096 mod 64),
         char_of (128 + u div 64 mod 64), char_of (128 + u mod 64)])"

definition enc_char :: "char \<Rightarrow> string" where
  "enc_char c = (let n = of_char c :: nat in
     if n = 34 \<or> n = 92 then [CHR 0x5C, c]
     else if n = 8 then [CHR 0x5C, CHR ''b'']
     else if n = 12 then [CHR 0x5C, CHR ''f'']
     else if n = 10 then [CHR 0x5C, CHR ''n'']
     else if n = 13 then [CHR 0x5C, CHR ''r'']
     else if n = 9 then [CHR 0x5C, CHR ''t'']
     else if n < 32 \<or> n = 60 \<or> n = 62 \<or> n = 38 then
       [CHR 0x5C, CHR ''u'', CHR ''0'', CHR ''0'', hex_digit (n div 16), hex_digit (n mod 16)]
     else [c])"

definition enc_str :: "string \<Rightarrow> string" where
  "enc_str s = CHR 0x22 # concat (map enc_char s) @ [CHR 0x22]"

text \<open>
  \<open>scan_str acc s\<close> reads the rest of a string after its opening quote. A high
  surrogate followed by a low one is one code point, any other surrogate is U+FFFD.
\<close>

definition is_high :: "nat \<Rightarrow> bool" where
  "is_high u \<longleftrightarrow> 0xD800 \<le> u \<and> u < 0xDC00"

definition is_low :: "nat \<Rightarrow> bool" where
  "is_low u \<longleftrightarrow> 0xDC00 \<le> u \<and> u < 0xE000"

definition simple_escape :: "char \<Rightarrow> char option" where
  "simple_escape e =
     (if e = CHR 0x22 \<or> e = CHR 0x5C \<or> e = CHR ''/'' then Some e
      else if e = CHR ''b'' then Some (CHR 0x08)
      else if e = CHR ''f'' then Some (CHR 0x0C)
      else if e = CHR ''n'' then Some (CHR 0x0A)
      else if e = CHR ''r'' then Some (CHR 0x0D)
      else if e = CHR ''t'' then Some (CHR 0x09)
      else None)"

text \<open>The low surrogate escape at the head of the input, if there is one.\<close>

definition low_escape :: "string \<Rightarrow> (nat \<times> string) option" where
  "low_escape s =
     (case s of
        x # y # a # b # c # d # rest \<Rightarrow>
          if x = CHR 0x5C \<and> y = CHR ''u'' then
            (case hex4 a b c d of
               Some u \<Rightarrow> if is_low u then Some (u, rest) else None
             | None \<Rightarrow> None)
          else None
      | _ \<Rightarrow> None)"

text \<open>What follows a backslash: the bytes it stands for and the rest of the input.\<close>

definition read_unicode :: "nat \<Rightarrow> string \<Rightarrow> string \<times> string" where
  "read_unicode u rest =
     (if is_high u then
        (case low_escape rest of
           Some (l, rest') \<Rightarrow> (utf8 (0x10000 + (u - 0xD800) * 1024 + (l - 0xDC00)), rest')
         | None \<Rightarrow> (utf8 0xFFFD, rest))
      else if is_low u then (utf8 0xFFFD, rest)
      else (utf8 u, rest))"

definition read_escape :: "string \<Rightarrow> (string \<times> string) option" where
  "read_escape s =
     (case s of
        [] \<Rightarrow> None
      | e # es \<Rightarrow>
          if e = CHR ''u'' then
            (case es of
               a # b # c # d # rest \<Rightarrow> map_option (\<lambda>u. read_unicode u rest) (hex4 a b c d)
             | _ \<Rightarrow> None)
          else map_option (\<lambda>z. ([z], es)) (simple_escape e))"

lemma low_escape_length: "low_escape s = Some (u, r) \<Longrightarrow> length r < length s"
  by (auto simp: low_escape_def split: list.splits if_splits option.splits)

lemma read_unicode_length: "length (snd (read_unicode u s)) \<le> length s"
  by (auto simp: read_unicode_def split: option.splits dest: low_escape_length)

lemma read_escape_length: "read_escape s = Some (bs, r) \<Longrightarrow> length r < length s"
  using read_unicode_length
  by (fastforce simp: read_escape_def less_Suc_eq_le dest: arg_cong [of _ _ snd]
      intro: order_trans split: list.splits if_splits)

function scan_str :: "string \<Rightarrow> string \<Rightarrow> (string \<times> string) option" where
  "scan_str acc [] = None"
| "scan_str acc (c # cs) =
     (if c = CHR 0x22 then Some (rev acc, cs)
      else if c = CHR 0x5C then
        (case read_escape cs of
           None \<Rightarrow> None
         | Some (bs, rest) \<Rightarrow> scan_str (rev bs @ acc) rest)
      else if (of_char c :: nat) < 32 then None
      else scan_str (c # acc) cs)"
  by pat_completeness auto
termination
  by (relation "measure (\<lambda>(acc, s). length s)") (auto dest: read_escape_length)

declare scan_str.simps(2) [simp del]

lemma scan_str_length: "scan_str acc s = Some (t, r) \<Longrightarrow> length r < length s"
proof (induction acc s rule: scan_str.induct)
  case (2 acc c cs)
  show ?case
  proof (cases "c = CHR 0x5C")
    case True
    with "2.prems" obtain bs r' where "read_escape cs = Some (bs, r')"
        and "scan_str (rev bs @ acc) r' = Some (t, r)"
      by (auto simp: scan_str.simps(2) split: option.splits)
    with True "2.IH"(1) [of "(bs, r')" bs r'] show ?thesis
      by (auto dest: read_escape_length)
  next
    case False
    with "2.prems" "2.IH"(2) show ?thesis
      by (auto simp: scan_str.simps(2) split: if_splits)
  qed
qed simp

text \<open>The scanner reads back what the encoder wrote.\<close>

lemma hex_val_hex_digit: "d < 16 \<Longrightarrow> hex_val (hex_digit d) = Some d"
  by (auto simp: hex_val_def hex_digit_def Let_def)

lemma hex_val_0: "hex_val (CHR ''0'') = Some 0"
  by (simp add: hex_val_def)

lemma scan_enc_char: "scan_str acc (enc_char c @ s) = scan_str (c # acc) s"
proof (cases "c \<in> {CHR 0x22, CHR 0x5C, CHR 0x08, CHR 0x0C, CHR 0x0A, CHR 0x0D, CHR 0x09}")
  case True
  then show ?thesis
    by (elim insertE; simp add: enc_char_def scan_str.simps(2) read_escape_def simple_escape_def)
next
  case special: False
  define n where "n = (of_char c :: nat)"
  have c: "c = char_of n" by (simp add: n_def)
  have "\<forall>d \<in> {CHR 0x22, CHR 0x5C, CHR 0x08, CHR 0x0C, CHR 0x0A, CHR 0x0D, CHR 0x09}. n \<noteq> of_char d"
    using special by (simp add: n_def del: of_char_Char)
  then have ne: "n \<notin> {34, 92, 8, 12, 10, 13, 9}"
    by simp
  show ?thesis
  proof (cases "n < 32 \<or> n = 60 \<or> n = 62 \<or> n = 38")
    case True
    then have n: "n < 64" by auto
    then have "hex4 (CHR ''0'') (CHR ''0'') (hex_digit (n div 16)) (hex_digit (n mod 16)) = Some n"
      by (simp add: hex4_def hex_val_hex_digit hex_val_0)
    moreover have "read_unicode n s = ([c], s)"
      using n by (simp add: read_unicode_def is_high_def is_low_def utf8_def c)
    ultimately show ?thesis
      using True ne by (simp add: enc_char_def n_def [symmetric] scan_str.simps(2) read_escape_def)
  next
    case False
    with special ne show ?thesis
      by (simp add: enc_char_def n_def [symmetric] scan_str.simps(2))
  qed
qed

lemma scan_enc_chars:
  "scan_str acc (concat (map enc_char t) @ CHR 0x22 # s) = Some (rev acc @ t, s)"
  by (induction t arbitrary: acc) (simp_all add: scan_enc_char scan_str.simps(2))

section \<open>Parsing values\<close>

definition is_json_ws :: "char \<Rightarrow> bool" where
  "is_json_ws c \<longleftrightarrow> c \<in> {CHR '' '', CHR 0x09, CHR 0x0A, CHR 0x0D}"

definition skip_ws :: "string \<Rightarrow> string" where
  "skip_ws = dropWhile is_json_ws"

text \<open>
  A number: optional minus, a zero or a nonzero digit and more digits, optional fraction,
  optional exponent. \<open>None\<close> when a part is missing.
\<close>

definition scan_digits :: "string \<Rightarrow> (string \<times> string) option" where
  "scan_digits s =
     (let ds = takeWhile is_digit s in if ds = [] then None else Some (ds, drop (length ds) s))"

definition scan_int :: "string \<Rightarrow> (string \<times> string) option" where
  "scan_int s =
     (case s of c # cs \<Rightarrow> if c = CHR ''0'' then Some ([c], cs) else scan_digits s | [] \<Rightarrow> None)"

definition scan_frac :: "string \<Rightarrow> (string \<times> string) option" where
  "scan_frac s =
     (case s of
        c # cs \<Rightarrow>
          if c = CHR ''.'' then map_option (\<lambda>(ds, r). (c # ds, r)) (scan_digits cs) else Some ([], s)
      | [] \<Rightarrow> Some ([], []))"

definition scan_exp :: "string \<Rightarrow> (string \<times> string) option" where
  "scan_exp s =
     (case s of
        c # cs \<Rightarrow>
          if c = CHR ''e'' \<or> c = CHR ''E'' then
            (case cs of
               g # gs \<Rightarrow>
                 if g = CHR ''+'' \<or> g = CHR ''-''
                 then map_option (\<lambda>(ds, r). (c # g # ds, r)) (scan_digits gs)
                 else map_option (\<lambda>(ds, r). (c # ds, r)) (scan_digits cs)
             | [] \<Rightarrow> None)
          else Some ([], s)
      | [] \<Rightarrow> Some ([], []))"

definition scan_num :: "string \<Rightarrow> (string \<times> string) option" where
  "scan_num s =
     (let (sgn, body) = (case s of c # cs \<Rightarrow> if c = CHR ''-'' then ([c], cs) else ([], s) | [] \<Rightarrow> ([], []))
      in case scan_int body of
           None \<Rightarrow> None
         | Some (i, r) \<Rightarrow>
             (case scan_frac r of
                None \<Rightarrow> None
              | Some (f, r') \<Rightarrow>
                  map_option (\<lambda>(e, r''). (sgn @ i @ f @ e, r'')) (scan_exp r')))"

fun parse_value :: "nat \<Rightarrow> string \<Rightarrow> (json \<times> string) option"
  and parse_elems :: "nat \<Rightarrow> string \<Rightarrow> (json list \<times> string) option"
  and parse_members :: "nat \<Rightarrow> string \<Rightarrow> ((string \<times> json) list \<times> string) option"
where
  "parse_value 0 s = None"
| "parse_value (Suc n) s =
     (case skip_ws s of
        [] \<Rightarrow> None
      | c # cs \<Rightarrow>
          if c = CHR 0x22 then map_option (\<lambda>(t, r). (JStr t, r)) (scan_str [] cs)
          else if c = CHR ''{'' then
            (case skip_ws cs of
               [] \<Rightarrow> None
             | d # ds \<Rightarrow>
                 if d = CHR ''}'' then Some (JObj [], ds)
                 else map_option (\<lambda>(ms, r). (JObj ms, r)) (parse_members n (d # ds)))
          else if c = CHR ''['' then
            (case skip_ws cs of
               [] \<Rightarrow> None
             | d # ds \<Rightarrow>
                 if d = CHR '']'' then Some (JArr [], ds)
                 else map_option (\<lambda>(vs, r). (JArr vs, r)) (parse_elems n (d # ds)))
          else if has_prefix (c # cs) ''null'' then Some (JNull, drop 3 cs)
          else if has_prefix (c # cs) ''true'' then Some (JBool True, drop 3 cs)
          else if has_prefix (c # cs) ''false'' then Some (JBool False, drop 4 cs)
          else map_option (\<lambda>(t, r). (JNum t, r)) (scan_num (c # cs)))"
| "parse_elems 0 s = None"
| "parse_elems (Suc n) s =
     (case parse_value n s of
        None \<Rightarrow> None
      | Some (v, r) \<Rightarrow>
          (case skip_ws r of
             [] \<Rightarrow> None
           | c # cs \<Rightarrow>
               if c = CHR '']'' then Some ([v], cs)
               else if c = CHR '','' then
                 map_option (\<lambda>(vs, r'). (v # vs, r')) (parse_elems n cs)
               else None))"
| "parse_members 0 s = None"
| "parse_members (Suc n) s =
     (case skip_ws s of
        [] \<Rightarrow> None
      | q # qs \<Rightarrow>
          if q = CHR 0x22 then
            (case scan_str [] qs of
               None \<Rightarrow> None
             | Some (k, r) \<Rightarrow>
                 (case skip_ws r of
                    [] \<Rightarrow> None
                  | c # cs \<Rightarrow>
                      if c = CHR '':'' then
                        (case parse_value n cs of
                           None \<Rightarrow> None
                         | Some (v, r') \<Rightarrow>
                             (case skip_ws r' of
                                [] \<Rightarrow> None
                              | d # ds \<Rightarrow>
                                  if d = CHR ''}'' then Some ([(k, v)], ds)
                                  else if d = CHR '','' then
                                    map_option (\<lambda>(ms, r''). ((k, v) # ms, r'')) (parse_members n ds)
                                  else None))
                      else None))
          else None)"

text \<open>\<open>json.Unmarshal\<close> to a value: one value, then only white space.\<close>

definition json_parse :: "string \<Rightarrow> json option" where
  "json_parse s =
     (case parse_value (2 * length s + 2) s of
        None \<Rightarrow> None
      | Some (v, r) \<Rightarrow> if skip_ws r = [] then Some v else None)"

text \<open>Each parser returns a shorter rest, and enough fuel for the length is enough.\<close>

lemma skip_ws_length: "length (skip_ws s) \<le> length s"
  by (simp add: skip_ws_def length_dropWhile_le)

lemma skip_ws_Cons_length: "skip_ws s = c # cs \<Longrightarrow> length cs < length s"
  using skip_ws_length [of s] by simp

lemma scan_digits_length: "scan_digits s = Some (t, r) \<Longrightarrow> length r < length s"
  by (cases s) (auto simp: scan_digits_def Let_def split: if_splits)

lemma scan_int_length: "scan_int s = Some (t, r) \<Longrightarrow> length r < length s"
  by (auto simp: scan_int_def split: list.splits if_splits dest: scan_digits_length)

lemma scan_frac_length: "scan_frac s = Some (t, r) \<Longrightarrow> length r \<le> length s"
  by (auto simp: scan_frac_def split: list.splits if_splits dest: scan_digits_length)

lemma scan_exp_length: "scan_exp s = Some (t, r) \<Longrightarrow> length r \<le> length s"
  by (auto simp: scan_exp_def split: list.splits if_splits dest: scan_digits_length)

lemma scan_num_length: "scan_num s = Some (t, r) \<Longrightarrow> length r < length s"
  by (fastforce simp: scan_num_def split: list.splits if_splits option.splits
      dest: scan_int_length scan_frac_length scan_exp_length)

lemmas scan_lengths = scan_str_length scan_num_length skip_ws_Cons_length

lemma parse_lengths:
  "parse_value n s = Some (v, r) \<Longrightarrow> length r < length s"
  "parse_elems n s = Some (vs, r) \<Longrightarrow> length r < length s"
  "parse_members n s = Some (ms, r) \<Longrightarrow> length r < length s"
proof (induction n s and n s and n s arbitrary: v r and vs r and ms r
    rule: parse_value_parse_elems_parse_members.induct)
  case (2 n s)
  then show ?case
    by (fastforce split: list.splits if_splits dest: scan_lengths)
next
  case (4 n s)
  then show ?case
    by (fastforce split: list.splits if_splits option.splits dest: scan_lengths)
next
  case (6 n s)
  then show ?case
    by (fastforce split: list.splits if_splits option.splits dest: scan_lengths)
qed simp_all

declare parse_value.simps(2) [simp del] parse_elems.simps(2) [simp del]
  parse_members.simps(2) [simp del]

lemma parse_value_enough:
  "2 * length s + 1 \<le> n \<Longrightarrow> parse_value (Suc n) s = parse_value n s"
  "2 * length s + 2 \<le> n \<Longrightarrow> parse_elems (Suc n) s = parse_elems n s"
  "2 * length s + 1 \<le> n \<Longrightarrow> parse_members (Suc n) s = parse_members n s"
proof (induction n arbitrary: s)
  case (Suc n)
  {
    case 1
    have "parse_members (Suc n) (d # ds) = parse_members n (d # ds)"
      and "parse_elems (Suc n) (d # ds) = parse_elems n (d # ds)"
      if "skip_ws s = c # cs" "skip_ws cs = d # ds" for c cs d ds
      using that 1 skip_ws_Cons_length [of s c cs] skip_ws_length [of cs] Suc.IH(2,3) [of "d # ds"]
      by auto
    then show ?case
      by (auto simp: parse_value.simps(2) split: list.split)
  next
    case 2
    then have "parse_value (Suc n) s = parse_value n s"
      by (intro Suc.IH(1)) simp
    moreover have "parse_elems (Suc n) cs = parse_elems n cs"
      if "parse_value n s = Some (v, r)" "skip_ws r = c # cs" for v r c cs
      using that 2 parse_lengths(1) [of n s v r] skip_ws_Cons_length [of r c cs]
      by (intro Suc.IH(2)) simp
    ultimately show ?case
      by (auto simp: parse_elems.simps(2) split: list.split option.split)
  next
    case 3
    have v: "parse_value (Suc n) cs = parse_value n cs"
      if "skip_ws s = q # qs" "scan_str [] qs = Some (k, r)" "skip_ws r = c # cs" for q qs k r c cs
      using that 3 scan_str_length [of "[]" qs k r] skip_ws_Cons_length [of s q qs]
        skip_ws_Cons_length [of r c cs]
      by (intro Suc.IH(1)) simp
    have m: "parse_members (Suc n) ds = parse_members n ds"
      if "skip_ws s = q # qs" "scan_str [] qs = Some (k, r)" "skip_ws r = c # cs"
        "parse_value n cs = Some (w, r')" "skip_ws r' = d # ds" for q qs k r c cs w r' d ds
      using that 3 scan_str_length [of "[]" qs k r] skip_ws_Cons_length [of s q qs]
        skip_ws_Cons_length [of r c cs] parse_lengths(1) [of n cs w r']
        skip_ws_Cons_length [of r' d ds]
      by (intro Suc.IH(3)) simp
    show ?case
    proof (cases "skip_ws s")
      case (Cons q qs)
      show ?thesis
      proof (cases "scan_str [] qs")
        case (Some kr)
        obtain k r where kr: "kr = (k, r)" by (cases kr)
        show ?thesis
        proof (cases "skip_ws r")
          case (Cons c cs)
          note st = \<open>skip_ws s = q # qs\<close> Some [unfolded kr] Cons
          show ?thesis
            by (subst parse_members.simps(2), subst (2) parse_members.simps(2))
               (auto simp: st v [OF st] m [OF st] split: option.split list.split)
        qed (simp add: parse_members.simps(2) Cons Some kr)
      qed (simp add: parse_members.simps(2) Cons)
    qed (simp add: parse_members.simps(2))
  }
qed simp_all

lemma parse_value_fuel: "2 * length s + 1 \<le> n \<Longrightarrow> parse_value n s = parse_value (2 * length s + 1) s"
proof (induction n)
  case (Suc n)
  then show ?case
    using parse_value_enough(1) [of s n] by (cases "2 * length s + 1 = Suc n") simp_all
qed simp

lemma json_parse_fuel:
  "2 * length s + 2 \<le> n \<Longrightarrow> json_parse s =
     (case parse_value n s of
        None \<Rightarrow> None
      | Some (v, r) \<Rightarrow> if skip_ws r = [] then Some v else None)"
  using parse_value_fuel [of s n] parse_value_fuel [of s "2 * length s + 2"]
  by (simp add: json_parse_def)

section \<open>Encoding values\<close>

text \<open>
  One encoder for both layouts: \<open>nl d\<close> is what goes before a line at depth
  \<open>d\<close> (nothing in the compact form of \<open>json.Marshal\<close>) and \<open>sp\<close> what
  goes after a colon.
\<close>

fun json_enc :: "(nat \<Rightarrow> string) \<Rightarrow> string \<Rightarrow> nat \<Rightarrow> json \<Rightarrow> string"
  and enc_elems :: "(nat \<Rightarrow> string) \<Rightarrow> string \<Rightarrow> nat \<Rightarrow> json list \<Rightarrow> string"
  and enc_members :: "(nat \<Rightarrow> string) \<Rightarrow> string \<Rightarrow> nat \<Rightarrow> (string \<times> json) list \<Rightarrow> string"
where
  "json_enc nl sp d JNull = ''null''"
| "json_enc nl sp d (JBool b) = (if b then ''true'' else ''false'')"
| "json_enc nl sp d (JNum t) = t"
| "json_enc nl sp d (JStr t) = enc_str t"
| "json_enc nl sp d (JArr []) = ''[]''"
| "json_enc nl sp d (JArr (v # vs)) =
     CHR ''['' # enc_elems nl sp (Suc d) (v # vs) @ nl d @ '']''"
| "json_enc nl sp d (JObj []) = ''{}''"
| "json_enc nl sp d (JObj (m # ms)) =
     CHR ''{'' # enc_members nl sp (Suc d) (m # ms) @ nl d @ ''}''"
| "enc_elems nl sp d [] = []"
| "enc_elems nl sp d [v] = nl d @ json_enc nl sp d v"
| "enc_elems nl sp d (v # w # vs) =
     nl d @ json_enc nl sp d v @ CHR '','' # enc_elems nl sp d (w # vs)"
| "enc_members nl sp d [] = []"
| "enc_members nl sp d [(k, v)] = nl d @ enc_str k @ CHR '':'' # sp @ json_enc nl sp d v"
| "enc_members nl sp d ((k, v) # m # ms) =
     nl d @ enc_str k @ CHR '':'' # sp @ json_enc nl sp d v @ CHR '','' # enc_members nl sp d (m # ms)"

definition indent_line :: "nat \<Rightarrow> string" where
  "indent_line d = CHR 0x0A # replicate (2 * d) (CHR '' '')"

definition marshal_indent :: "json \<Rightarrow> string" where
  "marshal_indent v = json_enc indent_line '' '' 0 v"

definition marshal :: "json \<Rightarrow> string" where
  "marshal v = json_enc (\<lambda>_. []) [] 0 v"

text \<open>Values whose numbers are integers, the only ones the repository writes.\<close>

primrec int_json :: "json \<Rightarrow> bool" where
  "int_json JNull = True"
| "int_json (JBool b) = True"
| "int_json (JNum t) = (\<exists>i. t = itoa_int i)"
| "int_json (JStr t) = True"
| "int_json (JArr vs) = list_all int_json vs"
| "int_json (JObj ms) = list_all (\<lambda>m. pred_prod (\<lambda>_. True) int_json m) ms"

definition num_stop :: "string \<Rightarrow> bool" where
  "num_stop s = (case s of [] \<Rightarrow> True | c # _ \<Rightarrow> \<not> is_digit c \<and> c \<notin> {CHR ''.'', CHR ''e'', CHR ''E''})"

definition all_ws :: "string \<Rightarrow> bool" where
  "all_ws s = list_all is_json_ws s"

lemma skip_all_ws [simp]: "all_ws w \<Longrightarrow> skip_ws (w @ s) = skip_ws s"
  by (induction w) (auto simp: all_ws_def skip_ws_def)

lemma skip_ws_stop [simp]: "\<not> is_json_ws c \<Longrightarrow> skip_ws (c # s) = c # s"
  by (simp add: skip_ws_def)

lemma parse_value_ws: "all_ws w \<Longrightarrow> parse_value n (w @ s) = parse_value n s"
  by (cases n) (simp_all add: parse_value.simps(2))

lemma parse_members_ws: "all_ws w \<Longrightarrow> parse_members n (w @ s) = parse_members n s"
  by (cases n) (simp_all add: parse_members.simps(2))

lemma num_stop_simps [simp]:
  "num_stop []" "num_stop (CHR '','' # s)" "num_stop (CHR '']'' # s)" "num_stop (CHR ''}'' # s)"
  by (simp_all add: num_stop_def is_digit_def)

lemma num_stop_ws: "all_ws w \<Longrightarrow> num_stop s \<Longrightarrow> num_stop (w @ s)"
  by (cases w) (auto simp: num_stop_def all_ws_def is_json_ws_def is_digit_def)

text \<open>Integer literals.\<close>

lemma scan_digits_all:
  assumes "list_all is_digit ds" "ds \<noteq> []" "num_stop s"
  shows "scan_digits (ds @ s) = Some (ds, s)"
proof -
  have "takeWhile is_digit (ds @ s) = ds"
    using assms by (auto simp: list_all_iff takeWhile_append num_stop_def split: list.splits)
  with assms show ?thesis by (simp add: scan_digits_def)
qed

lemma scan_int_itoa: "num_stop s \<Longrightarrow> scan_int (itoa n @ s) = Some (itoa n, s)"
proof (cases "n = 0")
  case True
  then show ?thesis by (simp add: itoa_zero scan_int_def)
next
  case False
  moreover assume "num_stop s"
  moreover obtain c cs where c: "itoa n = c # cs" by (metis itoa_not_Nil list.exhaust)
  ultimately show ?thesis
    using hd_itoa [of n] scan_digits_all [OF itoa_digits [of n] itoa_not_Nil]
    by (simp add: scan_int_def)
qed

lemma scan_rest_stop: "num_stop s \<Longrightarrow> scan_frac s = Some ([], s) \<and> scan_exp s = Some ([], s)"
  by (auto simp: num_stop_def scan_frac_def scan_exp_def split: list.splits)

lemma itoa_Cons: obtains c cs where "itoa n = c # cs" "is_digit c"
  using itoa_digits [of n] by (cases "itoa n") auto

lemma scan_num_itoa_int: "num_stop s \<Longrightarrow> scan_num (itoa_int i @ s) = Some (itoa_int i, s)"
proof -
  assume s: "num_stop s"
  obtain c cs where "itoa (nat i) = c # cs" "is_digit c" by (rule itoa_Cons)
  then have "c \<noteq> CHR ''-''" by (auto simp: is_digit_def)
  with \<open>itoa (nat i) = c # cs\<close> s scan_int_itoa [OF s, of "nat i"] scan_int_itoa [OF s, of "nat (- i)"]
    scan_rest_stop [OF s]
  show ?thesis
    by (auto simp: scan_num_def itoa_int_def Let_def)
qed

text \<open>
  The round trip, for every layout made of white space: a parser run on the encoding, with
  anything after it, reads the value back and stops where the encoding ends.
\<close>

definition reads :: "(nat \<Rightarrow> string \<Rightarrow> ('a \<times> string) option) \<Rightarrow> string \<Rightarrow> 'a \<Rightarrow> string \<Rightarrow> bool" where
  "reads p s v r \<longleftrightarrow> (\<exists>N. \<forall>n \<ge> N. p n s = Some (v, r))"

lemma readsI: "(\<And>n. p (Suc n) s = Some (v, r)) \<Longrightarrow> reads p s v r"
  unfolding reads_def by (metis Suc_le_D)

lemma reads_mono:
  assumes "reads q t w u" "\<And>n. q n t = Some (w, u) \<Longrightarrow> p (Suc n) s = Some (v, r)"
  shows "reads p s v r"
proof -
  from assms(1) obtain N where "\<forall>n \<ge> N. q n t = Some (w, u)" unfolding reads_def by blast
  then have "\<forall>n \<ge> Suc N. p n s = Some (v, r)" using assms(2) by (metis Suc_le_D Suc_le_mono)
  then show ?thesis unfolding reads_def by blast
qed

lemma reads_mono2:
  assumes "reads q t w u" "reads q' t' w' u'"
    "\<And>n. q n t = Some (w, u) \<Longrightarrow> q' n t' = Some (w', u') \<Longrightarrow> p (Suc n) s = Some (v, r)"
  shows "reads p s v r"
proof -
  from assms(1,2) obtain N M where
    "\<forall>n \<ge> N. q n t = Some (w, u)" "\<forall>n \<ge> M. q' n t' = Some (w', u')"
    unfolding reads_def by blast
  then have "\<forall>n \<ge> Suc (max N M). p n s = Some (v, r)"
    using assms(3) by (metis Suc_le_D Suc_le_mono max.bounded_iff)
  then show ?thesis unfolding reads_def by blast
qed

text \<open>How the encoding of a value starts.\<close>

lemma enc_str_append: "enc_str t @ s = CHR 0x22 # concat (map enc_char t) @ CHR 0x22 # s"
  by (simp add: enc_str_def)

lemma parse_value_num:
  assumes "num_stop s"
  shows "parse_value (Suc n) (itoa_int i @ s) = Some (JNum (itoa_int i), s)"
proof -
  obtain c cs where c: "itoa_int i = c # cs" "is_digit c \<or> c = CHR ''-''"
    by (metis itoa_Cons itoa_int_def)
  then have "c \<notin> {CHR 0x22, CHR ''{'', CHR ''['', CHR ''n'', CHR ''t'', CHR ''f''}" "\<not> is_json_ws c"
    by (auto simp: is_digit_def is_json_ws_def)
  with c scan_num_itoa_int [OF assms, of i] show ?thesis
    by (simp add: parse_value.simps(2) has_prefix_def)
qed

definition value_start :: "string \<Rightarrow> bool" where
  "value_start s \<longleftrightarrow> (\<exists>c cs. s = c # cs \<and> \<not> is_json_ws c \<and> c \<noteq> CHR '']'' \<and> c \<noteq> CHR ''}'')"

lemma value_start_enc: "int_json v \<Longrightarrow> value_start (json_enc nl sp d v @ s)"
proof (induction v)
  case (JNum t)
  then obtain i where "t = itoa_int i" by auto
  moreover obtain c cs where "itoa_int i = c # cs" "is_digit c \<or> c = CHR ''-''"
    by (metis itoa_Cons itoa_int_def)
  ultimately show ?case by (auto simp: value_start_def is_digit_def is_json_ws_def)
next
  case (JArr vs) then show ?case by (cases vs) (auto simp: value_start_def is_json_ws_def)
next
  case (JObj ms) then show ?case by (cases ms) (auto simp: value_start_def is_json_ws_def)
qed (auto simp: value_start_def is_json_ws_def enc_str_def)

lemma elems_start:
  assumes "all_ws (nl d)" "int_json v"
  shows "\<exists>c cs. skip_ws (enc_elems nl sp d (v # vs) @ s) = c # cs \<and> c \<noteq> CHR '']''
    \<and> (\<forall>n. parse_elems n (c # cs) = parse_elems n (enc_elems nl sp d (v # vs) @ s))"
proof -
  obtain t where t: "enc_elems nl sp d (v # vs) @ s = nl d @ json_enc nl sp d v @ t"
    by (cases vs) auto
  obtain c cs where c: "json_enc nl sp d v @ t = c # cs" "\<not> is_json_ws c" "c \<noteq> CHR '']''"
    using value_start_enc [OF assms(2), of nl sp d t] by (auto simp: value_start_def)
  have "parse_elems n (nl d @ c # cs) = parse_elems n (c # cs)" for n
    using assms(1) by (cases n) (simp_all add: parse_elems.simps(2) parse_value_ws)
  then show ?thesis using c assms(1) by (auto simp: t)
qed

lemma members_start:
  assumes "all_ws (nl d)"
  shows "\<exists>cs. skip_ws (enc_members nl sp d (m # ms) @ s) = CHR 0x22 # cs
    \<and> (\<forall>n. parse_members n (CHR 0x22 # cs) = parse_members n (enc_members nl sp d (m # ms) @ s))"
proof -
  obtain t where t: "enc_members nl sp d (m # ms) @ s = nl d @ CHR 0x22 # t"
    by (cases ms; cases m) (auto simp: enc_str_append)
  then show ?thesis using assms by (auto simp: parse_members_ws is_json_ws_def)
qed

lemma json_enc_reads:
  "\<forall>d. all_ws (nl d) \<Longrightarrow> all_ws sp \<Longrightarrow> int_json v \<Longrightarrow> num_stop s \<Longrightarrow>
     reads parse_value (json_enc nl sp d v @ s) v s"
  "\<forall>d. all_ws (nl d) \<Longrightarrow> all_ws sp \<Longrightarrow> list_all int_json vs \<Longrightarrow> vs \<noteq> [] \<Longrightarrow> all_ws w \<Longrightarrow>
     reads parse_elems (enc_elems nl sp d vs @ w @ CHR '']'' # s) vs s"
  "\<forall>d. all_ws (nl d) \<Longrightarrow> all_ws sp \<Longrightarrow> list_all (\<lambda>m. pred_prod (\<lambda>_. True) int_json m) ms \<Longrightarrow>
     ms \<noteq> [] \<Longrightarrow> all_ws w \<Longrightarrow>
     reads parse_members (enc_members nl sp d ms @ w @ CHR ''}'' # s) ms s"
proof (induction nl sp d v and nl sp d vs and nl sp d ms arbitrary: s and s w and s w
    rule: json_enc_enc_elems_enc_members.induct)
  case (3 nl sp d t)
  then show ?case by (auto intro!: readsI simp: parse_value_num)
next
  case (4 nl sp d t)
  show ?case
    by (rule readsI)
       (simp add: enc_str_append parse_value.simps(2) is_json_ws_def scan_enc_chars)
next
  case (6 nl sp d v vs)
  then have r: "reads parse_elems (enc_elems nl sp (Suc d) (v # vs) @ nl d @ CHR '']'' # s) (v # vs) s"
    by simp
  obtain c cs where "skip_ws (enc_elems nl sp (Suc d) (v # vs) @ nl d @ CHR '']'' # s) = c # cs"
      "c \<noteq> CHR '']''"
      "\<forall>n. parse_elems n (c # cs) = parse_elems n (enc_elems nl sp (Suc d) (v # vs) @ nl d @ CHR '']'' # s)"
    using elems_start [of nl "Suc d" v sp vs "nl d @ CHR '']'' # s"] "6.prems" by auto
  then show ?case
    by (intro reads_mono [OF r]) (simp add: parse_value.simps(2) is_json_ws_def)
next
  case (8 nl sp d m ms)
  then have r: "reads parse_members (enc_members nl sp (Suc d) (m # ms) @ nl d @ CHR ''}'' # s) (m # ms) s"
    by simp
  obtain cs where "skip_ws (enc_members nl sp (Suc d) (m # ms) @ nl d @ CHR ''}'' # s) = CHR 0x22 # cs"
      "\<forall>n. parse_members n (CHR 0x22 # cs)
         = parse_members n (enc_members nl sp (Suc d) (m # ms) @ nl d @ CHR ''}'' # s)"
    using members_start [of nl "Suc d" sp m ms] "8.prems" by blast
  then show ?case
    by (intro reads_mono [OF r]) (simp add: parse_value.simps(2) is_json_ws_def)
next
  case (10 nl sp d v)
  then have "reads parse_value (json_enc nl sp d v @ w @ CHR '']'' # s) v (w @ CHR '']'' # s)"
    by (simp add: num_stop_ws)
  then show ?case
    by (rule reads_mono) (use "10.prems" in \<open>simp add: parse_elems.simps(2) parse_value_ws is_json_ws_def\<close>)
next
  case (11 nl sp d v v' vs)
  then have "reads parse_value (json_enc nl sp d v @ CHR '','' # enc_elems nl sp d (v' # vs) @ w @ CHR '']'' # s) v
      (CHR '','' # enc_elems nl sp d (v' # vs) @ w @ CHR '']'' # s)"
    and "reads parse_elems (enc_elems nl sp d (v' # vs) @ w @ CHR '']'' # s) (v' # vs) s"
    by simp_all
  then show ?case
    by (rule reads_mono2)
       (use "11.prems" in \<open>simp add: parse_elems.simps(2) parse_value_ws is_json_ws_def\<close>)
next
  case (13 nl sp d k v)
  then have "reads parse_value (json_enc nl sp d v @ w @ CHR ''}'' # s) v (w @ CHR ''}'' # s)"
    by (simp add: num_stop_ws)
  then show ?case
    by (rule reads_mono)
       (use "13.prems" in \<open>simp add: parse_members_ws parse_members.simps(2) enc_str_append
          scan_enc_chars parse_value_ws is_json_ws_def\<close>)
next
  case (14 nl sp d k v m ms)
  then have "reads parse_value (json_enc nl sp d v @ CHR '','' # enc_members nl sp d (m # ms) @ w @ CHR ''}'' # s) v
      (CHR '','' # enc_members nl sp d (m # ms) @ w @ CHR ''}'' # s)"
    and "reads parse_members (enc_members nl sp d (m # ms) @ w @ CHR ''}'' # s) (m # ms) s"
    by simp_all
  then show ?case
    by (rule reads_mono2)
       (use "14.prems" in \<open>simp add: parse_members_ws parse_members.simps(2) enc_str_append
          scan_enc_chars parse_value_ws is_json_ws_def\<close>)
qed (auto intro!: readsI simp: parse_value.simps(2) has_prefix_def is_json_ws_def)

lemma json_parse_enc:
  assumes "\<forall>d. all_ws (nl d)" "all_ws sp" "int_json v"
  shows "json_parse (json_enc nl sp d v) = Some v"
proof -
  let ?s = "json_enc nl sp d v"
  from json_enc_reads(1) [OF assms, of "[]"] obtain N where
    "\<forall>n \<ge> N. parse_value n ?s = Some (v, [])"
    by (auto simp: reads_def)
  then have "parse_value (max N (2 * length ?s + 2)) ?s = Some (v, [])" by simp
  then show ?thesis
    by (subst json_parse_fuel [of ?s "max N (2 * length ?s + 2)"]) (simp_all add: skip_ws_def)
qed

lemma json_parse_indent: "int_json v \<Longrightarrow> json_parse (marshal_indent v) = Some v"
  unfolding marshal_indent_def
  by (rule json_parse_enc) (auto simp: all_ws_def indent_line_def is_json_ws_def list_all_iff)

lemma json_parse_marshal: "int_json v \<Longrightarrow> json_parse (marshal v) = Some v"
  unfolding marshal_def by (rule json_parse_enc) (auto simp: all_ws_def)

end
