(* ===== verification/Persistence.thy ===== *)
theory Persistence
  imports Go_Strings
begin

text \<open>
  Durable replacement of a file, from \<open>pkg/network/ip_pool.go\<close>: the operations the
  pool takes from its environment (\<open>persistenceOps\<close>, \<open>persistenceFile\<close>),
  the protocol that writes a temporary file and renames it over the state file
  (\<open>replaceFile\<close>, the part of \<open>persistLocked\<close> after the state is
  marshalled), the contract the operations have to meet (locale
  \<open>durable_files\<close>) and the operating system's implementation of them with failures
  injected by a script (\<open>os_ops\<close>), which meets it.
\<close>

section \<open>The operations\<close>

text \<open>
  An open file is known by its path (\<open>Name()\<close>). \<open>writeFile\<close> returns the
  number of bytes written; \<open>openDir\<close> returns the handle whose \<open>Sync\<close> and
  \<open>Close\<close> are the same two operations.
\<close>

record 'f persistence_ops =
  mkdirAll :: "string \<Rightarrow> ('f, unit) op"
  createTemp :: "string \<Rightarrow> string \<Rightarrow> ('f, string) op"
  writeFile :: "string \<Rightarrow> string \<Rightarrow> ('f, nat) op"
  syncFile :: "string \<Rightarrow> ('f, unit) op"
  closeFile :: "string \<Rightarrow> ('f, unit) op"
  renameFile :: "string \<Rightarrow> string \<Rightarrow> ('f, unit) op"
  openDir :: "string \<Rightarrow> ('f, string) op"
  removeFile :: "string \<Rightarrow> ('f, unit) op"

text \<open>\<open>filepath.Dir\<close> of a cleaned path.\<close>

definition path_dir :: "string \<Rightarrow> string" where
  "path_dir p =
     (case last_index_byte p (CHR ''/'') of
        None \<Rightarrow> ''.''
      | Some 0 \<Rightarrow> ''/''
      | Some i \<Rightarrow> take i p)"

text \<open>Write, sync and close the temporary file; a failed write or sync still closes it.\<close>

definition fill_temp :: "'f persistence_ops \<Rightarrow> string \<Rightarrow> string \<Rightarrow> ('f, unit) op" where
  "fill_temp ops tmp data =
     attempt (writeFile ops tmp data) (\<lambda>w.
       case w of
         Inl e \<Rightarrow> ignore (closeFile ops tmp) (fail (Wrap ''write IP allocation state'' e))
       | Inr n \<Rightarrow>
           if n \<noteq> length data then
             ignore (closeFile ops tmp) (fail (Wrap ''write IP allocation state'' (Msg ''short write'')))
           else
             attempt (syncFile ops tmp) (\<lambda>r.
               case r of
                 Inl e \<Rightarrow> ignore (closeFile ops tmp) (fail (Wrap ''sync IP allocation temp file'' e))
               | Inr _ \<Rightarrow> wrap ''close IP allocation temp file'' (closeFile ops tmp)))"

definition sync_dir :: "'f persistence_ops \<Rightarrow> string \<Rightarrow> ('f, unit) op" where
  "sync_dir ops dir =
     call_wrap ''open IP allocation directory'' (openDir ops dir) (\<lambda>h.
       attempt (wrap ''sync IP allocation directory'' (syncFile ops h)) (\<lambda>r.
         ignore (closeFile ops h) (\<lambda>f. (r, f))))"

text \<open>
  The deferred removal of the temporary file runs whenever the rename has not succeeded.
\<close>

definition replaceFile :: "'f persistence_ops \<Rightarrow> string \<Rightarrow> string \<Rightarrow> ('f, unit) op" where
  "replaceFile ops path data =
     (let dir = path_dir path in
      call_wrap ''create IP allocation directory'' (mkdirAll ops dir) (\<lambda>_.
      call_wrap ''create IP allocation temp file'' (createTemp ops dir ''.ip-pool-*'') (\<lambda>tmp.
      attempt
        (call (fill_temp ops tmp data) (\<lambda>_.
           wrap ''rename IP allocation state'' (renameFile ops tmp path)))
        (\<lambda>r. case r of
             Inl e \<Rightarrow> ignore (removeFile ops tmp) (fail e)
           | Inr _ \<Rightarrow> sync_dir ops dir))))"

section \<open>The contract\<close>

text \<open>
  \<open>content f p\<close> is what a reader of path \<open>p\<close> finds. \<open>createTemp\<close>
  makes a new empty file whose name starts with the directory and the pattern up to its
  star; a write that reports every byte has stored them in an empty file, and no write
  touches another file; a rename moves the content, or does nothing when it fails.
\<close>

definition temp_prefix :: "string \<Rightarrow> string \<Rightarrow> string" where
  "temp_prefix dir pat = dir @ CHR ''/'' # takeWhile (\<lambda>c. c \<noteq> CHR ''*'') pat"

locale durable_files =
  fixes ops :: "'f persistence_ops" and content :: "'f \<Rightarrow> string \<Rightarrow> string option"
  assumes mkdirAll_frame: "content (snd (mkdirAll ops d f)) = content f"
    and createTemp_ok: "createTemp ops d pat f = (Inr n, f') \<Longrightarrow>
      content f n = None \<and> content f' = (content f)(n \<mapsto> []) \<and> has_prefix n (temp_prefix d pat)"
    and createTemp_err: "createTemp ops d pat f = (Inl e, f') \<Longrightarrow> content f' = content f"
    and write_frame: "p \<noteq> n \<Longrightarrow> content (snd (writeFile ops n d f)) p = content f p"
    and write_ok: "writeFile ops n d f = (Inr (length d), f') \<Longrightarrow> content f n = Some [] \<Longrightarrow>
      content f' n = Some d"
    and sync_frame: "content (snd (syncFile ops n f)) = content f"
    and close_frame: "content (snd (closeFile ops n f)) = content f"
    and rename_ok: "renameFile ops a b f = (Inr u, f') \<Longrightarrow> a \<noteq> b \<Longrightarrow>
      content f' = (content f)(a := None, b := content f a)"
    and rename_err: "renameFile ops a b f = (Inl e, f') \<Longrightarrow> content f' = content f"
    and openDir_frame: "content (snd (openDir ops d f)) = content f"
    and remove_frame: "p \<noteq> n \<Longrightarrow> content (snd (removeFile ops n f)) p = content f p"
begin

lemma fill_temp_frame:
  "p \<noteq> tmp \<Longrightarrow> content (snd (fill_temp ops tmp data f)) p = content f p"
  using write_frame [of p tmp data f] sync_frame close_frame
  by (auto simp: fill_temp_def attempt_def ignore_def wrap_def split: prod.splits sum.splits)
     (metis snd_conv)+

lemma fill_temp_ok:
  assumes "fill_temp ops tmp data f = (Inr u, f')" "content f tmp = Some []"
  shows "content f' tmp = Some data"
proof -
  from assms(1) obtain f1 f2 where
    "writeFile ops tmp data f = (Inr (length data), f1)" "snd (syncFile ops tmp f1) = f2"
    "snd (closeFile ops tmp f2) = f'"
    by (auto simp: fill_temp_def attempt_def ignore_def wrap_def split: prod.splits sum.splits if_splits)
  then show ?thesis
    using write_ok [OF _ assms(2)] sync_frame [of tmp f1] close_frame [of tmp f2] by auto
qed

lemma sync_dir_frame: "content (snd (sync_dir ops dir f)) = content f"
  using sync_frame close_frame openDir_frame
  by (auto simp: sync_dir_def call_wrap_def call_def attempt_def ignore_def wrap_def
      split: prod.splits sum.splits) (metis snd_conv)+

text \<open>
  The protocol is atomic: whatever fails, a reader of the state file finds the old content
  or all of the new one; on success it finds the new one; and no other file that existed
  before has changed.
\<close>

lemma temp_steps:
  assumes "content f tmp = Some []"
    and "attempt (call (fill_temp ops tmp data) (\<lambda>_. wrap m (renameFile ops tmp path)))
        (\<lambda>r. case r of Inl e \<Rightarrow> ignore (removeFile ops tmp) (fail e) | Inr _ \<Rightarrow> sync_dir ops dir) f
      = (r, f')"
    and "tmp \<noteq> path"
  shows "\<forall>p. p \<noteq> tmp \<and> p \<noteq> path \<longrightarrow> content f' p = content f p"
    and "content f' path = Some data \<or> ((\<exists>e. r = Inl e) \<and> content f' path = content f path)"
proof -
  obtain r1 f1 where fill: "fill_temp ops tmp data f = (r1, f1)" by fastforce
  have f1: "p \<noteq> tmp \<Longrightarrow> content f1 p = content f p" for p
    using fill_temp_frame [of p tmp data f] fill by simp
  have "(\<forall>p. p \<noteq> tmp \<and> p \<noteq> path \<longrightarrow> content f' p = content f p) \<and>
    (content f' path = Some data \<or> ((\<exists>e. r = Inl e) \<and> content f' path = content f path))"
  proof (cases r1)
    case (Inl e)
    with fill assms(2) have "r = Inl e" "f' = snd (removeFile ops tmp f1)"
      by (simp_all add: attempt_def call_def ignore_def)
    then show ?thesis using f1 remove_frame assms(3) by auto
  next
    case (Inr u)
    then have d: "content f1 tmp = Some data"
      using fill_temp_ok [of tmp data f u f1] fill assms(1) by simp
    obtain r2 f2 where ren: "renameFile ops tmp path f1 = (r2, f2)" by fastforce
    show ?thesis
    proof (cases r2)
      case err: (Inl e)
      with fill ren Inr assms(2) have "r = Inl (Wrap m e)" "f' = snd (removeFile ops tmp f2)"
        by (simp_all add: attempt_def call_def ignore_def wrap_def)
      then show ?thesis using f1 remove_frame assms(3) rename_err [of tmp path f1 e f2] ren err by auto
    next
      case (Inr v)
      with fill ren \<open>r1 = Inr u\<close> assms(2) have "sync_dir ops dir f2 = (r, f')"
        by (simp add: attempt_def call_def wrap_def)
      then have "content f' = content f2" using sync_dir_frame [of dir f2] by simp
      then show ?thesis using rename_ok [of tmp path f1 v f2] ren Inr assms(3) d f1 by auto
    qed
  qed
  then show "\<forall>p. p \<noteq> tmp \<and> p \<noteq> path \<longrightarrow> content f' p = content f p"
    and "content f' path = Some data \<or> ((\<exists>e. r = Inl e) \<and> content f' path = content f path)"
    by blast+
qed

lemma replaceFile_atomic:
  assumes path: "\<not> has_prefix path (temp_prefix (path_dir path) ''.ip-pool-*'')"
    and run: "replaceFile ops path data f = (r, f')"
  shows "content f' path = Some data \<or> ((\<exists>e. r = Inl e) \<and> content f' path = content f path)"
    and "content f p \<noteq> None \<Longrightarrow> p \<noteq> path \<Longrightarrow> content f' p = content f p"
proof -
  let ?dir = "path_dir path"
  obtain r1 f1 where mk: "mkdirAll ops ?dir f = (r1, f1)" by fastforce
  have c1: "content f1 = content f" using mkdirAll_frame [of ?dir f] mk by simp
  obtain r2 f2 where tm: "createTemp ops ?dir ''.ip-pool-*'' f1 = (r2, f2)" by fastforce
  have "(content f' path = Some data \<or> ((\<exists>e. r = Inl e) \<and> content f' path = content f path)) \<and>
    (\<forall>p. content f p \<noteq> None \<longrightarrow> p \<noteq> path \<longrightarrow> content f' p = content f p)"
  proof (cases "\<exists>e. r1 = Inl e \<or> r2 = Inl e")
    case True
    with mk tm run have "(\<exists>e. r = Inl e) \<and> (f' = f1 \<or> ((\<exists>e. r2 = Inl e) \<and> f' = f2))"
      by (auto simp: replaceFile_def Let_def call_wrap_def call_def wrap_def split: sum.splits)
    then show ?thesis using c1 createTemp_err [of ?dir "''.ip-pool-*''" f1 _ f2] tm by auto
  next
    case False
    then obtain u tmp where "r1 = Inr u" "r2 = Inr tmp" by (metis sumE)
    note fresh = createTemp_ok [OF tm [unfolded \<open>r2 = Inr tmp\<close>]]
    have "tmp \<noteq> path" using fresh path by auto
    have run': "attempt
        (call (fill_temp ops tmp data) (\<lambda>_.
           wrap ''rename IP allocation state'' (renameFile ops tmp path)))
        (\<lambda>r. case r of Inl e \<Rightarrow> ignore (removeFile ops tmp) (fail e) | Inr _ \<Rightarrow> sync_dir ops ?dir) f2
        = (r, f')"
      using run mk tm \<open>r1 = Inr u\<close> \<open>r2 = Inr tmp\<close>
      by (simp add: replaceFile_def Let_def call_wrap_Inr)
    have "content f2 tmp = Some []" using fresh by simp
    note steps = temp_steps [OF this run' \<open>tmp \<noteq> path\<close>]
    have "content f2 path = content f path" using fresh c1 \<open>tmp \<noteq> path\<close> by simp
    moreover have "content f2 p = content f p \<and> p \<noteq> tmp" if "content f p \<noteq> None" for p
      using that fresh c1 by auto
    ultimately show ?thesis using steps by auto
  qed
  then show "content f' path = Some data \<or> ((\<exists>e. r = Inl e) \<and> content f' path = content f path)"
    and "content f p \<noteq> None \<Longrightarrow> p \<noteq> path \<Longrightarrow> content f' p = content f p"
    by blast+
qed

end

section \<open>The operating system's files\<close>

text \<open>
  The files as readers see them, and the script of failures. A failed write leaves half of
  the data behind; \<open>os.CreateTemp\<close> retries random names until one is not in use,
  which the model does by a suffix longer than every name there is.
\<close>

record fs =
  files :: "(string \<times> string) list"
  fs_faults :: faults

definition fs_content :: "fs \<Rightarrow> string \<Rightarrow> string option" where
  "fs_content f = map_of (files f)"

definition os_call :: "string \<Rightarrow> (fs, 'a) op \<Rightarrow> (fs, 'a) op" where
  "os_call what act = (\<lambda>f. case next_fault (fs_faults f) of
     (True, bs) \<Rightarrow> (Inl (Msg what), f\<lparr>fs_faults := bs\<rparr>)
   | (False, bs) \<Rightarrow> act (f\<lparr>fs_faults := bs\<rparr>))"

definition fresh_name :: "fs \<Rightarrow> string \<Rightarrow> string" where
  "fresh_name f p = p @ replicate (Suc (sum_list (map (length \<circ> fst) (files f)))) (CHR ''0'')"

definition os_write :: "string \<Rightarrow> string \<Rightarrow> (fs, nat) op" where
  "os_write n d = (\<lambda>f. case next_fault (fs_faults f) of
     (True, bs) \<Rightarrow> (Inl (Msg ''write''),
        f\<lparr>files := AList.update n (take (length d div 2) d) (files f), fs_faults := bs\<rparr>)
   | (False, bs) \<Rightarrow> (Inr (length d), f\<lparr>files := AList.update n d (files f), fs_faults := bs\<rparr>))"

definition os_ops :: "fs persistence_ops" where
  "os_ops =
     \<lparr>mkdirAll = (\<lambda>d. os_call ''mkdir'' (ok ())),
      createTemp = (\<lambda>d pat. os_call ''create temp'' (\<lambda>f.
        let n = fresh_name f (temp_prefix d pat)
        in (Inr n, f\<lparr>files := AList.update n [] (files f)\<rparr>))),
      writeFile = os_write,
      syncFile = (\<lambda>n. os_call ''sync'' (ok ())),
      closeFile = (\<lambda>n. os_call ''close'' (ok ())),
      renameFile = (\<lambda>a b. os_call ''rename'' (\<lambda>f.
        case map_of (files f) a of
          None \<Rightarrow> (Inl (Msg ''rename: no such file''), f)
        | Some d \<Rightarrow> (Inr (), f\<lparr>files := AList.update b d (AList.delete a (files f))\<rparr>))),
      openDir = (\<lambda>d. os_call ''open'' (ok d)),
      removeFile = (\<lambda>n. os_call ''remove'' (\<lambda>f. (Inr (), f\<lparr>files := AList.delete n (files f)\<rparr>)))\<rparr>"

lemma fresh_name_notin: "n \<in> fst ` set (files f) \<Longrightarrow> n \<noteq> fresh_name f p"
proof -
  assume "n \<in> fst ` set (files f)"
  then have "length n \<le> sum_list (map (length \<circ> fst) (files f))"
    by (auto intro!: member_le_sum_list simp: image_iff) (metis fst_conv)
  then show ?thesis by (auto simp: fresh_name_def)
qed

lemma fresh_name_content: "map_of (files f) (fresh_name f p) = None"
  using fresh_name_notin [of _ f p] by (metis map_of_eq_None_iff)

lemma os_call_cases:
  "os_call what act f = (r, f') \<longleftrightarrow>
     (fst (next_fault (fs_faults f)) \<and> r = Inl (Msg what) \<and> f' = f\<lparr>fs_faults := snd (next_fault (fs_faults f))\<rparr>) \<or>
     (\<not> fst (next_fault (fs_faults f)) \<and> act (f\<lparr>fs_faults := snd (next_fault (fs_faults f))\<rparr>) = (r, f'))"
  by (auto simp: os_call_def split: prod.splits bool.splits)

lemma os_createTemp:
  assumes "createTemp os_ops d pat f = (Inr n, f')"
  shows "fs_content f n = None \<and> fs_content f' = (fs_content f)(n \<mapsto> []) \<and>
      has_prefix n (temp_prefix d pat)"
proof -
  let ?g = "f\<lparr>fs_faults := snd (next_fault (fs_faults f))\<rparr>"
  from assms have n: "n = fresh_name ?g (temp_prefix d pat)"
    and f': "f' = ?g\<lparr>files := AList.update n [] (files ?g)\<rparr>"
    by (auto simp: os_ops_def os_call_cases Let_def)
  have "map_of (files f) n = None"
    using fresh_name_content [of ?g "temp_prefix d pat"] n by simp
  then show ?thesis
    by (simp add: fs_content_def f' fun_eq_iff) (simp add: n fresh_name_def)
qed

interpretation os_files: durable_files os_ops fs_content
proof unfold_locales
  show "createTemp os_ops d pat f = (Inr n, f') \<Longrightarrow>
      fs_content f n = None \<and> fs_content f' = (fs_content f)(n \<mapsto> []) \<and>
      has_prefix n (temp_prefix d pat)" for d pat f n f'
    by (rule os_createTemp)
qed (auto simp: os_ops_def os_call_cases os_call_def os_write_def fs_content_def Let_def fun_eq_iff
    split: prod.splits bool.splits option.splits)

end
