(* ===== verification/Ip_Pool.thy ===== *)
theory Ip_Pool
  imports Ipv4 Json Persistence "HOL-Library.Multiset"
begin

text \<open>
  The static address pool of \<open>pkg/network/ip_pool.go\<close>: which addresses a network
  offers, allocation and release with the durable state file, restoring the state at
  startup, and the network configuration handed to a VM. Every exported operation runs
  under the pool's mutex, so one operation is one step of the model. The file system is
  the state \<open>'f\<close> of the persistence operations.
\<close>

section \<open>State\<close>

text \<open>
  \<open>network\<close> is \<open>None\<close> for the nil mask of a prefix length outside 0..32.
  The allocation map is an association list with distinct keys.
\<close>

type_synonym alloc = "(string \<times> string) list"

record ip_pool =
  network :: "(octets \<times> octets) option"
  gateway :: string
  allocated :: alloc
  available :: "string list"
  persistPath :: string

section \<open>The addresses of a network\<close>

text \<open>
  The loop of \<open>generateAvailableIPs\<close>: increment, leave when the address is outside
  the network or at or above the broadcast address, keep it unless it is the gateway.
\<close>

function available_from :: "octets \<times> octets \<Rightarrow> nat \<Rightarrow> string \<Rightarrow> octets \<Rightarrow> string list" where
  "available_from nw maxHosts gw ip =
     (let ip' = inc_ip ip in
      if \<not> contains_ip nw ip' then []
      else if word_of_nat maxHosts \<le> be32 ip' - be32 (fst nw) then []
      else (if ip_string ip' \<noteq> gw then [ip_string ip'] else []) @ available_from nw maxHosts gw ip')"
  by pat_completeness auto
termination
proof (relation "measure (\<lambda>(nw, mx, gw, ip).
    if be32 ip - be32 (fst nw) = - 1 then 2 ^ 32 else 2 ^ 32 - 1 - unat (be32 ip - be32 (fst nw)))",
    goal_cases)
  case (2 nw mx gw ip x)
  let ?d = "be32 ip - be32 (fst nw)"
  have d: "be32 x - be32 (fst nw) = ?d + 1" using 2(1) by (simp add: be32_inc)
  have "?d + 1 \<noteq> - 1" using 2(3) unfolding d by (metis linorder_not_le word_order.extremum)
  show ?case
  proof (cases "?d = - 1")
    case True
    then show ?thesis using \<open>?d + 1 \<noteq> - 1\<close> by (simp add: d)
  next
    case False
    then have "?d + 1 \<noteq> 0" by (simp add: eq_neg_iff_add_eq_0)
    then have "unat (?d + 1) = Suc (unat ?d)" using unatSuc [of ?d] by (simp add: add.commute)
    moreover have "unat (?d + 1) < 4294967295"
    proof -
      have "unat (?d + 1) \<noteq> unat (- 1 :: 32 word)" using \<open>?d + 1 \<noteq> - 1\<close> by (metis word_unat_eq_iff)
      then show ?thesis using unat32_less [of "?d + 1"] by (simp add: unat32_minus_1)
    qed
    ultimately show ?thesis using False \<open>?d + 1 \<noteq> - 1\<close> by (simp add: d)
  qed
qed simp

declare available_from.simps [simp del]

definition generateAvailableIPs :: "(octets \<times> octets) option \<Rightarrow> string \<Rightarrow> string list" where
  "generateAvailableIPs nw gw =
     (case nw of
        None \<Rightarrow> []
      | Some n \<Rightarrow>
          (let hostBits = 32 - mask_ones (snd n); maxHosts = 2 ^ hostBits - 1
           in available_from n maxHosts gw (fst n)))"

definition pool_of_network :: "(octets \<times> octets) option \<Rightarrow> string \<Rightarrow> ip_pool" where
  "pool_of_network nw gw =
     \<lparr>network = nw, gateway = gw, allocated = [], available = generateAvailableIPs nw gw,
      persistPath = []\<rparr>"

text \<open>The network address is the gateway's under the mask.\<close>

definition NewIPPoolFromGateway ::
    "(string \<Rightarrow> 8 word list option) \<Rightarrow> string \<Rightarrow> int \<Rightarrow> goerr + ip_pool" where
  "NewIPPoolFromGateway p6 gw prefixLen =
     (case parse_ip p6 gw of
        BadIP \<Rightarrow> Inl (Msg (''invalid gateway IP: '' @ gw))
      | NotV4 \<Rightarrow> Inl (Msg (''gateway must be IPv4: '' @ gw))
      | V4 ip \<Rightarrow>
          Inr (pool_of_network
            (map_option (\<lambda>m. (and_octets ip m, m)) (cidr_mask prefixLen)) gw))"

section \<open>Allocation\<close>

text \<open>
  The persisted state: \<open>{"allocated": {...}}\<close>, indented, the keys sorted as
  \<open>encoding/json\<close> sorts the keys of a map.
\<close>

definition state_json :: "alloc \<Rightarrow> json" where
  "state_json al = JObj [(''allocated'', JObj (map (\<lambda>(k, v). (k, JStr v)) (sort_key fst al)))]"

definition marshal_state :: "alloc \<Rightarrow> string" where
  "marshal_state al = marshal_indent (state_json al)"

definition persistLocked :: "'f persistence_ops \<Rightarrow> ip_pool \<Rightarrow> alloc \<Rightarrow> ('f, unit) op" where
  "persistLocked ops p al =
     (if persistPath p = [] then ok ()
      else replaceFile ops (persistPath p) (marshal_state al))"

definition Allocate :: "'f persistence_ops \<Rightarrow> string \<Rightarrow> (ip_pool \<times> 'f, string) op" where
  "Allocate ops vmID = (\<lambda>(p, f).
     case map_of (allocated p) vmID of
       Some ip \<Rightarrow> (Inr ip, (p, f))
     | None \<Rightarrow>
         (case available p of
            [] \<Rightarrow> (Inl (Msg ''IP pool exhausted''), (p, f))
          | ip # rest \<Rightarrow>
              (let allocations = AList.update vmID ip (allocated p) in
               case persistLocked ops p allocations f of
                 (Inl e, f') \<Rightarrow> (Inl e, (p, f'))
               | (Inr _, f') \<Rightarrow> (Inr ip, (p\<lparr>allocated := allocations, available := rest\<rparr>, f')))))"

definition Release :: "'f persistence_ops \<Rightarrow> string \<Rightarrow> (ip_pool \<times> 'f, unit) op" where
  "Release ops vmID = (\<lambda>(p, f).
     case map_of (allocated p) vmID of
       None \<Rightarrow> (Inr (), (p, f))
     | Some ip \<Rightarrow>
         (let allocations = AList.delete vmID (allocated p) in
          case persistLocked ops p allocations f of
            (Inl e, f') \<Rightarrow> (Inl e, (p, f'))
          | (Inr _, f') \<Rightarrow>
              (Inr (), (p\<lparr>allocated := allocations, available := available p @ [ip]\<rparr>, f'))))"

definition GetAllocation :: "ip_pool \<Rightarrow> string \<Rightarrow> string" where
  "GetAllocation p vmID = (case map_of (allocated p) vmID of None \<Rightarrow> [] | Some ip \<Rightarrow> ip)"

section \<open>Restoring the state\<close>

text \<open>
  Unmarshalling into \<open>persistedState\<close>: keys match \<open>allocated\<close> without regard
  to case, others are skipped; \<open>null\<close> leaves or resets the nil map; a \<open>null\<close>
  value is the empty string; a value of another type is an error.
\<close>

fun decode_entries :: "(string \<times> json) list \<Rightarrow> alloc \<Rightarrow> alloc option" where
  "decode_entries [] al = Some al"
| "decode_entries ((k, v) # ms) al =
     (case v of
        JStr s \<Rightarrow> decode_entries ms (AList.update k s al)
      | JNull \<Rightarrow> decode_entries ms (AList.update k [] al)
      | _ \<Rightarrow> None)"

fun decode_state_members :: "(string \<times> json) list \<Rightarrow> alloc \<Rightarrow> alloc option" where
  "decode_state_members [] al = Some al"
| "decode_state_members ((k, v) # ms) al =
     (if to_lower k = ''allocated'' then
        (case v of
           JNull \<Rightarrow> decode_state_members ms []
         | JObj es \<Rightarrow>
             (case decode_entries es al of None \<Rightarrow> None | Some al' \<Rightarrow> decode_state_members ms al')
         | _ \<Rightarrow> None)
      else decode_state_members ms al)"

definition unmarshal_state :: "string \<Rightarrow> alloc option" where
  "unmarshal_state s =
     (case json_parse s of
        Some JNull \<Rightarrow> Some []
      | Some (JObj ms) \<Rightarrow> decode_state_members ms []
      | _ \<Rightarrow> None)"

text \<open>
  \<open>os.ReadFile\<close> is a parameter: an error, no such file (\<open>Inr None\<close>) or the
  bytes. Go's order over the restored map does not matter, see \<open>restore_perm\<close>.
\<close>

definition restore_one :: "string \<times> string \<Rightarrow> ip_pool \<Rightarrow> ip_pool" where
  "restore_one e p =
     p\<lparr>allocated := AList.update (fst e) (snd e) (allocated p),
       available := remove1 (snd e) (available p)\<rparr>"

definition LoadState ::
    "(string \<Rightarrow> ('f, string option) op) \<Rightarrow> (ip_pool \<times> 'f, unit) op" where
  "LoadState readFile = (\<lambda>(p, f).
     if persistPath p = [] then (Inr (), (p, f))
     else case readFile (persistPath p) f of
       (Inl e, f') \<Rightarrow> (Inl (Wrap ''reading state file'' e), (p, f'))
     | (Inr None, f') \<Rightarrow> (Inr (), (p, f'))
     | (Inr (Some data), f') \<Rightarrow>
         (case unmarshal_state data of
            None \<Rightarrow> (Inl (Msg ''parsing state file''), (p, f'))
          | Some al \<Rightarrow> (Inr (), (fold restore_one al p, f'))))"

definition os_readFile :: "string \<Rightarrow> (fs, string option) op" where
  "os_readFile path = os_call ''read'' (\<lambda>f. (Inr (fs_content f path), f))"

section \<open>Network configuration of a VM\<close>

record static_network_config =
  sn_ip :: string
  sn_netmask :: string
  sn_gateway :: string
  sn_dns :: string

definition netmask :: "ip_pool \<Rightarrow> string" where
  "netmask p = (case network p of None \<Rightarrow> ''<nil>'' | Some (n, m) \<Rightarrow> ip_string m)"

definition PrefixLen :: "ip_pool \<Rightarrow> nat" where
  "PrefixLen p = (case network p of None \<Rightarrow> 0 | Some (n, m) \<Rightarrow> mask_ones m)"

definition NetworkConfig :: "ip_pool \<Rightarrow> string \<Rightarrow> static_network_config option" where
  "NetworkConfig p vmID =
     map_option (\<lambda>ip. \<lparr>sn_ip = ip, sn_netmask = netmask p, sn_gateway = gateway p,
         sn_dns = ''8.8.8.8''\<rparr>) (map_of (allocated p) vmID)"

definition KernelIPArgs :: "ip_pool \<Rightarrow> string \<Rightarrow> string" where
  "KernelIPArgs p vmID =
     (case map_of (allocated p) vmID of
        None \<Rightarrow> []
      | Some ip \<Rightarrow> ''ip='' @ ip @ ''::'' @ gateway p @ '':'' @ netmask p @ ''::eth0:off'')"

section \<open>Which addresses the pool offers\<close>

lemma inc_pow_value: "be32 ((inc_ip ^^ n) ip) = be32 ip + word_of_nat n"
  by (induction n) (simp_all add: be32_inc algebra_simps)

lemma inc_pow_inj:
  assumes "i < 2 ^ 32" "j < 2 ^ 32" "(inc_ip ^^ i) ip = (inc_ip ^^ j) ip"
  shows "i = j"
proof -
  from assms(3) have "(word_of_nat i :: 32 word) = word_of_nat j"
    by (metis add_left_cancel inc_pow_value)
  then have "unat (word_of_nat i :: 32 word) = unat (word_of_nat j :: 32 word)" by simp
  then show ?thesis using assms(1,2) by (simp only: unsigned_of_nat) (simp add: take_bit_nat_eq_self)
qed

lemma mask_ones_all: "\<forall>h \<in> set [0..<33]. length (filter (bit (NOT (mask h) :: 32 word)) [0..<32]) = 32 - h"
  by code_simp

lemma mask_ones_cidr: "k \<le> 32 \<Longrightarrow> be32 m = NOT (mask (32 - k)) \<Longrightarrow> mask_ones m = k"
proof -
  assume "k \<le> 32" "be32 m = NOT (mask (32 - k))"
  then have "mask_ones m = length (filter (bit (NOT (mask (32 - k)) :: 32 word)) [0..<32])"
    by (cases m) (simp add: mask_ones_def del: be32.simps)
  also have "\<dots> = 32 - (32 - k)"
    by (rule mask_ones_all [rule_format]) simp
  finally show ?thesis using \<open>k \<le> 32\<close> by simp
qed

lemma word32_le: "a < 2 ^ 32 \<Longrightarrow> b < 2 ^ 32 \<Longrightarrow> (word_of_nat a :: 32 word) \<le> word_of_nat b \<longleftrightarrow> a \<le> b"
  by (simp only: word_le_nat_alt unsigned_of_nat) (simp add: take_bit_nat_eq_self)

text \<open>From offset \<open>i\<close> on, the loop visits the offsets up to the broadcast address.\<close>

lemma available_from_eq:
  assumes m: "be32 m = NOT (mask h)" "be32 nw AND mask h = 0" and h: "h \<le> 32"
    and i: "Suc i \<le> 2 ^ h - 1"
  shows "available_from (nw, m) (2 ^ h - 1) gw ((inc_ip ^^ i) nw) =
    filter (\<lambda>s. s \<noteq> gw) (map (\<lambda>n. ip_string ((inc_ip ^^ n) nw)) [Suc i..<2 ^ h - 1])"
  using i
proof (induction "2 ^ h - i" arbitrary: i rule: less_induct)
  case less
  let ?ip = "inc_ip ((inc_ip ^^ i) nw)"
  have bound: "(2 :: nat) ^ h \<le> 2 ^ 32" using h by (rule power_increasing) simp
  have off: "be32 ?ip - be32 nw = word_of_nat (Suc i)"
    using inc_pow_value [of "Suc i" nw] by simp
  have le: "(word_of_nat (2 ^ h - 1) :: 32 word) \<le> word_of_nat (Suc i) \<longleftrightarrow> 2 ^ h - 1 \<le> Suc i"
    using less.prems bound by (intro word32_le) linarith+
  show ?case
  proof (cases "Suc i < 2 ^ h - 1")
    case True
    have "contains_ip (nw, m) ?ip"
      using contains_host [OF m, of "Suc i" ?ip] True inc_pow_value [of "Suc i" nw] by simp
    then have "available_from (nw, m) (2 ^ h - 1) gw ((inc_ip ^^ i) nw) =
        (if ip_string ?ip \<noteq> gw then [ip_string ?ip] else []) @
        available_from (nw, m) (2 ^ h - 1) gw ((inc_ip ^^ Suc i) nw)"
      using le off True by (subst available_from.simps) (simp add: Let_def del: of_nat_Suc of_nat_diff)
    also have "available_from (nw, m) (2 ^ h - 1) gw ((inc_ip ^^ Suc i) nw) =
        filter (\<lambda>s. s \<noteq> gw) (map (\<lambda>n. ip_string ((inc_ip ^^ n) nw)) [Suc (Suc i)..<2 ^ h - 1])"
      using True by (intro less.hyps) auto
    finally show ?thesis using True by (simp add: upt_conv_Cons)
  next
    case False
    with le off show ?thesis
      by (subst available_from.simps) (simp add: Let_def del: of_nat_Suc of_nat_diff)
  qed
qed

lemma generate_eq:
  assumes m: "be32 m = NOT (mask h)" "be32 nw AND mask h = 0" and h: "h \<le> 32"
  shows "generateAvailableIPs (Some (nw, m)) gw =
    filter (\<lambda>s. s \<noteq> gw) (map (\<lambda>n. ip_string ((inc_ip ^^ n) nw)) [1..<2 ^ h - 1])"
proof -
  have ones: "32 - mask_ones m = h" using mask_ones_cidr [of "32 - h" m] m(1) h by simp
  show ?thesis
  proof (cases "h = 0")
    case True
    then show ?thesis
      by (simp add: generateAvailableIPs_def ones available_from.simps [of _ 0] Let_def)
  next
    case False
    then have "(2 :: nat) ^ 1 \<le> 2 ^ h" by (intro power_increasing) auto
    then show ?thesis
      using available_from_eq [OF m h, of 0 gw] by (simp add: generateAvailableIPs_def ones Let_def)
  qed
qed

lemma generate_distinct:
  assumes m: "be32 m = NOT (mask h)" "be32 nw AND mask h = 0" and h: "h \<le> 32"
  shows "distinct (generateAvailableIPs (Some (nw, m)) gw)"
proof -
  have bound: "(2 :: nat) ^ h \<le> 2 ^ 32" using h by (rule power_increasing) simp
  have "inj_on (\<lambda>n. ip_string ((inc_ip ^^ n) nw)) (set [1..<2 ^ h - 1])"
  proof (rule inj_onI)
    fix x y
    assume "x \<in> set [1..<2 ^ h - 1]" "y \<in> set [1..<2 ^ h - 1]"
      "ip_string ((inc_ip ^^ x) nw) = ip_string ((inc_ip ^^ y) nw)"
    with bound show "x = y" by (intro inc_pow_inj [of x y nw]) (auto simp: ip_string_inj)
  qed
  then show ?thesis by (simp add: generate_eq [OF assms] distinct_map)
qed

text \<open>An address inside the network is the network address plus a small offset.\<close>

lemma contains_split:
  assumes m: "be32 m = NOT (mask h)" "be32 nw AND mask h = 0" and h: "h \<le> 32"
  shows "contains_ip (nw, m) ip \<longleftrightarrow> be32 nw = be32 ip AND NOT (mask h)"
    and "contains_ip (nw, m) ip \<Longrightarrow> be32 ip = be32 nw + (be32 ip AND mask h)"
proof -
  have bit: False if "bit (be32 nw) n" "n < h" for n
  proof -
    have "n < 32" using that(2) h by simp
    then have "bit (be32 nw AND mask h) n" using that by (simp add: bit_simps)
    then show False using m(2) by simp
  qed
  have "be32 nw AND NOT (mask h) = be32 nw"
    by (rule bit_word_eqI) (use bit in \<open>auto simp: bit_simps\<close>)
  then show nw: "contains_ip (nw, m) ip \<longleftrightarrow> be32 nw = be32 ip AND NOT (mask h)"
    using m(1) by (simp add: contains_ip_iff)
  assume "contains_ip (nw, m) ip"
  then have nw: "be32 nw = be32 ip AND NOT (mask h)" using nw by simp
  have "be32 ip = be32 nw OR (be32 ip AND mask h)"
    unfolding nw by (rule bit_word_eqI) (auto simp: bit_simps)
  also have "\<dots> = be32 nw + (be32 ip AND mask h)"
    unfolding nw by (rule disjunctive_add_eq_or [symmetric], rule bit_word_eqI) (auto simp: bit_simps)
  finally show "be32 ip = be32 nw + (be32 ip AND mask h)" .
qed

lemma contains_offset:
  assumes "be32 m = NOT (mask h)" "be32 nw AND mask h = 0" "h \<le> 32"
    and ip: "contains_ip (nw, m) ip"
  obtains n where "n < 2 ^ h" "ip = (inc_ip ^^ n) nw"
proof -
  let ?d = "be32 ip AND mask h"
  have sum: "be32 ip = be32 nw + ?d" using contains_split(2) [OF assms] .
  have "unat ?d < 2 ^ h"
    by (simp add: take_bit_eq_mask [symmetric] unsigned_take_bit_eq)
  moreover have "be32 ip = be32 ((inc_ip ^^ unat ?d) nw)"
    by (subst sum, subst inc_pow_value) simp
  ultimately show ?thesis using that be32_inj by blast
qed

lemma generate_mem:
  assumes m: "be32 m = NOT (mask h)" "be32 nw AND mask h = 0" and h: "h \<le> 32"
  shows "s \<in> set (generateAvailableIPs (Some (nw, m)) gw) \<longleftrightarrow>
    (\<exists>ip. s = ip_string ip \<and> contains_ip (nw, m) ip \<and> ip \<noteq> nw \<and>
       be32 ip \<noteq> be32 nw + mask h \<and> s \<noteq> gw)"
    (is "?lhs \<longleftrightarrow> ?rhs")
proof -
  have bound: "(2 :: nat) ^ h \<le> 2 ^ 32" using h by (rule power_increasing) simp
  have bc: "be32 ((inc_ip ^^ n) nw) = be32 nw + mask h \<longleftrightarrow> n = 2 ^ h - 1" if "n < 2 ^ h" for n
  proof -
    have "(mask h :: 32 word) = word_of_nat (2 ^ h - 1)"
      by (simp add: mask_eq_exp_minus_1 of_nat_diff)
    then have "be32 ((inc_ip ^^ n) nw) = be32 nw + mask h \<longleftrightarrow>
        (inc_ip ^^ n) nw = (inc_ip ^^ (2 ^ h - 1)) nw"
      by (metis be32_inj inc_pow_value)
    then show ?thesis using inc_pow_inj [of n "2 ^ h - 1" nw] bound that by auto
  qed
  show ?thesis
  proof
    assume ?lhs
    then obtain n where n: "1 \<le> n" "n < 2 ^ h - 1" "s = ip_string ((inc_ip ^^ n) nw)" "s \<noteq> gw"
      by (auto simp: generate_eq [OF assms])
    moreover have "contains_ip (nw, m) ((inc_ip ^^ n) nw)"
      using n by (intro contains_host [OF m]) (simp_all add: inc_pow_value)
    moreover have "(inc_ip ^^ n) nw \<noteq> nw"
    proof
      assume "(inc_ip ^^ n) nw = nw"
      moreover have "n < 2 ^ 32" using n(2) bound by linarith
      ultimately show False using inc_pow_inj [of n 0 nw] n(1) by simp
    qed
    moreover have "be32 ((inc_ip ^^ n) nw) \<noteq> be32 nw + mask h"
      using bc [of n] n(2) by simp
    ultimately show ?rhs by blast
  next
    assume ?rhs
    then obtain ip where ip: "s = ip_string ip" "contains_ip (nw, m) ip" "ip \<noteq> nw"
        "be32 ip \<noteq> be32 nw + mask h" "s \<noteq> gw" by blast
    then obtain n where n: "n < 2 ^ h" "ip = (inc_ip ^^ n) nw"
      using contains_offset [OF assms] by blast
    have "n \<noteq> 0" using n(2) ip(3) by (cases n) auto
    moreover have "n \<noteq> 2 ^ h - 1" using n ip(4) bc by auto
    ultimately have "1 \<le> n \<and> n < 2 ^ h - 1" using n(1) by simp
    then show ?lhs using n ip by (auto simp: generate_eq [OF assms])
  qed
qed

section \<open>The invariant of the pool\<close>

text \<open>
  No address is held twice, by two VMs or by a VM and the free list, and the map has one
  entry per VM. \<open>pool_addresses\<close> is every address the pool accounts for.
\<close>

definition pool_ok :: "ip_pool \<Rightarrow> bool" where
  "pool_ok p \<longleftrightarrow> distinct (map fst (allocated p)) \<and>
     distinct (available p @ map snd (allocated p))"

definition pool_addresses :: "ip_pool \<Rightarrow> string multiset" where
  "pool_addresses p = mset (available p @ map snd (allocated p))"

lemma update_new: "map_of al k = None \<Longrightarrow> AList.update k v al = al @ [(k, v)]"
  by (induction al) (auto split: if_splits)

lemma delete_values:
  "distinct (map fst al) \<Longrightarrow> map_of al k = Some v \<Longrightarrow>
     mset (map snd al) = add_mset v (mset (map snd (AList.delete k al)))"
proof (induction al)
  case (Cons e al)
  show ?case
  proof (cases "fst e = k")
    case True
    with Cons.prems show ?thesis by (cases e) (auto simp: delete_idem)
  next
    case False
    with Cons show ?thesis by (cases e) simp
  qed
qed simp

lemma pool_ok_addresses:
  "distinct (map fst (allocated p')) \<Longrightarrow> pool_ok p \<Longrightarrow> pool_addresses p' = pool_addresses p \<Longrightarrow> pool_ok p'"
  unfolding pool_ok_def pool_addresses_def using mset_eq_imp_distinct_iff by blast

lemma pool_ok_exclusive:
  assumes "pool_ok p" "map_of (allocated p) v = Some ip"
  shows "ip \<notin> set (available p)" and "map_of (allocated p) w = Some ip \<Longrightarrow> v = w"
  using assms map_of_Some_in_snd [OF assms(2)] distinct_values_inj [of "allocated p" v ip w]
  by (auto simp: pool_ok_def)

text \<open>The outcomes of the two operations.\<close>

lemma Allocate_cases:
  assumes "Allocate ops vm (p, f) = (r, (p', f'))"
  obtains (held) ip where "map_of (allocated p) vm = Some ip" "r = Inr ip" "p' = p" "f' = f"
  | (exhausted) "map_of (allocated p) vm = None" "available p = []"
      "r = Inl (Msg ''IP pool exhausted'')" "p' = p" "f' = f"
  | (failed) ip rest e where "map_of (allocated p) vm = None" "available p = ip # rest"
      "persistLocked ops p (allocated p @ [(vm, ip)]) f = (Inl e, f')" "r = Inl e" "p' = p"
  | (fresh) ip rest where "map_of (allocated p) vm = None" "available p = ip # rest"
      "persistLocked ops p (allocated p @ [(vm, ip)]) f = (Inr (), f')" "r = Inr ip"
      "p' = p\<lparr>allocated := allocated p @ [(vm, ip)], available := rest\<rparr>"
proof (cases "map_of (allocated p) vm")
  case None
  show ?thesis
  proof (cases "available p")
    case Nil
    with None assms have "r = Inl (Msg ''IP pool exhausted'')" "p' = p" "f' = f"
      by (simp_all add: Allocate_def)
    then show ?thesis using exhausted None Nil by blast
  next
    case (Cons ip rest)
    obtain q f1 where "persistLocked ops p (allocated p @ [(vm, ip)]) f = (q, f1)"
      by fastforce
    note q = this
    show ?thesis
    proof (cases q)
      case (Inl e)
      with None Cons assms q have "r = Inl e" "p' = p" "f' = f1"
        by (simp_all add: Allocate_def update_new)
      then show ?thesis using failed None Cons q Inl by blast
    next
      case (Inr u)
      with None Cons assms q have "r = Inr ip" "f' = f1"
          "p' = p\<lparr>allocated := allocated p @ [(vm, ip)], available := rest\<rparr>"
        by (simp_all add: Allocate_def update_new)
      then show ?thesis using fresh None Cons q Inr by simp
    qed
  qed
next
  case (Some ip)
  with assms have "r = Inr ip" "p' = p" "f' = f" by (simp_all add: Allocate_def)
  then show ?thesis using held Some by blast
qed

lemma Release_cases:
  assumes "Release ops vm (p, f) = (r, (p', f'))"
  obtains (absent) "map_of (allocated p) vm = None" "r = Inr ()" "p' = p" "f' = f"
  | (failed) ip e where "map_of (allocated p) vm = Some ip"
      "persistLocked ops p (AList.delete vm (allocated p)) f = (Inl e, f')" "r = Inl e" "p' = p"
  | (released) ip where "map_of (allocated p) vm = Some ip" "r = Inr ()"
      "persistLocked ops p (AList.delete vm (allocated p)) f = (Inr (), f')"
      "p' = p\<lparr>allocated := AList.delete vm (allocated p), available := available p @ [ip]\<rparr>"
proof (cases "map_of (allocated p) vm")
  case (Some ip)
  obtain q f1 where q: "persistLocked ops p (AList.delete vm (allocated p)) f = (q, f1)" by fastforce
  show ?thesis
  proof (cases q)
    case (Inl e)
    with Some assms q have "r = Inl e" "p' = p" "f' = f1" by (simp_all add: Release_def)
    then show ?thesis using failed Some q Inl by blast
  next
    case (Inr u)
    with Some assms q have "r = Inr ()" "f' = f1"
        "p' = p\<lparr>allocated := AList.delete vm (allocated p), available := available p @ [ip]\<rparr>"
      by (simp_all add: Release_def)
    then show ?thesis using released Some q Inr by simp
  qed
next
  case None
  with assms have "r = Inr ()" "p' = p" "f' = f" by (simp_all add: Release_def)
  then show ?thesis using absent None by blast
qed

lemma Allocate_keeps:
  assumes "Allocate ops vm (p, f) = (r, (p', f'))" "pool_ok p"
  shows "pool_ok p' \<and> pool_addresses p' = pool_addresses p"
  using assms(1)
proof (cases rule: Allocate_cases)
  case (fresh ip rest)
  then have "pool_addresses p' = pool_addresses p" by (simp add: pool_addresses_def)
  moreover have "distinct (map fst (allocated p'))"
    using fresh assms(2) by (auto simp: pool_ok_def map_of_eq_None_iff)
  ultimately show ?thesis using pool_ok_addresses assms(2) by blast
qed (use assms(2) in auto)

lemma Release_keeps:
  assumes "Release ops vm (p, f) = (r, (p', f'))" "pool_ok p"
  shows "pool_ok p' \<and> pool_addresses p' = pool_addresses p"
  using assms(1)
proof (cases rule: Release_cases)
  case (released ip)
  have "distinct (map fst (allocated p))" using assms(2) by (simp add: pool_ok_def)
  from delete_values [OF this released(1)]
  have "pool_addresses p' = pool_addresses p" using released(4) by (simp add: pool_addresses_def)
  moreover have "distinct (map fst (allocated p'))"
    using released assms(2) by (simp add: pool_ok_def distinct_delete)
  ultimately show ?thesis using pool_ok_addresses assms(2) by blast
qed (use assms(2) in auto)

text \<open>Any sequence of requests, each served under the pool's mutex.\<close>

datatype pool_request = AllocateReq string | ReleaseReq string

fun serve :: "'f persistence_ops \<Rightarrow> pool_request list \<Rightarrow> ip_pool \<times> 'f \<Rightarrow> ip_pool \<times> 'f" where
  "serve ops [] s = s"
| "serve ops (AllocateReq vm # rs) s = serve ops rs (snd (Allocate ops vm s))"
| "serve ops (ReleaseReq vm # rs) s = serve ops rs (snd (Release ops vm s))"

lemma serve_keeps:
  "pool_ok (fst s) \<Longrightarrow> pool_ok (fst (serve ops rs s)) \<and>
     pool_addresses (fst (serve ops rs s)) = pool_addresses (fst s)"
proof (induction ops rs s rule: serve.induct)
  case (2 ops vm rs s)
  then show ?case using Allocate_keeps [of ops vm "fst s" "snd s"]
    by (metis prod.collapse serve.simps(2))
next
  case (3 ops vm rs s)
  then show ?case using Release_keeps [of ops vm "fst s" "snd s"]
    by (metis prod.collapse serve.simps(3))
qed simp

lemma NewIPPoolFromGateway_shape:
  assumes "parse_ip p6 gw = V4 ip" "k \<le> 32"
  obtains m where "be32 m = NOT (mask (32 - k))" "be32 (and_octets ip m) AND mask (32 - k) = 0"
    "NewIPPoolFromGateway p6 gw (int k) = Inr (pool_of_network (Some (and_octets ip m, m)) gw)"
proof -
  obtain m where m: "cidr_mask (int k) = Some m" "be32 m = NOT (mask (32 - k))"
    using cidr_mask_Some [OF assms(2)] by blast
  moreover have "be32 (and_octets ip m) AND mask (32 - k) = 0"
    unfolding be32_and m(2) by (rule bit_word_eqI) (auto simp: bit_simps)
  ultimately show ?thesis using that assms(1) by (simp add: NewIPPoolFromGateway_def)
qed

lemma pool_ok_new:
  assumes "be32 m = NOT (mask h)" "be32 nw AND mask h = 0" "h \<le> 32"
  shows "pool_ok (pool_of_network (Some (nw, m)) gw)"
  using generate_distinct [OF assms] by (simp add: pool_ok_def pool_of_network_def)

section \<open>The state file\<close>

context durable_files
begin

lemma persistLocked_atomic:
  assumes "persistPath p \<noteq> []"
    and "\<not> has_prefix (persistPath p) (temp_prefix (path_dir (persistPath p)) ''.ip-pool-*'')"
    and "persistLocked ops p al f = (r, f')"
  shows "content f' (persistPath p) = Some (marshal_state al) \<or>
      ((\<exists>e. r = Inl e) \<and> content f' (persistPath p) = content f (persistPath p))"
  using replaceFile_atomic(1) [OF assms(2), of "marshal_state al" f r f'] assms(1,3)
  by (simp add: persistLocked_def)

end

text \<open>Reading back what was written.\<close>

lemma decode_entries_strings:
  "distinct (map fst (al @ es)) \<Longrightarrow>
     decode_entries (map (\<lambda>(k, v). (k, JStr v)) es) al = Some (al @ es)"
proof (induction es arbitrary: al)
  case (Cons e es)
  obtain k v where e: "e = (k, v)" by fastforce
  have "map_of al k = None" using Cons.prems by (auto simp: e map_of_eq_None_iff)
  then show ?case using Cons.IH [of "al @ [e]"] Cons.prems by (simp add: e update_new)
qed simp

lemma int_json_state: "int_json (state_json al)"
  by (auto simp: state_json_def list_all_iff)

lemma unmarshal_marshal:
  assumes "distinct (map fst al)"
  shows "unmarshal_state (marshal_state al) = Some (sort_key fst al)"
proof -
  have "distinct (map fst (sort_key fst al))" using assms
    by (metis distinct_map mset_eq_imp_distinct_iff mset_map mset_sort)
  then have "decode_entries (map (\<lambda>(k, v). (k, JStr v)) (sort_key fst al)) [] =
      Some (sort_key fst al)"
    using decode_entries_strings [of "[]"] by simp
  moreover have "to_lower ''allocated'' = ''allocated''" by code_simp
  moreover have "json_parse (marshal_state al) = Some (state_json al)"
    unfolding marshal_state_def by (rule json_parse_indent, rule int_json_state)
  ultimately show ?thesis by (simp add: unmarshal_state_def state_json_def)
qed

lemma restore_fold:
  "mset (available (fold restore_one al p)) = mset (available p) - mset (map snd al)"
  "map_of (allocated (fold restore_one al p)) = map_of (allocated p) ++ map_of (rev al)"
  "network (fold restore_one al p) = network p"
  by (induction al arbitrary: p)
     (auto simp: restore_one_def map_add_def fun_eq_iff split: option.splits)

lemma restore_perm:
  assumes "mset al = mset al'" "distinct (map fst al)"
  shows "mset (available (fold restore_one al p)) = mset (available (fold restore_one al' p))"
    and "map_of (allocated (fold restore_one al p)) = map_of (allocated (fold restore_one al' p))"
proof -
  have "mset (map fst al) = mset (map fst al')" using assms(1) by simp
  then have d: "distinct (map fst al')" using assms(2) mset_eq_imp_distinct_iff by blast
  have "map_of (rev al) = map_of (rev al')"
    using assms d by (intro map_of_inject_set [THEN iffD2]) (auto dest: mset_eq_setD simp: rev_map [symmetric])
  then show "map_of (allocated (fold restore_one al p)) = map_of (allocated (fold restore_one al' p))"
    by (simp add: restore_fold)
  show "mset (available (fold restore_one al p)) = mset (available (fold restore_one al' p))"
    using assms(1) by (simp add: restore_fold)
qed

text \<open>The file and the memory agree as long as no file operation fails.\<close>

definition disk_ok :: "ip_pool \<Rightarrow> fs \<Rightarrow> bool" where
  "disk_ok p f \<longleftrightarrow>
     fs_content f (persistPath p) = Some (marshal_state (allocated p)) \<or>
     (fs_content f (persistPath p) = None \<and> allocated p = [])"

lemma os_replaceFile_ok:
  assumes "fs_faults f = []"
  shows "\<exists>f'. replaceFile os_ops path data f = (Inr (), f') \<and> fs_faults f' = []"
  using assms
  by (simp add: replaceFile_def Let_def call_wrap_def call_def wrap_def attempt_def ignore_def
      fill_temp_def sync_dir_def os_ops_def os_call_def os_write_def)

lemma persist_ok:
  assumes "persistPath p \<noteq> []"
    and "\<not> has_prefix (persistPath p) (temp_prefix (path_dir (persistPath p)) ''.ip-pool-*'')"
    and "fs_faults f = []"
  obtains f' where "persistLocked os_ops p al f = (Inr (), f')" "fs_faults f' = []"
    "fs_content f' (persistPath p) = Some (marshal_state al)"
proof -
  obtain f' where f': "persistLocked os_ops p al f = (Inr (), f')" "fs_faults f' = []"
    using os_replaceFile_ok [OF assms(3)] assms(1) by (metis persistLocked_def)
  then show ?thesis using that os_files.persistLocked_atomic [OF assms(1,2) f'(1)] by simp
qed

lemma serve_disk:
  assumes "persistPath (fst s) \<noteq> []"
    and "\<not> has_prefix (persistPath (fst s)) (temp_prefix (path_dir (persistPath (fst s))) ''.ip-pool-*'')"
    and "fs_faults (snd s) = []" "disk_ok (fst s) (snd s)"
  shows "fs_faults (snd (serve os_ops rs s)) = [] \<and> disk_ok (fst (serve os_ops rs s)) (snd (serve os_ops rs s)) \<and>
     persistPath (fst (serve os_ops rs s)) = persistPath (fst s)"
  using assms
proof (induction "os_ops" rs s rule: serve.induct)
  case (2 vm rs s)
  obtain p f where s: "s = (p, f)" by fastforce
  obtain r p' f' where run: "Allocate os_ops vm (p, f) = (r, (p', f'))" by (metis prod.exhaust)
  have "fs_faults f' = [] \<and> disk_ok p' f' \<and> persistPath p' = persistPath p"
    using run
  proof (cases rule: Allocate_cases)
    case (failed ip rest e)
    then show ?thesis using persist_ok [of p f "allocated p @ [(vm, ip)]"] 2 s by auto
  next
    case (fresh ip rest)
    then show ?thesis using persist_ok [of p f "allocated p @ [(vm, ip)]"] 2 s
      by (auto simp: disk_ok_def)
  qed (use 2 s in auto)
  then show ?case using 2 s run by simp
next
  case (3 vm rs s)
  obtain p f where s: "s = (p, f)" by fastforce
  obtain r p' f' where run: "Release os_ops vm (p, f) = (r, (p', f'))" by (metis prod.exhaust)
  have "fs_faults f' = [] \<and> disk_ok p' f' \<and> persistPath p' = persistPath p"
    using run
  proof (cases rule: Release_cases)
    case (failed ip e)
    then show ?thesis using persist_ok [of p f "AList.delete vm (allocated p)"] 3 s by auto
  next
    case (released ip)
    then show ?thesis using persist_ok [of p f "AList.delete vm (allocated p)"] 3 s
      by (auto simp: disk_ok_def)
  qed (use 3 s in auto)
  then show ?case using 3 s run by simp
qed simp

section \<open>Properties\<close>

lemma host_bits:
  assumes m: "be32 m = NOT (mask h)" "be32 (and_octets g m) AND mask h = 0" and h: "h \<le> 32"
  shows "contains_ip (and_octets g m, m) ip \<and> ip \<noteq> and_octets g m \<and>
      be32 ip \<noteq> be32 (and_octets g m) + mask h \<longleftrightarrow>
    be32 ip AND NOT (mask h) = be32 g AND NOT (mask h) \<and>
      be32 ip AND mask h \<noteq> 0 \<and> be32 ip AND mask h \<noteq> mask h"
proof (cases "contains_ip (and_octets g m, m) ip")
  case True
  note nw = contains_split [OF m h, of ip]
  have "ip = and_octets g m \<longleftrightarrow> be32 ip AND mask h = 0"
    using nw(2) [OF True] by (metis add_cancel_right_right be32_inj)
  moreover have "be32 ip = be32 (and_octets g m) + mask h \<longleftrightarrow> be32 ip AND mask h = mask h"
    using nw(2) [OF True] by (metis add_left_cancel)
  ultimately show ?thesis using True nw(1) by (simp add: be32_and m(1))
next
  case False
  then show ?thesis using contains_split(1) [OF m h, of ip] by (simp add: be32_and m(1))
qed

text \<open>Loading the state file into an empty pool.\<close>

lemma os_readFile_ok: "fs_faults f = [] \<Longrightarrow> os_readFile path f = (Inr (fs_content f path), f)"
  by (cases f) (simp add: os_readFile_def os_call_def fs_content_def)

lemma load_disk:
  assumes "allocated p0 = []" "fs_faults f = []" "disk_ok p f"
    and "persistPath p0 = persistPath p" "persistPath p \<noteq> []" "distinct (map fst (allocated p))"
  shows "\<exists>q. LoadState os_readFile (p0, f) = (Inr (), (q, f)) \<and>
    map_of (allocated q) = map_of (allocated p) \<and>
    mset (available q) = mset (available p0) - mset (map snd (allocated p))"
proof (cases "fs_content f (persistPath p)")
  case None
  then have "allocated p = []" using assms(3) by (simp add: disk_ok_def)
  then show ?thesis using None assms
    by (simp add: LoadState_def os_readFile_ok)
next
  case (Some d)
  then have d: "d = marshal_state (allocated p)" using assms(3) by (simp add: disk_ok_def)
  let ?al = "sort_key fst (allocated p)"
  let ?q = "fold restore_one ?al p0"
  have load: "LoadState os_readFile (p0, f) = (Inr (), (?q, f))"
    using Some d assms by (simp add: LoadState_def os_readFile_ok unmarshal_marshal)
  have "distinct (map fst ?al)"
    using assms(6) by (metis distinct_map mset_eq_imp_distinct_iff mset_map mset_sort)
  then have "map_of (allocated ?q) = map_of (rev (allocated p)) \<and>
      mset (available ?q) = mset (available p0) - mset (map snd (allocated p))"
    using restore_perm [of ?al "allocated p" p0] assms(1) by (simp add: restore_fold)
  moreover have "map_of (rev (allocated p)) = map_of (allocated p)"
    using assms(6) by (rule map_of_rev_distinct)
  ultimately show ?thesis by (intro exI [of _ ?q] conjI load) simp_all
qed

text \<open>C24. A pool built from a gateway and a prefix length of at most 32 offers exactly the
  host addresses of the gateway's network: the addresses with the gateway's network bits
  whose host bits are neither all zero nor all one, without the gateway itself, each once.\<close>

theorem pool_offers_hosts:
  assumes "parse_ip p6 gw = V4 g" "k \<le> 32" "NewIPPoolFromGateway p6 gw (int k) = Inr p"
  shows "(\<forall>s. s \<in> set (available p) \<longleftrightarrow>
      (\<exists>ip. s = ip_string ip \<and> s \<noteq> gw \<and>
         be32 ip AND NOT (mask (32 - k)) = be32 g AND NOT (mask (32 - k)) \<and>
         be32 ip AND mask (32 - k) \<noteq> 0 \<and> be32 ip AND mask (32 - k) \<noteq> mask (32 - k))) \<and>
    distinct (available p) \<and> allocated p = []"
proof -
  obtain m where m: "be32 m = NOT (mask (32 - k))" "be32 (and_octets g m) AND mask (32 - k) = 0"
      "p = pool_of_network (Some (and_octets g m, m)) gw"
    using NewIPPoolFromGateway_shape [OF assms(1,2)] assms(3) by (metis sum.inject(2))
  have h: "32 - k \<le> 32" by simp
  show ?thesis
    using generate_mem [OF m(1,2) h] generate_distinct [OF m(1,2) h] host_bits [OF m(1,2) h]
    unfolding m(3) pool_of_network_def ip_pool.simps by blast
qed

definition pool29 :: ip_pool where
  "pool29 = pool_of_network (Some ((10, 0, 0, 0), (255, 255, 255, 248))) ''10.0.0.1''"

lemma gateway29: "parse_ip (\<lambda>s. None) ''10.0.0.1'' = V4 (10, 0, 0, 1)"
  by code_simp

lemma new29: "NewIPPoolFromGateway (\<lambda>s. None) ''10.0.0.1'' (int 29) = Inr pool29"
  by code_simp

lemma pool_offers_hosts_witness: "''10.0.0.2'' \<in> set (available pool29)"
proof -
  have "(29 :: nat) \<le> 32" by simp
  note all = pool_offers_hosts [OF gateway29 this new29]
  show ?thesis
    by (subst all [THEN conjunct1, rule_format], rule exI [of _ "(10, 0, 0, 2)"]) code_simp
qed

text \<open>C7. Over any sequence of allocations and releases, with any file operations failing
  in any way, a new pool neither loses, invents nor shares an address: the free and the
  allocated addresses together stay the ones the pool started with, two VMs never hold the
  same address, and an allocated address is not free.\<close>

theorem pool_never_shares:
  assumes "parse_ip p6 gw = V4 g" "k \<le> 32" "NewIPPoolFromGateway p6 gw (int k) = Inr p0"
    and "serve ops rs (p0\<lparr>persistPath := path\<rparr>, f) = (p, f')"
  shows "mset (available p @ map snd (allocated p)) = mset (available p0) \<and>
    (\<forall>v w ip. map_of (allocated p) v = Some ip \<longrightarrow>
       ip \<notin> set (available p) \<and> (map_of (allocated p) w = Some ip \<longrightarrow> v = w))"
proof -
  obtain m where m: "be32 m = NOT (mask (32 - k))" "be32 (and_octets g m) AND mask (32 - k) = 0"
      "p0 = pool_of_network (Some (and_octets g m, m)) gw"
    using NewIPPoolFromGateway_shape [OF assms(1,2)] assms(3) by (metis sum.inject(2))
  have "pool_ok p0" unfolding m(3) by (rule pool_ok_new [OF m(1,2)]) simp
  then have "pool_ok p \<and> pool_addresses p = pool_addresses p0"
    using serve_keeps [of "(p0\<lparr>persistPath := path\<rparr>, f)" ops rs] assms(4)
    by (simp add: pool_ok_def pool_addresses_def)
  moreover have "pool_addresses p0 = mset (available p0)"
    by (simp add: pool_addresses_def m(3) pool_of_network_def)
  ultimately show ?thesis using pool_ok_exclusive [of p]
    by (intro conjI allI impI) (auto simp: pool_addresses_def)
qed

lemma pool_never_shares_witness:
  "\<exists>p f'. serve os_ops [AllocateReq ''a'', AllocateReq ''b'', ReleaseReq ''a'']
      (pool29\<lparr>persistPath := ''/s''\<rparr>, \<lparr>files = [], fs_faults = [False, True]\<rparr>) = (p, f') \<and>
    mset (available p @ map snd (allocated p)) = mset (available pool29)"
proof -
  obtain p f' where run: "serve os_ops [AllocateReq ''a'', AllocateReq ''b'', ReleaseReq ''a'']
      (pool29\<lparr>persistPath := ''/s''\<rparr>, \<lparr>files = [], fs_faults = [False, True]\<rparr>) = (p, f')"
    by fastforce
  have "(29 :: nat) \<le> 32" by simp
  from pool_never_shares [OF gateway29 this new29 run] show ?thesis using run by blast
qed

text \<open>An allocation is stable: a successful \<open>Allocate\<close> records the address for the
  VM and leaves the other VMs' addresses alone, the VM's next \<open>Allocate\<close> returns the
  same address and changes nothing, and releasing the VM puts the address back.\<close>

theorem Allocate_stable:
  assumes "Allocate ops vm (p, f) = (Inr ip, (p', f'))"
  shows "map_of (allocated p') = (map_of (allocated p))(vm \<mapsto> ip) \<and>
    GetAllocation p' vm = ip \<and>
    Allocate ops' vm (p', g) = (Inr ip, (p', g)) \<and>
    (map_of (allocated p) vm = None \<longrightarrow> available p = ip # available p')"
  using assms
proof (cases rule: Allocate_cases)
  case (fresh ip' rest)
  then have "map_of (allocated p') = (map_of (allocated p))(vm \<mapsto> ip)"
    by (auto simp: fun_eq_iff map_add_def split: option.splits)
  then show ?thesis using fresh by (simp add: GetAllocation_def Allocate_def)
qed (auto simp: GetAllocation_def Allocate_def)

lemma Allocate_stable_witness:
  "\<exists>p' f'. Allocate os_ops ''vm'' (pool29, \<lparr>files = [], fs_faults = []\<rparr>) = (Inr ''10.0.0.2'', (p', f')) \<and>
     GetAllocation p' ''vm'' = ''10.0.0.2''"
proof -
  have "fst (Allocate os_ops ''vm'' (pool29, \<lparr>files = [], fs_faults = []\<rparr>)) = Inr ''10.0.0.2''"
    by code_simp
  then obtain p' f' where
    run: "Allocate os_ops ''vm'' (pool29, \<lparr>files = [], fs_faults = []\<rparr>) = (Inr ''10.0.0.2'', (p', f'))"
    by (metis prod.collapse)
  from Allocate_stable [OF run, where ops' = os_ops] show ?thesis using run by blast
qed

text \<open>C19. Allocation is atomic over memory and disk: if it fails, the pool in memory is
  unchanged; whatever fails, a reader of the state file finds either what was there before
  or the complete state with the new allocation; if it succeeds with a new address, the
  file holds the new state; and no other file that existed is touched.\<close>

theorem Allocate_atomic:
  assumes "persistPath p = path" "path \<noteq> []"
    and "\<not> has_prefix path (temp_prefix (path_dir path) ''.ip-pool-*'')"
    and "Allocate os_ops vm (p, f) = (r, (p', f'))"
  shows "(case r of
       Inl e \<Rightarrow> p' = p \<and>
         (fs_content f' path = fs_content f path \<or>
          fs_content f' path = Some (marshal_state (allocated p @ [(vm, hd (available p))])))
     | Inr ip \<Rightarrow> map_of (allocated p) vm = Some ip \<and> p' = p \<and> f' = f \<or>
         map_of (allocated p) vm = None \<and> fs_content f' path = Some (marshal_state (allocated p'))) \<and>
    (\<forall>other. other \<noteq> path \<longrightarrow> fs_content f other \<noteq> None \<longrightarrow> fs_content f' other = fs_content f other)"
proof -
  have disk: "fs_content g path = Some (marshal_state al) \<or>
      ((\<exists>e. q = Inl e) \<and> fs_content g path = fs_content f path)"
    and frame: "\<forall>other. other \<noteq> path \<longrightarrow> fs_content f other \<noteq> None \<longrightarrow> fs_content g other = fs_content f other"
    if "persistLocked os_ops p al f = (q, g)" for al q g
    using os_files.persistLocked_atomic [of p al f q g] that assms(1-3)
      os_files.replaceFile_atomic(2) [OF assms(3), of "marshal_state al" f q g]
    by (auto simp: persistLocked_def)
  from assms(4) show ?thesis
  proof (cases rule: Allocate_cases)
    case (failed ip rest e)
    then show ?thesis using disk [OF failed(3)] frame [OF failed(3)] by auto
  next
    case (fresh ip rest)
    then show ?thesis using disk [OF fresh(3)] frame [OF fresh(3)] by auto
  qed auto
qed

lemma Allocate_atomic_witness:
  "\<exists>e p' f'. Allocate os_ops ''vm'' (pool29\<lparr>persistPath := ''/s''\<rparr>,
      \<lparr>files = [(''/s'', ''old'')], fs_faults = [False, False, True]\<rparr>) = (Inl e, (p', f')) \<and>
    p' = pool29\<lparr>persistPath := ''/s''\<rparr>"
proof -
  let ?p = "pool29\<lparr>persistPath := ''/s''\<rparr>"
  let ?f = "\<lparr>files = [(''/s'', ''old'')], fs_faults = [False, False, True]\<rparr>"
  have "isl (fst (Allocate os_ops ''vm'' (?p, ?f)))" by code_simp
  then obtain e p' f' where run: "Allocate os_ops ''vm'' (?p, ?f) = (Inl e, (p', f'))"
    by (metis isl_def prod.collapse)
  have "persistPath ?p = ''/s''" "''/s'' \<noteq> []" by simp_all
  moreover have "\<not> has_prefix ''/s'' (temp_prefix (path_dir ''/s'') ''.ip-pool-*'')" by code_simp
  ultimately show ?thesis
    using Allocate_atomic [OF _ _ _ run, of "''/s''"] run by simp
qed

text \<open>C18. A restart recovers the pool: after any sequence of requests whose file operations
  did not fail, a new pool of the same network that loads the state file holds the same
  allocations and the same free addresses (in some order).\<close>

theorem restart_recovers:
  assumes "parse_ip p6 gw = V4 g" "k \<le> 32" "NewIPPoolFromGateway p6 gw (int k) = Inr p00"
    and "p0 = p00\<lparr>persistPath := path\<rparr>" "path \<noteq> []"
    and "\<not> has_prefix path (temp_prefix (path_dir path) ''.ip-pool-*'')"
    and "fs_faults f = []" "fs_content f path = None"
    and "serve os_ops rs (p0, f) = (p, f')"
  shows "\<exists>q. LoadState os_readFile (p0, f') = (Inr (), (q, f')) \<and>
    map_of (allocated q) = map_of (allocated p) \<and> mset (available q) = mset (available p)"
proof -
  obtain m where m: "be32 m = NOT (mask (32 - k))" "be32 (and_octets g m) AND mask (32 - k) = 0"
      "p00 = pool_of_network (Some (and_octets g m, m)) gw"
    using NewIPPoolFromGateway_shape [OF assms(1,2)] assms(3) by (metis sum.inject(2))
  have "pool_ok p00" unfolding m(3) by (rule pool_ok_new [OF m(1,2)]) simp
  moreover have new: "allocated p0 = []" "persistPath p0 = path"
    using assms(4) m(3) by (simp_all add: pool_of_network_def)
  ultimately have inv: "pool_ok p" "pool_addresses p = mset (available p0)"
    using serve_keeps [of "(p0, f)" os_ops rs] assms(4,9)
    by (simp_all add: pool_ok_def pool_addresses_def)
  have disk: "fs_faults f' = []" "disk_ok p f'" "persistPath p = path"
    using serve_disk [of "(p0, f)" rs] assms(5-9) new by (auto simp: disk_ok_def)
  have "distinct (map fst (allocated p))" using inv(1) by (simp add: pool_ok_def)
  moreover have "mset (available p0) = mset (available p) + mset (map snd (allocated p))"
    using inv(2) by (simp add: pool_addresses_def)
  ultimately show ?thesis
    using load_disk [OF new(1) disk(1,2)] new(2) disk(3) assms(5) by simp
qed

lemma restart_recovers_witness:
  "\<exists>p f' q. serve os_ops [AllocateReq ''a'', AllocateReq ''b'', ReleaseReq ''a'']
      (pool29\<lparr>persistPath := ''/s''\<rparr>, \<lparr>files = [], fs_faults = []\<rparr>) = (p, f') \<and>
    LoadState os_readFile (pool29\<lparr>persistPath := ''/s''\<rparr>, f') = (Inr (), (q, f')) \<and>
    map_of (allocated q) = map_of (allocated p)"
proof -
  let ?f = "\<lparr>files = [], fs_faults = []\<rparr>"
  obtain p f' where run: "serve os_ops [AllocateReq ''a'', AllocateReq ''b'', ReleaseReq ''a'']
      (pool29\<lparr>persistPath := ''/s''\<rparr>, ?f) = (p, f')"
    by fastforce
  have "(29 :: nat) \<le> 32" "''/s'' \<noteq> []" "fs_faults ?f = []" by simp_all
  moreover have "\<not> has_prefix ''/s'' (temp_prefix (path_dir ''/s'') ''.ip-pool-*'')"
      "fs_content ?f ''/s'' = None" by code_simp+
  ultimately show ?thesis
    using restart_recovers [OF gateway29 _ new29 refl _ _ _ _ run] run by blast
qed

end
