(* ===== verification/Cloud_Init.thy ===== *)
theory Cloud_Init
  imports Json
begin

text \<open>
  The data a VM boots with, from \<open>pkg/firecracker/cloudinit.go\<close>: the cloud-init
  user-data and the MMDS document. \<open>yaml.Marshal\<close> is third-party and a parameter.
\<close>

section \<open>Encodings\<close>

text \<open>\<open>base64.StdEncoding\<close>, three bytes to four characters, padded.\<close>

definition b64_char :: "nat \<Rightarrow> char" where
  "b64_char n =
     (if n < 26 then char_of (65 + n) else if n < 52 then char_of (97 + (n - 26))
      else if n < 62 then char_of (48 + (n - 52)) else if n = 62 then CHR ''+'' else CHR ''/'')"

fun base64 :: "string \<Rightarrow> string" where
  "base64 (a # b # c # s) =
     (let x = of_char a :: nat; y = of_char b :: nat; z = of_char c :: nat in
      b64_char (x div 4) # b64_char (x mod 4 * 16 + y div 16) #
      b64_char (y mod 16 * 4 + z div 64) # b64_char (z mod 64) # base64 s)"
| "base64 [a, b] =
     (let x = of_char a :: nat; y = of_char b :: nat in
      [b64_char (x div 4), b64_char (x mod 4 * 16 + y div 16), b64_char (y mod 16 * 4), CHR ''=''])"
| "base64 [a] =
     (let x = of_char a :: nat in [b64_char (x div 4), b64_char (x mod 4 * 16), CHR ''='', CHR ''=''])"
| "base64 [] = []"

text \<open>\<open>%q\<close> of a string, for ASCII.\<close>

definition quote_hex :: "nat \<Rightarrow> char" where
  "quote_hex d = (if d < 10 then char_of (48 + d) else char_of (87 + d))"

definition quote_char :: "char \<Rightarrow> string" where
  "quote_char c =
     (let n = of_char c :: nat in
      if c = CHR 0x22 \<or> c = CHR 0x5C then [CHR 0x5C, c]
      else if n = 7 then [CHR 0x5C, CHR ''a''] else if n = 8 then [CHR 0x5C, CHR ''b'']
      else if n = 9 then [CHR 0x5C, CHR ''t''] else if n = 10 then [CHR 0x5C, CHR ''n'']
      else if n = 11 then [CHR 0x5C, CHR ''v''] else if n = 12 then [CHR 0x5C, CHR ''f'']
      else if n = 13 then [CHR 0x5C, CHR ''r'']
      else if n < 32 \<or> 127 \<le> n then [CHR 0x5C, CHR ''x'', quote_hex (n div 16), quote_hex (n mod 16)]
      else [c])"

definition go_quote :: "string \<Rightarrow> string" where
  "go_quote s = CHR 0x22 # concat (map quote_char s) @ [CHR 0x22]"

section \<open>User-data\<close>

record cloud_init_config =
  ci_hostname :: string
  ci_environment :: "(string \<times> string) list"
  ci_ssh_keys :: "string list"
  ci_workspace :: string
  ci_post_create :: string

record cloud_init_file =
  cf_path :: string
  cf_permissions :: string
  cf_content :: string

record cloud_init_data =
  cd_hostname :: string
  cd_manage_etc_hosts :: bool
  cd_ssh_keys :: "string list"
  cd_write_files :: "cloud_init_file list"
  cd_runcmd :: "string list"

definition newline :: string where
  "newline = [CHR 0x0A]"

text \<open>Keys in sorted order; the environment has distinct keys.\<close>

definition buildEnvFileContent :: "(string \<times> string) list \<Rightarrow> string" where
  "buildEnvFileContent env =
     join_with newline (map (\<lambda>(k, v). k @ ''='' @ v) (sort_key fst env)) @ newline"

definition buildProfileScript :: "(string \<times> string) list \<Rightarrow> string" where
  "buildProfileScript env =
     join_with newline
       ([''#!/bin/bash'', ''# Stockyard environment variables''] @
        map (\<lambda>(k, v). ''export '' @ k @ ''='' @ go_quote v) (sort_key fst env)) @ newline"

definition cloud_init_files :: "cloud_init_config \<Rightarrow> cloud_init_file list" where
  "cloud_init_files c =
     (if ci_environment c = [] then []
      else [\<lparr>cf_path = ''/etc/stockyard/env'', cf_permissions = ''0600'',
              cf_content = buildEnvFileContent (ci_environment c)\<rparr>,
            \<lparr>cf_path = ''/etc/profile.d/stockyard.sh'', cf_permissions = ''0644'',
              cf_content = buildProfileScript (ci_environment c)\<rparr>]) @
     (if ci_workspace c = [] then []
      else [\<lparr>cf_path = ''/etc/stockyard/workspace'', cf_permissions = ''0644'', cf_content = ci_workspace c\<rparr>]) @
     (if ci_post_create c = [] then []
      else [\<lparr>cf_path = ''/etc/stockyard/post-create.sh'', cf_permissions = ''0755'',
              cf_content = ci_post_create c\<rparr>])"

definition Generate :: "(cloud_init_data \<Rightarrow> goerr + string) \<Rightarrow> cloud_init_config \<Rightarrow> goerr + string" where
  "Generate yaml c =
     (let d = \<lparr>cd_hostname = ci_hostname c, cd_manage_etc_hosts = True, cd_ssh_keys = ci_ssh_keys c,
               cd_write_files = cloud_init_files c,
               cd_runcmd = ''mkdir -p /etc/stockyard'' #
                 (if ci_post_create c = [] then [] else [''/etc/stockyard/post-create.sh''])\<rparr>
      in case yaml d of
        Inl e \<Rightarrow> Inl (Wrap ''failed to marshal cloud-init data'' e)
      | Inr y \<Rightarrow> Inr (base64 (''#cloud-config'' @ newline @ y)))"

section \<open>The MMDS document\<close>

record mmds_network =
  mn_ip :: string
  mn_netmask :: string
  mn_gateway :: string
  mn_dns :: string

record mmds_metadata =
  mm_instance :: string
  mm_hostname :: string
  mm_tailscale_key :: string
  mm_ssh_keys :: "string list"
  mm_user_data :: string
  mm_network :: "mmds_network option"
  mm_dotenv :: string

text \<open>As the JSON encoder writes it: the keys of every map sorted.\<close>

definition BuildMMDSData :: "mmds_metadata \<Rightarrow> json" where
  "BuildMMDSData m =
     (let meta =
        [(''instance-id'', JStr (mm_instance m)), (''local-hostname'', JStr (mm_hostname m))] @
        (if mm_tailscale_key m = [] then [] else [(''tailscale-auth-key'', JStr (mm_tailscale_key m))]) @
        (if mm_ssh_keys m = [] then []
         else [(''ssh-authorized-keys'', JStr (join_with newline (mm_ssh_keys m)))]) @
        (case mm_network m of None \<Rightarrow> []
         | Some n \<Rightarrow> [(''network-config'', JObj
             [(''dns'', JStr (mn_dns n)), (''gateway'', JStr (mn_gateway n)),
              (''ip'', JStr (mn_ip n)), (''netmask'', JStr (mn_netmask n))])]) @
        (if mm_dotenv m = [] then [] else [(''dotenv'', JStr (base64 (mm_dotenv m)))])
      in JObj [(''latest'', JObj [(''meta-data'', JObj (sort_key fst meta)), (''user-data'', JStr (mm_user_data m))])])"

end
