(* ===== verification/Process_Handle.thy ===== *)
theory Process_Handle
  imports Go_Strings
begin

text \<open>
  Finding and stopping the Firecracker process of a VM: \<open>process_handle.go\<close>,
  \<open>stopDetachedProcess\<close> and \<open>requireProcessAbsent\<close> of \<open>client.go\<close>, and the
  Linux provider of \<open>process_handle_linux.go\<close>. The provider is the interface
  \<open>process_ops\<close> (\<open>stableProcessProvider\<close> and \<open>stableProcessHandle\<close>); its
  contract is the locale \<open>process_table\<close>.
\<close>

section \<open>The provider\<close>

text \<open>
  A handle is the PID with its pidfd. An executable identity is the file it names
  (\<open>os.SameFile\<close> is equality). \<open>signal_process h True\<close> is SIGKILL,
  \<open>False\<close> SIGTERM.
\<close>

type_synonym handle = "nat \<times> nat"

record 'e process_ops =
  candidatePIDs :: "string \<Rightarrow> string \<Rightarrow> ('e env, nat list) op"
  open_process :: "nat \<Rightarrow> ('e env, handle) op"
  identity_of :: "handle \<Rightarrow> ('e env, string \<times> string list) op"
  signal_process :: "handle \<Rightarrow> bool \<Rightarrow> ('e env, unit) op"
  wait_process :: "handle \<Rightarrow> ('e env, unit) op"
  close_process :: "handle \<Rightarrow> ('e env, unit) op"
  resolveExecutable :: "string \<Rightarrow> ('e env, string) op"

fun argumentsOwnSocket :: "string list \<Rightarrow> string \<Rightarrow> bool" where
  "argumentsOwnSocket (a # b # as) s = ((a = ''--api-sock'' \<and> b = s) \<or> argumentsOwnSocket (b # as) s)"
| "argumentsOwnSocket as s = False"

definition err_of :: "goerr + 'a \<Rightarrow> goerr option" where
  "err_of r = (case r of Inl e \<Rightarrow> Some e | Inr _ \<Rightarrow> None)"

text \<open>\<open>return errors.Join(es...)\<close>, and nil when every operand is nil.\<close>

definition return_joined :: "goerr option list \<Rightarrow> ('s, 'a) op \<Rightarrow> ('s, 'a) op" where
  "return_joined es k = (case errors_join es of Some e \<Rightarrow> fail e | None \<Rightarrow> k)"

definition closeStableProcessHandle :: "'e process_ops \<Rightarrow> handle \<Rightarrow> string \<Rightarrow> ('e env, unit) op" where
  "closeStableProcessHandle ops h action = wrap (action @ '' for PID '' @ itoa (fst h)) (close_process ops h)"

text \<open>The deferred close of a handle retained when the search fails.\<close>

definition fail_retained :: "'e process_ops \<Rightarrow> handle option \<Rightarrow> goerr \<Rightarrow> ('e env, handle option) op" where
  "fail_retained ops m e =
     (case m of
        None \<Rightarrow> fail e
      | Some h \<Rightarrow>
          attempt (closeStableProcessHandle ops h ''close retained Firecracker process handle'') (\<lambda>c.
            return_joined [Some e, err_of c] (fail e)))"

text \<open>An error joined with the result of closing the current handle.\<close>

definition fail_closing :: "'e process_ops \<Rightarrow> handle option \<Rightarrow> handle \<Rightarrow> string \<Rightarrow> goerr \<Rightarrow> ('e env, handle option) op" where
  "fail_closing ops m h action e =
     attempt (closeStableProcessHandle ops h action) (\<lambda>c.
       fail_retained ops m (Join (e # (case c of Inl e' \<Rightarrow> [e'] | Inr _ \<Rightarrow> []))))"

fun find_match :: "'e process_ops \<Rightarrow> string \<Rightarrow> string \<Rightarrow> nat list \<Rightarrow> handle option \<Rightarrow> ('e env, handle option) op" where
  "find_match ops sock expected [] m = ok m"
| "find_match ops sock expected (pid # pids) m =
     attempt (open_process ops pid) (\<lambda>r. case r of
       Inl e \<Rightarrow>
         if errors_is e ErrProcessAbsent then find_match ops sock expected pids m
         else fail_retained ops m (Wrap (''open stable process handle for PID '' @ itoa pid) e)
     | Inr h \<Rightarrow>
         attempt (identity_of ops h) (\<lambda>i. case i of
           Inl e \<Rightarrow>
             if errors_is e ErrProcessAbsent then
               attempt (closeStableProcessHandle ops h ''close absent process handle'') (\<lambda>c. case c of
                 Inl ce \<Rightarrow> fail_retained ops m ce
               | Inr _ \<Rightarrow> find_match ops sock expected pids m)
             else fail_closing ops m h ''close process handle after identity failure''
                    (Wrap (''read stable process identity for PID '' @ itoa pid) e)
         | Inr (exe, args) \<Rightarrow>
             if \<not> argumentsOwnSocket args sock then
               attempt (closeStableProcessHandle ops h ''close unrelated process handle'') (\<lambda>c. case c of
                 Inl ce \<Rightarrow> fail_retained ops m ce
               | Inr _ \<Rightarrow> find_match ops sock expected pids m)
             else if exe \<noteq> expected then
               fail_closing ops m h ''close executable-mismatch process handle''
                 (Msg (''Firecracker process candidate PID '' @ itoa pid @ '' has an unknown executable identity''))
             else if m \<noteq> None then
               fail_closing ops m h ''close additional Firecracker process handle''
                 (Msg (''multiple Firecracker processes own API socket '' @ sock))
             else find_match ops sock expected pids (Some h)))"

definition findProcessBySocket :: "'e process_ops \<Rightarrow> string \<Rightarrow> string \<Rightarrow> ('e env, handle option) op" where
  "findProcessBySocket ops bin sock =
     call_wrap ''list process candidates'' (candidatePIDs ops bin sock) (\<lambda>pids.
       if pids = [] then ok None
       else call_wrap ''resolve configured Firecracker executable identity'' (resolveExecutable ops bin) (\<lambda>expected.
         find_match ops sock expected pids None))"

section \<open>Stopping a process\<close>

definition stop_signals :: "'e process_ops \<Rightarrow> handle \<Rightarrow> ('e env, unit) op" where
  "stop_signals ops h =
     attempt (signal_process ops h False) (\<lambda>s. case s of
       Inl e \<Rightarrow> if errors_is e ErrProcessAbsent then ok () else fail (Wrap ''stop Firecracker process'' e)
     | Inr _ \<Rightarrow>
         attempt (wait_process ops h) (\<lambda>w. case w of
           Inr _ \<Rightarrow> ok ()
         | Inl e \<Rightarrow>
             if errors_is e ErrProcessAbsent then ok ()
             else if \<not> errors_is e ErrProcessStillRunning then fail (Wrap ''verify Firecracker process deletion'' e)
             else
               attempt (signal_process ops h True) (\<lambda>k. case k of
                 Inl e' \<Rightarrow> if errors_is e' ErrProcessAbsent then ok () else fail (Wrap ''kill Firecracker process'' e')
               | Inr _ \<Rightarrow>
                   attempt (wait_process ops h) (\<lambda>w'. case w' of
                     Inl e' \<Rightarrow>
                       if errors_is e' ErrProcessAbsent then ok ()
                       else fail (Wrap ''verify Firecracker process deletion'' e')
                   | Inr _ \<Rightarrow> ok ()))))"

definition stopDetachedProcess :: "'e process_ops \<Rightarrow> handle \<Rightarrow> ('e env, unit) op" where
  "stopDetachedProcess ops h =
     attempt (stop_signals ops h) (\<lambda>r.
     attempt (close_process ops h) (\<lambda>c. case c of
       Inl e \<Rightarrow> return_joined [err_of r, Some (Wrap ''close Firecracker process handle'' e)] (ok ())
     | Inr _ \<Rightarrow> (\<lambda>w. (r, w))))"

definition requireProcessAbsent :: "'e process_ops \<Rightarrow> string \<Rightarrow> string \<Rightarrow> ('e env, unit) op" where
  "requireProcessAbsent ops bin sock =
     call_wrap ''verify Firecracker process deletion'' (findProcessBySocket ops bin sock) (\<lambda>p. case p of
       None \<Rightarrow> ok ()
     | Some h \<Rightarrow>
         call_wrap ''verify Firecracker process deletion: close process handle'' (close_process ops h) (\<lambda>_.
           fail (Msg (''verify Firecracker process deletion: PID '' @ itoa (fst h) @ '' remains for API socket '' @ sock))))"

section \<open>The contract\<close>

text \<open>
  \<open>owner o p s\<close>: the process with PID \<open>p\<close> runs with \<open>--api-sock s\<close>;
  \<open>alive o p\<close>: there is one with that PID. Nothing here starts a process, and only
  signals end one, the one the handle was opened for. The candidates are all the owners of
  the socket; a handle that cannot be opened or read because the process is absent means so;
  the arguments read are those of the process.
\<close>

locale process_table =
  fixes ops :: "'e process_ops" and alive :: "'e \<Rightarrow> nat \<Rightarrow> bool" and owner :: "'e \<Rightarrow> nat \<Rightarrow> string \<Rightarrow> bool"
  assumes owner_alive: "owner o' p s \<Longrightarrow> alive o' p"
    and cand_frame: "candidatePIDs ops b s w = (r, w') \<Longrightarrow> alive (outside w') = alive (outside w) \<and> owner (outside w') = owner (outside w)"
    and open_frame: "open_process ops p w = (q, w') \<Longrightarrow> alive (outside w') = alive (outside w) \<and> owner (outside w') = owner (outside w)"
    and identity_frame: "identity_of ops h w = (i, w') \<Longrightarrow> alive (outside w') = alive (outside w) \<and> owner (outside w') = owner (outside w)"
    and wait_frame: "wait_process ops h w = (u, w') \<Longrightarrow> alive (outside w') = alive (outside w) \<and> owner (outside w') = owner (outside w)"
    and close_frame: "close_process ops h w = (u, w') \<Longrightarrow> alive (outside w') = alive (outside w) \<and> owner (outside w') = owner (outside w)"
    and resolve_frame: "resolveExecutable ops b w = (x, w') \<Longrightarrow> alive (outside w') = alive (outside w) \<and> owner (outside w') = owner (outside w)"
    and signal_other: "signal_process ops h k w = (u, w') \<Longrightarrow> p \<noteq> fst h \<Longrightarrow>
      alive (outside w') p = alive (outside w) p \<and> owner (outside w') p s = owner (outside w) p s"
    and signal_shrinks: "signal_process ops h k w = (u, w') \<Longrightarrow> owner (outside w') p s \<Longrightarrow> owner (outside w) p s"
    and cand_complete: "candidatePIDs ops b s w = (Inr ps, w') \<Longrightarrow> owner (outside w) p s \<Longrightarrow> p \<in> set ps"
    and open_pid: "open_process ops p w = (Inr h, w') \<Longrightarrow> fst h = p"
    and open_absent: "open_process ops p w = (Inl e, w') \<Longrightarrow> errors_is e ErrProcessAbsent \<Longrightarrow> \<not> alive (outside w) p"
    and identity_absent: "identity_of ops h w = (Inl e, w') \<Longrightarrow> errors_is e ErrProcessAbsent \<Longrightarrow> \<not> alive (outside w) (fst h)"
    and identity_args: "identity_of ops h w = (Inr (exe, args), w') \<Longrightarrow>
      argumentsOwnSocket args s = owner (outside w) (fst h) s"
begin

definition same :: "'e env \<Rightarrow> 'e env \<Rightarrow> bool" where
  "same w w' \<longleftrightarrow> alive (outside w') = alive (outside w) \<and> owner (outside w') = owner (outside w)"

lemma same_refl [simp]: "same w w"
  by (simp add: same_def)

lemma same_trans: "same w w' \<Longrightarrow> same w' w'' \<Longrightarrow> same w w''"
  by (simp add: same_def)

lemma close_same: "closeStableProcessHandle ops h a w = (r, w') \<Longrightarrow> same w w'"
  using close_frame [of h w] by (auto simp: closeStableProcessHandle_def wrap_def same_def split: prod.splits sum.splits)

lemma fail_retained_same: "fail_retained ops m e w = (r, w') \<Longrightarrow> same w w' \<and> isl r"
  using close_same
  by (auto simp: fail_retained_def attempt_def return_joined_def split: option.splits prod.splits)

lemma fail_closing_same: "fail_closing ops m h a e w = (r, w') \<Longrightarrow> same w w' \<and> isl r"
  unfolding fail_closing_def attempt_def
  by (auto split: prod.splits dest!: close_same fail_retained_same intro: same_trans)

text \<open>
  The search changes no process. When it finds nothing, no owner is among the candidates;
  when it finds a handle, that process owns the socket.
\<close>

lemma find_match_spec:
  assumes "find_match ops sock expected pids m w = (r, w')"
    and "\<And>h. m = Some h \<Longrightarrow> owner (outside w) (fst h) sock"
  shows "same w w' \<and>
    (r = Inr None \<longrightarrow> m = None \<and> (\<forall>p \<in> set pids. \<not> owner (outside w) p sock)) \<and>
    (\<forall>h. r = Inr (Some h) \<longrightarrow> owner (outside w) (fst h) sock)"
  using assms
proof (induction pids arbitrary: m w)
  case (Cons pid pids)
  obtain q w1 where q: "open_process ops pid w = (q, w1)" by fastforce
  have s1: "same w w1" using open_frame [OF q] by (simp add: same_def)
  show ?case
  proof (cases q)
    case (Inl e)
    show ?thesis
    proof (cases "errors_is e ErrProcessAbsent")
      case True
      then have "\<not> owner (outside w) pid sock"
        using open_absent [of pid w e w1] q Inl owner_alive by blast
      moreover have "find_match ops sock expected pids m w1 = (r, w')"
        using Cons.prems(1) q Inl True by (simp add: attempt_def)
      ultimately show ?thesis using Cons.IH [of m w1] Cons.prems(2) s1 by (auto simp: same_def)
    next
      case False
      then show ?thesis using Cons.prems(1) q Inl s1
        by (auto simp: attempt_def dest!: fail_retained_same intro: same_trans)
    qed
  next
    case (Inr h)
    then have h: "fst h = pid" using open_pid q by simp
    obtain i w2 where i: "identity_of ops h w1 = (i, w2)" by fastforce
    have s2: "same w w2" using identity_frame [OF i] s1 by (simp add: same_def)
    have skip: ?thesis
      if close: "closeStableProcessHandle ops h a w2 = (c, w3)"
        and rest: "(case c of Inl ce \<Rightarrow> fail_retained ops m ce | Inr _ \<Rightarrow> find_match ops sock expected pids m) w3 = (r, w')"
        and no: "\<not> owner (outside w) pid sock" for a c w3
    proof (cases c)
      case (Inl ce)
      then show ?thesis using rest close_same [OF close] s2 by (auto dest!: fail_retained_same intro: same_trans)
    next
      case (Inr u)
      have "same w w3" using close_same [OF close] s2 same_trans by blast
      then show ?thesis using Cons.IH [of m w3] rest Inr no Cons.prems(2) by (auto simp: same_def)
    qed
    show ?thesis
    proof (cases i)
      case (Inl e)
      show ?thesis
      proof (cases "errors_is e ErrProcessAbsent")
        case True
        then have "\<not> owner (outside w) pid sock"
          using identity_absent [of h w1 e w2] i Inl owner_alive h s1 by (auto simp: same_def)
        then show ?thesis
          using Cons.prems(1) q \<open>q = Inr h\<close> i Inl True skip
          by (auto simp: attempt_def split: prod.splits)
      next
        case False
        then show ?thesis using Cons.prems(1) q \<open>q = Inr h\<close> i Inl s2
          by (auto simp: attempt_def dest!: fail_closing_same intro: same_trans)
      qed
    next
      case (Inr ea)
      obtain exe args where ea: "ea = (exe, args)" by fastforce
      then have own: "argumentsOwnSocket args sock = owner (outside w) pid sock"
        using identity_args [of h w1 exe args w2 sock] i Inr h s1 by (simp add: same_def)
      consider (no) "\<not> argumentsOwnSocket args sock" | (bad) "argumentsOwnSocket args sock" "exe \<noteq> expected \<or> m \<noteq> None"
        | (hit) "argumentsOwnSocket args sock" "exe = expected" "m = None" by blast
      then show ?thesis
      proof cases
        case no
        then show ?thesis using Cons.prems(1) q \<open>q = Inr h\<close> i Inr ea skip own
          by (auto simp: attempt_def split: prod.splits)
      next
        case bad
        then show ?thesis using Cons.prems(1) q \<open>q = Inr h\<close> i Inr ea s2
          by (auto simp: attempt_def dest!: fail_closing_same intro: same_trans split: if_splits)
      next
        case hit
        then have "find_match ops sock expected pids (Some h) w2 = (r, w')"
          using Cons.prems(1) q \<open>q = Inr h\<close> i Inr ea by (simp add: attempt_def)
        moreover have "owner (outside w2) (fst h) sock" using hit own h s2 by (simp add: same_def)
        ultimately show ?thesis using Cons.IH [of "Some h" w2] s2 by (auto simp: same_def)
      qed
    qed
  qed
qed auto

lemma findProcessBySocket_spec:
  assumes "findProcessBySocket ops bin sock w = (r, w')"
  shows "same w w' \<and> (r = Inr None \<longrightarrow> (\<forall>p. \<not> owner (outside w) p sock)) \<and>
    (\<forall>h. r = Inr (Some h) \<longrightarrow> owner (outside w) (fst h) sock)"
proof -
  obtain c w1 where c: "candidatePIDs ops bin sock w = (c, w1)" by fastforce
  have s1: "same w w1" using cand_frame [OF c] by (simp add: same_def)
  show ?thesis
  proof (cases c)
    case (Inl e)
    then show ?thesis using assms c s1 by (auto simp: findProcessBySocket_def call_wrap_Inl)
  next
    case (Inr pids)
    note all = cand_complete [OF c [unfolded Inr]]
    show ?thesis
    proof (cases "pids = []")
      case True
      then show ?thesis using assms c Inr s1 all by (auto simp: findProcessBySocket_def call_wrap_Inr)
    next
      case False
      obtain x w2 where x: "resolveExecutable ops bin w1 = (x, w2)" by fastforce
      have s2: "same w w2" using resolve_frame [OF x] s1 by (simp add: same_def)
      show ?thesis
      proof (cases x)
        case (Inl e)
        then show ?thesis using assms c \<open>c = Inr pids\<close> False x s2
          by (auto simp: findProcessBySocket_def call_wrap_Inr call_wrap_Inl)
      next
        case (Inr expected)
        then have "find_match ops sock expected pids None w2 = (r, w')"
          using assms c \<open>c = Inr pids\<close> False x by (simp add: findProcessBySocket_def call_wrap_Inr)
        from find_match_spec [OF this] show ?thesis using s2 all by (auto simp: same_def)
      qed
    qed
  qed
qed

text \<open>Nil from \<open>requireProcessAbsent\<close> means that no process owns the socket.\<close>

lemma requireProcessAbsent_spec:
  assumes "requireProcessAbsent ops bin sock w = (r, w')"
  shows "same w w' \<and> (r = Inr () \<longrightarrow> (\<forall>p. \<not> owner (outside w') p sock))"
proof -
  obtain f w1 where f: "findProcessBySocket ops bin sock w = (f, w1)" by fastforce
  note spec = findProcessBySocket_spec [OF f]
  show ?thesis
  proof (cases f)
    case (Inl e)
    then show ?thesis using assms f spec by (auto simp: requireProcessAbsent_def call_wrap_Inl)
  next
    case (Inr p)
    show ?thesis
    proof (cases p)
      case None
      then show ?thesis using assms f Inr spec by (auto simp: requireProcessAbsent_def call_wrap_Inr same_def)
    next
      case (Some h)
      then show ?thesis using assms f Inr spec close_frame [of h w1]
        by (auto simp: requireProcessAbsent_def call_wrap_Inr call_wrap_def call_def wrap_def same_def
            split: prod.splits sum.splits)
    qed
  qed
qed

text \<open>Stopping signals the handle's process only.\<close>

definition touches :: "nat \<Rightarrow> 'e env \<Rightarrow> 'e env \<Rightarrow> bool" where
  "touches q w w' \<longleftrightarrow>
     (\<forall>p. p \<noteq> q \<longrightarrow> alive (outside w') p = alive (outside w) p) \<and>
     (\<forall>p s. owner (outside w') p s \<longrightarrow> owner (outside w) p s)"

lemma touches_trans: "touches q w w' \<Longrightarrow> touches q w' w'' \<Longrightarrow> touches q w w''"
  unfolding touches_def by blast

lemma same_touches: "same w w' \<Longrightarrow> touches q w w'"
  unfolding same_def touches_def by simp

lemma signal_touches: "signal_process ops h k w = (u, w') \<Longrightarrow> touches (fst h) w w'"
  using signal_other signal_shrinks unfolding touches_def by blast

lemma wait_touches: "wait_process ops h w = (u, w') \<Longrightarrow> touches q w w'"
  using wait_frame same_touches unfolding same_def by blast

lemma stop_signals_touches: "stop_signals ops h w = (r, w') \<Longrightarrow> touches (fst h) w w'"
  unfolding stop_signals_def attempt_def
  by (auto split: prod.splits sum.splits if_splits
      dest!: signal_touches wait_touches [where q = "fst h"] intro: touches_trans)

lemma stopDetachedProcess_touches:
  assumes "stopDetachedProcess ops h w = (r, w')"
  shows "touches (fst h) w w'"
proof -
  obtain q w1 where q: "stop_signals ops h w = (q, w1)" by fastforce
  obtain c w2 where c: "close_process ops h w1 = (c, w2)" by fastforce
  have "w' = w2"
    using assms q c by (auto simp: stopDetachedProcess_def attempt_def return_joined_def
        split: sum.splits option.splits)
  moreover have "same w1 w2" using close_frame [OF c] by (simp add: same_def)
  ultimately show ?thesis
    using stop_signals_touches [OF q] same_touches touches_trans by blast
qed

end

end
