(* ===== verification/Zfs.thy ===== *)
theory Zfs
  imports Go_Strings
begin

text \<open>
  The ZFS manager of \<open>pkg/zfs/zfs.go\<close>. The \<open>zfs\<close> command is a parameter
  \<open>run\<close>: arguments and outside world to what it printed, how it exited and the world
  after it. What the manager relies on is the locale \<open>zfs_tool\<close>; the facts about
  existence checks and destruction are proved there.
\<close>

record zfs_manager =
  PoolName :: string
  BasePath :: string

type_synonym 'e zfs_run = "string list \<Rightarrow> 'e \<Rightarrow> cmd_result \<times> 'e"

section \<open>Names\<close>

text \<open>\<open>strings.SplitN(name, "/", 2)\<close>.\<close>

definition ParseDatasetName :: "string \<Rightarrow> string \<times> string" where
  "ParseDatasetName name =
     (case index_byte name (CHR ''/'') of
        None \<Rightarrow> (name, [])
      | Some i \<Rightarrow> (take i name, drop (Suc i) name))"

definition safe_char :: "char \<Rightarrow> bool" where
  "safe_char c \<longleftrightarrow> (CHR ''a'' \<le> c \<and> c \<le> CHR ''z'') \<or> (CHR ''A'' \<le> c \<and> c \<le> CHR ''Z'') \<or>
     (CHR ''0'' \<le> c \<and> c \<le> CHR ''9'') \<or> c = CHR ''-'' \<or> c = CHR ''_'' \<or> c = CHR ''.''"

definition SanitizeDatasetComponent :: "string \<Rightarrow> string" where
  "SanitizeDatasetComponent name = map (\<lambda>c. if safe_char c then c else CHR ''-'') name"

text \<open>\<open>timestamp\<close> is \<open>time.Now().Format("2006-01-02T15-04-05")\<close>.\<close>

definition BuildSnapshotName :: "string \<Rightarrow> string \<Rightarrow> string \<Rightarrow> string" where
  "BuildSnapshotName timestamp taskID label =
     (let safeLabel = map (\<lambda>c. if safe_char c then c else CHR ''-'') label in
      if safeLabel = [] then taskID @ ''-'' @ timestamp
      else taskID @ ''-'' @ timestamp @ ''-'' @ safeLabel)"

definition DatasetPath :: "zfs_manager \<Rightarrow> string \<Rightarrow> string" where
  "DatasetPath m taskID = PoolName m @ ''/'' @ BasePath m @ ''/'' @ taskID"

definition CloneTargetPath :: "zfs_manager \<Rightarrow> string \<Rightarrow> string" where
  "CloneTargetPath m target = PoolName m @ ''/'' @ BasePath m @ ''/'' @ target"

section \<open>Commands\<close>

definition run_cmd :: "'e zfs_run \<Rightarrow> string list \<Rightarrow> ('e env, cmd_result) op" where
  "run_cmd run args = external (\<lambda>o'. case run args o' of (r, o'') \<Rightarrow> (Inr r, o''))"

definition runZFS :: "'e zfs_run \<Rightarrow> string list \<Rightarrow> ('e env, unit) op" where
  "runZFS run args =
     call (run_cmd run args) (\<lambda>r.
       if exit r = ExitOk then ok () else fail (Wrap (''zfs '' @ hd args @ '' failed'') (Msg (stderr r))))"

definition missing_message :: "string \<Rightarrow> string" where
  "missing_message d = ''cannot open '' @ [CHR 0x27] @ d @ [CHR 0x27] @ '': dataset does not exist'' @ [CHR 0x0A]"

text \<open>
  Only the exact missing-dataset answer, with nothing printed and the context still alive,
  counts as absence.
\<close>

definition DatasetPathExists :: "'e zfs_run \<Rightarrow> string \<Rightarrow> ('e env, bool) op" where
  "DatasetPathExists run dataset =
     call ctx_err (\<lambda>_.
     call (run_cmd run [''list'', ''-H'', ''-o'', ''name'', dataset]) (\<lambda>r.
       if exit r = ExitOk then
         (if trim_space (stdout r) \<noteq> dataset
          then fail (Msg (''zfs list returned unexpected dataset '' @ trim_space (stdout r)))
          else ok True)
       else if exit r = ExitCode 1 \<and> stdout r = [] then
         attempt ctx_err (\<lambda>c.
           if c = Inr () \<and> stderr r = missing_message dataset then ok False
           else fail (Wrap (''zfs list dataset '' @ dataset) (Msg (stderr r))))
       else fail (Wrap (''zfs list dataset '' @ dataset) (Msg (stderr r)))))"

definition DatasetExists :: "zfs_manager \<Rightarrow> 'e zfs_run \<Rightarrow> string \<Rightarrow> ('e env, bool) op" where
  "DatasetExists m run taskID = DatasetPathExists run (DatasetPath m taskID)"

definition CreateDataset :: "zfs_manager \<Rightarrow> 'e zfs_run \<Rightarrow> string \<Rightarrow> ('e env, unit) op" where
  "CreateDataset m run taskID = runZFS run [''create'', ''-p'', DatasetPath m taskID]"

definition DestroyDataset :: "zfs_manager \<Rightarrow> 'e zfs_run \<Rightarrow> string \<Rightarrow> ('e env, unit) op" where
  "DestroyDataset m run taskID =
     call (DatasetExists m run taskID) (\<lambda>exists.
       if \<not> exists then ok () else runZFS run [''destroy'', ''-r'', DatasetPath m taskID])"

definition CreateSnapshot :: "zfs_manager \<Rightarrow> 'e zfs_run \<Rightarrow> string \<Rightarrow> string \<Rightarrow> string \<Rightarrow> ('e env, string) op" where
  "CreateSnapshot m run timestamp taskID label =
     (let snapName = BuildSnapshotName timestamp taskID label in
      call (runZFS run [''snapshot'', DatasetPath m taskID @ ''@'' @ snapName]) (\<lambda>_. ok snapName))"

fun snapshot_names :: "string list \<Rightarrow> string list" where
  "snapshot_names [] = []"
| "snapshot_names (line # ls) =
     (if line = [] then snapshot_names ls
      else case last_index_byte line (CHR ''@'') of
        None \<Rightarrow> snapshot_names ls
      | Some i \<Rightarrow> drop (Suc i) line # snapshot_names ls)"

definition ListSnapshots :: "zfs_manager \<Rightarrow> 'e zfs_run \<Rightarrow> string \<Rightarrow> ('e env, string list) op" where
  "ListSnapshots m run taskID =
     call (run_cmd run [''list'', ''-t'', ''snapshot'', ''-H'', ''-o'', ''name'', ''-r'', DatasetPath m taskID]) (\<lambda>r.
       if exit r \<noteq> ExitOk then fail (Wrap ''zfs list failed'' (Msg (stderr r)))
       else ok (snapshot_names (split_byte (CHR 0x0A) (trim_space (stdout r)))))"

definition DestroySnapshot :: "zfs_manager \<Rightarrow> 'e zfs_run \<Rightarrow> string \<Rightarrow> string \<Rightarrow> ('e env, unit) op" where
  "DestroySnapshot m run taskID snapName = runZFS run [''destroy'', DatasetPath m taskID @ ''@'' @ snapName]"

definition RollbackSnapshot :: "zfs_manager \<Rightarrow> 'e zfs_run \<Rightarrow> string \<Rightarrow> string \<Rightarrow> ('e env, unit) op" where
  "RollbackSnapshot m run taskID snapName =
     runZFS run [''rollback'', ''-r'', DatasetPath m taskID @ ''@'' @ snapName]"

definition get_mountpoint :: "'e zfs_run \<Rightarrow> string \<Rightarrow> string \<Rightarrow> ('e env, string) op" where
  "get_mountpoint run what dataset =
     call (run_cmd run [''get'', ''-H'', ''-o'', ''value'', ''mountpoint'', dataset]) (\<lambda>r.
       if exit r \<noteq> ExitOk then fail (Wrap what (Msg (stderr r))) else ok (trim_space (stdout r)))"

definition GetMountpoint :: "zfs_manager \<Rightarrow> 'e zfs_run \<Rightarrow> string \<Rightarrow> ('e env, string) op" where
  "GetMountpoint m run taskID = get_mountpoint run ''zfs get mountpoint failed'' (DatasetPath m taskID)"

definition GetDatasetMountpoint :: "zfs_manager \<Rightarrow> 'e zfs_run \<Rightarrow> string \<Rightarrow> ('e env, string) op" where
  "GetDatasetMountpoint m run path =
     get_mountpoint run (''zfs get mountpoint failed for '' @ CloneTargetPath m path) (CloneTargetPath m path)"

text \<open>The \<open>sync\<close> command is a parameter of its own.\<close>

definition Sync :: "zfs_manager \<Rightarrow> 'e zfs_run \<Rightarrow> 'e zfs_run \<Rightarrow> string \<Rightarrow> ('e env, unit) op" where
  "Sync m run sync_run taskID =
     call (GetMountpoint m run taskID) (\<lambda>mountpoint.
     call (run_cmd sync_run [''-f'', mountpoint]) (\<lambda>r.
       if exit r \<noteq> ExitOk then fail (Wrap ''sync failed'' (Msg (stderr r))) else ok ()))"

definition CloneSnapshot :: "zfs_manager \<Rightarrow> 'e zfs_run \<Rightarrow> string \<Rightarrow> string \<Rightarrow> ('e env, unit) op" where
  "CloneSnapshot m run snapshotPath target = runZFS run [''clone'', snapshotPath, CloneTargetPath m target]"

definition DestroyDatasetByPath :: "zfs_manager \<Rightarrow> 'e zfs_run \<Rightarrow> string \<Rightarrow> ('e env, unit) op" where
  "DestroyDatasetByPath m run path = runZFS run [''destroy'', ''-r'', CloneTargetPath m path]"

definition SnapshotExists :: "'e zfs_run \<Rightarrow> string \<Rightarrow> ('e env, bool) op" where
  "SnapshotExists run path =
     call (run_cmd run [''list'', ''-t'', ''snapshot'', path]) (\<lambda>r. ok (exit r = ExitOk))"

definition DestroyDatasetRecursive :: "'e zfs_run \<Rightarrow> string \<Rightarrow> ('e env, unit) op" where
  "DestroyDatasetRecursive run path =
     call (DatasetPathExists run path) (\<lambda>exists.
       if \<not> exists then ok ()
       else
         call (runZFS run [''destroy'', ''-R'', path]) (\<lambda>_.
         call (DatasetPathExists run path) (\<lambda>exists.
           if exists then fail (Msg (''verify ZFS dataset deletion: '' @ path @ '' remains'')) else ok ())))"

text \<open>
  Importing a root file system; \<open>copyFile\<close> is a parameter. Every failure after the
  dataset was created destroys it again.
\<close>

definition ImportImageRootfs ::
    "zfs_manager \<Rightarrow> 'e zfs_run \<Rightarrow> (string \<Rightarrow> string \<Rightarrow> ('e env, unit) op) \<Rightarrow>
     string \<Rightarrow> string \<Rightarrow> string \<Rightarrow> ('e env, unit) op" where
  "ImportImageRootfs m run copyFile imagesPath dataset srcPath =
     (let datasetPath = PoolName m @ ''/'' @ imagesPath @ ''/'' @ dataset in
      call_wrap ''failed to create image dataset'' (runZFS run [''create'', ''-p'', datasetPath]) (\<lambda>_.
      attempt
        (call (get_mountpoint run ''failed to get mountpoint'' datasetPath) (\<lambda>mountpoint.
         call_wrap ''failed to copy rootfs'' (copyFile srcPath (mountpoint @ ''/rootfs.ext4'')) (\<lambda>_.
           wrap ''failed to create snapshot'' (runZFS run [''snapshot'', datasetPath @ ''@base'']))))
        (\<lambda>r. case r of
            Inl e \<Rightarrow> ignore (runZFS run [''destroy'', ''-r'', datasetPath]) (fail e)
          | Inr _ \<Rightarrow> ok ())))"

section \<open>What the manager relies on\<close>

text \<open>
  \<open>dataset o d\<close> says that the dataset (or snapshot) named \<open>d\<close> exists. The
  documented behaviour of \<open>zfs\<close>: \<open>list\<close> changes nothing, succeeds only for a
  dataset that exists and reports one missing only when it is; a successful
  \<open>destroy -r\<close> or \<open>-R\<close> removes the dataset, and no destroy creates one; a
  successful \<open>create -p\<close> makes it.
\<close>

locale zfs_tool =
  fixes run :: "'e zfs_run" and dataset :: "'e \<Rightarrow> string \<Rightarrow> bool"
  assumes list_frame: "run [''list'', ''-H'', ''-o'', ''name'', d] o' = (r, o'') \<Longrightarrow> dataset o'' = dataset o'"
    and list_found: "run [''list'', ''-H'', ''-o'', ''name'', d] o' = (r, o'') \<Longrightarrow> exit r = ExitOk \<Longrightarrow> dataset o' d"
    and list_missing: "run [''list'', ''-H'', ''-o'', ''name'', d] o' = (r, o'') \<Longrightarrow> exit r = ExitCode 1 \<Longrightarrow>
      stderr r = missing_message d \<Longrightarrow> \<not> dataset o' d"
    and destroy_ok: "run [''destroy'', flag, d] o' = (r, o'') \<Longrightarrow> flag = ''-r'' \<or> flag = ''-R'' \<Longrightarrow>
      exit r = ExitOk \<Longrightarrow> \<not> dataset o'' d"
    and destroy_none_new: "run [''destroy'', flag, d] o' = (r, o'') \<Longrightarrow> dataset o'' x \<Longrightarrow> dataset o' x"
    and create_ok: "run [''create'', ''-p'', d] o' = (r, o'') \<Longrightarrow> exit r = ExitOk \<Longrightarrow> dataset o'' d"
begin

lemma DatasetPathExists_sound:
  assumes "DatasetPathExists run d w = (r, w')"
  shows "dataset (outside w') = dataset (outside w)"
    and "r = Inr b \<Longrightarrow> dataset (outside w) d = b"
proof -
  obtain c w1 where c: "ctx_err w = (c, w1)" by fastforce
  note o1 = ctx_err_outsideD [OF c]
  obtain q o2 where q: "run [''list'', ''-H'', ''-o'', ''name'', d] (outside w1) = (q, o2)" by fastforce
  note list_frame [OF q] list_found [OF q] list_missing [OF q]
  then show "dataset (outside w') = dataset (outside w)"
    and "r = Inr b \<Longrightarrow> dataset (outside w) d = b"
    using assms c q o1
    by (auto simp: DatasetPathExists_def call_def run_cmd_def external_def zoom_def attempt_def
        split: prod.splits sum.splits if_splits dest!: ctx_err_outsideD)
qed

lemma runZFS_destroy:
  assumes "runZFS run [''destroy'', flag, d] w = (r, w')" "flag = ''-r'' \<or> flag = ''-R''"
  shows "r = Inr () \<Longrightarrow> \<not> dataset (outside w') d"
    and "dataset (outside w') x \<Longrightarrow> dataset (outside w) x"
  using assms destroy_ok [of flag d "outside w"] destroy_none_new [of flag d "outside w"]
  by (auto simp: runZFS_def call_def run_cmd_def external_def zoom_def split: prod.splits if_splits)

text \<open>Nil from either destruction means that the dataset is gone; neither creates one.\<close>

lemma DestroyDataset_absent:
  assumes "DestroyDataset m run i w = (r, w')"
  shows "r = Inr () \<Longrightarrow> \<not> dataset (outside w') (DatasetPath m i)"
    and "dataset (outside w') x \<Longrightarrow> dataset (outside w) x"
proof -
  obtain b w1 where b: "DatasetPathExists run (DatasetPath m i) w = (b, w1)" by fastforce
  note ex = DatasetPathExists_sound [OF b]
  show "r = Inr () \<Longrightarrow> \<not> dataset (outside w') (DatasetPath m i)"
    and "dataset (outside w') x \<Longrightarrow> dataset (outside w) x"
    using assms b ex runZFS_destroy [of "''-r''" "DatasetPath m i" w1]
    by (auto simp: DestroyDataset_def DatasetExists_def call_def split: sum.splits if_splits)
qed

lemma DestroyDatasetRecursive_absent:
  assumes "DestroyDatasetRecursive run d w = (r, w')"
  shows "r = Inr () \<Longrightarrow> \<not> dataset (outside w') d"
    and "dataset (outside w') x \<Longrightarrow> dataset (outside w) x"
proof -
  obtain b w1 where b: "DatasetPathExists run d w = (b, w1)" by fastforce
  obtain c w2 where c: "runZFS run [''destroy'', ''-R'', d] w1 = (c, w2)" by fastforce
  obtain b' w3 where b': "DatasetPathExists run d w2 = (b', w3)" by fastforce
  note ex = DatasetPathExists_sound [OF b] DatasetPathExists_sound [OF b'] runZFS_destroy [OF c]
  show "r = Inr () \<Longrightarrow> \<not> dataset (outside w') d"
    and "dataset (outside w') x \<Longrightarrow> dataset (outside w) x"
    using assms b c b' ex by (auto simp: DestroyDatasetRecursive_def call_def split: sum.splits if_splits)
qed

end

end
