(* ===== verification/Machine.thy ===== *)
theory Machine
  imports Process_Handle Zfs Json
begin

text \<open>
  One machine that the parameters of the other theories are instantiated with: a process
  table read through \<open>/proc\<close> and signalled through pidfds (the Linux provider of
  \<open>process_handle_linux.go\<close>), ZFS datasets behind the \<open>zfs\<close> command, network
  links and paths, with a script of failures. The contracts \<open>process_table\<close> and
  \<open>zfs_tool\<close> hold on it.
\<close>

section \<open>State\<close>

text \<open>
  \<open>proc_start\<close> tells apart two processes that had the same PID; a process may ignore
  SIGTERM. Every name of a dataset, a snapshot (\<open>d@s\<close>), a link or a path is listed;
  \<open>api_log\<close> holds the requests the API sockets accepted.
\<close>

record process =
  proc_pid :: nat
  proc_start :: nat
  proc_cmdline :: string
  proc_exe :: string
  proc_ignores_term :: bool

record machine =
  procs :: "process list"
  datasets :: "string list"
  links :: "string list"
  paths :: "string list"
  contents :: "(string \<times> string) list"
  api_log :: "(string \<times> string \<times> json) list"
  mfaults :: faults

text \<open>A system call that the script may fail.\<close>

definition sys_call :: "string \<Rightarrow> (machine, 'a) op \<Rightarrow> (machine, 'a) op" where
  "sys_call what act = (\<lambda>o'. case next_fault (mfaults o') of
     (True, bs) \<Rightarrow> (Inl (Msg what), o'\<lparr>mfaults := bs\<rparr>)
   | (False, bs) \<Rightarrow> act (o'\<lparr>mfaults := bs\<rparr>))"

text \<open>No process has the PID 0.\<close>

definition proc_of :: "machine \<Rightarrow> nat \<Rightarrow> process option" where
  "proc_of o' p = (if p = 0 then None else find (\<lambda>x. proc_pid x = p) (procs o'))"

section \<open>The Linux process provider\<close>

text \<open>The arguments after the program name, split at the NUL bytes.\<close>

definition cmdline_args :: "string \<Rightarrow> string list" where
  "cmdline_args c =
     (let fs = split_byte (CHR 0x00) (trim_suffix c [CHR 0x00]) in
      if length fs < 2 then [] else tl fs)"

text \<open>\<open>None\<close> is \<open>os.ErrNotExist\<close>.\<close>

definition readLinuxProcessArguments :: "nat \<Rightarrow> (machine, string list option) op" where
  "readLinuxProcessArguments pid = sys_call ''read cmdline'' (\<lambda>o'.
     (Inr (map_option (cmdline_args \<circ> proc_cmdline) (proc_of o' pid)), o'))"

fun linux_candidates :: "string \<Rightarrow> nat list \<Rightarrow> (machine env, nat list) op" where
  "linux_candidates sock [] = ok []"
| "linux_candidates sock (pid # pids) =
     call ctx_err (\<lambda>_.
     if pid = 0 then linux_candidates sock pids
     else call_wrap ''read cmdline'' (external (readLinuxProcessArguments pid)) (\<lambda>args.
       case args of
         None \<Rightarrow> linux_candidates sock pids
       | Some as \<Rightarrow>
           call (linux_candidates sock pids) (\<lambda>rest.
             ok (if argumentsOwnSocket as sock then pid # rest else rest))))"

definition linux_candidatePIDs :: "string \<Rightarrow> string \<Rightarrow> (machine env, nat list) op" where
  "linux_candidatePIDs bin sock =
     call (external (sys_call ''read /proc'' (\<lambda>o'. (Inr (map proc_pid (procs o')), o')))) (\<lambda>entries.
       linux_candidates sock entries)"

definition linux_open :: "nat \<Rightarrow> (machine env, handle) op" where
  "linux_open pid = external (sys_call ''pidfd_open'' (\<lambda>o'.
     case proc_of o' pid of
       None \<Rightarrow> (Inl (Sentinel ErrProcessAbsent), o')
     | Some x \<Rightarrow> (Inr (pid, proc_start x), o')))"

definition linux_exited :: "handle \<Rightarrow> (machine, bool) op" where
  "linux_exited h = sys_call ''poll'' (\<lambda>o'.
     (Inr (case proc_of o' (fst h) of None \<Rightarrow> True | Some x \<Rightarrow> proc_start x \<noteq> snd h), o'))"

text \<open>
  A \<open>/proc\<close> entry that does not exist is absence of the process only when the pidfd
  says that it exited.
\<close>

definition classifyIdentityReadError :: "handle \<Rightarrow> (machine env, 'a) op" where
  "classifyIdentityReadError h =
     call_wrap ''poll stable process handle'' (external (linux_exited h)) (\<lambda>exited.
       fail (if exited then Sentinel ErrProcessAbsent else Msg ''no such process''))"

definition linux_Identity :: "handle \<Rightarrow> (machine env, string \<times> string list) op" where
  "linux_Identity h =
     call_wrap ''read kernel executable identity''
       (external (sys_call ''readlink'' (\<lambda>o'. (Inr (map_option proc_exe (proc_of o' (fst h))), o')))) (\<lambda>exe.
     case exe of
       None \<Rightarrow> classifyIdentityReadError h
     | Some x \<Rightarrow>
         if has_suffix x '' (deleted)'' then fail (Msg ''kernel executable is deleted'')
         else
           call_wrap ''read process arguments'' (external (readLinuxProcessArguments (fst h))) (\<lambda>args.
           case args of None \<Rightarrow> classifyIdentityReadError h | Some as \<Rightarrow> ok (x, as)))"

text \<open>A signal reaches the process the pidfd was opened for.\<close>

definition linux_Signal :: "handle \<Rightarrow> bool \<Rightarrow> (machine env, unit) op" where
  "linux_Signal h kill = external (sys_call ''pidfd_send_signal'' (\<lambda>o'.
     case proc_of o' (fst h) of
       None \<Rightarrow> (Inl (Sentinel ErrProcessAbsent), o')
     | Some x \<Rightarrow>
         if proc_start x \<noteq> snd h then (Inl (Sentinel ErrProcessAbsent), o')
         else if kill \<or> \<not> proc_ignores_term x
         then (Inr (), o'\<lparr>procs := filter (\<lambda>y. proc_pid y \<noteq> fst h) (procs o')\<rparr>)
         else (Inr (), o')))"

text \<open>Polling every 50 ms until the second is over.\<close>

fun linux_Wait :: "nat \<Rightarrow> handle \<Rightarrow> (machine env, unit) op" where
  "linux_Wait n h =
     call ctx_err (\<lambda>_.
     call (external (linux_exited h)) (\<lambda>ready.
       if ready then ok ()
       else case n of
         0 \<Rightarrow> fail (Wrap (''PID '' @ itoa (fst h)) (Sentinel ErrProcessStillRunning))
       | Suc m \<Rightarrow> linux_Wait m h))"

declare linux_Wait.simps [simp del]

definition linux_Close :: "handle \<Rightarrow> (machine env, unit) op" where
  "linux_Close h = external (sys_call ''close'' (ok ()))"

definition machine_resolve :: "string \<Rightarrow> (machine env, string) op" where
  "machine_resolve bin = external (sys_call ''stat'' (ok bin))"

definition linux_ops :: "machine process_ops" where
  "linux_ops =
     \<lparr>candidatePIDs = linux_candidatePIDs, open_process = linux_open, identity_of = linux_Identity,
      signal_process = linux_Signal, wait_process = linux_Wait 20, close_process = linux_Close,
      resolveExecutable = machine_resolve\<rparr>"

section \<open>The zfs command\<close>

definition below :: "string \<Rightarrow> string \<Rightarrow> bool" where
  "below d x \<longleftrightarrow> x = d \<or> has_prefix x (d @ ''/'') \<or> has_prefix x (d @ ''@'')"

definition cmd_ok :: "string \<Rightarrow> cmd_result" where
  "cmd_ok out = \<lparr>stdout = out, stderr = [], exit = ExitOk\<rparr>"

definition cmd_err :: "string \<Rightarrow> cmd_result" where
  "cmd_err msg = \<lparr>stdout = [], stderr = msg, exit = ExitCode 1\<rparr>"

fun zfs_sim_ok :: "string list \<Rightarrow> machine \<Rightarrow> cmd_result \<times> machine" where
  "zfs_sim_ok (c # args) o' =
     (if c = ''list'' then
        (if last (c # args) \<in> set (datasets o') then (cmd_ok (last (c # args) @ [CHR 0x0A]), o')
         else (cmd_err (missing_message (last (c # args))), o'))
      else if c = ''destroy'' then
        (if last (c # args) \<in> set (datasets o')
         then (cmd_ok [], o'\<lparr>datasets := filter (\<lambda>x. \<not> below (last (c # args)) x) (datasets o')\<rparr>)
         else (cmd_err (missing_message (last (c # args))), o'))
      else if c = ''get'' then
        (if last (c # args) \<in> set (datasets o') then (cmd_ok (CHR ''/'' # last (c # args) @ [CHR 0x0A]), o')
         else (cmd_err (missing_message (last (c # args))), o'))
      else if c = ''rollback'' then
        (if last (c # args) \<in> set (datasets o') then (cmd_ok [], o')
         else (cmd_err (missing_message (last (c # args))), o'))
      else (cmd_ok [], o'\<lparr>datasets := List.insert (last (c # args)) (datasets o')\<rparr>))"
| "zfs_sim_ok [] o' = (cmd_err ''missing command'', o')"

definition zfs_sim :: "machine zfs_run" where
  "zfs_sim args o' =
     (case next_fault (mfaults o') of
        (True, bs) \<Rightarrow> (cmd_err ''internal error'', o'\<lparr>mfaults := bs\<rparr>)
      | (False, bs) \<Rightarrow> zfs_sim_ok args (o'\<lparr>mfaults := bs\<rparr>))"

definition has_dataset :: "machine \<Rightarrow> string \<Rightarrow> bool" where
  "has_dataset o' d \<longleftrightarrow> d \<in> set (datasets o')"

lemma missing_not_internal: "missing_message d \<noteq> ''internal error''"
  by (simp add: missing_message_def)

interpretation machine_zfs: zfs_tool zfs_sim has_dataset
  by unfold_locales
     (auto simp: zfs_sim_def has_dataset_def cmd_ok_def cmd_err_def below_def missing_not_internal
        missing_not_internal [symmetric] fun_eq_iff split: prod.splits bool.splits if_splits)

section \<open>The processes of the machine\<close>

definition machine_alive :: "machine \<Rightarrow> nat \<Rightarrow> bool" where
  "machine_alive o' p \<longleftrightarrow> proc_of o' p \<noteq> None"

definition machine_owner :: "machine \<Rightarrow> nat \<Rightarrow> string \<Rightarrow> bool" where
  "machine_owner o' p s \<longleftrightarrow> (case proc_of o' p of None \<Rightarrow> False
     | Some x \<Rightarrow> argumentsOwnSocket (cmdline_args (proc_cmdline x)) s)"

text \<open>Calls that only read the process table, or do not touch it.\<close>

definition procs_kept :: "machine env \<Rightarrow> machine env \<Rightarrow> bool" where
  "procs_kept w w' \<longleftrightarrow> procs (outside w') = procs (outside w)"

lemma procs_kept_trans: "procs_kept w w' \<Longrightarrow> procs_kept w' w'' \<Longrightarrow> procs_kept w w''"
  by (simp add: procs_kept_def)

lemma procs_kept_same:
  "procs_kept w w' \<Longrightarrow> machine_alive (outside w') = machine_alive (outside w) \<and>
     machine_owner (outside w') = machine_owner (outside w)"
  by (simp add: procs_kept_def machine_alive_def machine_owner_def proc_of_def fun_eq_iff)

lemma proc_of_faults [simp]: "proc_of (o'\<lparr>mfaults := bs\<rparr>) = proc_of o'"
  by (simp add: proc_of_def fun_eq_iff)

lemma ctx_err_kept: "ctx_err w = (r, w') \<Longrightarrow> procs_kept w w'"
  by (auto dest: ctx_err_outsideD simp: procs_kept_def)

lemma sys_call_kept:
  assumes "external (sys_call what act) w = (r, w')" "\<And>o'. procs (snd (act o')) = procs o'"
  shows "procs_kept w w'"
  using assms(1) assms(2) [of "outside w\<lparr>mfaults := snd (next_fault (mfaults (outside w)))\<rparr>"]
  by (auto simp: external_def zoom_def sys_call_def procs_kept_def split: prod.splits bool.splits)

lemma sys_call_value:
  assumes "external (sys_call what act) w = (Inr a, w')"
  shows "\<exists>bs o''. act ((outside w)\<lparr>mfaults := bs\<rparr>) = (Inr a, o'')"
  using assms by (auto simp: external_def zoom_def sys_call_def split: prod.splits bool.splits)

lemma read_args_kept: "external (readLinuxProcessArguments p) w = (r, w') \<Longrightarrow> procs_kept w w'"
  unfolding readLinuxProcessArguments_def by (erule sys_call_kept) simp

lemma read_args_value:
  "external (readLinuxProcessArguments p) w = (Inr a, w') \<Longrightarrow>
     a = map_option (cmdline_args \<circ> proc_cmdline) (proc_of (outside w) p)"
  unfolding readLinuxProcessArguments_def by (drule sys_call_value) auto

lemma exited_kept: "external (linux_exited h) w = (r, w') \<Longrightarrow> procs_kept w w'"
  unfolding linux_exited_def by (erule sys_call_kept) simp

lemma exited_value:
  "external (linux_exited h) w = (Inr b, w') \<Longrightarrow>
     b = (case proc_of (outside w) (fst h) of None \<Rightarrow> True | Some x \<Rightarrow> proc_start x \<noteq> snd h)"
  unfolding linux_exited_def by (drule sys_call_value) auto

lemma kept_value:
  "procs_kept w w' \<Longrightarrow> proc_of (outside w') = proc_of (outside w)"
  by (simp add: procs_kept_def proc_of_def fun_eq_iff)

lemma linux_candidates_spec:
  "linux_candidates sock pids w = (r, w') \<Longrightarrow>
     procs_kept w w' \<and> (\<forall>ps p. r = Inr ps \<longrightarrow> p \<in> set pids \<longrightarrow> machine_owner (outside w) p sock \<longrightarrow> p \<in> set ps)"
proof (induction pids arbitrary: w r w')
  case Nil
  then show ?case by (simp add: procs_kept_def)
next
  case (Cons pid pids)
  obtain c w1 where c: "ctx_err w = (c, w1)" by fastforce
  note k1 = ctx_err_kept [OF c]
  have zero: "\<not> machine_owner o' 0 sock" for o' by (simp add: machine_owner_def proc_of_def)
  show ?case
  proof (cases "c = Inr () \<and> pid \<noteq> 0")
    case False
    show ?thesis
    proof (cases c)
      case (Inl e)
      then show ?thesis using Cons.prems c k1 by (auto simp: call_def)
    next
      case (Inr u)
      then have "linux_candidates sock pids w1 = (r, w')" "pid = 0"
        using Cons.prems c False by (simp_all add: call_def)
      then show ?thesis using Cons.IH [of w1 r w'] k1 zero procs_kept_same [OF k1] procs_kept_trans by auto
    qed
  next
    case True
    obtain a w2 where a: "external (readLinuxProcessArguments pid) w1 = (a, w2)" by fastforce
    note k2 = procs_kept_trans [OF k1 read_args_kept [OF a]]
    obtain q w3 where q: "linux_candidates sock pids w2 = (q, w3)" by fastforce
    note IH = Cons.IH [OF q]
    have k3: "procs_kept w w3" using IH k2 procs_kept_trans by blast
    have val: "as = map_option (cmdline_args \<circ> proc_cmdline) (proc_of (outside w) pid)" if "a = Inr as" for as
      using read_args_value a that kept_value [OF k1] by fastforce
    show ?thesis
    proof (cases a)
      case (Inl e)
      then show ?thesis using Cons.prems c True a k2 by (auto simp: call_def call_wrap_def wrap_def)
    next
      case (Inr as)
      show ?thesis
      proof (cases as)
        case None
        then have "\<not> machine_owner (outside w) pid sock" using val Inr by (simp add: machine_owner_def)
        then show ?thesis using Cons.prems c True a Inr None q IH k3 procs_kept_same [OF k2]
          by (auto simp: call_def call_wrap_def wrap_def)
      next
        case (Some args)
        then have own: "machine_owner (outside w) pid sock \<longleftrightarrow> argumentsOwnSocket args sock"
          using val [OF Inr] by (cases "proc_of (outside w) pid") (auto simp: machine_owner_def)
        show ?thesis
          using Cons.prems c True a Inr Some q IH k3 procs_kept_same [OF k2] own
          by (auto simp: call_def call_wrap_def wrap_def split: sum.splits)
      qed
    qed
  qed
qed

lemma linux_candidatePIDs_spec:
  assumes "linux_candidatePIDs b s w = (r, w')"
  shows "procs_kept w w'"
    and "r = Inr ps \<Longrightarrow> machine_owner (outside w) p s \<Longrightarrow> p \<in> set ps"
proof -
  let ?ls = "external (sys_call ''read /proc'' (\<lambda>o'. (Inr (map proc_pid (procs o')), o')))"
  obtain e w1 where e: "?ls w = (e, w1)" by fastforce
  have k1: "procs_kept w w1" using e by (rule sys_call_kept) simp
  have "procs_kept w w' \<and> (\<forall>ps p. r = Inr ps \<longrightarrow> machine_owner (outside w) p s \<longrightarrow> p \<in> set ps)"
  proof (cases e)
    case (Inl x)
    then show ?thesis using assms e k1 by (auto simp: linux_candidatePIDs_def call_def)
  next
    case (Inr entries)
    then have all: "entries = map proc_pid (procs (outside w))"
      using sys_call_value e by fastforce
    have cand: "linux_candidates s entries w1 = (r, w')"
      using assms e Inr by (simp add: linux_candidatePIDs_def call_def)
    have "p \<in> set entries" if "machine_owner (outside w) p s" for p
      using that by (auto simp: all machine_owner_def proc_of_def find_Some_iff image_iff
          split: option.splits if_splits)
    then show ?thesis
      using linux_candidates_spec [OF cand] k1 procs_kept_same [OF k1] procs_kept_trans by auto
  qed
  then show "procs_kept w w'" and "r = Inr ps \<Longrightarrow> machine_owner (outside w) p s \<Longrightarrow> p \<in> set ps"
    by blast+
qed

lemma linux_open_spec:
  assumes "linux_open p w = (r, w')"
  shows "procs_kept w w'"
    and "r = Inr h \<Longrightarrow> fst h = p"
    and "r = Inl e \<Longrightarrow> errors_is e ErrProcessAbsent \<Longrightarrow> \<not> machine_alive (outside w) p"
  using assms
  by (auto simp: linux_open_def external_def zoom_def sys_call_def procs_kept_def machine_alive_def
      split: prod.splits bool.splits option.splits)

lemma classify_spec:
  assumes "classifyIdentityReadError h w = (r, w')"
  shows "procs_kept w w'" and "isl r"
    and "r = Inl e \<Longrightarrow> errors_is e ErrProcessAbsent \<Longrightarrow> proc_of (outside w) (fst h) \<noteq> None \<Longrightarrow>
      \<exists>x. proc_of (outside w) (fst h) = Some x \<and> proc_start x \<noteq> snd h"
proof -
  obtain b w1 where b: "external (linux_exited h) w = (b, w1)" by fastforce
  show "procs_kept w w'" and "isl r"
    using assms b exited_kept [OF b]
    by (cases b; auto simp: classifyIdentityReadError_def call_wrap_Inr call_wrap_Inl)+
  show "\<exists>x. proc_of (outside w) (fst h) = Some x \<and> proc_start x \<noteq> snd h"
    if "r = Inl e" "errors_is e ErrProcessAbsent" "proc_of (outside w) (fst h) \<noteq> None"
  proof (cases b)
    case (Inl x)
    have "\<not> errors_is x ErrProcessAbsent"
      using b Inl by (auto simp: external_def zoom_def linux_exited_def sys_call_def split: prod.splits bool.splits)
    then show ?thesis using that assms b Inl
      by (auto simp: classifyIdentityReadError_def call_wrap_Inl)
  next
    case (Inr v)
    then show ?thesis using that assms b exited_value [of h w v w1]
      by (auto simp: classifyIdentityReadError_def call_wrap_Inr split: if_splits)
  qed
qed

lemma sys_call_not_absent:
  "external (sys_call what act) w = (Inl e, w') \<Longrightarrow> (\<And>o' e o''. act o' \<noteq> (Inl e, o'')) \<Longrightarrow> e = Msg what"
  by (auto simp: external_def zoom_def sys_call_def split: prod.splits bool.splits)

lemma linux_Identity_spec:
  assumes "linux_Identity h w = (r, w')"
  shows "procs_kept w w' \<and>
    (\<forall>e. r = Inl e \<longrightarrow> errors_is e ErrProcessAbsent \<longrightarrow> \<not> machine_alive (outside w) (fst h)) \<and>
    (\<forall>exe args s. r = Inr (exe, args) \<longrightarrow> argumentsOwnSocket args s = machine_owner (outside w) (fst h) s)"
proof -
  let ?rd = "external (sys_call ''readlink'' (\<lambda>o'. (Inr (map_option proc_exe (proc_of o' (fst h))), o')))"
  obtain x w1 where x: "?rd w = (x, w1)" by fastforce
  have k1: "procs_kept w w1" using x by (rule sys_call_kept) simp
  obtain a w2 where a: "external (readLinuxProcessArguments (fst h)) w1 = (a, w2)" by fastforce
  have k2: "procs_kept w w2" using procs_kept_trans [OF k1 read_args_kept [OF a]] .
  have noabs: "x = Inl e \<Longrightarrow> \<not> errors_is e ErrProcessAbsent" for e
    using sys_call_not_absent [of "''readlink''" _ w e w1] x by fastforce
  have noabs': "a = Inl e \<Longrightarrow> \<not> errors_is e ErrProcessAbsent" for e
    using sys_call_not_absent [of "''read cmdline''" _ w1 e w2] a by (fastforce simp: readLinuxProcessArguments_def)
  have xv: "x = Inr v \<Longrightarrow> v = map_option proc_exe (proc_of (outside w) (fst h))" for v
    using sys_call_value [of "''readlink''"] x by fastforce
  have av: "a = Inr v \<Longrightarrow> v = map_option (cmdline_args \<circ> proc_cmdline) (proc_of (outside w) (fst h))" for v
    using read_args_value a kept_value [OF k1] by fastforce
  consider (rd) e where "x = Inl e" | (gone) "x = Inr None" | (del) y where "x = Inr (Some y)" "has_suffix y '' (deleted)''"
    | (more) y where "x = Inr (Some y)" "\<not> has_suffix y '' (deleted)''"
    by (cases x) (auto split: option.splits)
  then show ?thesis
  proof cases
    case rd
    then show ?thesis using assms x k1 noabs by (auto simp: linux_Identity_def call_wrap_Inl)
  next
    case gone
    then have "classifyIdentityReadError h w1 = (r, w')" "proc_of (outside w) (fst h) = None"
      using assms x xv by (simp_all add: linux_Identity_def call_wrap_Inr)
    then show ?thesis using classify_spec(1,2) [of h w1 r w'] k1 procs_kept_trans
      by (auto simp: machine_alive_def)
  next
    case del
    then show ?thesis using assms x k1 by (auto simp: linux_Identity_def call_wrap_Inr)
  next
    case more
    then have alive: "proc_of (outside w) (fst h) \<noteq> None"
      using xv by (cases "proc_of (outside w) (fst h)") auto
    show ?thesis
    proof (cases a)
      case (Inl e)
      then show ?thesis using assms x more a k2 noabs' by (auto simp: linux_Identity_def call_wrap_Inr call_wrap_Inl)
    next
      case (Inr v)
      then obtain as where as: "v = Some as" using av alive by fastforce
      then have "r = Inr (y, as)" "w' = w2"
        using assms x more a Inr by (simp_all add: linux_Identity_def call_wrap_Inr)
      then show ?thesis using k2 av [OF Inr] as
        by (cases "proc_of (outside w) (fst h)") (auto simp: machine_owner_def)
    qed
  qed
qed

lemma linux_Wait_kept: "linux_Wait n h w = (r, w') \<Longrightarrow> procs_kept w w'"
proof (induction n arbitrary: w)
  case 0
  then show ?case
    by (subst (asm) linux_Wait.simps)
       (auto simp: call_def split: prod.splits sum.splits if_splits
         dest!: ctx_err_kept exited_kept intro: procs_kept_trans)
next
  case (Suc n)
  from Suc.prems show ?case
    by (subst (asm) linux_Wait.simps)
       (auto simp: call_def split: prod.splits sum.splits if_splits
         dest!: ctx_err_kept exited_kept Suc.IH intro: procs_kept_trans)
qed

lemma linux_Signal_effect:
  assumes "linux_Signal h k w = (r, w')"
  shows "p \<noteq> fst h \<Longrightarrow> proc_of (outside w') p = proc_of (outside w) p"
    and "proc_of (outside w') p = None \<or> proc_of (outside w') p = proc_of (outside w) p"
proof -
  have rm: "find (\<lambda>x. proc_pid x = p) (filter (\<lambda>y. proc_pid y \<noteq> q) xs) =
      (if p = q then None else find (\<lambda>x. proc_pid x = p) xs)" for p q xs
    by (induction xs) auto
  show "p \<noteq> fst h \<Longrightarrow> proc_of (outside w') p = proc_of (outside w) p"
    and "proc_of (outside w') p = None \<or> proc_of (outside w') p = proc_of (outside w) p"
    using assms
    by (auto simp: linux_Signal_def external_def zoom_def sys_call_def proc_of_def rm
        split: prod.splits bool.splits option.splits if_splits)
qed

interpretation machine_processes: process_table linux_ops machine_alive machine_owner
proof unfold_locales
  show "machine_owner o' p s \<Longrightarrow> machine_alive o' p" for o' p s
    by (auto simp: machine_owner_def machine_alive_def split: option.splits)
  show "candidatePIDs linux_ops b s w = (r, w') \<Longrightarrow>
      machine_alive (outside w') = machine_alive (outside w) \<and>
      machine_owner (outside w') = machine_owner (outside w)" for b s w r w'
    by (rule procs_kept_same) (auto simp: linux_ops_def dest: linux_candidatePIDs_spec(1))
  show "open_process linux_ops p w = (q, w') \<Longrightarrow>
      machine_alive (outside w') = machine_alive (outside w) \<and>
      machine_owner (outside w') = machine_owner (outside w)" for p w q w'
    by (rule procs_kept_same) (auto simp: linux_ops_def dest: linux_open_spec(1))
  show "identity_of linux_ops h w = (i, w') \<Longrightarrow>
      machine_alive (outside w') = machine_alive (outside w) \<and>
      machine_owner (outside w') = machine_owner (outside w)" for h w i w'
    by (rule procs_kept_same) (auto simp: linux_ops_def dest: linux_Identity_spec)
  show "wait_process linux_ops h w = (u, w') \<Longrightarrow>
      machine_alive (outside w') = machine_alive (outside w) \<and>
      machine_owner (outside w') = machine_owner (outside w)" for h w u w'
    by (rule procs_kept_same) (auto simp: linux_ops_def dest: linux_Wait_kept)
  show "close_process linux_ops h w = (u, w') \<Longrightarrow>
      machine_alive (outside w') = machine_alive (outside w) \<and>
      machine_owner (outside w') = machine_owner (outside w)" for h w u w'
    by (rule procs_kept_same) (auto simp: linux_ops_def linux_Close_def dest!: sys_call_kept)
  show "resolveExecutable linux_ops b w = (x, w') \<Longrightarrow>
      machine_alive (outside w') = machine_alive (outside w) \<and>
      machine_owner (outside w') = machine_owner (outside w)" for b w x w'
    by (rule procs_kept_same) (auto simp: linux_ops_def machine_resolve_def dest!: sys_call_kept)
  show "signal_process linux_ops h k w = (u, w') \<Longrightarrow> p \<noteq> fst h \<Longrightarrow>
      machine_alive (outside w') p = machine_alive (outside w) p \<and>
      machine_owner (outside w') p s = machine_owner (outside w) p s" for h k w u w' p s
    by (simp add: linux_ops_def machine_alive_def machine_owner_def linux_Signal_effect(1))
  show "signal_process linux_ops h k w = (u, w') \<Longrightarrow> machine_owner (outside w') p s \<Longrightarrow>
      machine_owner (outside w) p s" for h k w u w' p s
    using linux_Signal_effect(2) [of h k w u w' p]
    by (cases "proc_of (outside w') p"; cases "proc_of (outside w) p") (auto simp: linux_ops_def machine_owner_def)
  show "candidatePIDs linux_ops b s w = (Inr ps, w') \<Longrightarrow> machine_owner (outside w) p s \<Longrightarrow> p \<in> set ps"
    for b s w ps w' p
    by (auto simp: linux_ops_def dest: linux_candidatePIDs_spec(2))
  show "open_process linux_ops p w = (Inr h, w') \<Longrightarrow> fst h = p" for p w h w'
    by (auto simp: linux_ops_def dest: linux_open_spec(2))
  show "open_process linux_ops p w = (Inl e, w') \<Longrightarrow> errors_is e ErrProcessAbsent \<Longrightarrow>
      \<not> machine_alive (outside w) p" for p w e w'
    by (auto simp: linux_ops_def dest: linux_open_spec(3))
  show "identity_of linux_ops h w = (Inl e, w') \<Longrightarrow> errors_is e ErrProcessAbsent \<Longrightarrow>
      \<not> machine_alive (outside w) (fst h)" for h w e w'
    by (auto simp: linux_ops_def dest: linux_Identity_spec)
  show "identity_of linux_ops h w = (Inr (exe, args), w') \<Longrightarrow>
      argumentsOwnSocket args s = machine_owner (outside w) (fst h) s" for h w exe args w' s
    using linux_Identity_spec [of h w "Inr (exe, args)" w'] by (auto simp: linux_ops_def)
qed

end
