(* ===== verification/Firecracker.thy ===== *)
theory Firecracker
  imports Machine Cloud_Init "HOL-Library.Word"
begin

text \<open>
  The Firecracker client of \<open>pkg/firecracker\<close>: configuration and names
  (\<open>types.go\<close>, \<open>network.go\<close>), reading, stopping and deleting a VM
  (\<open>client.go\<close>). The client's own state, the tracked processes and the next context
  id, is kept beside the state \<open>'o\<close> of the operating system. The contract of
  \<open>DeleteVM\<close>, "a nil result means each resource was verified absent", is proved in the
  locale \<open>vm_host\<close> and holds on the machine.
\<close>

section \<open>Configuration and names\<close>

record vm_config =
  vc_id :: string
  vc_namespace :: string
  vc_vcpu :: "32 word"
  vc_memory :: "32 word"
  vc_rootfs :: string
  vc_rootfs_snapshot :: string
  vc_kernel :: string
  vc_cloud_init :: string
  vc_tailscale_key :: string
  vc_ssh_keys :: "string list"
  vc_static_ip_args :: string
  vc_network :: "mmds_network option"
  vc_dotenv :: string

text \<open>\<open>VCPU\<close> and \<open>MemoryMB\<close> are signed.\<close>

definition Validate :: "vm_config \<Rightarrow> goerr option" where
  "Validate c =
     (if vc_id c = [] then Some (Msg ''VM ID is required'')
      else if sint (vc_vcpu c) \<le> 0 then Some (Msg ''VCPU must be greater than zero'')
      else if sint (vc_memory c) \<le> 0 then Some (Msg ''MemoryMB must be greater than zero'')
      else if vc_rootfs c = [] then Some (Msg ''RootfsPath is required'')
      else if vc_kernel c = [] then Some (Msg ''KernelPath is required'')
      else None)"

text \<open>Linux limits the name of an interface to 15 characters.\<close>

definition TapNameForVM :: "string \<Rightarrow> string" where
  "TapNameForVM vmID = ''tap-'' @ (if 8 < length vmID then take 8 vmID else vmID)"

record client_config =
  StateDir :: string
  FirecrackerBin :: string
  BridgeName :: string
  KernelPath :: string
  RootfsPath :: string
  ImagesPath :: string
  VMsPath :: string
  archives :: bool
  fc_zfs :: "zfs_manager option"

definition vm_dir :: "client_config \<Rightarrow> string \<Rightarrow> string \<Rightarrow> string" where
  "vm_dir c namespace vmID =
     path_join [StateDir c, if namespace = [] then ''default'' else namespace, vmID]"

text \<open>The defaults \<open>NewClient\<close> fills in.\<close>

definition client_defaults :: "client_config \<Rightarrow> client_config" where
  "client_defaults c = c\<lparr>
     StateDir := if StateDir c = [] then ''/var/lib/stockyard/vms'' else StateDir c,
     FirecrackerBin := if FirecrackerBin c = [] then ''/usr/local/bin/firecracker'' else FirecrackerBin c,
     BridgeName := if BridgeName c = [] then ''flbr0'' else BridgeName c\<rparr>"

definition vm_dataset :: "client_config \<Rightarrow> zfs_manager \<Rightarrow> string \<Rightarrow> string" where
  "vm_dataset c m vmID = PoolName m @ ''/'' @ VMsPath c @ ''/'' @ vmID"

section \<open>State\<close>

record 'o fc_world =
  fc_procs :: "(string \<times> handle) list"
  cid_counter :: "32 word"
  fc_os :: 'o

definition on_os :: "('o env, 'a) op \<Rightarrow> ('o fc_world env, 'a) op" where
  "on_os m = zoom (\<lambda>w. \<lparr>ctx = ctx w, outside = fc_os (outside w)\<rparr>)
     (\<lambda>v w. w\<lparr>ctx := ctx v, outside := (outside w)\<lparr>fc_os := outside v\<rparr>\<rparr>) m"

text \<open>The next context id; the counter is 32 bits wide and wraps.\<close>

definition allocateCID :: "('o fc_world env, 32 word) op" where
  "allocateCID = (\<lambda>w. (Inr (cid_counter (outside w)),
     w\<lparr>outside := (outside w)\<lparr>cid_counter := cid_counter (outside w) + 1\<rparr>\<rparr>))"

section \<open>TAP devices\<close>

text \<open>The \<open>ip\<close> command is a parameter, as the \<open>zfs\<close> command is.\<close>

definition runCmd :: "'e zfs_run \<Rightarrow> string list \<Rightarrow> ('e env, unit) op" where
  "runCmd run args =
     call (run_cmd run args) (\<lambda>r.
       if exit r = ExitOk then ok () else fail (Wrap (''ip '' @ join_with '' '' args) (Msg (stdout r @ stderr r))))"

definition link_shown :: "'e zfs_run \<Rightarrow> string \<Rightarrow> ('e env, bool) op" where
  "link_shown run name = attempt (runCmd run [''link'', ''show'', name]) (\<lambda>r. ok (r = Inr ()))"

definition CreateTap :: "'e zfs_run \<Rightarrow> string \<Rightarrow> string \<Rightarrow> ('e env, unit) op" where
  "CreateTap run bridge tapName =
     call_wrap (''failed to create tap device '' @ tapName)
       (runCmd run [''tuntap'', ''add'', ''dev'', tapName, ''mode'', ''tap'']) (\<lambda>_.
     attempt (runCmd run [''link'', ''set'', tapName, ''up'']) (\<lambda>up. case up of
       Inl e \<Rightarrow>
         ignore (runCmd run [''link'', ''delete'', tapName])
           (fail (Wrap (''failed to bring up tap device '' @ tapName) e))
     | Inr _ \<Rightarrow>
         if bridge = [] then ok ()
         else call (link_shown run bridge) (\<lambda>exists.
           if \<not> exists then ok ()
           else attempt (runCmd run [''link'', ''set'', tapName, ''master'', bridge]) (\<lambda>m. case m of
             Inl e \<Rightarrow>
               ignore (runCmd run [''link'', ''delete'', tapName])
                 (fail (Wrap (''failed to attach tap '' @ tapName @ '' to bridge '' @ bridge) e))
           | Inr _ \<Rightarrow> ok ()))))"

definition DeleteTap :: "'e zfs_run \<Rightarrow> string \<Rightarrow> ('e env, unit) op" where
  "DeleteTap run tapName =
     call (link_shown run tapName) (\<lambda>exists.
       if \<not> exists then ok ()
       else wrap (''failed to delete tap device '' @ tapName) (runCmd run [''link'', ''delete'', tapName]))"

section \<open>Deleting a VM\<close>

text \<open>
  What the deletion calls outside of the client (\<open>deleteVMHooks\<close> and the tracked
  process): \<open>tracked_done h\<close> says whether the process was reaped within the second;
  \<open>tracked_reap\<close> is the receive from \<open>done\<close> after the kill.
\<close>

record 'o delete_ops =
  path_exists :: "string \<Rightarrow> ('o env, bool) op"
  delete_tap :: "string \<Rightarrow> ('o env, unit) op"
  tap_exists :: "string \<Rightarrow> ('o env, bool) op"
  destroy_rootfs :: "string \<Rightarrow> ('o env, unit) op"
  rootfs_exists :: "string \<Rightarrow> ('o env, bool) op"
  remove_all :: "string \<Rightarrow> ('o env, unit) op"
  archive_console :: "string \<Rightarrow> string \<Rightarrow> ('o env, unit) op"
  tracked_signal :: "handle \<Rightarrow> bool \<Rightarrow> ('o env, unit) op"
  tracked_done :: "handle \<Rightarrow> ('o env, bool) op"
  tracked_reap :: "handle \<Rightarrow> ('o env, unit) op"

text \<open>A signal to the tracked process; a process that is already done is no error.\<close>

definition signal_tracked :: "'o delete_ops \<Rightarrow> string \<Rightarrow> handle \<Rightarrow> bool \<Rightarrow> ('o fc_world env, unit) op" where
  "signal_tracked d msg h kill =
     attempt (on_os (tracked_signal d h kill)) (\<lambda>r. case r of
       Inl e \<Rightarrow> if errors_is e ErrProcessDone then ok () else fail (Wrap msg e)
     | Inr _ \<Rightarrow> ok ())"

definition stop_tracked :: "'o delete_ops \<Rightarrow> string \<Rightarrow> handle \<Rightarrow> ('o fc_world env, unit) op" where
  "stop_tracked d vmID h =
     call (signal_tracked d ''stop Firecracker process'' h False) (\<lambda>_.
     call (on_os (tracked_done d h)) (\<lambda>reaped.
     call (if reaped then ok ()
           else call (signal_tracked d ''kill Firecracker process'' h True) (\<lambda>_. on_os (tracked_reap d h))) (\<lambda>_.
     pure_step (\<lambda>w. w\<lparr>outside := (outside w)\<lparr>fc_procs := AList.delete vmID (fc_procs (outside w))\<rparr>\<rparr>) (ok ()))))"

definition stop_for_delete ::
    "client_config \<Rightarrow> 'o process_ops \<Rightarrow> 'o delete_ops \<Rightarrow> string \<Rightarrow> string \<Rightarrow> ('o fc_world env, unit) op" where
  "stop_for_delete c p d vmID sock = (\<lambda>w.
     case map_of (fc_procs (outside w)) vmID of
       Some h \<Rightarrow> stop_tracked d vmID h w
     | None \<Rightarrow>
         call_wrap ''read Firecracker process'' (on_os (findProcessBySocket p (FirecrackerBin c) sock)) (\<lambda>f.
           case f of None \<Rightarrow> ok () | Some h \<Rightarrow> on_os (stopDetachedProcess p h)) w)"

definition delete_rootfs :: "client_config \<Rightarrow> 'o delete_ops \<Rightarrow> string \<Rightarrow> ('o fc_world env, unit) op" where
  "delete_rootfs c d vmID =
     (case fc_zfs c of
        None \<Rightarrow> ok ()
      | Some m \<Rightarrow>
          call_wrap ''destroy VM rootfs clone'' (on_os (destroy_rootfs d (vm_dataset c m vmID))) (\<lambda>_.
          call_wrap ''verify VM rootfs clone deletion'' (on_os (rootfs_exists d (vm_dataset c m vmID))) (\<lambda>exists.
            if exists then fail (Msg (''verify VM rootfs clone deletion: rootfs clone remains: '' @ vm_dataset c m vmID)) else ok ())))"

definition DeleteVM ::
    "client_config \<Rightarrow> 'o process_ops \<Rightarrow> 'o delete_ops \<Rightarrow> string \<Rightarrow> string \<Rightarrow> ('o fc_world env, unit) op" where
  "DeleteVM c p d namespace vmID =
     (let vmDir = vm_dir c namespace vmID; sock = path_join [vmDir, ''api.sock'']; tap = TapNameForVM vmID in
      call ctx_err (\<lambda>_.
      call_wrap ''read VM directory'' (on_os (path_exists d vmDir)) (\<lambda>_.
      call (stop_for_delete c p d vmID sock) (\<lambda>_.
      call (on_os (requireProcessAbsent p (FirecrackerBin c) sock)) (\<lambda>_.
      call (on_os (delete_tap d tap)) (\<lambda>_.
      call_wrap ''verify TAP deletion'' (on_os (tap_exists d tap)) (\<lambda>exists.
      if exists then fail (Msg (''verify TAP deletion: '' @ tap @ '' remains''))
      else
        ignore (if archives c then on_os (archive_console d vmDir vmID) else ok ())
          (call (delete_rootfs c d vmID) (\<lambda>_.
           call_wrap ''failed to remove VM directory'' (on_os (remove_all d vmDir)) (\<lambda>_.
           call_wrap ''verify VM directory deletion'' (on_os (path_exists d vmDir)) (\<lambda>present.
           if present then fail (Msg (''verify VM directory deletion: '' @ vmDir @ '' remains''))
           else on_os (requireProcessAbsent p (FirecrackerBin c) sock))))))))))))"

section \<open>Lifting to the client's state\<close>

lemma on_os_outcome:
  "on_os m w = (r, w') \<Longrightarrow> \<exists>v v'. outside v = fc_os (outside w) \<and> m v = (r, v') \<and>
     fc_os (outside w') = outside v' \<and> fc_procs (outside w') = fc_procs (outside w)"
  by (rule exI [of _ "\<lparr>ctx = ctx w, outside = fc_os (outside w)\<rparr>"])
     (auto simp: on_os_def zoom_def split: prod.splits)

lemma keeps_on_os [frame_intros]:
  "keeps (\<lambda>w. f (outside w)) m \<Longrightarrow> keeps (\<lambda>w. f (fc_os (outside w))) (on_os m)"
  by (simp add: keeps_def on_os_def zoom_def split: prod.split) (metis env.select_convs(2) snd_conv)

lemma shrinks_on_os [frame_intros]:
  "shrinks (\<lambda>w. P (outside w)) m \<Longrightarrow> shrinks (\<lambda>w. P (fc_os (outside w))) (on_os m)"
  by (simp add: shrinks_def on_os_def zoom_def split: prod.split) (metis env.select_convs(2) snd_conv)

lemma on_os_shrinksD:
  assumes "shrinks (\<lambda>w. P (outside w)) m" "on_os m w = (r, w')" "P (fc_os (outside w')) x"
  shows "P (fc_os (outside w)) x"
  by (rule shrinksD [OF shrinks_on_os [OF assms(1)] assms(2), of x]) (rule assms(3))

section \<open>The contract of the host\<close>

text \<open>
  Predicates on the operating system: \<open>tap o t\<close>, \<open>dataset o d\<close>,
  \<open>path o p\<close> say that a link, dataset or path exists. The checks report the truth and
  change nothing; deletion and archiving make no process, link or dataset appear; only
  signals touch processes, and process operations touch nothing else.
\<close>

locale vm_host = process_table p alive owner
  for p :: "'o process_ops" and alive :: "'o \<Rightarrow> nat \<Rightarrow> bool" and owner :: "'o \<Rightarrow> nat \<Rightarrow> string \<Rightarrow> bool" +
  fixes d :: "'o delete_ops" and tap :: "'o \<Rightarrow> string \<Rightarrow> bool" and dataset :: "'o \<Rightarrow> string \<Rightarrow> bool"
    and path :: "'o \<Rightarrow> string \<Rightarrow> bool"
  assumes quiet_process [frame_intros]:
      "keeps (\<lambda>w. (tap (outside w), dataset (outside w), path (outside w))) (candidatePIDs p bin s)"
      "keeps (\<lambda>w. (tap (outside w), dataset (outside w), path (outside w))) (open_process p n)"
      "keeps (\<lambda>w. (tap (outside w), dataset (outside w), path (outside w))) (identity_of p h)"
      "keeps (\<lambda>w. (tap (outside w), dataset (outside w), path (outside w))) (signal_process p h k)"
      "keeps (\<lambda>w. (tap (outside w), dataset (outside w), path (outside w))) (wait_process p h)"
      "keeps (\<lambda>w. (tap (outside w), dataset (outside w), path (outside w))) (close_process p h)"
      "keeps (\<lambda>w. (tap (outside w), dataset (outside w), path (outside w))) (resolveExecutable p bin)"
      "keeps (\<lambda>w. (tap (outside w), dataset (outside w), path (outside w))) (tracked_signal d h k)"
      "keeps (\<lambda>w. (tap (outside w), dataset (outside w), path (outside w))) (tracked_done d h)"
      "keeps (\<lambda>w. (tap (outside w), dataset (outside w), path (outside w))) (tracked_reap d h)"
    and quiet_removal [frame_intros]:
      "keeps (\<lambda>w. (alive (outside w), owner (outside w))) (path_exists d x)"
      "keeps (\<lambda>w. (alive (outside w), owner (outside w))) (tap_exists d x)"
      "keeps (\<lambda>w. (alive (outside w), owner (outside w))) (rootfs_exists d x)"
      "keeps (\<lambda>w. (alive (outside w), owner (outside w))) (delete_tap d x)"
      "keeps (\<lambda>w. (alive (outside w), owner (outside w))) (destroy_rootfs d x)"
      "keeps (\<lambda>w. (alive (outside w), owner (outside w))) (remove_all d x)"
      "keeps (\<lambda>w. (alive (outside w), owner (outside w))) (archive_console d x y)"
    and tap_removal [frame_intros]:
      "shrinks (\<lambda>w. tap (outside w)) (path_exists d x)" "shrinks (\<lambda>w. tap (outside w)) (rootfs_exists d x)"
      "shrinks (\<lambda>w. tap (outside w)) (destroy_rootfs d x)" "shrinks (\<lambda>w. tap (outside w)) (remove_all d x)"
      "shrinks (\<lambda>w. tap (outside w)) (archive_console d x y)"
    and dataset_removal [frame_intros]:
      "shrinks (\<lambda>w. dataset (outside w)) (path_exists d x)" "shrinks (\<lambda>w. dataset (outside w)) (remove_all d x)"
    and path_exists_sound: "path_exists d x w = (Inr b, w') \<Longrightarrow> b = path (outside w') x"
    and tap_exists_sound: "tap_exists d x w = (Inr b, w') \<Longrightarrow> b = tap (outside w') x"
    and rootfs_exists_sound: "rootfs_exists d x w = (Inr b, w') \<Longrightarrow> b = dataset (outside w') x"
    and tracked_other:
      "n \<noteq> fst h \<Longrightarrow> keeps (\<lambda>w. (alive (outside w) n, owner (outside w) n)) (tracked_signal d h k)"
      "n \<noteq> fst h \<Longrightarrow> keeps (\<lambda>w. (alive (outside w) n, owner (outside w) n)) (tracked_done d h)"
      "n \<noteq> fst h \<Longrightarrow> keeps (\<lambda>w. (alive (outside w) n, owner (outside w) n)) (tracked_reap d h)"
begin

abbreviation resources :: "'o env \<Rightarrow> (string \<Rightarrow> bool) \<times> (string \<Rightarrow> bool) \<times> (string \<Rightarrow> bool)" where
  "resources \<equiv> \<lambda>w. (tap (outside w), dataset (outside w), path (outside w))"

lemma close_quiet [frame_intros]: "keeps resources (closeStableProcessHandle p h a)"
  unfolding closeStableProcessHandle_def by (intro frame_intros)

lemma joined_quiet [frame_intros]: "keeps f k \<Longrightarrow> keeps f (return_joined es k)"
  unfolding return_joined_def by (intro frame_intros)

lemma retained_quiet [frame_intros]: "keeps resources (fail_retained p m e)"
  unfolding fail_retained_def by (intro frame_intros)

lemma closing_quiet [frame_intros]: "keeps resources (fail_closing p m h a e)"
  unfolding fail_closing_def by (intro frame_intros)

lemma find_match_quiet [frame_intros]: "keeps resources (find_match p s x pids m)"
  by (induction pids arbitrary: m) (simp only: find_match.simps, intro frame_intros, assumption?)+

lemma find_quiet [frame_intros]: "keeps resources (findProcessBySocket p b s)"
  unfolding findProcessBySocket_def by (intro frame_intros)

lemma require_quiet [frame_intros]: "keeps resources (requireProcessAbsent p b s)"
  unfolding requireProcessAbsent_def by (intro frame_intros)

lemma delete_rootfs_absent:
  assumes "delete_rootfs c d i w = (r, w')"
  shows "(\<forall>m. r = Inr () \<longrightarrow> fc_zfs c = Some m \<longrightarrow> \<not> dataset (fc_os (outside w')) (vm_dataset c m i))"
proof (intro allI impI)
  fix m assume "r = Inr ()" "fc_zfs c = Some m"
  with assms obtain w1 where "on_os (rootfs_exists d (vm_dataset c m i)) w1 = (Inr False, w')"
    by (auto simp: delete_rootfs_def op_Inr_iff split: if_splits)
  from on_os_outcome [OF this] show "\<not> dataset (fc_os (outside w')) (vm_dataset c m i)"
    using rootfs_exists_sound by force
qed

lemma delete_rootfs_tap [frame_intros]:
  "shrinks (\<lambda>w. tap (fc_os (outside w))) (delete_rootfs c d i)"
  unfolding delete_rootfs_def by (intro frame_intros)

text \<open>
  The documented contract of \<open>DeleteVM\<close>: nil means that the VM's process, link, rootfs
  clone and directory are all absent.
\<close>

lemma DeleteVM_absent:
  assumes "DeleteVM c p d ns i w = (Inr (), w')"
  shows "\<not> owner (fc_os (outside w')) n (path_join [vm_dir c ns i, ''api.sock''])"
    and "\<not> tap (fc_os (outside w')) (TapNameForVM i)"
    and "\<not> path (fc_os (outside w')) (vm_dir c ns i)"
    and "fc_zfs c = Some m \<Longrightarrow> \<not> dataset (fc_os (outside w')) (vm_dataset c m i)"
proof -
  let ?dir = "vm_dir c ns i" and ?sock = "path_join [vm_dir c ns i, ''api.sock'']"
  let ?req = "on_os (requireProcessAbsent p (FirecrackerBin c) ?sock) :: ('o fc_world env, unit) op"
  from assms obtain w6 w7 w8 w9 w10 w5 where
    tap: "on_os (tap_exists d (TapNameForVM i)) w5 = (Inr False, w6)"
    and arch: "w7 = snd ((if archives c then on_os (archive_console d ?dir i) else ok ()) w6)"
    and root: "delete_rootfs c d i w7 = (Inr (), w8)"
    and rm: "on_os (remove_all d ?dir) w8 = (Inr (), w9)"
    and dir: "on_os (path_exists d ?dir) w9 = (Inr False, w10)"
    and req: "?req w10 = (Inr (), w')"
    by (auto simp: DeleteVM_def Let_def op_Inr_iff ignore_def split: if_splits)
  have same: "(tap (fc_os (outside w')), dataset (fc_os (outside w')), path (fc_os (outside w'))) =
      (tap (fc_os (outside w10)), dataset (fc_os (outside w10)), path (fc_os (outside w10)))"
    using keepsD [OF keeps_on_os [OF require_quiet] req] .
  from on_os_outcome [OF req] obtain v v' where
    "requireProcessAbsent p (FirecrackerBin c) ?sock v = (Inr (), v')" "fc_os (outside w') = outside v'"
    by blast
  note v = this
  show "\<not> owner (fc_os (outside w')) n ?sock"
    using requireProcessAbsent_spec [OF v(1)] v(2) by auto
  show "\<not> path (fc_os (outside w')) ?dir"
    using on_os_outcome [OF dir] path_exists_sound same by force
  have "\<not> tap (fc_os (outside w6)) (TapNameForVM i)"
    using on_os_outcome [OF tap] tap_exists_sound by force
  moreover have "tap (fc_os (outside w7)) t \<Longrightarrow> tap (fc_os (outside w6)) t" for t
    using arch shrinks_on_os [OF tap_removal(5) [of ?dir i]]
    by (cases "archives c") (auto simp: shrinks_def)
  ultimately show "\<not> tap (fc_os (outside w')) (TapNameForVM i)"
    using same shrinksD [OF delete_rootfs_tap root] on_os_shrinksD [of tap, OF tap_removal(4) rm]
      on_os_shrinksD [of tap, OF tap_removal(1) dir] by auto
  show "fc_zfs c = Some m \<Longrightarrow> \<not> dataset (fc_os (outside w')) (vm_dataset c m i)"
    using delete_rootfs_absent [OF root] same on_os_shrinksD [of dataset, OF dataset_removal(2) rm]
      on_os_shrinksD [of dataset, OF dataset_removal(1) dir] by auto
qed

text \<open>
  Deletion never harms another process: one that does not own the VM's socket and is not
  the tracked process of the VM is left as it was, whatever happens.
\<close>

abbreviation proc_view :: "nat \<Rightarrow> 'o fc_world env \<Rightarrow> bool \<times> (string \<Rightarrow> bool)" where
  "proc_view n \<equiv> \<lambda>w. (alive (fc_os (outside w)) n, owner (fc_os (outside w)) n)"

lemma quiet_view [frame_intros]:
  assumes "keeps (\<lambda>w. (alive (outside w), owner (outside w))) m"
  shows "keeps (proc_view n) (on_os m)"
  using assms by (intro keeps_on_os [where f = "\<lambda>o'. (alive o' n, owner o' n)"]) (simp add: keeps_def)

lemma require_view [frame_intros]: "keeps (proc_view n) (on_os (requireProcessAbsent p b s))"
  by (rule quiet_view) (auto simp: keeps_outcome same_def dest!: requireProcessAbsent_spec)

lemma delete_rootfs_view [frame_intros]: "keeps (proc_view n) (delete_rootfs c d i)"
  unfolding delete_rootfs_def by (intro frame_intros)

lemma ctx_err_view [frame_intros]: "keeps (proc_view n) ctx_err"
  by (rule keeps_ctx_err)

lemma signal_tracked_view: "n \<noteq> fst h \<Longrightarrow> keeps (proc_view n) (signal_tracked d m h k)"
  unfolding signal_tracked_def
  by (intro frame_intros keeps_on_os [where f = "\<lambda>o'. (alive o' n, owner o' n)"] tracked_other) auto

lemma stop_tracked_view: "n \<noteq> fst h \<Longrightarrow> keeps (proc_view n) (stop_tracked d i h)"
  unfolding stop_tracked_def
  by (intro frame_intros signal_tracked_view keeps_on_os [where f = "\<lambda>o'. (alive o' n, owner o' n)"] tracked_other) auto

lemma stop_for_delete_view:
  assumes "stop_for_delete c p d i s w = (r, w')" "\<not> owner (fc_os (outside w)) n s"
    and "\<And>h. map_of (fc_procs (outside w)) i = Some h \<Longrightarrow> n \<noteq> fst h"
  shows "alive (fc_os (outside w')) n = alive (fc_os (outside w)) n"
proof (cases "map_of (fc_procs (outside w)) i")
  case (Some h)
  then have "stop_tracked d i h w = (r, w')" using assms(1) by (simp add: stop_for_delete_def)
  from keepsD [OF stop_tracked_view [OF assms(3) [OF Some]] this] show ?thesis by simp
next
  case None
  obtain f w1 where f: "on_os (findProcessBySocket p (FirecrackerBin c) s) w = (f, w1)" by fastforce
  from on_os_outcome [OF f] obtain v v' where
    v: "outside v = fc_os (outside w)" "findProcessBySocket p (FirecrackerBin c) s v = (f, v')"
      "fc_os (outside w1) = outside v'" by blast
  note spec = findProcessBySocket_spec [OF v(2)]
  show ?thesis
  proof (cases "\<exists>h. f = Inr (Some h)")
    case False
    then have "w' = w1" using assms(1) None f
      by (cases f) (auto simp: stop_for_delete_def call_wrap_Inl call_wrap_Inr split: option.splits)
    then show ?thesis using spec v by (simp add: same_def)
  next
    case True
    then obtain h where h: "f = Inr (Some h)" by blast
    then have "n \<noteq> fst h" using spec v(1) assms(2) by auto
    moreover have "on_os (stopDetachedProcess p h) w1 = (r, w')"
      using assms(1) None f h by (simp add: stop_for_delete_def call_wrap_Inr)
    from on_os_outcome [OF this] obtain u u' where
      "outside u = fc_os (outside w1)" "stopDetachedProcess p h u = (r, u')" "fc_os (outside w') = outside u'"
      by blast
    ultimately show ?thesis
      using stopDetachedProcess_touches spec v by (auto simp: same_def touches_def)
  qed
qed

lemma DeleteVM_spares_others:
  assumes "DeleteVM c p d ns i w = (r, w')"
    and "\<not> owner (fc_os (outside w)) n (path_join [vm_dir c ns i, ''api.sock''])"
    and "\<And>h. map_of (fc_procs (outside w)) i = Some h \<Longrightarrow> n \<noteq> fst h"
  shows "alive (fc_os (outside w')) n = alive (fc_os (outside w)) n"
proof -
  let ?dir = "vm_dir c ns i" and ?sock = "path_join [vm_dir c ns i, ''api.sock'']"
  obtain a w1 where a: "ctx_err w = (a, w1)" by fastforce
  note o1 = ctx_err_outsideD [OF a]
  obtain b w2 where b: "on_os (path_exists d ?dir) w1 = (b, w2)" by fastforce
  have v2: "proc_view n w2 = proc_view n w1" by (rule keepsD [where f = "proc_view n" and m = "on_os (path_exists d ?dir)" and r = b]) (intro frame_intros b)+
  have p2: "fc_procs (outside w2) = fc_procs (outside w1)" using on_os_outcome [OF b] by blast
  obtain q w3 where q: "stop_for_delete c p d i ?sock w2 = (q, w3)" by fastforce
  have v3: "alive (fc_os (outside w3)) n = alive (fc_os (outside w)) n"
    using stop_for_delete_view [OF q, of n] assms(2,3) o1 v2 p2 by auto
  define rest :: "('o fc_world env, unit) op" where "rest =
      call (on_os (requireProcessAbsent p (FirecrackerBin c) ?sock)) (\<lambda>_.
      call (on_os (delete_tap d (TapNameForVM i))) (\<lambda>_.
      call_wrap ''verify TAP deletion'' (on_os (tap_exists d (TapNameForVM i))) (\<lambda>exists.
      if exists then fail (Msg (''verify TAP deletion: '' @ TapNameForVM i @ '' remains''))
      else
        ignore (if archives c then on_os (archive_console d ?dir i) else ok ())
          (call (delete_rootfs c d i) (\<lambda>_.
           call_wrap ''failed to remove VM directory'' (on_os (remove_all d ?dir)) (\<lambda>_.
           call_wrap ''verify VM directory deletion'' (on_os (path_exists d ?dir)) (\<lambda>present.
           if present then fail (Msg (''verify VM directory deletion: '' @ ?dir @ '' remains''))
           else on_os (requireProcessAbsent p (FirecrackerBin c) ?sock))))))))"
  have rest_view: "keeps (proc_view n) rest" unfolding rest_def by (intro frame_intros)
  have "DeleteVM c p d ns i =
      call ctx_err (\<lambda>_. call_wrap ''read VM directory'' (on_os (path_exists d ?dir)) (\<lambda>_.
      call (stop_for_delete c p d i ?sock) (\<lambda>_. rest)))"
    unfolding DeleteVM_def Let_def rest_def ..
  then have "w' \<in> {w1, w2, w3, snd (rest w3)}"
    using assms(1) a b q
    by (cases a; cases b; cases q) (auto simp: call_Inl call_Inr call_wrap_Inl call_wrap_Inr)
  moreover have "proc_view n (snd (rest w3)) = proc_view n w3" using rest_view by (simp add: keeps_def)
  ultimately show ?thesis using o1 v2 v3 by auto
qed

end

section \<open>The machine as a host\<close>

definition ip_sim_ok :: "string list \<Rightarrow> machine \<Rightarrow> cmd_result \<times> machine" where
  "ip_sim_ok args o' =
     (case args of
        [a, b, name] \<Rightarrow>
          if name \<notin> set (links o') then (cmd_err ''Cannot find device'', o')
          else if b = ''delete'' then (cmd_ok [], o'\<lparr>links := filter (\<lambda>x. x \<noteq> name) (links o')\<rparr>)
          else (cmd_ok name, o')
      | [a, b, c, name, m, t] \<Rightarrow>
          if name \<in> set (links o') then (cmd_err ''Device or resource busy'', o')
          else (cmd_ok [], o'\<lparr>links := links o' @ [name]\<rparr>)
      | _ \<Rightarrow> (cmd_ok [], o'))"

definition ip_sim :: "machine zfs_run" where
  "ip_sim args o' =
     (case next_fault (mfaults o') of
        (True, bs) \<Rightarrow> (cmd_err ''ip failed'', o'\<lparr>mfaults := bs\<rparr>)
      | (False, bs) \<Rightarrow> ip_sim_ok args (o'\<lparr>mfaults := bs\<rparr>))"

definition machine_deletes :: "machine delete_ops" where
  "machine_deletes =
     \<lparr>path_exists = (\<lambda>x. external (sys_call ''stat'' (\<lambda>o'. (Inr (x \<in> set (paths o')), o')))),
      delete_tap = DeleteTap ip_sim,
      tap_exists = (\<lambda>x. external (sys_call ''interfaces'' (\<lambda>o'. (Inr (x \<in> set (links o')), o')))),
      destroy_rootfs = DestroyDatasetRecursive zfs_sim,
      rootfs_exists = DatasetPathExists zfs_sim,
      remove_all = (\<lambda>x. external (sys_call ''remove'' (\<lambda>o'.
        (Inr (), o'\<lparr>paths := filter (\<lambda>y. \<not> (y = x \<or> has_prefix y (x @ ''/''))) (paths o')\<rparr>)))),
      archive_console = (\<lambda>dir vmID. external (sys_call ''archive'' (\<lambda>o'.
        (Inr (), o'\<lparr>paths := (''/archive/'' @ vmID) # paths o'\<rparr>)))),
      tracked_signal = (\<lambda>h k. attempt (linux_Signal h k) (\<lambda>r. case r of
          Inl e \<Rightarrow> fail (if errors_is e ErrProcessAbsent then Sentinel ErrProcessDone else e)
        | Inr _ \<Rightarrow> ok ())),
      tracked_done = (\<lambda>h. external (linux_exited h)),
      tracked_reap = (\<lambda>h. ok ())\<rparr>"

definition has_link :: "machine \<Rightarrow> string \<Rightarrow> bool" where
  "has_link o' t \<longleftrightarrow> t \<in> set (links o')"

definition has_path :: "machine \<Rightarrow> string \<Rightarrow> bool" where
  "has_path o' t \<longleftrightarrow> t \<in> set (paths o')"

text \<open>Observations of the machine that do not depend on the script of failures.\<close>

lemma keeps_external:
  assumes "\<And>o'. f (snd (act o')) = f o'" "\<And>o' bs. f (o'\<lparr>mfaults := bs\<rparr>) = f o'"
  shows "keeps (\<lambda>w. f (outside w)) (external (sys_call what act))"
  using assms by (simp add: keeps_def external_def zoom_def sys_call_def split: prod.split bool.split)
     (metis snd_conv)

lemma shrinks_external:
  assumes "\<And>o' x. P (snd (act o')) x \<Longrightarrow> P o' x" "\<And>o' bs. P (o'\<lparr>mfaults := bs\<rparr>) = P o'"
  shows "shrinks (\<lambda>w. P (outside w)) (external (sys_call what act))"
  unfolding shrinks_outcome
proof (intro allI impI)
  fix w r w' x assume run: "external (sys_call what act) w = (r, w')" and P: "P (outside w') x"
  show "P (outside w) x"
  proof (cases "next_fault (mfaults (outside w))")
    case (Pair b bs)
    then show ?thesis
      using run P assms(1) [of "(outside w)\<lparr>mfaults := bs\<rparr>" x] assms(2) [of bs "outside w"]
      by (cases b) (auto simp: external_def zoom_def sys_call_def split: prod.splits)
  qed
qed

definition machine_res :: "machine \<Rightarrow> (string \<Rightarrow> bool) \<times> (string \<Rightarrow> bool) \<times> (string \<Rightarrow> bool)" where
  "machine_res o' = (has_link o', has_dataset o', has_path o')"

definition machine_proc_view :: "machine \<Rightarrow> (nat \<Rightarrow> bool) \<times> (nat \<Rightarrow> string \<Rightarrow> bool)" where
  "machine_proc_view o' = (machine_alive o', machine_owner o')"

lemma machine_res_faults [simp]: "machine_res (o'\<lparr>mfaults := bs\<rparr>) = machine_res o'"
  and machine_res_procs [simp]: "machine_res (o'\<lparr>procs := ps\<rparr>) = machine_res o'"
  by (simp_all add: machine_res_def has_link_def has_dataset_def has_path_def fun_eq_iff)

lemma machine_procs_eq: "procs o' = procs o'' \<Longrightarrow> machine_proc_view o' = machine_proc_view o''"
  by (simp add: machine_proc_view_def machine_alive_def machine_owner_def proc_of_def fun_eq_iff)

lemma keeps_procs:
  "keeps (\<lambda>w. procs (outside w)) m \<Longrightarrow> keeps (\<lambda>w. machine_proc_view (outside w)) m"
  unfolding keeps_def using machine_procs_eq by blast

lemma linux_res_keeps [frame_intros]:
  "keeps (\<lambda>w. machine_res (outside w)) (external (readLinuxProcessArguments n))"
  "keeps (\<lambda>w. machine_res (outside w)) (external (linux_exited h))"
  "keeps (\<lambda>w. machine_res (outside w)) (linux_open n)"
  "keeps (\<lambda>w. machine_res (outside w)) (linux_Signal h k)"
  "keeps (\<lambda>w. machine_res (outside w)) (linux_Close h)"
  "keeps (\<lambda>w. machine_res (outside w)) (machine_resolve b)"
  unfolding readLinuxProcessArguments_def linux_exited_def linux_open_def linux_Signal_def linux_Close_def
    machine_resolve_def
  by (intro keeps_external; auto split: option.splits)+

lemma linux_candidates_res [frame_intros]: "keeps (\<lambda>w. machine_res (outside w)) (linux_candidates s pids)"
  by (induction pids) (simp only: linux_candidates.simps, intro frame_intros, assumption?)+

lemma linux_candidatePIDs_res [frame_intros]: "keeps (\<lambda>w. machine_res (outside w)) (linux_candidatePIDs b s)"
  unfolding linux_candidatePIDs_def by (intro frame_intros keeps_external) auto

lemma classify_res [frame_intros]: "keeps (\<lambda>w. machine_res (outside w)) (classifyIdentityReadError h)"
  unfolding classifyIdentityReadError_def by (intro frame_intros)

lemma linux_Identity_res [frame_intros]: "keeps (\<lambda>w. machine_res (outside w)) (linux_Identity h)"
  unfolding linux_Identity_def by (intro frame_intros keeps_external) auto

lemma linux_Wait_res [frame_intros]: "keeps (\<lambda>w. machine_res (outside w)) (linux_Wait n h)"
  by (induction n) (subst linux_Wait.simps, simp only: nat.case, intro frame_intros, assumption?)+

lemma zfs_sim_frame: "procs (snd (zfs_sim args o')) = procs o' \<and> links (snd (zfs_sim args o')) = links o'"
  by (cases args) (simp_all add: zfs_sim_def split: prod.split bool.split)

lemma ip_sim_frame: "procs (snd (ip_sim args o')) = procs o'"
  by (simp add: ip_sim_def ip_sim_ok_def split: prod.split bool.split list.split)

lemma run_cmd_keeps [frame_intros]:
  "keeps (\<lambda>w. machine_proc_view (outside w)) (run_cmd zfs_sim args)"
  "keeps (\<lambda>w. machine_proc_view (outside w)) (run_cmd ip_sim args)"
  "keeps (\<lambda>w. has_link (outside w)) (run_cmd zfs_sim args)"
  using zfs_sim_frame [of args] ip_sim_frame [of args]
  by (auto simp: keeps_def run_cmd_def external_def zoom_def has_link_def fun_eq_iff
      split: prod.split intro!: machine_procs_eq) (metis snd_conv)+

lemma DeleteTap_view [frame_intros]: "keeps (\<lambda>w. machine_proc_view (outside w)) (DeleteTap ip_sim t)"
  unfolding DeleteTap_def link_shown_def runCmd_def by (intro frame_intros)

lemma DatasetPathExists_keeps [frame_intros]:
  "keeps (\<lambda>w. machine_proc_view (outside w)) (DatasetPathExists zfs_sim x)"
  "keeps (\<lambda>w. has_link (outside w)) (DatasetPathExists zfs_sim x)"
  unfolding DatasetPathExists_def by (intro frame_intros)+

lemma DestroyDatasetRecursive_keeps [frame_intros]:
  "keeps (\<lambda>w. machine_proc_view (outside w)) (DestroyDatasetRecursive zfs_sim x)"
  "keeps (\<lambda>w. has_link (outside w)) (DestroyDatasetRecursive zfs_sim x)"
  unfolding DestroyDatasetRecursive_def runZFS_def by (intro frame_intros)+

lemma machine_signal_other:
  "n \<noteq> fst h \<Longrightarrow> keeps (\<lambda>w. (machine_alive (outside w) n, machine_owner (outside w) n)) (linux_Signal h k)"
  using linux_Signal_effect(1) by (simp add: keeps_outcome machine_alive_def machine_owner_def fun_eq_iff)

lemma machine_exited_other:
  "keeps (\<lambda>w. (machine_alive (outside w) n, machine_owner (outside w) n)) (external (linux_exited h))"
  by (auto simp: keeps_outcome dest!: exited_kept procs_kept_same)

lemma proc_view_pair:
  "keeps (\<lambda>w. machine_proc_view (outside w)) m \<Longrightarrow>
     keeps (\<lambda>w. (machine_alive (outside w), machine_owner (outside w))) m"
  by (simp add: machine_proc_view_def)

lemma res_triple:
  "keeps (\<lambda>w. machine_res (outside w)) m \<Longrightarrow>
     keeps (\<lambda>w. (has_link (outside w), has_dataset (outside w), has_path (outside w))) m"
  by (simp add: machine_res_def)

interpretation machine_host: vm_host linux_ops machine_alive machine_owner machine_deletes has_link has_dataset has_path
proof unfold_locales
  fix x y and w :: "machine env" and bb w'
  show "path_exists machine_deletes x w = (Inr bb, w') \<Longrightarrow> bb = has_path (outside w') x"
    and "tap_exists machine_deletes x w = (Inr bb, w') \<Longrightarrow> bb = has_link (outside w') x"
    by (auto simp: machine_deletes_def external_def zoom_def sys_call_def has_path_def has_link_def
        split: prod.splits bool.splits)
  show "rootfs_exists machine_deletes x w = (Inr bb, w') \<Longrightarrow> bb = has_dataset (outside w') x"
    using machine_zfs.DatasetPathExists_sound [of x w "Inr bb" w'] by (simp add: machine_deletes_def)
  show "shrinks (\<lambda>w. has_link (outside w)) (path_exists machine_deletes x)"
    "shrinks (\<lambda>w. has_link (outside w)) (remove_all machine_deletes x)"
    "shrinks (\<lambda>w. has_link (outside w)) (archive_console machine_deletes x y)"
    "shrinks (\<lambda>w. has_dataset (outside w)) (path_exists machine_deletes x)"
    "shrinks (\<lambda>w. has_dataset (outside w)) (remove_all machine_deletes x)"
    unfolding machine_deletes_def delete_ops.simps
    by (rule shrinks_external; simp add: has_link_def has_dataset_def fun_eq_iff)+
  show "shrinks (\<lambda>w. has_link (outside w)) (rootfs_exists machine_deletes x)"
    "shrinks (\<lambda>w. has_link (outside w)) (destroy_rootfs machine_deletes x)"
    unfolding machine_deletes_def delete_ops.simps by (intro keeps_shrinks frame_intros)+
  show "keeps (\<lambda>w. (machine_alive (outside w), machine_owner (outside w))) (path_exists machine_deletes x)"
    "keeps (\<lambda>w. (machine_alive (outside w), machine_owner (outside w))) (tap_exists machine_deletes x)"
    "keeps (\<lambda>w. (machine_alive (outside w), machine_owner (outside w))) (remove_all machine_deletes x)"
    "keeps (\<lambda>w. (machine_alive (outside w), machine_owner (outside w))) (archive_console machine_deletes x y)"
    unfolding machine_deletes_def delete_ops.simps
    by (rule proc_view_pair, rule keeps_procs, rule keeps_external; simp)+
  show "keeps (\<lambda>w. (machine_alive (outside w), machine_owner (outside w))) (rootfs_exists machine_deletes x)"
    "keeps (\<lambda>w. (machine_alive (outside w), machine_owner (outside w))) (delete_tap machine_deletes x)"
    "keeps (\<lambda>w. (machine_alive (outside w), machine_owner (outside w))) (destroy_rootfs machine_deletes x)"
    unfolding machine_deletes_def delete_ops.simps by (intro proc_view_pair frame_intros)+
next
  fix n h k
  show "n \<noteq> fst h \<Longrightarrow> keeps (\<lambda>w. (machine_alive (outside w) n, machine_owner (outside w) n)) (tracked_signal machine_deletes h k)"
    "n \<noteq> fst h \<Longrightarrow> keeps (\<lambda>w. (machine_alive (outside w) n, machine_owner (outside w) n)) (tracked_done machine_deletes h)"
    "n \<noteq> fst h \<Longrightarrow> keeps (\<lambda>w. (machine_alive (outside w) n, machine_owner (outside w) n)) (tracked_reap machine_deletes h)"
    unfolding machine_deletes_def delete_ops.simps
    by (intro frame_intros machine_signal_other machine_exited_other; assumption)+
qed (unfold linux_ops_def process_ops.simps machine_deletes_def delete_ops.simps,
    (rule res_triple, intro frame_intros)+)

end
