(* ===== verification/Logs.thy ===== *)
theory Logs
  imports Prelude
begin

text \<open>
  What a sequence of calls appends to a log in the state. \<open>appends log S m\<close> says that
  the operation only appends: a log of \<open>S\<close> for the value it returns, the beginning of
  such a log when it fails. The property follows for a sequence from its calls.
\<close>

definition completes :: "('a \<Rightarrow> 'x list \<Rightarrow> bool) \<Rightarrow> goerr + 'a \<Rightarrow> 'x list \<Rightarrow> bool" where
  "completes S r xs \<longleftrightarrow> (case r of Inr a \<Rightarrow> S a xs | Inl _ \<Rightarrow> \<exists>a ys. S a (xs @ ys))"

definition appends :: "('s \<Rightarrow> 'x list) \<Rightarrow> ('a \<Rightarrow> 'x list \<Rightarrow> bool) \<Rightarrow> ('s, 'a) op \<Rightarrow> bool" where
  "appends log S m \<longleftrightarrow> (\<forall>s. \<exists>xs. log (snd (m s)) = log s @ xs \<and> completes S (fst (m s)) xs)"

lemma completes_simps [simp]:
  "completes S (Inr a) xs = S a xs"
  "completes S (Inl e) xs = (\<exists>a ys. S a (xs @ ys))"
  by (simp_all add: completes_def)

lemma completesI_fail: "S a (xs @ ys) \<Longrightarrow> completes S (Inl e) xs"
  by auto

lemma completes_start: "completes S r xs \<Longrightarrow> \<exists>a ys. S a (xs @ ys)"
  by (cases r) (auto intro: exI [of _ "[]"], metis append_Nil2)

lemma appendsE:
  assumes "appends log S m" "m s = (r, s')"
  obtains xs where "log s' = log s @ xs" "completes S r xs"
  using assms unfolding appends_def by (metis fst_conv snd_conv)

lemma appendsI:
  "(\<And>s r s'. m s = (r, s') \<Longrightarrow> \<exists>xs. log s' = log s @ xs \<and> completes S r xs) \<Longrightarrow> appends log S m"
  unfolding appends_def by (metis prod.collapse)

lemma keeps_state: "keeps log m \<Longrightarrow> m s = (r, s') \<Longrightarrow> log s' = log s"
  by (rule keepsD)

lemma appends_quiet:
  assumes "keeps log m" "\<And>a. S a []"
  shows "appends log S m"
proof (rule appendsI)
  fix s r s' assume "m s = (r, s')"
  then have "log s' = log s @ []" using keeps_state [OF assms(1)] by simp
  moreover have "completes S r []" using assms(2) by (cases r) (auto intro: exI [of _ "[]"])
  ultimately show "\<exists>xs. log s' = log s @ xs \<and> completes S r xs" by blast
qed

lemma appends_mono:
  assumes "appends log S m" "\<And>a xs. S a xs \<Longrightarrow> T a xs"
  shows "appends log T m"
proof (rule appendsI)
  fix s r s' assume "m s = (r, s')"
  from appendsE [OF assms(1) this] obtain xs where "log s' = log s @ xs" "completes S r xs" .
  moreover from this(2) have "completes T r xs" using assms(2) by (cases r) auto
  ultimately show "\<exists>xs. log s' = log s @ xs \<and> completes T r xs" by blast
qed

lemma appends_ok: "S a [] \<Longrightarrow> appends log S (ok a)"
  by (rule appendsI) (auto intro: exI [of _ "[]"])

text \<open>Operations that can only fail.\<close>

definition fails :: "('s, 'a) op \<Rightarrow> bool" where
  "fails m \<longleftrightarrow> (\<forall>s. isl (fst (m s)))"

lemma fails_fail [simp, intro]: "fails (fail e)"
  by (simp add: fails_def)

lemma fails_ignore [intro]: "fails k \<Longrightarrow> fails (ignore m k)"
  by (simp add: fails_def ignore_def)

lemma fails_attempt [intro]: "(\<And>r. fails (k r)) \<Longrightarrow> fails (attempt m k)"
  by (simp add: fails_def attempt_def split: prod.split)

lemma fails_if [intro]: "fails m \<Longrightarrow> fails n \<Longrightarrow> fails (if b then m else n)"
  by simp

lemma appends_fails:
  assumes "keeps log m" "fails m" "\<exists>a ys. S a ys"
  shows "appends log S m"
proof (rule appendsI)
  fix s r s' assume m: "m s = (r, s')"
  then obtain e where "r = Inl e" using assms(2) unfolding fails_def by (metis fst_conv isl_def)
  moreover have "log s' = log s @ []" using keeps_state [OF assms(1) m] by simp
  ultimately show "\<exists>xs. log s' = log s @ xs \<and> completes S r xs" using assms(3)
    by (intro exI [of _ "[]"]) auto
qed

lemma appends_attempt:
  assumes m: "appends log A m"
    and val: "\<And>a. appends log (B a) (k (Inr a))"
    and err: "\<And>e. keeps log (k (Inl e))" "\<And>e. fails (k (Inl e))"
    and S: "\<And>a b xs ys. A a xs \<Longrightarrow> B a b ys \<Longrightarrow> S b (xs @ ys)"
    and ne: "\<And>a. \<exists>b ys. B a b ys"
  shows "appends log S (attempt m k)"
proof (rule appendsI)
  fix s r' s' assume run: "attempt m k s = (r', s')"
  obtain r s1 where r: "m s = (r, s1)" by fastforce
  from appendsE [OF m r] obtain xs where xs: "log s1 = log s @ xs" "completes A r xs" .
  from run r have k: "k r s1 = (r', s')" by (simp add: attempt_def)
  show "\<exists>xs. log s' = log s @ xs \<and> completes S r' xs"
  proof (cases r)
    case (Inl e)
    then obtain a ys where "A a (xs @ ys)" using xs by auto
    moreover obtain b zs where "B a b zs" using ne by blast
    ultimately have S': "S b (xs @ (ys @ zs))" using S by fastforce
    from err(2) k Inl obtain e' where r': "r' = Inl e'"
      unfolding fails_def by (metis fst_conv isl_def)
    have "completes S r' xs" unfolding r' using S' by (rule completesI_fail)
    moreover have "log s' = log s @ xs" using keeps_state [OF err(1)] k Inl xs(1) by metis
    ultimately show ?thesis by blast
  next
    case (Inr a)
    with xs have A: "A a xs" by simp
    from k Inr appendsE [OF val] obtain ys where ys: "log s' = log s1 @ ys" "completes (B a) r' ys"
      by metis
    have "completes S r' (xs @ ys)"
    proof (cases r')
      case (Inl e)
      then obtain b zs where "B a b (ys @ zs)" using ys(2) by auto
      then have "S b ((xs @ ys) @ zs)" using S [OF A] by fastforce
      then show ?thesis unfolding Inl by (rule completesI_fail)
    qed (use ys(2) S [OF A] in auto)
    then show ?thesis using xs(1) ys(1) by (intro exI [of _ "xs @ ys"]) simp
  qed
qed

lemma call_attempt: "call m k = attempt m (\<lambda>r. case r of Inl e \<Rightarrow> fail e | Inr a \<Rightarrow> k a)"
  by (rule ext) (simp add: call_def attempt_def split: prod.split sum.split)

lemma appends_call:
  assumes "appends log A m" "\<And>a. appends log (B a) (k a)"
    "\<And>a b xs ys. A a xs \<Longrightarrow> B a b ys \<Longrightarrow> S b (xs @ ys)" "\<And>a. \<exists>b ys. B a b ys"
  shows "appends log S (call m k)"
  unfolding call_attempt
proof (rule appends_attempt [OF assms(1), where B = B])
  show "appends log (B a) (case Inr a of Inl e \<Rightarrow> fail e | Inr a \<Rightarrow> k a)" for a using assms(2) by simp
  show "keeps log (case Inl e of Inl e \<Rightarrow> fail e | Inr a \<Rightarrow> k a)" for e by (simp add: keeps_def)
qed (use assms(3,4) in \<open>(assumption | simp)+\<close>)

text \<open>A call that leaves the log alone, before the rest.\<close>

lemma appends_call_quiet:
  assumes "keeps log m" "\<And>a. appends log S (k a)" "\<exists>b ys. S b ys"
  shows "appends log S (call m k)"
proof (rule appends_call [where A = "\<lambda>_ xs. xs = []" and B = "\<lambda>_. S"])
  show "appends log (\<lambda>_ xs. xs = []) m" using assms(1) by (rule appends_quiet) simp
qed (use assms(2,3) in simp_all)

lemma appends_call_wrap_quiet:
  "keeps log m \<Longrightarrow> (\<And>a. appends log S (k a)) \<Longrightarrow> \<exists>b ys. S b ys \<Longrightarrow> appends log S (call_wrap msg m k)"
  unfolding call_wrap_def by (intro appends_call_quiet keeps_wrap)

lemma appends_attempt_quiet:
  assumes "keeps log m" "\<And>a. appends log S (k (Inr a))" "\<And>e. keeps log (k (Inl e))" "\<And>e. fails (k (Inl e))"
    "\<exists>b ys. S b ys"
  shows "appends log S (attempt m k)"
proof (rule appends_attempt [where A = "\<lambda>_ xs. xs = []" and B = "\<lambda>_. S"])
  show "appends log (\<lambda>_ xs. xs = []) m" using assms(1) by (rule appends_quiet) simp
qed (use assms(2-5) in simp_all)

lemma appends_ignore:
  assumes "appends log A m" "appends log B k"
    "\<And>a b xs ys zs. A a (xs @ zs) \<Longrightarrow> B b ys \<Longrightarrow> S b (xs @ ys)"
  shows "appends log S (ignore m k)"
proof (rule appendsI)
  fix s r' s' assume run: "ignore m k s = (r', s')"
  obtain r s1 where r: "m s = (r, s1)" by fastforce
  from appendsE [OF assms(1) r] obtain xs where xs: "log s1 = log s @ xs" "completes A r xs" .
  then obtain a zs where A: "A a (xs @ zs)" using completes_start by blast
  from run r have "k s1 = (r', s')" by (simp add: ignore_def)
  from appendsE [OF assms(2) this] obtain ys where ys: "log s' = log s1 @ ys" "completes B r' ys" .
  have "completes S r' (xs @ ys)"
  proof (cases r')
    case (Inl e)
    then obtain b us where "B b (ys @ us)" using ys(2) by auto
    then have "S b ((xs @ ys) @ us)" using assms(3) [OF A] by fastforce
    then show ?thesis unfolding Inl by (rule completesI_fail)
  qed (use ys(2) assms(3) [OF A] in auto)
  then show "\<exists>xs. log s' = log s @ xs \<and> completes S r' xs" using xs(1) ys(1)
    by (intro exI [of _ "xs @ ys"]) simp
qed

lemma appends_ignore_quiet:
  assumes "keeps log m" "appends log S k"
  shows "appends log S (ignore m k)"
proof (rule appendsI)
  fix s r s' assume "ignore m k s = (r, s')"
  then have "k (snd (m s)) = (r, s')" by (simp add: ignore_def)
  from appendsE [OF assms(2) this] show "\<exists>xs. log s' = log s @ xs \<and> completes S r xs"
    using assms(1) by (metis keeps_def)
qed

lemma appends_pure_step: "(\<And>s. log (f s) = log s) \<Longrightarrow> appends log S k \<Longrightarrow> appends log S (pure_step f k)"
  by (rule appendsI) (auto simp: pure_step_def elim!: appendsE)

lemma appends_if: "appends log S m \<Longrightarrow> appends log S n \<Longrightarrow> appends log S (if b then m else n)"
  by simp

lemma appends_case_option:
  "appends log S m \<Longrightarrow> (\<And>a. x = Some a \<Longrightarrow> appends log S (k a)) \<Longrightarrow>
     appends log S (case x of None \<Rightarrow> m | Some a \<Rightarrow> k a)"
  by (cases x) auto

end
