(* ===== verification/Vm_Client.thy ===== *)
theory Vm_Client
  imports Firecracker Logs
begin

text \<open>
  Creating, starting, stopping and reading a Firecracker VM: the rest of
  \<open>pkg/firecracker/client.go\<close> and the API client of \<open>api.go\<close>. What the client
  calls outside of itself (directories, files, links, the \<open>zfs\<close> command, the
  Firecracker process and its HTTP API) are the operations of \<open>launch_ops\<close>. The
  contract \<open>vm_launcher\<close> says which of them can make a process appear; proved from it:
  a VM boots only after its whole configuration was accepted, and creating or starting a VM
  makes no process appear that owns another VM's socket.
\<close>

section \<open>What the client calls\<close>

text \<open>
  \<open>WaitForSocketOrDeath\<close> selects among the context, the death of the process and a
  tick; at a tick it dials the socket.
\<close>

datatype socket_event = ContextDone goerr | ProcessDone | Tick bool

text \<open>
  \<open>spawn bin sock\<close> starts \<open>bin --api-sock sock\<close>; \<open>api_do\<close> sends a PUT and
  returns the status with the body; \<open>stat_missing\<close> is \<open>os.IsNotExist\<close> of a stat;
  \<open>make_fifo\<close> fails for any reason but an existing file; a command of
  \<open>zfs_command\<close> that did not exit with 0 is an error of \<open>exec\<close>.
\<close>

record 'o launch_ops =
  mkdir_all :: "string \<Rightarrow> ('o env, unit) op"
  create_tap :: "string \<Rightarrow> ('o env, unit) op"
  random_bytes :: "('o env, 8 word list) op"
  zfs_command :: "string list \<Rightarrow> ('o env, cmd_result) op"
  stat_missing :: "string \<Rightarrow> ('o env, bool) op"
  stat_path :: "string \<Rightarrow> ('o env, unit) op"
  read_file :: "string \<Rightarrow> ('o env, string) op"
  write_file :: "string \<Rightarrow> string \<Rightarrow> ('o env, unit) op"
  create_file :: "string \<Rightarrow> ('o env, unit) op"
  remove_file :: "string \<Rightarrow> ('o env, unit) op"
  spawn :: "string \<Rightarrow> string \<Rightarrow> ('o env, handle) op"
  next_event :: "string \<Rightarrow> handle \<Rightarrow> ('o env, socket_event) op"
  api_do :: "string \<Rightarrow> string \<Rightarrow> json \<Rightarrow> ('o env, nat \<times> string) op"
  make_fifo :: "string \<Rightarrow> ('o env, unit) op"
  open_fifo :: "string \<Rightarrow> ('o env, unit) op"
  process_running :: "int \<Rightarrow> ('o env, bool) op"
  kill_pid :: "int \<Rightarrow> bool \<Rightarrow> ('o env, unit) op"
  read_dir :: "string \<Rightarrow> ('o env, (string \<times> bool) list option) op"

section \<open>The API client\<close>

definition api_put :: "'o launch_ops \<Rightarrow> string \<Rightarrow> string \<Rightarrow> json \<Rightarrow> ('o env, unit) op" where
  "api_put l sock path body =
     call_wrap ''send request'' (api_do l sock path body) (\<lambda>(status, answer).
       if 400 \<le> status then fail (Msg (''API error '' @ itoa status @ '': '' @ answer)) else ok ())"

text \<open>The requests, with the keys of a body in the order the encoder writes them.\<close>

datatype api_request =
    BootSource string string
  | Drive string string bool bool
  | NetworkInterface string string string
  | MachineConfig "32 word" "32 word"
  | Vsock "32 word" string
  | MMDSConfig "string list"
  | MMDSData json
  | Metrics string
  | InstanceStart
  | CtrlAltDel

definition api_path :: "api_request \<Rightarrow> string" where
  "api_path r = (case r of
     BootSource _ _ \<Rightarrow> ''/boot-source''
   | Drive i _ _ _ \<Rightarrow> ''/drives/'' @ i
   | NetworkInterface i _ _ \<Rightarrow> ''/network-interfaces/'' @ i
   | MachineConfig _ _ \<Rightarrow> ''/machine-config''
   | Vsock _ _ \<Rightarrow> ''/vsock''
   | MMDSConfig _ \<Rightarrow> ''/mmds/config''
   | MMDSData _ \<Rightarrow> ''/mmds''
   | Metrics _ \<Rightarrow> ''/metrics''
   | InstanceStart \<Rightarrow> ''/actions''
   | CtrlAltDel \<Rightarrow> ''/actions'')"

definition api_body :: "api_request \<Rightarrow> json" where
  "api_body r = (case r of
     BootSource kpath args \<Rightarrow> JObj [(''boot_args'', JStr args), (''kernel_image_path'', JStr kpath)]
   | Drive i p isRoot ro \<Rightarrow> JObj [(''drive_id'', JStr i), (''is_read_only'', JBool ro),
       (''is_root_device'', JBool isRoot), (''path_on_host'', JStr p)]
   | NetworkInterface i mac dev \<Rightarrow> JObj [(''guest_mac'', JStr mac), (''host_dev_name'', JStr dev), (''iface_id'', JStr i)]
   | MachineConfig cpus mem \<Rightarrow> JObj [(''mem_size_mib'', JNum (itoa_int (sint mem))), (''smt'', JBool False),
       (''vcpu_count'', JNum (itoa_int (sint cpus)))]
   | Vsock cid p \<Rightarrow> JObj [(''guest_cid'', JNum (itoa (unat cid))), (''uds_path'', JStr p)]
   | MMDSConfig ifs \<Rightarrow> JObj [(''network_interfaces'', JArr (map JStr ifs)), (''version'', JStr ''V1'')]
   | MMDSData d \<Rightarrow> d
   | Metrics p \<Rightarrow> JObj [(''metrics_path'', JStr p)]
   | InstanceStart \<Rightarrow> JObj [(''action_type'', JStr ''InstanceStart'')]
   | CtrlAltDel \<Rightarrow> JObj [(''action_type'', JStr ''SendCtrlAltDel'')])"

definition api_send :: "'o launch_ops \<Rightarrow> string \<Rightarrow> api_request \<Rightarrow> ('o env, unit) op" where
  "api_send l sock r = api_put l sock (api_path r) (api_body r)"

definition errProcessDied :: goerr where
  "errProcessDied = Msg ''firecracker process died''"

text \<open>
  The wait for the socket, with the number of ticks (10 ms each) until the context of ten
  seconds is done.
\<close>

fun WaitForSocketOrDeath :: "'o launch_ops \<Rightarrow> nat \<Rightarrow> string \<Rightarrow> handle \<Rightarrow> ('o env, unit) op" where
  "WaitForSocketOrDeath l 0 sock h =
     fail (Wrap (''timeout waiting for socket '' @ sock) (Msg ''context deadline exceeded''))"
| "WaitForSocketOrDeath l (Suc n) sock h =
     call (next_event l sock h) (\<lambda>e. case e of
       ContextDone err \<Rightarrow> fail (Wrap (''timeout waiting for socket '' @ sock) err)
     | ProcessDone \<Rightarrow> fail errProcessDied
     | Tick up \<Rightarrow> if up then ok () else WaitForSocketOrDeath l n sock h)"

section \<open>Results\<close>

record fc_vm_info =
  fv_id :: string
  fv_namespace :: string
  fv_pid :: nat
  fv_sock :: string
  fv_rootfs :: string
  fv_metrics :: string
  fv_cid :: "32 word"
  fv_vsock :: string
  fv_state :: string

datatype vm_status = VMStatusUnknown | VMStatusPending | VMStatusRunning | VMStatusStopped | VMStatusFailed

definition vm_status_String :: "vm_status \<Rightarrow> string" where
  "vm_status_String s = (case s of
     VMStatusPending \<Rightarrow> ''pending'' | VMStatusRunning \<Rightarrow> ''running'' | VMStatusStopped \<Rightarrow> ''stopped''
   | VMStatusFailed \<Rightarrow> ''failed'' | VMStatusUnknown \<Rightarrow> ''unknown'')"

record fc_vm =
  fm_id :: string
  fm_namespace :: string
  fm_dir :: string
  fm_status :: vm_status
  fm_tap :: string
  fm_mac :: string
  fm_pid :: int

section \<open>Pieces of the pipelines\<close>

definition hex2 :: "8 word \<Rightarrow> string" where
  "hex2 b = [hex_digit (unat b div 16), hex_digit (unat b mod 16)]"

definition GenerateMAC :: "8 word list \<Rightarrow> string" where
  "GenerateMAC buf = ''02'' @ concat (map (\<lambda>b. CHR '':'' # hex2 b) buf)"

definition destroyZFSDataset :: "'o launch_ops \<Rightarrow> string \<Rightarrow> ('o env, unit) op" where
  "destroyZFSDataset l dataset =
     (if dataset = [] then ok () else ignore (zfs_command l [''destroy'', ''-r'', dataset]) (ok ()))"

definition writeProcessMetadata :: "'o launch_ops \<Rightarrow> string \<Rightarrow> nat \<Rightarrow> string \<Rightarrow> ('o env, unit) op" where
  "writeProcessMetadata l vmDir pid sock =
     call_wrap ''write Firecracker PID'' (write_file l (path_join [vmDir, ''firecracker.pid'']) (itoa pid)) (\<lambda>_.
     wrap ''write Firecracker API socket path'' (write_file l (path_join [vmDir, ''api.sock.path'']) sock))"

definition copyFile :: "'o launch_ops \<Rightarrow> string \<Rightarrow> string \<Rightarrow> ('o env, unit) op" where
  "copyFile l src dst = call (read_file l src) (\<lambda>input. write_file l dst input)"

definition zfs_mountpoint :: "'o launch_ops \<Rightarrow> string \<Rightarrow> ('o env, string) op" where
  "zfs_mountpoint l dataset =
     call (zfs_command l [''get'', ''-H'', ''-o'', ''value'', ''mountpoint'', dataset]) (\<lambda>r.
       if exit r = ExitOk then ok (trim_space (stdout r)) else fail (Msg ''exit status''))"

text \<open>The clone of the rootfs: its path and dataset; \<open>undo\<close> deletes the TAP device.\<close>

definition clone_rootfs ::
    "client_config \<Rightarrow> 'o launch_ops \<Rightarrow> 'o delete_ops \<Rightarrow> zfs_manager \<Rightarrow> vm_config \<Rightarrow> ('o env, string \<times> string) op" where
  "clone_rootfs c l d m cfg =
     (let tap = TapNameForVM (vc_id cfg); dataset = vm_dataset c m (vc_id cfg);
          snapshot = (if vc_rootfs_snapshot cfg = [] then PoolName m @ ''/'' @ ImagesPath c @ ''/rootfs@base''
                      else vc_rootfs_snapshot cfg)
      in
      ignore (zfs_command l [''create'', ''-p'', PoolName m @ ''/'' @ VMsPath c])
        (call (zfs_command l [''clone'', snapshot, dataset]) (\<lambda>r.
         if exit r \<noteq> ExitOk then
           ignore (delete_tap d tap) (fail (Wrap ''failed to clone rootfs'' (Msg (stdout r @ stderr r))))
         else
           attempt (zfs_mountpoint l dataset) (\<lambda>mp. case mp of
             Inl e \<Rightarrow>
               ignore (destroyZFSDataset l dataset) (ignore (delete_tap d tap)
                 (fail (Wrap ''failed to get clone mountpoint'' e)))
           | Inr p \<Rightarrow> ok (path_join [p, ''rootfs.ext4''], dataset)))))"

definition copy_rootfs ::
    "'o launch_ops \<Rightarrow> 'o delete_ops \<Rightarrow> string \<Rightarrow> vm_config \<Rightarrow> ('o env, string \<times> string) op" where
  "copy_rootfs l d vmDir cfg =
     (let vmRootfs = path_join [vmDir, ''rootfs.ext4''] in
      call (stat_missing l vmRootfs) (\<lambda>missing.
        if \<not> missing then ok (vmRootfs, [])
        else attempt (copyFile l (vc_rootfs cfg) vmRootfs) (\<lambda>r. case r of
          Inl e \<Rightarrow> ignore (delete_tap d (TapNameForVM (vc_id cfg))) (fail (Wrap ''failed to copy rootfs'' e))
        | Inr _ \<Rightarrow> ok (vmRootfs, []))))"

text \<open>What every failure after the start of the process undoes.\<close>

definition abandon ::
    "'o launch_ops \<Rightarrow> 'o delete_ops \<Rightarrow> handle \<Rightarrow> string \<Rightarrow> string \<Rightarrow> ('o env, 'a) op \<Rightarrow> ('o env, 'a) op" where
  "abandon l d h dataset tap k =
     ignore (tracked_signal d h True) (ignore (destroyZFSDataset l dataset) (ignore (delete_tap d tap) k))"

definition or_abandon ::
    "'o launch_ops \<Rightarrow> 'o delete_ops \<Rightarrow> handle \<Rightarrow> string \<Rightarrow> string \<Rightarrow> string \<Rightarrow> ('o env, unit) op \<Rightarrow>
     ('o env, 'a) op \<Rightarrow> ('o env, 'a) op" where
  "or_abandon l d h dataset tap msg m k =
     attempt m (\<lambda>r. case r of Inl e \<Rightarrow> abandon l d h dataset tap (fail (Wrap msg e)) | Inr _ \<Rightarrow> k)"

definition boot_args :: "vm_config \<Rightarrow> string" where
  "boot_args cfg = ''console=ttyS0 reboot=k panic=1 pci=off root=/dev/vda rw'' @
     (if vc_static_ip_args cfg = [] then [] else CHR '' '' # vc_static_ip_args cfg)"

definition mmds_of :: "vm_config \<Rightarrow> json" where
  "mmds_of cfg = BuildMMDSData
     \<lparr>mm_instance = ''i-'' @ vc_id cfg, mm_hostname = ''stockyard-'' @ vc_id cfg,
      mm_tailscale_key = vc_tailscale_key cfg, mm_ssh_keys = vc_ssh_keys cfg,
      mm_user_data = vc_cloud_init cfg, mm_network = vc_network cfg, mm_dotenv = vc_dotenv cfg\<rparr>"

text \<open>Waiting for the socket; the log is read when the process died.\<close>

definition await_socket ::
    "'o launch_ops \<Rightarrow> 'o delete_ops \<Rightarrow> string \<Rightarrow> string \<Rightarrow> handle \<Rightarrow> string \<Rightarrow> string \<Rightarrow> ('o env, unit) op" where
  "await_socket l d vmDir sock h dataset tap =
     attempt (WaitForSocketOrDeath l 1000 sock h) (\<lambda>r. case r of
       Inr _ \<Rightarrow> ok ()
     | Inl e \<Rightarrow> abandon l d h dataset tap
         (if e = errProcessDied then
            attempt (read_file l (path_join [vmDir, ''stderr.log''])) (\<lambda>t.
              fail (Msg (''firecracker exited immediately: '' @ (case t of Inl _ \<Rightarrow> [] | Inr s \<Rightarrow> s))))
          else fail (Wrap ''wait for API socket'' e)))"

text \<open>The configuration of the VM before its context id is allocated, and after.\<close>

definition configure_machine ::
    "'o launch_ops \<Rightarrow> 'o delete_ops \<Rightarrow> vm_config \<Rightarrow> string \<Rightarrow> handle \<Rightarrow> string \<Rightarrow> string \<Rightarrow> string \<Rightarrow> string \<Rightarrow> ('o env, unit) op" where
  "configure_machine l d cfg sock h dataset tap mac rootfs =
     or_abandon l d h dataset tap ''set boot source'' (api_send l sock (BootSource (vc_kernel cfg) (boot_args cfg)))
    (or_abandon l d h dataset tap ''set drive'' (api_send l sock (Drive ''rootfs'' rootfs True False))
    (or_abandon l d h dataset tap ''set network interface'' (api_send l sock (NetworkInterface ''eth0'' mac tap))
    (or_abandon l d h dataset tap ''set machine config'' (api_send l sock (MachineConfig (vc_vcpu cfg) (vc_memory cfg)))
    (ok ()))))"

definition configure_guest ::
    "'o launch_ops \<Rightarrow> 'o delete_ops \<Rightarrow> vm_config \<Rightarrow> string \<Rightarrow> string \<Rightarrow> handle \<Rightarrow> string \<Rightarrow> string \<Rightarrow> 32 word \<Rightarrow> ('o env, unit) op" where
  "configure_guest l d cfg vmDir sock h dataset tap cid =
     or_abandon l d h dataset tap ''set vsock'' (api_send l sock (Vsock cid (path_join [vmDir, ''vsock.sock''])))
    (or_abandon l d h dataset tap ''set MMDS config'' (api_send l sock (MMDSConfig [''eth0'']))
    (or_abandon l d h dataset tap ''set MMDS data'' (api_send l sock (MMDSData (mmds_of cfg)))
    (or_abandon l d h dataset tap ''create metrics fifo'' (make_fifo l (path_join [vmDir, ''metrics.fifo'']))
    (or_abandon l d h dataset tap ''open metrics fifo'' (open_fifo l (path_join [vmDir, ''metrics.fifo'']))
    (ignore (api_send l sock (Metrics (path_join [vmDir, ''metrics.fifo''])))
    (or_abandon l d h dataset tap ''start instance'' (api_send l sock InstanceStart)
    (ok ())))))))"

text \<open>The process becomes tracked; its reaper removes the entry when the process is gone.\<close>

definition track :: "string \<Rightarrow> handle \<Rightarrow> 'o fc_world env \<Rightarrow> 'o fc_world env" where
  "track vmID h w = w\<lparr>outside := (outside w)\<lparr>fc_procs := (vmID, h) # AList.delete vmID (fc_procs (outside w))\<rparr>\<rparr>"

definition reaped :: "string \<Rightarrow> handle \<Rightarrow> 'o fc_world env \<Rightarrow> 'o fc_world env" where
  "reaped vmID h w =
     (if map_of (fc_procs (outside w)) vmID = Some h
      then w\<lparr>outside := (outside w)\<lparr>fc_procs := AList.delete vmID (fc_procs (outside w))\<rparr>\<rparr> else w)"

definition boot ::
    "'o launch_ops \<Rightarrow> 'o delete_ops \<Rightarrow> vm_config \<Rightarrow> string \<Rightarrow> string \<Rightarrow> string \<Rightarrow> handle \<Rightarrow> string \<Rightarrow> string \<Rightarrow> string \<Rightarrow> string \<Rightarrow>
     ('o fc_world env, fc_vm_info) op" where
  "boot l d cfg namespace vmDir sock h dataset tap mac rootfs =
     pure_step (track (vc_id cfg) h)
       (call (on_os (await_socket l d vmDir sock h dataset tap)) (\<lambda>_.
        call (on_os (configure_machine l d cfg sock h dataset tap mac rootfs)) (\<lambda>_.
        call allocateCID (\<lambda>cid.
        call (on_os (configure_guest l d cfg vmDir sock h dataset tap cid)) (\<lambda>_.
        ok \<lparr>fv_id = vc_id cfg, fv_namespace = namespace, fv_pid = fst h, fv_sock = sock, fv_rootfs = rootfs,
            fv_metrics = path_join [vmDir, ''metrics.fifo''], fv_cid = cid,
            fv_vsock = path_join [vmDir, ''vsock.sock''], fv_state = ''running''\<rparr>)))))"

section \<open>Creating\<close>

definition default_namespace :: "string \<Rightarrow> string" where
  "default_namespace n = (if n = [] then ''default'' else n)"

definition fill_defaults :: "client_config \<Rightarrow> vm_config \<Rightarrow> vm_config" where
  "fill_defaults c cfg = cfg\<lparr>
     vc_kernel := if vc_kernel cfg = [] then KernelPath c else vc_kernel cfg,
     vc_rootfs := if vc_rootfs cfg = [] then RootfsPath c else vc_rootfs cfg\<rparr>"

definition rootfs_for ::
    "client_config \<Rightarrow> 'o launch_ops \<Rightarrow> 'o delete_ops \<Rightarrow> string \<Rightarrow> vm_config \<Rightarrow> ('o env, string \<times> string) op" where
  "rootfs_for c l d vmDir cfg =
     (case fc_zfs c of Some m \<Rightarrow> clone_rootfs c l d m cfg | None \<Rightarrow> copy_rootfs l d vmDir cfg)"

definition CreateVM ::
    "client_config \<Rightarrow> 'o process_ops \<Rightarrow> 'o delete_ops \<Rightarrow> 'o launch_ops \<Rightarrow> vm_config \<Rightarrow> ('o fc_world env, fc_vm_info) op" where
  "CreateVM c p d l config =
     (let cfg = fill_defaults c config; namespace = default_namespace (vc_namespace cfg);
          vmDir = vm_dir c namespace (vc_id cfg); tap = TapNameForVM (vc_id cfg);
          sock = path_join [vmDir, ''api.sock'']
      in
      case Validate cfg of Some e \<Rightarrow> fail (Wrap ''invalid VM config'' e) | None \<Rightarrow>
      call_wrap ''failed to create VM directory'' (on_os (mkdir_all l vmDir)) (\<lambda>_.
      ignore (on_os (delete_tap d tap))
      (call_wrap ''failed to create tap device'' (on_os (create_tap l tap)) (\<lambda>_.
       call (on_os (random_bytes l)) (\<lambda>buf.
       let mac = GenerateMAC buf in
       call (on_os (rootfs_for c l d vmDir cfg)) (\<lambda>(rootfs, dataset).
       ignore (on_os (write_file l (path_join [vmDir, ''tap_name'']) tap))
       (ignore (on_os (write_file l (path_join [vmDir, ''mac_addr'']) mac))
       (ignore (on_os (create_file l (path_join [vmDir, ''stdout.log''])))
       (ignore (on_os (create_file l (path_join [vmDir, ''stderr.log''])))
       (attempt (on_os (spawn l (FirecrackerBin c) sock)) (\<lambda>s. case s of
          Inl e \<Rightarrow>
            ignore (on_os (destroyZFSDataset l dataset)) (ignore (on_os (delete_tap d tap))
              (fail (Wrap ''failed to start firecracker'' e)))
        | Inr h \<Rightarrow>
            attempt (on_os (writeProcessMetadata l vmDir (fst h) sock)) (\<lambda>wm. case wm of
              Inl e \<Rightarrow>
                ignore (on_os (tracked_signal d h True)) (ignore (on_os (tracked_reap d h))
                  (attempt (DeleteVM c p d namespace (vc_id cfg)) (\<lambda>dr.
                     fail (Join (e # (case dr of Inl e' \<Rightarrow> [e'] | Inr _ \<Rightarrow> []))))))
            | Inr _ \<Rightarrow> boot l d cfg namespace vmDir sock h dataset tap mac rootfs))))))))))))"

section \<open>Starting again\<close>

text \<open>The existing rootfs, and the MAC address of the first start.\<close>

definition existing_rootfs :: "client_config \<Rightarrow> 'o launch_ops \<Rightarrow> string \<Rightarrow> string \<Rightarrow> ('o env, string) op" where
  "existing_rootfs c l vmDir vmID =
     call (case fc_zfs c of
         Some m \<Rightarrow> call_wrap ''failed to get VM rootfs mountpoint'' (zfs_mountpoint l (vm_dataset c m vmID)) (\<lambda>mp.
           ok (path_join [mp, ''rootfs.ext4'']))
       | None \<Rightarrow> ok (path_join [vmDir, ''rootfs.ext4''])) (\<lambda>vmRootfs.
     call_wrap (''VM rootfs not found at '' @ vmRootfs) (stat_path l vmRootfs) (\<lambda>_. ok vmRootfs))"

definition existing_mac :: "'o launch_ops \<Rightarrow> string \<Rightarrow> ('o env, string) op" where
  "existing_mac l vmDir =
     attempt (read_file l (path_join [vmDir, ''mac_addr''])) (\<lambda>r.
       let mac = (case r of Inl _ \<Rightarrow> [] | Inr s \<Rightarrow> trim_space s) in
       if mac \<noteq> [] then ok mac
       else call (random_bytes l) (\<lambda>buf.
         ignore (write_file l (path_join [vmDir, ''mac_addr'']) (GenerateMAC buf)) (ok (GenerateMAC buf))))"

definition StartVM ::
    "client_config \<Rightarrow> 'o delete_ops \<Rightarrow> 'o launch_ops \<Rightarrow> vm_config \<Rightarrow> ('o fc_world env, fc_vm_info) op" where
  "StartVM c d l config =
     (let namespace = default_namespace (vc_namespace config); vmDir = vm_dir c namespace (vc_id config);
          tap = TapNameForVM (vc_id config); sock = path_join [vmDir, ''api.sock'']
      in
      call (on_os (existing_rootfs c l vmDir (vc_id config))) (\<lambda>rootfs.
      let cfg = config\<lparr>vc_kernel := if vc_kernel config = [] then KernelPath c else vc_kernel config,
                       vc_rootfs := rootfs\<rparr> in
      case Validate cfg of Some e \<Rightarrow> fail (Wrap ''invalid VM config'' e) | None \<Rightarrow>
      ignore (on_os (delete_tap d tap))
      (call_wrap ''failed to create tap device'' (on_os (create_tap l tap)) (\<lambda>_.
       call (on_os (existing_mac l vmDir)) (\<lambda>mac.
       ignore (on_os (write_file l (path_join [vmDir, ''tap_name'']) tap))
       (ignore (on_os (remove_file l sock))
       (ignore (on_os (create_file l (path_join [vmDir, ''stdout.log''])))
       (ignore (on_os (create_file l (path_join [vmDir, ''stderr.log''])))
       (attempt (on_os (spawn l (FirecrackerBin c) sock)) (\<lambda>s. case s of
          Inl e \<Rightarrow> ignore (on_os (delete_tap d tap)) (fail (Wrap ''failed to start firecracker'' e))
        | Inr h \<Rightarrow>
            attempt (on_os (writeProcessMetadata l vmDir (fst h) sock)) (\<lambda>wm. case wm of
              Inl e \<Rightarrow>
                ignore (on_os (tracked_signal d h True)) (ignore (on_os (tracked_reap d h))
                  (ignore (on_os (delete_tap d tap)) (fail e)))
            | Inr _ \<Rightarrow> boot l d cfg namespace vmDir sock h [] tap mac rootfs)))))))))))"

section \<open>Reading and stopping\<close>

text \<open>Files that cannot be read leave their field empty; so does a PID that is no number.\<close>

definition read_or_empty :: "'o launch_ops \<Rightarrow> string \<Rightarrow> ('o env, string) op" where
  "read_or_empty l path = attempt (read_file l path) (\<lambda>r. ok (case r of Inl _ \<Rightarrow> [] | Inr s \<Rightarrow> s))"

definition GetVM :: "client_config \<Rightarrow> 'o launch_ops \<Rightarrow> string \<Rightarrow> string \<Rightarrow> ('o env, fc_vm) op" where
  "GetVM c l ns vmID =
     (let namespace = default_namespace ns; vmDir = vm_dir c namespace vmID in
      call (stat_missing l vmDir) (\<lambda>missing.
      if missing then fail (Msg (''VM not found: '' @ namespace @ ''/'' @ vmID))
      else
        call (read_or_empty l (path_join [vmDir, ''tap_name''])) (\<lambda>tap.
        call (read_or_empty l (path_join [vmDir, ''mac_addr''])) (\<lambda>mac.
        call (read_or_empty l (path_join [vmDir, ''firecracker.pid''])) (\<lambda>pidText.
        let vm = \<lparr>fm_id = vmID, fm_namespace = namespace, fm_dir = vmDir, fm_status = VMStatusStopped,
                  fm_tap = tap, fm_mac = mac, fm_pid = 0\<rparr> in
        case parse_int 64 pidText of
          None \<Rightarrow> ok vm
        | Some pid \<Rightarrow> call (process_running l pid) (\<lambda>running.
            ok (vm\<lparr>fm_pid := pid, fm_status := if running then VMStatusRunning else VMStatusStopped\<rparr>)))))))"

fun list_each :: "client_config \<Rightarrow> 'o launch_ops \<Rightarrow> string \<Rightarrow> (string \<times> bool) list \<Rightarrow> ('o env, fc_vm list) op" where
  "list_each c l ns [] = ok []"
| "list_each c l ns ((name, isDir) # es) =
     (if \<not> isDir then list_each c l ns es
      else attempt (GetVM c l ns name) (\<lambda>r.
        call (list_each c l ns es) (\<lambda>vms. ok (case r of Inl _ \<Rightarrow> vms | Inr vm \<Rightarrow> vm # vms))))"

text \<open>\<open>read_dir\<close> gives \<open>None\<close> for a directory that does not exist.\<close>

definition ListVMs :: "client_config \<Rightarrow> 'o launch_ops \<Rightarrow> string \<Rightarrow> ('o env, fc_vm list) op" where
  "ListVMs c l ns =
     (let namespace = default_namespace ns in
      call_wrap ''failed to list VMs'' (read_dir l (path_join [StateDir c, namespace])) (\<lambda>es. case es of
        None \<Rightarrow> ok []
      | Some entries \<Rightarrow> list_each c l namespace entries))"

text \<open>The shutdown request, when there is a socket; its outcome only decides the pause.\<close>

definition ask_shutdown :: "'o launch_ops \<Rightarrow> string \<Rightarrow> ('o env, unit) op" where
  "ask_shutdown l sock =
     attempt (stat_path l sock) (\<lambda>r. case r of
       Inl _ \<Rightarrow> ok ()
     | Inr _ \<Rightarrow> ignore (api_send l sock CtrlAltDel) (ok ()))"

definition stop_process ::
    "'o launch_ops \<Rightarrow> 'o delete_ops \<Rightarrow> string \<Rightarrow> int \<Rightarrow> ('o fc_world env, unit) op" where
  "stop_process l d vmID pid = (\<lambda>w.
     case map_of (fc_procs (outside w)) vmID of
       Some h \<Rightarrow>
         ignore (on_os (tracked_signal d h False))
         (call (on_os (tracked_done d h)) (\<lambda>gone.
          ignore (if gone then ok () else on_os (ignore (tracked_signal d h True) (tracked_reap d h)))
          (pure_step (\<lambda>w. w\<lparr>outside := (outside w)\<lparr>fc_procs := AList.delete vmID (fc_procs (outside w))\<rparr>\<rparr>) (ok ())))) w
     | None \<Rightarrow>
         call (on_os (process_running l pid)) (\<lambda>running.
         if \<not> running then ok ()
         else
           ignore (on_os (kill_pid l pid False))
           (call (on_os (process_running l pid)) (\<lambda>still.
            if still then ignore (on_os (kill_pid l pid True)) (ok ()) else ok ()))) w)"

definition StopVM ::
    "client_config \<Rightarrow> 'o delete_ops \<Rightarrow> 'o launch_ops \<Rightarrow> string \<Rightarrow> string \<Rightarrow> ('o fc_world env, unit) op" where
  "StopVM c d l ns vmID =
     call (on_os (GetVM c l ns vmID)) (\<lambda>vm.
     if fm_status vm \<noteq> VMStatusRunning then ok ()
     else
       let vmDir = path_join [StateDir c, ns, vmID] in
       call (on_os (ask_shutdown l (path_join [vmDir, ''api.sock'']))) (\<lambda>_.
       call (stop_process l d vmID (fm_pid vm)) (\<lambda>_.
       ignore (if fm_tap vm \<noteq> [] then on_os (delete_tap d (fm_tap vm)) else ok ())
         (ignore (on_os (remove_file l (path_join [vmDir, ''firecracker.pid'']))) (ok ())))))"

text \<open>\<open>Close\<close> kills and reaps every tracked process.\<close>

fun close_each :: "'o delete_ops \<Rightarrow> (string \<times> handle) list \<Rightarrow> ('o fc_world env, unit) op" where
  "close_each d [] = ok ()"
| "close_each d ((vmID, h) # ps) =
     ignore (on_os (ignore (tracked_signal d h True) (tracked_reap d h)))
       (pure_step (\<lambda>w. w\<lparr>outside := (outside w)\<lparr>fc_procs := AList.delete vmID (fc_procs (outside w))\<rparr>\<rparr>)
         (close_each d ps))"

definition client_Close :: "'o delete_ops \<Rightarrow> ('o fc_world env, unit) op" where
  "client_Close d = (\<lambda>w. close_each d (fc_procs (outside w)) w)"

section \<open>The requests of a boot\<close>

text \<open>The requests a VM is configured and started with, in order.\<close>

definition machine_requests :: "vm_config \<Rightarrow> string \<Rightarrow> string \<Rightarrow> string \<Rightarrow> api_request list" where
  "machine_requests cfg mac t root =
     [BootSource (vc_kernel cfg) (boot_args cfg), Drive ''rootfs'' root True False,
      NetworkInterface ''eth0'' mac t, MachineConfig (vc_vcpu cfg) (vc_memory cfg)]"

definition guest_requests :: "vm_config \<Rightarrow> string \<Rightarrow> 32 word \<Rightarrow> bool \<Rightarrow> api_request list" where
  "guest_requests cfg x cid metrics =
     [Vsock cid (path_join [x, ''vsock.sock'']), MMDSConfig [''eth0''], MMDSData (mmds_of cfg)] @
     (if metrics then [Metrics (path_join [x, ''metrics.fifo''])] else []) @ [InstanceStart]"

definition entry :: "string \<Rightarrow> api_request \<Rightarrow> string \<times> string \<times> json" where
  "entry s q = (s, api_path q, api_body q)"

text \<open>The log of a VM that was started on the socket \<open>s\<close>.\<close>

definition boot_log :: "vm_config \<Rightarrow> string \<Rightarrow> string \<Rightarrow> string \<Rightarrow> fc_vm_info \<Rightarrow> (string \<times> string \<times> json) list \<Rightarrow> bool" where
  "boot_log cfg s x t v xs \<longleftrightarrow> (\<exists>mac root b.
     xs = map (entry s) (machine_requests cfg mac t root @ guest_requests cfg x (fv_cid v) b))"

lemma boot_log_some: "\<exists>v xs. boot_log cfg s x t v xs"
  unfolding boot_log_def by blast

lemma boot_log_rootfs: "boot_log (cfg\<lparr>vc_rootfs := root\<rparr>) = boot_log cfg"
  by (intro ext) (simp add: boot_log_def machine_requests_def guest_requests_def boot_args_def mmds_of_def)

section \<open>The contract of the host, for starting\<close>

text \<open>
  \<open>owned o (n, s)\<close>: process \<open>n\<close> owns the socket \<open>s\<close>. Only \<open>spawn\<close>
  makes an owner appear, of the socket it is given. \<open>acked o\<close> is the log of the API
  requests that were accepted: a PUT answered below 400 is in it, and nothing else appends
  to it.
\<close>

locale vm_launcher = vm_host p alive owner d tap dataset path
  for p :: "'o process_ops" and alive :: "'o \<Rightarrow> nat \<Rightarrow> bool" and owner :: "'o \<Rightarrow> nat \<Rightarrow> string \<Rightarrow> bool"
    and d :: "'o delete_ops" and tap :: "'o \<Rightarrow> string \<Rightarrow> bool" and dataset :: "'o \<Rightarrow> string \<Rightarrow> bool"
    and path :: "'o \<Rightarrow> string \<Rightarrow> bool" +
  fixes l :: "'o launch_ops" and owned :: "'o \<Rightarrow> nat \<times> string \<Rightarrow> bool"
    and acked :: "'o \<Rightarrow> (string \<times> string \<times> json) list"
  assumes owned_owner: "owned o' (n, s) = owner o' n s"
    and no_birth:
      "shrinks (\<lambda>w. owned (outside w)) (mkdir_all l x)"
      "shrinks (\<lambda>w. owned (outside w)) (create_tap l x)"
      "shrinks (\<lambda>w. owned (outside w)) (random_bytes l)"
      "shrinks (\<lambda>w. owned (outside w)) (zfs_command l args)"
      "shrinks (\<lambda>w. owned (outside w)) (stat_missing l x)"
      "shrinks (\<lambda>w. owned (outside w)) (stat_path l x)"
      "shrinks (\<lambda>w. owned (outside w)) (read_file l x)"
      "shrinks (\<lambda>w. owned (outside w)) (write_file l x y)"
      "shrinks (\<lambda>w. owned (outside w)) (create_file l x)"
      "shrinks (\<lambda>w. owned (outside w)) (remove_file l x)"
      "shrinks (\<lambda>w. owned (outside w)) (next_event l x h)"
      "shrinks (\<lambda>w. owned (outside w)) (api_do l x y b)"
      "shrinks (\<lambda>w. owned (outside w)) (make_fifo l x)"
      "shrinks (\<lambda>w. owned (outside w)) (open_fifo l x)"
      "shrinks (\<lambda>w. owned (outside w)) (process_running l i)"
      "shrinks (\<lambda>w. owned (outside w)) (kill_pid l i k)"
      "shrinks (\<lambda>w. owned (outside w)) (read_dir l x)"
      "shrinks (\<lambda>w. owned (outside w)) (tracked_signal d h k)"
      "shrinks (\<lambda>w. owned (outside w)) (tracked_done d h)"
      "shrinks (\<lambda>w. owned (outside w)) (tracked_reap d h)"
    and spawn_birth: "spawn l bin s w = (r, w') \<Longrightarrow> owned (outside w') (n, s') \<Longrightarrow> owned (outside w) (n, s') \<or> s' = s"
    and quiet_log [frame_intros]:
      "keeps (\<lambda>w. acked (outside w)) (mkdir_all l x)"
      "keeps (\<lambda>w. acked (outside w)) (create_tap l x)"
      "keeps (\<lambda>w. acked (outside w)) (random_bytes l)"
      "keeps (\<lambda>w. acked (outside w)) (zfs_command l args)"
      "keeps (\<lambda>w. acked (outside w)) (stat_missing l x)"
      "keeps (\<lambda>w. acked (outside w)) (stat_path l x)"
      "keeps (\<lambda>w. acked (outside w)) (read_file l x)"
      "keeps (\<lambda>w. acked (outside w)) (write_file l x y)"
      "keeps (\<lambda>w. acked (outside w)) (create_file l x)"
      "keeps (\<lambda>w. acked (outside w)) (remove_file l x)"
      "keeps (\<lambda>w. acked (outside w)) (next_event l x h)"
      "keeps (\<lambda>w. acked (outside w)) (make_fifo l x)"
      "keeps (\<lambda>w. acked (outside w)) (open_fifo l x)"
      "keeps (\<lambda>w. acked (outside w)) (process_running l i)"
      "keeps (\<lambda>w. acked (outside w)) (kill_pid l i k)"
      "keeps (\<lambda>w. acked (outside w)) (read_dir l x)"
      "keeps (\<lambda>w. acked (outside w)) (spawn l x y)"
      "keeps (\<lambda>w. acked (outside w)) (candidatePIDs p x y)"
      "keeps (\<lambda>w. acked (outside w)) (open_process p n)"
      "keeps (\<lambda>w. acked (outside w)) (identity_of p h)"
      "keeps (\<lambda>w. acked (outside w)) (signal_process p h k)"
      "keeps (\<lambda>w. acked (outside w)) (wait_process p h)"
      "keeps (\<lambda>w. acked (outside w)) (close_process p h)"
      "keeps (\<lambda>w. acked (outside w)) (resolveExecutable p x)"
      "keeps (\<lambda>w. acked (outside w)) (path_exists d x)"
      "keeps (\<lambda>w. acked (outside w)) (delete_tap d x)"
      "keeps (\<lambda>w. acked (outside w)) (tap_exists d x)"
      "keeps (\<lambda>w. acked (outside w)) (destroy_rootfs d x)"
      "keeps (\<lambda>w. acked (outside w)) (rootfs_exists d x)"
      "keeps (\<lambda>w. acked (outside w)) (remove_all d x)"
      "keeps (\<lambda>w. acked (outside w)) (archive_console d x y)"
      "keeps (\<lambda>w. acked (outside w)) (tracked_signal d h k)"
      "keeps (\<lambda>w. acked (outside w)) (tracked_done d h)"
      "keeps (\<lambda>w. acked (outside w)) (tracked_reap d h)"
    and api_do_log: "appends (\<lambda>w. acked (outside w))
      (\<lambda>(status, answer) xs. if status < 400 then xs = [(x, y, b)] else xs = [] \<or> xs = [(x, y, b)]) (api_do l x y b)"
begin

text \<open>Owners of other sockets than \<open>s\<close>.\<close>

definition others :: "string \<Rightarrow> 'o \<Rightarrow> nat \<times> string \<Rightarrow> bool" where
  "others s o' x \<longleftrightarrow> owned o' x \<and> snd x \<noteq> s"

lemma others_shrink:
  "shrinks (\<lambda>w. owned (outside w)) m \<Longrightarrow> shrinks (\<lambda>w. others s (outside w)) m"
  by (auto simp: shrinks_def others_def)

lemma spawn_others [frame_intros]: "shrinks (\<lambda>w. others s (outside w)) (spawn l b s)"
  unfolding shrinks_outcome others_def using spawn_birth by (metis prod.collapse)

lemma owner_shrinks:
  assumes "\<And>w r w'. m w = (r, w') \<Longrightarrow> \<forall>n s. owner (outside w') n s \<longrightarrow> owner (outside w) n s"
  shows "shrinks (\<lambda>w. owned (outside w)) m"
  unfolding shrinks_outcome
proof (intro allI impI)
  fix w r w' x assume "m w = (r, w')" "owned (outside w') x"
  then show "owned (outside w) x" using assms by (cases x) (auto simp: owned_owner)
qed

lemma process_births:
  "shrinks (\<lambda>w. owned (outside w)) (candidatePIDs p b s)"
  "shrinks (\<lambda>w. owned (outside w)) (open_process p n)"
  "shrinks (\<lambda>w. owned (outside w)) (identity_of p h)"
  "shrinks (\<lambda>w. owned (outside w)) (wait_process p h)"
  "shrinks (\<lambda>w. owned (outside w)) (close_process p h)"
  "shrinks (\<lambda>w. owned (outside w)) (resolveExecutable p b)"
  "shrinks (\<lambda>w. owned (outside w)) (signal_process p h k)"
  by (rule owner_shrinks; auto dest: cand_frame open_frame identity_frame wait_frame close_frame
      resolve_frame signal_shrinks)+

lemma removal_births:
  "keeps (\<lambda>w. (alive (outside w), owner (outside w))) m \<Longrightarrow> shrinks (\<lambda>w. owned (outside w)) m"
  by (rule owner_shrinks) (auto simp: keeps_outcome)

lemmas others_frames [frame_intros] =
  no_birth [THEN others_shrink] process_births [THEN others_shrink] quiet_removal [THEN removal_births, THEN others_shrink]

text \<open>The API requests and the pieces of the pipelines make no owner appear.\<close>

abbreviation births :: "string \<Rightarrow> 'o env \<Rightarrow> nat \<times> string \<Rightarrow> bool" where
  "births s \<equiv> \<lambda>w. others s (outside w)"

lemma api_send_births [frame_intros]: "shrinks (births s) (api_send l x q)"
  unfolding api_send_def api_put_def by (intro frame_intros)

lemma wait_births [frame_intros]: "shrinks (births s) (WaitForSocketOrDeath l n x h)"
proof (induction n)
  case (Suc n)
  have "shrinks (births s) (case e of ContextDone err \<Rightarrow> fail (Wrap m err)
      | ProcessDone \<Rightarrow> fail errProcessDied
      | Tick up \<Rightarrow> if up then ok () else WaitForSocketOrDeath l n x h)" for e m
    using Suc by (cases e) (auto intro!: frame_intros)
  then show ?case unfolding WaitForSocketOrDeath.simps by (intro frame_intros)
qed (auto intro: frame_intros)

lemma abandon_births [frame_intros]: "shrinks (births s) k \<Longrightarrow> shrinks (births s) (abandon l d h x y k)"
  unfolding abandon_def destroyZFSDataset_def by (intro frame_intros)

lemma or_abandon_births [frame_intros]:
  "shrinks (births s) m \<Longrightarrow> shrinks (births s) k \<Longrightarrow> shrinks (births s) (or_abandon l d h x y msg m k)"
  unfolding or_abandon_def by (intro frame_intros)

lemma piece_births [frame_intros]:
  "shrinks (births s) (await_socket l d x y h dset t)"
  "shrinks (births s) (configure_machine l d cfg y h dset t mac root)"
  "shrinks (births s) (configure_guest l d cfg x y h dset t cid)"
  "shrinks (births s) (rootfs_for c l d x cfg)"
  "shrinks (births s) (existing_rootfs c l x i)"
  "shrinks (births s) (existing_mac l x)"
  "shrinks (births s) (writeProcessMetadata l x pid y)"
  "shrinks (births s) (destroyZFSDataset l x)"
  "shrinks (births s) (GetVM c l ns i)"
  "shrinks (births s) (ask_shutdown l x)"
  unfolding await_socket_def configure_machine_def configure_guest_def rootfs_for_def clone_rootfs_def
    copy_rootfs_def copyFile_def zfs_mountpoint_def existing_rootfs_def existing_mac_def writeProcessMetadata_def
    destroyZFSDataset_def GetVM_def ask_shutdown_def read_or_empty_def Let_def
  by (intro frame_intros)+

abbreviation fc_births :: "string \<Rightarrow> 'o fc_world env \<Rightarrow> nat \<times> string \<Rightarrow> bool" where
  "fc_births s \<equiv> \<lambda>w. others s (fc_os (outside w))"

lemma search_births [frame_intros]:
  "shrinks (births s) (closeStableProcessHandle p h a)"
  "shrinks (births s) k \<Longrightarrow> shrinks (births s) (return_joined es k)"
  unfolding closeStableProcessHandle_def return_joined_def by (intro frame_intros; assumption?)+

lemma fail_births [frame_intros]:
  "shrinks (births s) (fail_retained p m e)"
  "shrinks (births s) (fail_closing p m h a e)"
  unfolding fail_closing_def fail_retained_def by (intro frame_intros)+

lemma find_births [frame_intros]:
  "shrinks (births s) (find_match p x y pids m)"
  "shrinks (births s) (findProcessBySocket p b x)"
  "shrinks (births s) (requireProcessAbsent p b x)"
  "shrinks (births s) (stopDetachedProcess p h)"
proof -
  show match: "shrinks (births s) (find_match p x y pids m)" for x y pids m
    by (induction pids arbitrary: m) (simp only: find_match.simps, intro frame_intros, assumption?)+
  show find: "shrinks (births s) (findProcessBySocket p b x)" for b x
    unfolding findProcessBySocket_def by (intro frame_intros match)
  show "shrinks (births s) (requireProcessAbsent p b x)" for b x
    unfolding requireProcessAbsent_def by (intro frame_intros find)
  show "shrinks (births s) (stopDetachedProcess p h)"
    unfolding stopDetachedProcess_def stop_signals_def by (intro frame_intros)
qed

lemma ctx_err_births [frame_intros]: "shrinks (fc_births s) ctx_err"
  by (rule shrinks_ctx_err)

lemma untrack_births [frame_intros]:
  "shrinks (fc_births s) k \<Longrightarrow>
     shrinks (fc_births s) (pure_step (\<lambda>w. w\<lparr>outside := (outside w)\<lparr>fc_procs := f (outside w)\<rparr>\<rparr>) k)"
  "shrinks (fc_births s) k \<Longrightarrow> shrinks (fc_births s) (pure_step (track i h) k)"
  by (rule shrinks_pure_step; simp add: track_def)+

lemma stop_births [frame_intros]: "shrinks (fc_births s) (stop_for_delete c p d i x)"
  unfolding stop_for_delete_def stop_tracked_def signal_tracked_def
  by (simp add: shrinks_def split: option.split) (intro allI impI conjI; erule shrinksD [OF _ prod.collapse [symmetric], rotated]; intro frame_intros)

lemma DeleteVM_births [frame_intros]: "shrinks (fc_births s) (DeleteVM c p d ns i)"
  unfolding DeleteVM_def delete_rootfs_def Let_def by (intro frame_intros)

lemma boot_births [frame_intros]: "shrinks (fc_births s) (boot l d cfg ns x y h dset t mac root)"
  unfolding boot_def by (intro frame_intros) (simp add: allocateCID_def shrinks_def)

text \<open>Creating or starting a VM makes no owner of another VM's socket appear.\<close>

lemma CreateVM_births:
  "shrinks (fc_births (path_join [vm_dir c (default_namespace (vc_namespace cfg)) (vc_id cfg), ''api.sock'']))
     (CreateVM c p d l cfg)"
  unfolding CreateVM_def Let_def by (intro frame_intros) (simp_all add: fill_defaults_def spawn_others)

lemma StartVM_births:
  "shrinks (fc_births (path_join [vm_dir c (default_namespace (vc_namespace cfg)) (vc_id cfg), ''api.sock'']))
     (StartVM c d l cfg)"
  unfolding StartVM_def Let_def by (intro frame_intros)

lemma stop_process_births [frame_intros]: "shrinks (fc_births s) (stop_process l d i n)"
  unfolding stop_process_def
  by (simp add: shrinks_def split: option.split) (intro allI impI conjI; erule shrinksD [OF _ prod.collapse [symmetric], rotated]; intro frame_intros)

lemma StopVM_births: "shrinks (fc_births s) (StopVM c d l ns i)"
  unfolding StopVM_def Let_def by (intro frame_intros)

abbreviation os_log :: "'o env \<Rightarrow> (string \<times> string \<times> json) list" where
  "os_log \<equiv> \<lambda>w. acked (outside w)"

lemma api_send_log: "appends os_log (\<lambda>_ xs. xs = [entry s q]) (api_send l s q)"
proof (rule appendsI)
  fix w r w' assume run: "api_send l s q w = (r, w')"
  obtain a w1 where a: "api_do l s (api_path q) (api_body q) w = (a, w1)" by fastforce
  from appendsE [OF api_do_log a] obtain xs where xs: "os_log w1 = os_log w @ xs"
    "completes (\<lambda>(status, answer) xs. if status < 400 then xs = [entry s q] else xs = [] \<or> xs = [entry s q]) a xs"
    unfolding entry_def by blast
  have w': "w' = w1"
    using run a by (cases a) (auto simp: api_send_def api_put_def call_wrap_Inl call_wrap_Inr split: prod.splits if_splits)
  have "xs = [] \<or> xs = [entry s q]"
    using xs(2) by (cases a) (auto split: if_splits simp: append_eq_Cons_conv)
  moreover have "xs = [entry s q]" if "r = Inr u" for u
    using that run a xs(2) by (cases a) (auto simp: api_send_def api_put_def call_wrap_Inl call_wrap_Inr split: prod.splits if_splits)
  ultimately have "completes (\<lambda>_ xs. xs = [entry s q]) r xs" by (cases r) auto
  then show "\<exists>xs. os_log w' = os_log w @ xs \<and> completes (\<lambda>_ xs. xs = [entry s q]) r xs"
    using xs(1) w' by blast
qed

lemma abandon_keeps [frame_intros]: "keeps os_log k \<Longrightarrow> keeps os_log (abandon l d h x y k)"
  unfolding abandon_def destroyZFSDataset_def by (intro frame_intros)

lemma abandon_fails [intro]: "fails k \<Longrightarrow> fails (abandon l d h x y k)"
  unfolding abandon_def by (intro fails_ignore)

text \<open>A step of the configuration, and the log of the steps after it.\<close>

lemma or_abandon_log:
  assumes "appends os_log (\<lambda>_ xs. xs = A) m" "appends os_log (\<lambda>_ xs. xs \<in> B) k" "B \<noteq> {}"
  shows "appends os_log (\<lambda>_ xs. xs \<in> (\<lambda>ys. A @ ys) ` B) (or_abandon l d h x y msg m k)"
  unfolding or_abandon_def
  by (rule appends_attempt [OF assms(1), where B = "\<lambda>_ _ xs. xs \<in> B"])
     (use assms(2,3) in \<open>auto intro: frame_intros abandon_fails\<close>)

lemma quiet_log_step: "keeps os_log m \<Longrightarrow> appends os_log (\<lambda>_ xs. xs = []) m"
  by (rule appends_quiet) simp_all

lemma metrics_log:
  assumes "appends os_log (\<lambda>_ xs. xs \<in> B) k"
  shows "appends os_log (\<lambda>_ xs. xs \<in> B \<union> (\<lambda>ys. entry s q # ys) ` B) (ignore (api_send l s q) k)"
proof (rule appends_ignore [OF api_send_log assms])
  fix xs ys zs :: "(string \<times> string \<times> json) list"
  assume "xs @ zs = [entry s q]" "ys \<in> B"
  then show "xs @ ys \<in> B \<union> (\<lambda>ys. entry s q # ys) ` B" by (auto simp: append_eq_Cons_conv)
qed

lemma configure_machine_log:
  "appends os_log (\<lambda>_ xs. xs = map (entry s) (machine_requests cfg mac t root))
     (configure_machine l d cfg s h dset t mac root)"
proof (rule appends_mono)
  show "appends os_log (\<lambda>_ xs. xs \<in> (\<lambda>ys. [entry s (BootSource (vc_kernel cfg) (boot_args cfg))] @ ys) `
      (\<lambda>ys. [entry s (Drive ''rootfs'' root True False)] @ ys) ` (\<lambda>ys. [entry s (NetworkInterface ''eth0'' mac t)] @ ys) `
      (\<lambda>ys. [entry s (MachineConfig (vc_vcpu cfg) (vc_memory cfg))] @ ys) ` {[]})
      (configure_machine l d cfg s h dset t mac root)"
    unfolding configure_machine_def
    by (intro or_abandon_log api_send_log) (auto intro: appends_ok)
qed (simp add: machine_requests_def)

lemma configure_guest_log:
  "appends os_log (\<lambda>_ xs. \<exists>b. xs = map (entry s) (guest_requests cfg x cid b))
     (configure_guest l d cfg x s h dset t cid)"
proof (rule appends_mono)
  let ?start = "(\<lambda>ys. [entry s InstanceStart] @ ys) ` {[]}"
  let ?m = "entry s (Metrics (path_join [x, ''metrics.fifo'']))"
  show "appends os_log (\<lambda>_ xs. xs \<in> (\<lambda>ys. [entry s (Vsock cid (path_join [x, ''vsock.sock'']))] @ ys) `
      (\<lambda>ys. [entry s (MMDSConfig [''eth0''])] @ ys) ` (\<lambda>ys. [entry s (MMDSData (mmds_of cfg))] @ ys) `
      (\<lambda>ys. [] @ ys) ` (\<lambda>ys. [] @ ys) ` (?start \<union> (\<lambda>ys. ?m # ys) ` ?start))
      (configure_guest l d cfg x s h dset t cid)"
    unfolding configure_guest_def
    by (intro or_abandon_log api_send_log metrics_log quiet_log_step frame_intros) (auto intro: appends_ok)
next
  fix a :: unit and xs
  show "xs \<in> (\<lambda>ys. [entry s (Vsock cid (path_join [x, ''vsock.sock'']))] @ ys) `
      (\<lambda>ys. [entry s (MMDSConfig [''eth0''])] @ ys) ` (\<lambda>ys. [entry s (MMDSData (mmds_of cfg))] @ ys) `
      (\<lambda>ys. [] @ ys) ` (\<lambda>ys. [] @ ys) ` ((\<lambda>ys. [entry s InstanceStart] @ ys) ` {[]} \<union>
        (\<lambda>ys. entry s (Metrics (path_join [x, ''metrics.fifo''])) # ys) ` (\<lambda>ys. [entry s InstanceStart] @ ys) ` {[]}) \<Longrightarrow>
      \<exists>b. xs = map (entry s) (guest_requests cfg x cid b)"
    by (auto simp: guest_requests_def intro: exI [of _ True] exI [of _ False])
qed

abbreviation fc_log :: "'o fc_world env \<Rightarrow> (string \<times> string \<times> json) list" where
  "fc_log \<equiv> \<lambda>w. acked (fc_os (outside w))"

lemma on_os_log: "appends os_log S m \<Longrightarrow> appends fc_log S (on_os m)"
proof (rule appendsI)
  fix w r w' assume m: "appends os_log S m" and "on_os m w = (r, w')"
  from on_os_outcome [OF this(2)] obtain v v' where
    v: "outside v = fc_os (outside w)" "m v = (r, v')" "fc_os (outside w') = outside v'" by blast
  from appendsE [OF m v(2)] show "\<exists>xs. fc_log w' = fc_log w @ xs \<and> completes S r xs"
    using v(1,3) by metis
qed

lemma wait_quiet [frame_intros]: "keeps os_log (WaitForSocketOrDeath l n x h)"
proof (induction n)
  case (Suc n)
  have "keeps os_log (case e of ContextDone err \<Rightarrow> fail (Wrap m err)
      | ProcessDone \<Rightarrow> fail errProcessDied
      | Tick up \<Rightarrow> if up then ok () else WaitForSocketOrDeath l n x h)" for e m
    using Suc by (cases e) (auto intro!: frame_intros)
  then show ?case unfolding WaitForSocketOrDeath.simps by (intro frame_intros)
qed (auto intro: frame_intros)

lemma piece_quiet [frame_intros]:
  "keeps os_log (await_socket l d x y h dset t)"
  "keeps os_log (rootfs_for c l d x cfg)"
  "keeps os_log (existing_rootfs c l x i)"
  "keeps os_log (existing_mac l x)"
  "keeps os_log (writeProcessMetadata l x pid y)"
  "keeps os_log (destroyZFSDataset l x)"
  unfolding await_socket_def rootfs_for_def clone_rootfs_def
    copy_rootfs_def copyFile_def zfs_mountpoint_def existing_rootfs_def existing_mac_def writeProcessMetadata_def
    destroyZFSDataset_def Let_def
  by (intro frame_intros)+

lemma allocateCID_quiet [frame_intros]: "keeps fc_log allocateCID"
  by (simp add: allocateCID_def keeps_def)

lemma boot_appends:
  "appends fc_log (boot_log cfg s x t) (boot l d cfg ns x s h dset t mac root)"
proof -
  let ?guest = "\<lambda>(v :: fc_vm_info) xs. \<exists>b. xs = map (entry s) (guest_requests cfg x (fv_cid v) b)"
  have guest: "appends fc_log ?guest (call (on_os (configure_guest l d cfg x s h dset t cid)) (\<lambda>_.
      ok \<lparr>fv_id = i, fv_namespace = ns, fv_pid = pid, fv_sock = so, fv_rootfs = ro, fv_metrics = me,
          fv_cid = cid, fv_vsock = vs, fv_state = st\<rparr>))" for cid i ns pid so ro me vs st
    by (rule appends_call [OF on_os_log [OF configure_guest_log], where B = "\<lambda>_ v xs. fv_cid v = cid \<and> xs = []"])
       (auto intro!: appends_ok exI [of _ "\<lparr>fv_id = [], fv_namespace = [], fv_pid = 0, fv_sock = [],
          fv_rootfs = [], fv_metrics = [], fv_cid = cid, fv_vsock = [], fv_state = []\<rparr>"])
  have some: "\<exists>v xs. ?guest v xs" by blast
  show ?thesis
    unfolding boot_def
    by (intro appends_pure_step appends_call_quiet frame_intros boot_log_some keeps_on_os
        appends_call [OF on_os_log [OF configure_machine_log], where B = "\<lambda>_. ?guest"] guest some)
       (auto simp: track_def boot_log_def)
qed

lemma search_quiet [frame_intros]:
  "keeps os_log (closeStableProcessHandle p h a)"
  "keeps os_log (fail_retained p m e)"
  "keeps os_log (fail_closing p m h a e)"
  unfolding closeStableProcessHandle_def fail_closing_def fail_retained_def by (intro frame_intros)+

lemma find_quiet_log [frame_intros]:
  "keeps os_log (findProcessBySocket p b x)"
  "keeps os_log (requireProcessAbsent p b x)"
  "keeps os_log (stopDetachedProcess p h)"
proof -
  have match: "keeps os_log (find_match p x y pids m)" for x y pids m
    by (induction pids arbitrary: m) (simp only: find_match.simps, intro frame_intros, assumption?)+
  show find: "keeps os_log (findProcessBySocket p b x)" for b x
    unfolding findProcessBySocket_def by (intro frame_intros match)
  show "keeps os_log (requireProcessAbsent p b x)" for b x
    unfolding requireProcessAbsent_def by (intro frame_intros find)
  show "keeps os_log (stopDetachedProcess p h)"
    unfolding stopDetachedProcess_def stop_signals_def by (intro frame_intros)
qed

lemma fc_ctx_quiet [frame_intros]: "keeps fc_log ctx_err"
  by (rule keeps_ctx_err)

lemma stop_quiet [frame_intros]: "keeps fc_log (stop_for_delete c p d i x)"
proof -
  have "keeps fc_log (stop_tracked d i h)" for h
    unfolding stop_tracked_def signal_tracked_def by (intro frame_intros) simp
  moreover have "keeps fc_log (call_wrap ''read Firecracker process'' (on_os (findProcessBySocket p (FirecrackerBin c) x))
      (\<lambda>f. case f of None \<Rightarrow> ok () | Some h \<Rightarrow> on_os (stopDetachedProcess p h)))"
    by (intro frame_intros)
  ultimately show ?thesis unfolding stop_for_delete_def keeps_def by (simp split: option.split)
qed

lemma DeleteVM_quiet [frame_intros]: "keeps fc_log (DeleteVM c p d ns i)"
  unfolding DeleteVM_def delete_rootfs_def Let_def by (intro frame_intros)

lemma fc_step_log:
  "keeps fc_log m \<Longrightarrow> (\<And>a. appends fc_log (boot_log cfg s x t) (k a)) \<Longrightarrow>
     appends fc_log (boot_log cfg s x t) (call m k)"
  "keeps fc_log m \<Longrightarrow> (\<And>a. appends fc_log (boot_log cfg s x t) (k a)) \<Longrightarrow>
     appends fc_log (boot_log cfg s x t) (call_wrap msg m k)"
  "keeps fc_log m \<Longrightarrow> (\<And>a. appends fc_log (boot_log cfg s x t) (g a)) \<Longrightarrow> (\<And>e. keeps fc_log (f e)) \<Longrightarrow>
     (\<And>e. fails (f e)) \<Longrightarrow> appends fc_log (boot_log cfg s x t) (attempt m (\<lambda>r. case r of Inl e \<Rightarrow> f e | Inr a \<Rightarrow> g a))"
  by (intro appends_call_quiet appends_call_wrap_quiet appends_attempt_quiet boot_log_some;
      (assumption | simp only: sum.case))+

text \<open>
  Creating and starting a VM sends its configuration in this order and the start last;
  an error ends the sequence, so a VM boots only when all of it was accepted (the metrics
  may be missing).
\<close>

lemma CreateVM_log:
  "appends fc_log
     (boot_log (fill_defaults c cfg)
        (path_join [vm_dir c (default_namespace (vc_namespace cfg)) (vc_id cfg), ''api.sock''])
        (vm_dir c (default_namespace (vc_namespace cfg)) (vc_id cfg)) (TapNameForVM (vc_id cfg)))
     (CreateVM c p d l cfg)"
proof -
  have [simp]: "vc_id (fill_defaults c cfg) = vc_id cfg" "vc_namespace (fill_defaults c cfg) = vc_namespace cfg"
    by (simp_all add: fill_defaults_def)
  show ?thesis
  proof (cases "Validate (fill_defaults c cfg)")
    case (Some e)
    then show ?thesis
      by (simp add: CreateVM_def Let_def appends_fails boot_log_some keeps_fail)
  next
    case None
    show ?thesis
      unfolding CreateVM_def Let_def None option.case prod.case_eq_if sum.case
      by (simp only: \<open>vc_id (fill_defaults c cfg) = vc_id cfg\<close> \<open>vc_namespace (fill_defaults c cfg) = vc_namespace cfg\<close>)
         (intro fc_step_log appends_ignore_quiet boot_appends frame_intros fails_ignore fails_attempt fails_fail)
  qed
qed

lemma StartVM_log:
  "appends fc_log
     (boot_log (cfg\<lparr>vc_kernel := if vc_kernel cfg = [] then KernelPath c else vc_kernel cfg\<rparr>)
        (path_join [vm_dir c (default_namespace (vc_namespace cfg)) (vc_id cfg), ''api.sock''])
        (vm_dir c (default_namespace (vc_namespace cfg)) (vc_id cfg)) (TapNameForVM (vc_id cfg)))
     (StartVM c d l cfg)"
proof -
  let ?cfg = "\<lambda>root. cfg\<lparr>vc_kernel := if vc_kernel cfg = [] then KernelPath c else vc_kernel cfg, vc_rootfs := root\<rparr>"
  let ?s = "path_join [vm_dir c (default_namespace (vc_namespace cfg)) (vc_id cfg), ''api.sock'']"
  let ?x = "vm_dir c (default_namespace (vc_namespace cfg)) (vc_id cfg)"
  have boot: "appends fc_log (boot_log (cfg\<lparr>vc_kernel := if vc_kernel cfg = [] then KernelPath c else vc_kernel cfg\<rparr>) s x t)
      (boot l d (?cfg root) ns x s h dset t mac root')" for s x t root ns h dset mac root'
    using boot_appends [of "?cfg root"] by (simp only: boot_log_rootfs)
  show ?thesis
    unfolding StartVM_def Let_def
    by (intro fc_step_log appends_ignore_quiet boot appends_case_option appends_fails [OF _ fails_fail] boot_log_some
        frame_intros fails_ignore fails_attempt fails_fail)
qed

end

end
