(* ===== verification/Paths.thy ===== *)
theory Paths
  imports Go_Strings
begin

text \<open>
  Facts about \<open>filepath.Join\<close> and \<open>filepath.Clean\<close> that the components need: a
  plain name appended to a path stays its last element, so paths of different names differ.
\<close>

lemma split_byte_sep [simp]: "split_byte b (x @ b # y) = split_byte b x @ split_byte b y"
  by (induction x) (auto simp: neq_Nil_conv split: list.splits)

lemma split_byte_elem: "p \<in> set (split_byte b x) \<Longrightarrow> b \<notin> set p"
proof (induction x arbitrary: p)
  case (Cons c x)
  then show ?case by (cases "split_byte b x") (auto split: if_splits)
qed simp

text \<open>A name that is one element of a path and stays when the path is cleaned.\<close>

definition plain :: "string \<Rightarrow> bool" where
  "plain n \<longleftrightarrow> n \<noteq> [] \<and> n \<noteq> ''.'' \<and> n \<noteq> ''..'' \<and> CHR ''/'' \<notin> set n"

definition push :: "string \<Rightarrow> string \<Rightarrow> string" where
  "push p n = (if p = ''.'' then n else if p = ''/'' then CHR ''/'' # n else p @ CHR ''/'' # n)"

lemma join_with_snoc: "join_with s (xs @ [y]) = (if xs = [] then y else join_with s xs @ s @ y)"
proof (induction xs)
  case (Cons x xs)
  then show ?case by (cases xs) auto
qed simp

lemma clean_step_plain: "plain n \<Longrightarrow> clean_step r st n = n # st"
  by (simp add: plain_def)

lemma clean_step_elems:
  "\<forall>e \<in> set st. e \<noteq> [] \<and> e \<noteq> ''.'' \<Longrightarrow> \<forall>e \<in> set (clean_step r st c). e \<noteq> [] \<and> e \<noteq> ''.''"
  by (cases st) auto

lemma clean_stack_elems:
  "\<forall>e \<in> set st. e \<noteq> [] \<and> e \<noteq> ''.'' \<Longrightarrow> \<forall>e \<in> set (foldl (clean_step r) st cs). e \<noteq> [] \<and> e \<noteq> ''.''"
proof (induction cs arbitrary: st)
  case (Cons c cs)
  from Cons.IH [OF clean_step_elems [OF Cons.prems]] show ?case by (simp only: foldl_Cons)
qed (simp only: foldl_Nil)

lemma join_with_Nil_iff: "\<forall>e \<in> set xs. e \<noteq> [] \<Longrightarrow> join_with s xs = [] \<longleftrightarrow> xs = []"
proof (induction xs)
  case (Cons x xs)
  then show ?case by (cases xs) auto
qed simp

lemma join_with_dot: "\<forall>e \<in> set xs. e \<noteq> [] \<and> e \<noteq> ''.'' \<Longrightarrow> join_with ''/'' xs \<noteq> ''.''"
proof (cases xs)
  case (Cons x ys)
  assume "\<forall>e \<in> set xs. e \<noteq> [] \<and> e \<noteq> ''.''"
  then show ?thesis using Cons by (cases ys) (auto simp: append_eq_Cons_conv)
qed simp

definition render :: "bool \<Rightarrow> string list \<Rightarrow> string" where
  "render r st =
     (if r then CHR ''/'' # join_with ''/'' (rev st)
      else if join_with ''/'' (rev st) = [] then ''.'' else join_with ''/'' (rev st))"

lemma path_clean_render:
  "path_clean p = render (has_prefix p ''/'') (foldl (clean_step (has_prefix p ''/'')) [] (split_byte (CHR ''/'') p))"
  by (simp only: path_clean_def render_def Let_def)

lemma clean_step_slash: "e \<in> set (clean_step r st c) \<Longrightarrow> e \<in> set st \<or> e = c \<or> e = ''..''"
  by (cases st) (auto split: if_splits)

lemma clean_steps_slash:
  "e \<in> set (foldl (clean_step r) st cs) \<Longrightarrow> e \<in> set st \<or> e \<in> set cs \<or> e = ''..''"
proof (induction cs arbitrary: st)
  case (Cons c cs)
  from Cons.prems have "e \<in> set (foldl (clean_step r) (clean_step r st c) cs)" by (simp only: foldl_Cons)
  from Cons.IH [OF this] show ?case using clean_step_slash [of e r st c] by (simp only: list.set insert_iff) blast
qed (simp only: foldl_Nil simp_thms)

lemma clean_stack_slash:
  "e \<in> set (foldl (clean_step r) st (split_byte b x)) \<Longrightarrow> e \<in> set st \<or> e \<in> set (split_byte b x) \<or> e = ''..''"
  by (rule clean_steps_slash)

lemma path_clean_push:
  assumes "x \<noteq> []" "plain n"
  shows "path_clean (x @ CHR ''/'' # n) = push (path_clean x) n"
proof -
  define r where "r = has_prefix x ''/''"
  define st where "st = foldl (clean_step r) [] (split_byte (CHR ''/'') x)"
  have r: "has_prefix (x @ CHR ''/'' # n) ''/'' = r"
    using assms(1) by (cases x) (auto simp: has_prefix_def r_def)
  have n: "split_byte (CHR ''/'') n = [n]" using assms(2) by (simp add: plain_def)
  have elems: "\<forall>e \<in> set (rev st). e \<noteq> [] \<and> e \<noteq> ''.''"
    using clean_stack_elems [of "[]"] by (simp add: st_def)
  then have body: "join_with ''/'' (rev st) = [] \<longleftrightarrow> st = []" "join_with ''/'' (rev st) \<noteq> ''.''"
    using join_with_Nil_iff [of "rev st" "''/''"] join_with_dot [of "rev st"] by auto
  have st: "foldl (clean_step r) [] (split_byte (CHR ''/'') (x @ CHR ''/'' # n)) = n # st"
    using assms(2) by (simp add: n clean_step_plain st_def del: clean_step.simps)
  have new: "path_clean (x @ CHR ''/'' # n) = render r (n # st)"
    unfolding path_clean_render r st ..
  have old: "path_clean x = render r st"
    unfolding path_clean_render r_def [symmetric] st_def ..
  have slash: "\<not> r \<Longrightarrow> join_with ''/'' (rev st) \<noteq> ''/''"
  proof
    assume "\<not> r" "join_with ''/'' (rev st) = ''/''"
    then obtain e es where "rev st = e # es" by (cases "rev st") auto
    moreover from this have "e \<noteq> []" using elems by simp
    moreover have "e \<in> set st" using \<open>rev st = e # es\<close> by (metis list.set_intros(1) set_rev)
    then have "e \<noteq> ''/''"
      using clean_stack_slash [of e r "[]" "CHR ''/''" x] split_byte_elem [of e "CHR ''/''" x] by (auto simp: st_def)
    ultimately show False using \<open>join_with ''/'' (rev st) = ''/''\<close> by (cases es) (auto simp: append_eq_Cons_conv)
  qed
  have n': "n \<noteq> []" using assms(2) by (simp add: plain_def)
  show ?thesis unfolding new old using body slash n'
    by (cases r) (auto simp: render_def join_with_snoc push_def)
qed

lemma path_clean_plain: "plain n \<Longrightarrow> path_clean n = n"
  by (cases n) (auto simp: path_clean_def plain_def has_prefix_def)

lemma push_inj: "push p n = push p m \<longleftrightarrow> n = m"
  by (simp add: push_def)

lemma push_proper: "plain n \<Longrightarrow> push p n \<noteq> [] \<and> push p n \<noteq> ''.'' \<and> push p n \<noteq> ''/''"
  by (auto simp: push_def plain_def append_eq_Cons_conv)

lemma push_push_inj:
  "plain n \<Longrightarrow> plain m \<Longrightarrow> push (push p n) x = push (push q m) x \<longleftrightarrow> push p n = push q m"
  using push_proper [of n p] push_proper [of m q] by (simp add: push_def [of _ x])

lemma path_clean_slash: "plain n \<Longrightarrow> path_clean (CHR ''/'' # n) = CHR ''/'' # n"
  by (simp add: path_clean_def has_prefix_def plain_def)

lemma path_clean_of_push: "q \<noteq> [] \<Longrightarrow> plain n \<Longrightarrow> path_clean (push q n) = push (path_clean q) n"
proof (cases "q = ''.'' \<or> q = ''/''")
  case True
  moreover have "path_clean ''.'' = ''.''" "path_clean ''/'' = ''/''" by (simp_all add: path_clean_def has_prefix_def)
  moreover assume "plain n"
  ultimately show ?thesis by (auto simp: push_def path_clean_plain path_clean_slash)
next
  case False
  assume "q \<noteq> []" "plain n"
  with False show ?thesis using path_clean_push [of q n] by (simp add: push_def [of q])
qed

text \<open>
  Directories of differently named VMs differ, and so do the sockets in them.
\<close>

lemma vm_path_push:
  assumes "a \<noteq> []" "b \<noteq> []" "plain n"
  shows "path_join [a, b, n] = push (path_clean (a @ CHR ''/'' # b)) n"
  using path_clean_push [of "a @ CHR ''/'' # b" n] assms by (simp add: path_join_def plain_def)

lemma path_join_push: "x \<noteq> [] \<Longrightarrow> plain n \<Longrightarrow> path_join [x, n] = push (path_clean x) n"
  using path_clean_push [of x n] by (simp add: path_join_def plain_def)

lemma path_clean_not_Nil: "path_clean x \<noteq> []"
  by (simp add: path_clean_def Let_def)

lemma vm_file_inj:
  assumes "a \<noteq> []" "b \<noteq> []" "plain n" "plain m" "plain x"
  shows "path_join [path_join [a, b, n], x] = path_join [path_join [a, b, m], x] \<longleftrightarrow> n = m"
  using assms push_proper [of n] push_proper [of m] path_clean_not_Nil
  by (simp add: vm_path_push path_join_push path_clean_of_push push_push_inj push_inj)

end
