(* ===== verification/Vm_Machine.thy ===== *)
theory Vm_Machine
  imports Vm_Client Paths
begin

text \<open>
  The client of \<open>Vm_Client\<close> on the machine of theory \<open>Machine\<close>: starting a
  process, files and the API sockets; the contract \<open>vm_launcher\<close> holds on it. The
  properties of the client are stated here.
\<close>

section \<open>Operations of the machine\<close>

text \<open>What \<open>execve\<close> leaves in \<open>/proc/PID/cmdline\<close>; an argument cannot hold a NUL byte.\<close>

definition spawn_cmdline :: "string \<Rightarrow> string \<Rightarrow> string" where
  "spawn_cmdline bin s = bin @ CHR 0x00 # ''--api-sock'' @ CHR 0x00 # s @ [CHR 0x00]"

definition fresh_pid :: "machine \<Rightarrow> nat" where
  "fresh_pid o' = Suc (foldr max (map proc_pid (procs o')) 0)"

definition machine_spawn :: "string \<Rightarrow> string \<Rightarrow> (machine, handle) op" where
  "machine_spawn bin s = (\<lambda>o'.
     if CHR 0x00 \<in> set bin \<or> CHR 0x00 \<in> set s then (Inl (Msg ''invalid argument''), o')
     else
       let x = \<lparr>proc_pid = fresh_pid o', proc_start = fresh_pid o', proc_cmdline = spawn_cmdline bin s,
                proc_exe = bin, proc_ignores_term = False\<rparr>
       in (Inr (fresh_pid o', fresh_pid o'), o'\<lparr>procs := procs o' @ [x], paths := List.insert s (paths o')\<rparr>))"

definition owner_of :: "machine \<Rightarrow> string \<Rightarrow> process option" where
  "owner_of o' s = find (\<lambda>x. argumentsOwnSocket (cmdline_args (proc_cmdline x)) s) (procs o')"

definition machine_api :: "string \<Rightarrow> string \<Rightarrow> json \<Rightarrow> (machine, nat \<times> string) op" where
  "machine_api s path body = (\<lambda>o'.
     if owner_of o' s = None then (Inl (Msg ''connection refused''), o')
     else (Inr (204, []), o'\<lparr>api_log := api_log o' @ [(s, path, body)]\<rparr>))"

definition machine_kill :: "int \<Rightarrow> bool \<Rightarrow> (machine, unit) op" where
  "machine_kill i k = (\<lambda>o'. case proc_of o' (nat i) of
     None \<Rightarrow> (Inl (Msg ''no such process''), o')
   | Some x \<Rightarrow>
       if \<not> k \<and> proc_ignores_term x then (Inr (), o')
       else (Inr (), o'\<lparr>procs := filter (\<lambda>y. proc_pid y \<noteq> nat i) (procs o')\<rparr>))"

definition file_there :: "machine \<Rightarrow> string \<Rightarrow> bool" where
  "file_there o' x \<longleftrightarrow> x \<in> set (paths o')"

definition machine_launch :: "string \<Rightarrow> machine launch_ops" where
  "machine_launch bridge =
     \<lparr>mkdir_all = (\<lambda>x. external (sys_call ''mkdir'' (\<lambda>o'. (Inr (), o'\<lparr>paths := List.insert x (paths o')\<rparr>)))),
      create_tap = CreateTap ip_sim bridge,
      random_bytes = ok [1, 2, 3, 4, 5],
      zfs_command = run_cmd zfs_sim,
      stat_missing = (\<lambda>x. external (\<lambda>o'. (Inr (\<not> file_there o' x), o'))),
      stat_path = (\<lambda>x. external (sys_call ''stat'' (\<lambda>o'.
        (if file_there o' x then Inr () else Inl (Msg ''no such file''), o')))),
      read_file = (\<lambda>x. external (sys_call ''read'' (\<lambda>o'.
        (case map_of (contents o') x of Some s \<Rightarrow> Inr s | None \<Rightarrow> Inl (Msg ''no such file''), o')))),
      write_file = (\<lambda>x s. external (sys_call ''write'' (\<lambda>o'.
        (Inr (), o'\<lparr>paths := List.insert x (paths o'), contents := AList.update x s (contents o')\<rparr>)))),
      create_file = (\<lambda>x. external (sys_call ''create'' (\<lambda>o'.
        (Inr (), o'\<lparr>paths := List.insert x (paths o'), contents := AList.update x [] (contents o')\<rparr>)))),
      remove_file = (\<lambda>x. external (sys_call ''unlink'' (\<lambda>o'.
        (Inr (), o'\<lparr>paths := removeAll x (paths o'), contents := AList.delete x (contents o')\<rparr>)))),
      spawn = (\<lambda>bin s. external (sys_call ''exec'' (machine_spawn bin s))),
      next_event = (\<lambda>s h. external (sys_call ''dial'' (\<lambda>o'.
        (Inr (if owner_of o' s = None then ProcessDone else Tick True), o')))),
      api_do = (\<lambda>s path body. external (sys_call ''api'' (machine_api s path body))),
      make_fifo = (\<lambda>x. external (sys_call ''mkfifo'' (\<lambda>o'. (Inr (), o'\<lparr>paths := List.insert x (paths o')\<rparr>)))),
      open_fifo = (\<lambda>x. external (sys_call ''open'' (\<lambda>o'. (Inr (), o')))),
      process_running = (\<lambda>i. external (\<lambda>o'. (Inr (0 < i \<and> machine_alive o' (nat i)), o'))),
      kill_pid = (\<lambda>i k. external (sys_call ''kill'' (machine_kill i k))),
      read_dir = (\<lambda>x. external (sys_call ''readdir'' (\<lambda>o'. (Inr None, o'))))\<rparr>"

definition machine_owned :: "machine \<Rightarrow> nat \<times> string \<Rightarrow> bool" where
  "machine_owned o' x \<longleftrightarrow> machine_owner o' (fst x) (snd x)"

lemma machine_owned_faults [simp]: "machine_owned (o'\<lparr>mfaults := bs\<rparr>) = machine_owned o'"
  by (simp add: machine_owned_def machine_owner_def proc_of_def fun_eq_iff)

lemma owned_procs: "procs o' = procs o'' \<Longrightarrow> machine_owned o' = machine_owned o''"
  by (simp add: machine_owned_def machine_owner_def proc_of_def fun_eq_iff)

lemma trim_suffix_snoc: "trim_suffix (x @ [c]) [c] = x"
  by (simp add: trim_suffix_def has_suffix_def has_prefix_def)

lemma spawn_args:
  assumes "CHR 0x00 \<notin> set bin" "CHR 0x00 \<notin> set s"
  shows "cmdline_args (spawn_cmdline bin s) = [''--api-sock'', s]"
proof -
  have "spawn_cmdline bin s = (bin @ CHR 0x00 # ''--api-sock'' @ CHR 0x00 # s) @ [CHR 0x00]"
    by (simp add: spawn_cmdline_def)
  then have "trim_suffix (spawn_cmdline bin s) [CHR 0x00] = bin @ CHR 0x00 # ''--api-sock'' @ CHR 0x00 # s"
    by (simp only: trim_suffix_snoc)
  moreover have "split_byte (CHR 0x00) (bin @ CHR 0x00 # ''--api-sock'' @ CHR 0x00 # s) = [bin, ''--api-sock'', s]"
    using assms by simp
  ultimately show ?thesis by (simp add: cmdline_args_def del: split_byte_sep)
qed

lemma foldr_max_ge: "n \<in> set ns \<Longrightarrow> n \<le> foldr max ns (0::nat)"
  by (induction ns) auto

lemma fresh_pid_new: "find (\<lambda>x. proc_pid x = fresh_pid o') (procs o') = None"
proof -
  have "proc_pid x \<noteq> fresh_pid o'" if "x \<in> set (procs o')" for x
    using foldr_max_ge [of "proc_pid x" "map proc_pid (procs o')"] that by (simp add: fresh_pid_def)
  then show ?thesis by (simp add: find_None_iff)
qed

lemma find_snoc: "find P (xs @ [x]) = (case find P xs of Some y \<Rightarrow> Some y | None \<Rightarrow> if P x then Some x else None)"
  by (induction xs) auto

text \<open>The new process owns the socket it is given, and nothing else changes.\<close>

lemma spawn_procs:
  assumes "machine_spawn bin s o' = (Inr h, o'')"
  shows "proc_of o'' n = (if n = fresh_pid o' then Some \<lparr>proc_pid = n, proc_start = n,
      proc_cmdline = spawn_cmdline bin s, proc_exe = bin, proc_ignores_term = False\<rparr> else proc_of o' n)"
    and "h = (fresh_pid o', fresh_pid o')" and "CHR 0x00 \<notin> set bin" "CHR 0x00 \<notin> set s"
proof -
  have 0: "fresh_pid o' \<noteq> 0" by (simp add: fresh_pid_def)
  note 1 = fresh_pid_new [of o']
  show "proc_of o'' n = (if n = fresh_pid o' then Some \<lparr>proc_pid = n, proc_start = n,
      proc_cmdline = spawn_cmdline bin s, proc_exe = bin, proc_ignores_term = False\<rparr> else proc_of o' n)"
    and "h = (fresh_pid o', fresh_pid o')" and "CHR 0x00 \<notin> set bin" "CHR 0x00 \<notin> set s"
    using assms 0 1
    by (auto simp: machine_spawn_def Let_def proc_of_def find_snoc split: if_splits option.splits)
qed

lemma machine_spawn_birth:
  assumes "machine_spawn bin s o' = (r, o'')" "machine_owned o'' (n, s')"
  shows "machine_owned o' (n, s') \<or> s' = s"
proof (cases r)
  case (Inl e)
  then show ?thesis using assms by (auto simp: machine_spawn_def Let_def split: if_splits)
next
  case (Inr h)
  note sp = spawn_procs [OF assms(1) [unfolded Inr]]
  show ?thesis
  proof (cases "n = fresh_pid o'")
    case True
    then show ?thesis using assms(2) sp(1) [of n] spawn_args [OF sp(3,4)]
      by (simp add: machine_owned_def machine_owner_def)
  next
    case False
    then show ?thesis using assms(2) sp(1) [of n] by (simp add: machine_owned_def machine_owner_def)
  qed
qed

section \<open>The contract\<close>

lemma owned_keeps_procs:
  "(\<And>o'. procs (snd (act o')) = procs o') \<Longrightarrow> shrinks (\<lambda>w. machine_owned (outside w)) (external (sys_call what act))"
  by (rule shrinks_external) (metis owned_procs, simp)

lemma owned_run_cmd:
  "(\<And>o'. procs (snd (f args o')) = procs o') \<Longrightarrow> shrinks (\<lambda>w. machine_owned (outside w)) (run_cmd f args)"
  by (rule keeps_shrinks) (auto simp: keeps_def run_cmd_def external_def zoom_def split: prod.split
      intro!: owned_procs, metis snd_conv)

lemma owned_fewer:
  assumes "\<And>n. proc_of o'' n = None \<or> proc_of o'' n = proc_of o' n" "machine_owned o'' x"
  shows "machine_owned o' x"
  using assms(1) [of "fst x"] assms(2) by (auto simp: machine_owned_def machine_owner_def)

lemma owned_signal: "shrinks (\<lambda>w. machine_owned (outside w)) (linux_Signal h k)"
  unfolding shrinks_outcome
  by (intro allI impI, rule owned_fewer, erule linux_Signal_effect(2), assumption)

lemma owned_exited: "shrinks (\<lambda>w. machine_owned (outside w)) (external (linux_exited h))"
  unfolding linux_exited_def by (rule owned_keeps_procs) simp

lemma find_filter_pid:
  "find (\<lambda>x. proc_pid x = p) (filter (\<lambda>y. proc_pid y \<noteq> q) xs) =
     (if p = q then None else find (\<lambda>x. proc_pid x = p) xs)"
  by (induction xs) auto

lemma owned_kill: "machine_owned (snd (machine_kill i k o')) x \<Longrightarrow> machine_owned o' x"
proof (erule owned_fewer [rotated])
  show "proc_of (snd (machine_kill i k o')) n = None \<or> proc_of (snd (machine_kill i k o')) n = proc_of o' n" for n
    by (auto simp: machine_kill_def proc_of_def find_filter_pid split: option.splits)
qed

lemma log_external:
  assumes "\<And>o'. api_log (snd (act o')) = api_log o'"
  shows "keeps (\<lambda>w. api_log (outside w)) (external (sys_call what act))"
  by (rule keeps_external) (simp_all add: assms)

lemma log_run_cmd:
  assumes "\<And>o'. api_log (snd (f args o')) = api_log o'"
  shows "keeps (\<lambda>w. api_log (outside w)) (run_cmd f args)"
  unfolding keeps_def run_cmd_def external_def zoom_def
  by (simp split: prod.split) (metis assms snd_conv)

lemma zfs_sim_log: "api_log (snd (zfs_sim args o')) = api_log o'"
  by (cases args) (simp_all add: zfs_sim_def split: prod.split bool.split)

lemma ip_sim_log: "api_log (snd (ip_sim args o')) = api_log o'"
  by (simp add: ip_sim_def ip_sim_ok_def split: prod.split bool.split list.split)

lemma machine_tools [frame_intros]:
  "shrinks (\<lambda>w. machine_owned (outside w)) (run_cmd zfs_sim args)"
  "shrinks (\<lambda>w. machine_owned (outside w)) (run_cmd ip_sim args)"
  "keeps (\<lambda>w. api_log (outside w)) (run_cmd zfs_sim args)"
  "keeps (\<lambda>w. api_log (outside w)) (run_cmd ip_sim args)"
  using zfs_sim_frame [of args] ip_sim_frame [of args] zfs_sim_log [of args] ip_sim_log [of args]
  by (auto intro!: owned_run_cmd log_run_cmd)

lemma machine_taps [frame_intros]:
  "shrinks (\<lambda>w. machine_owned (outside w)) (CreateTap ip_sim br t)"
  "keeps (\<lambda>w. api_log (outside w)) (CreateTap ip_sim br t)"
  "keeps (\<lambda>w. api_log (outside w)) (DeleteTap ip_sim t)"
  "keeps (\<lambda>w. api_log (outside w)) (DatasetPathExists zfs_sim x)"
  "keeps (\<lambda>w. api_log (outside w)) (DestroyDatasetRecursive zfs_sim x)"
  unfolding CreateTap_def DeleteTap_def link_shown_def runCmd_def DatasetPathExists_def
    DestroyDatasetRecursive_def runZFS_def
  by (intro frame_intros)+

lemma linux_log_keeps [frame_intros]:
  "keeps (\<lambda>w. api_log (outside w)) (external (readLinuxProcessArguments n))"
  "keeps (\<lambda>w. api_log (outside w)) (external (linux_exited h))"
  "keeps (\<lambda>w. api_log (outside w)) (linux_open n)"
  "keeps (\<lambda>w. api_log (outside w)) (linux_Signal h k)"
  "keeps (\<lambda>w. api_log (outside w)) (linux_Close h)"
  "keeps (\<lambda>w. api_log (outside w)) (machine_resolve b)"
  unfolding readLinuxProcessArguments_def linux_exited_def linux_open_def linux_Signal_def linux_Close_def
    machine_resolve_def
  by (intro keeps_external; auto split: option.splits)+

lemma linux_candidates_log [frame_intros]: "keeps (\<lambda>w. api_log (outside w)) (linux_candidates s pids)"
  by (induction pids) (simp only: linux_candidates.simps, intro frame_intros, assumption?)+

lemma linux_candidatePIDs_log [frame_intros]: "keeps (\<lambda>w. api_log (outside w)) (linux_candidatePIDs b s)"
  unfolding linux_candidatePIDs_def by (intro frame_intros log_external) auto

lemma linux_Identity_log [frame_intros]: "keeps (\<lambda>w. api_log (outside w)) (linux_Identity h)"
  unfolding linux_Identity_def classifyIdentityReadError_def by (intro frame_intros log_external) auto

lemma linux_Wait_log [frame_intros]: "keeps (\<lambda>w. api_log (outside w)) (linux_Wait n h)"
  by (induction n) (subst linux_Wait.simps, simp only: nat.case, intro frame_intros, assumption?)+

lemma machine_api_log:
  "appends (\<lambda>w. api_log (outside w))
     (\<lambda>(status, answer) xs. if status < 400 then xs = [(s, q, b)] else xs = [] \<or> xs = [(s, q, b)])
     (external (sys_call ''api'' (machine_api s q b)))"
proof (rule appendsI)
  fix w r and w' :: "machine env"
  assume "external (sys_call ''api'' (machine_api s q b)) w = (r, w')"
  then consider (err) e where "r = Inl e" "api_log (outside w') = api_log (outside w) @ []"
    | (yes) "r = Inr (204, [])" "api_log (outside w') = api_log (outside w) @ [(s, q, b)]"
    by (auto simp: external_def zoom_def sys_call_def machine_api_def split: prod.splits bool.splits if_splits)
  then show "\<exists>xs. api_log (outside w') = api_log (outside w) @ xs \<and>
      completes (\<lambda>(status, answer) xs. if status < 400 then xs = [(s, q, b)] else xs = [] \<or> xs = [(s, q, b)]) r xs"
  proof cases
    case err
    then show ?thesis by (intro exI [of _ "[]"]) (auto intro: exI [of _ 204])
  next
    case yes
    then show ?thesis by (intro exI [of _ "[(s, q, b)]"]) simp
  qed
qed

lemma owned_external:
  assumes "\<And>o' x. machine_owned (snd (act o')) x \<Longrightarrow> machine_owned o' x"
  shows "shrinks (\<lambda>w. machine_owned (outside w)) (external (sys_call what act))"
  by (rule shrinks_external) (simp_all add: assms)

lemma owned_same: "procs (snd (act o')) = procs o' \<Longrightarrow> machine_owned (snd (act o')) x \<Longrightarrow> machine_owned o' x"
  using owned_procs by metis

lemma plain_external:
  "shrinks (\<lambda>w. machine_owned (outside w)) (external (\<lambda>o'. (r o', o')))"
  "keeps (\<lambda>w. api_log (outside w)) (external (\<lambda>o'. (r o', o')))"
  by (simp_all add: shrinks_def keeps_def external_def zoom_def)

interpretation machine_launcher: vm_launcher linux_ops machine_alive machine_owner machine_deletes
  has_link has_dataset has_path "machine_launch bridge" machine_owned api_log
proof unfold_locales
  show "machine_owned o' (n, s) = machine_owner o' n s" for o' n s by (simp add: machine_owned_def)
  show "shrinks (\<lambda>w. machine_owned (outside w)) (mkdir_all (machine_launch bridge) x)"
    "shrinks (\<lambda>w. machine_owned (outside w)) (stat_path (machine_launch bridge) x)"
    "shrinks (\<lambda>w. machine_owned (outside w)) (read_file (machine_launch bridge) x)"
    "shrinks (\<lambda>w. machine_owned (outside w)) (write_file (machine_launch bridge) x y)"
    "shrinks (\<lambda>w. machine_owned (outside w)) (create_file (machine_launch bridge) x)"
    "shrinks (\<lambda>w. machine_owned (outside w)) (remove_file (machine_launch bridge) x)"
    "shrinks (\<lambda>w. machine_owned (outside w)) (next_event (machine_launch bridge) x h)"
    "shrinks (\<lambda>w. machine_owned (outside w)) (api_do (machine_launch bridge) x y b)"
    "shrinks (\<lambda>w. machine_owned (outside w)) (make_fifo (machine_launch bridge) x)"
    "shrinks (\<lambda>w. machine_owned (outside w)) (open_fifo (machine_launch bridge) x)"
    "shrinks (\<lambda>w. machine_owned (outside w)) (read_dir (machine_launch bridge) x)" for x y h b
    unfolding machine_launch_def launch_ops.simps machine_api_def
    by (rule owned_external, erule owned_same [rotated], simp)+
  show "shrinks (\<lambda>w. machine_owned (outside w)) (kill_pid (machine_launch bridge) i k)" for i k
    unfolding machine_launch_def launch_ops.simps by (rule owned_external) (rule owned_kill)
  show "shrinks (\<lambda>w. machine_owned (outside w)) (random_bytes (machine_launch bridge))"
    "shrinks (\<lambda>w. machine_owned (outside w)) (create_tap (machine_launch bridge) x)"
    "shrinks (\<lambda>w. machine_owned (outside w)) (zfs_command (machine_launch bridge) args)"
    "shrinks (\<lambda>w. machine_owned (outside w)) (stat_missing (machine_launch bridge) x)"
    "shrinks (\<lambda>w. machine_owned (outside w)) (process_running (machine_launch bridge) i)"
    "shrinks (\<lambda>w. machine_owned (outside w)) (tracked_signal machine_deletes h k)"
    "shrinks (\<lambda>w. machine_owned (outside w)) (tracked_done machine_deletes h)"
    "shrinks (\<lambda>w. machine_owned (outside w)) (tracked_reap machine_deletes h)" for x args i h k
    unfolding machine_launch_def launch_ops.simps machine_deletes_def delete_ops.simps
    by (intro frame_intros plain_external owned_signal owned_exited)+
  show "spawn (machine_launch bridge) bin s w = (r, w') \<Longrightarrow> machine_owned (outside w') (n, s') \<Longrightarrow>
      machine_owned (outside w) (n, s') \<or> s' = s" for bin s w r w' n s'
    by (auto simp: machine_launch_def external_def zoom_def sys_call_def split: prod.splits bool.splits
        dest!: machine_spawn_birth)
  show "keeps (\<lambda>w. api_log (outside w)) (mkdir_all (machine_launch bridge) x)"
    "keeps (\<lambda>w. api_log (outside w)) (stat_path (machine_launch bridge) x)"
    "keeps (\<lambda>w. api_log (outside w)) (read_file (machine_launch bridge) x)"
    "keeps (\<lambda>w. api_log (outside w)) (write_file (machine_launch bridge) x y)"
    "keeps (\<lambda>w. api_log (outside w)) (create_file (machine_launch bridge) x)"
    "keeps (\<lambda>w. api_log (outside w)) (remove_file (machine_launch bridge) x)"
    "keeps (\<lambda>w. api_log (outside w)) (next_event (machine_launch bridge) x h)"
    "keeps (\<lambda>w. api_log (outside w)) (make_fifo (machine_launch bridge) x)"
    "keeps (\<lambda>w. api_log (outside w)) (open_fifo (machine_launch bridge) x)"
    "keeps (\<lambda>w. api_log (outside w)) (read_dir (machine_launch bridge) x)"
    "keeps (\<lambda>w. api_log (outside w)) (kill_pid (machine_launch bridge) i k)"
    "keeps (\<lambda>w. api_log (outside w)) (spawn (machine_launch bridge) x y)" for x y h i k
    unfolding machine_launch_def launch_ops.simps
    by (rule log_external; auto simp: machine_kill_def machine_spawn_def Let_def split: option.split)+
  show "keeps (\<lambda>w. api_log (outside w)) (random_bytes (machine_launch bridge))"
    "keeps (\<lambda>w. api_log (outside w)) (create_tap (machine_launch bridge) x)"
    "keeps (\<lambda>w. api_log (outside w)) (zfs_command (machine_launch bridge) args)"
    "keeps (\<lambda>w. api_log (outside w)) (stat_missing (machine_launch bridge) x)"
    "keeps (\<lambda>w. api_log (outside w)) (process_running (machine_launch bridge) i)" for x args i
    unfolding machine_launch_def launch_ops.simps by (intro frame_intros plain_external)+
  show "keeps (\<lambda>w. api_log (outside w)) (candidatePIDs linux_ops x y)"
    "keeps (\<lambda>w. api_log (outside w)) (open_process linux_ops n)"
    "keeps (\<lambda>w. api_log (outside w)) (identity_of linux_ops h)"
    "keeps (\<lambda>w. api_log (outside w)) (signal_process linux_ops h k)"
    "keeps (\<lambda>w. api_log (outside w)) (wait_process linux_ops h)"
    "keeps (\<lambda>w. api_log (outside w)) (close_process linux_ops h)"
    "keeps (\<lambda>w. api_log (outside w)) (resolveExecutable linux_ops x)" for x y n h k
    unfolding linux_ops_def process_ops.simps by (intro frame_intros)+
  show "keeps (\<lambda>w. api_log (outside w)) (path_exists machine_deletes x)"
    "keeps (\<lambda>w. api_log (outside w)) (tap_exists machine_deletes x)"
    "keeps (\<lambda>w. api_log (outside w)) (remove_all machine_deletes x)"
    "keeps (\<lambda>w. api_log (outside w)) (archive_console machine_deletes x y)" for x y
    unfolding machine_deletes_def delete_ops.simps by (rule log_external; simp)+
  show "keeps (\<lambda>w. api_log (outside w)) (delete_tap machine_deletes x)"
    "keeps (\<lambda>w. api_log (outside w)) (destroy_rootfs machine_deletes x)"
    "keeps (\<lambda>w. api_log (outside w)) (rootfs_exists machine_deletes x)"
    "keeps (\<lambda>w. api_log (outside w)) (tracked_signal machine_deletes h k)"
    "keeps (\<lambda>w. api_log (outside w)) (tracked_done machine_deletes h)"
    "keeps (\<lambda>w. api_log (outside w)) (tracked_reap machine_deletes h)" for x h k
    unfolding machine_deletes_def delete_ops.simps by (intro frame_intros)+
  show "appends (\<lambda>w. api_log (outside w))
      (\<lambda>(status, answer) xs. if status < 400 then xs = [(x, y, b)] else xs = [] \<or> xs = [(x, y, b)])
      (api_do (machine_launch bridge) x y b)" for x y b
    unfolding machine_launch_def launch_ops.simps by (rule machine_api_log)
qed

section \<open>Properties of the client\<close>

definition api_socket :: "client_config \<Rightarrow> string \<Rightarrow> string \<Rightarrow> string" where
  "api_socket c ns i = path_join [vm_dir c ns i, ''api.sock'']"

text \<open>A machine with the VM \<open>vm1\<close> running beside another one.\<close>

definition demo_config :: client_config where
  "demo_config = \<lparr>StateDir = ''/v'', FirecrackerBin = ''/fc'', BridgeName = [], KernelPath = ''/k'', RootfsPath = ''/r'',
     ImagesPath = ''im'', VMsPath = ''vms'', archives = False, fc_zfs = Some \<lparr>PoolName = ''t'', BasePath = ''w''\<rparr>\<rparr>"

definition demo_process :: "nat \<Rightarrow> string \<Rightarrow> process" where
  "demo_process n i = \<lparr>proc_pid = n, proc_start = n, proc_cmdline = spawn_cmdline ''/fc'' (api_socket demo_config ''s'' i),
     proc_exe = ''/fc'', proc_ignores_term = True\<rparr>"

definition demo_machine :: machine where
  "demo_machine = \<lparr>procs = [demo_process 7 ''vm1'', demo_process 8 ''vm2''], datasets = [''t/vms/vm1''], links = [''tap-vm1''],
     paths = [''/v/s/vm1'', ''/v/s/vm2''], contents = [], api_log = [], mfaults = []\<rparr>"

definition demo_world :: "machine fc_world env" where
  "demo_world = \<lparr>ctx = None, outside = \<lparr>fc_procs = [], cid_counter = 100, fc_os = demo_machine\<rparr>\<rparr>"

definition demo_delete :: "(goerr + unit) \<times> machine fc_world env" where
  "demo_delete = DeleteVM demo_config linux_ops machine_deletes ''s'' ''vm1'' demo_world"

text \<open>C16. A nil result of \<open>DeleteVM\<close> means what its comment promises: no process owns the VM's API
  socket, its TAP device and its directory are gone, and so is its rootfs clone when ZFS is used; whatever
  failed or was retried on the way, and whether the process was tracked or found through \<open>/proc\<close>.\<close>

theorem DeleteVM_nil_means_absent:
  assumes "DeleteVM c linux_ops machine_deletes ns i w = (Inr (), w')"
  shows "(\<forall>n. \<not> machine_owner (fc_os (outside w')) n (api_socket c ns i)) \<and>
    \<not> has_link (fc_os (outside w')) (TapNameForVM i) \<and> \<not> has_path (fc_os (outside w')) (vm_dir c ns i) \<and>
    (case fc_zfs c of None \<Rightarrow> True | Some m \<Rightarrow> \<not> has_dataset (fc_os (outside w')) (vm_dataset c m i))"
  using machine_host.DeleteVM_absent [OF assms] by (simp add: api_socket_def split: option.split)

lemma demo_delete_run: "fst demo_delete = Inr ()"
  by code_simp

lemma DeleteVM_nil_means_absent_witness:
  "\<not> machine_owner (fc_os (outside (snd demo_delete))) 7 (api_socket demo_config ''s'' ''vm1'')"
  using DeleteVM_nil_means_absent [of demo_config "''s''" "''vm1''" demo_world "snd demo_delete"] demo_delete_run
  by (metis demo_delete_def prod.collapse)

text \<open>C21. Deleting a VM never harms another process: one that does not own the VM's socket and is not the process
  the client tracks for it is as alive afterwards as before, even when the deletion fails half way or a PID was reused.\<close>

theorem DeleteVM_spares_other_processes:
  assumes "\<not> machine_owner (fc_os (outside w)) n (api_socket c ns i)"
    and "\<forall>k. map_of (fc_procs (outside w)) i \<noteq> Some (n, k)"
  shows "machine_alive (fc_os (outside (snd (DeleteVM c linux_ops machine_deletes ns i w)))) n =
    machine_alive (fc_os (outside w)) n"
proof (rule machine_host.DeleteVM_spares_others [OF prod.collapse [symmetric]])
  show "\<not> machine_owner (fc_os (outside w)) n (path_join [vm_dir c ns i, ''api.sock''])"
    using assms(1) by (simp add: api_socket_def)
  show "map_of (fc_procs (outside w)) i = Some h \<Longrightarrow> n \<noteq> fst h" for h
    using assms(2) by (cases h) auto
qed

lemma DeleteVM_spares_other_processes_witness: "machine_alive (fc_os (outside (snd demo_delete))) 8"
proof -
  have "\<not> machine_owner demo_machine 8 (api_socket demo_config ''s'' ''vm1'')" "machine_alive demo_machine 8"
    by code_simp+
  then show ?thesis
    using DeleteVM_spares_other_processes [of demo_world 8 demo_config "''s''" "''vm1''"]
    by (simp add: demo_world_def demo_delete_def)
qed

text \<open>C20. Creating a VM sends the configuration requests in the fixed order and \<open>InstanceStart\<close> last, on the VM's own
  socket: when it returns a VM all of them were accepted, the vsock request with the context id it returns (only the
  metrics may be missing); when it fails, what was accepted is the beginning of that sequence.\<close>

theorem vm_boots_only_when_configured:
  "\<exists>xs. api_log (fc_os (outside (snd (CreateVM c linux_ops machine_deletes (machine_launch bridge) cfg w)))) =
      api_log (fc_os (outside w)) @ xs \<and>
    completes (boot_log (fill_defaults c cfg) (api_socket c (default_namespace (vc_namespace cfg)) (vc_id cfg))
        (vm_dir c (default_namespace (vc_namespace cfg)) (vc_id cfg)) (TapNameForVM (vc_id cfg)))
      (fst (CreateVM c linux_ops machine_deletes (machine_launch bridge) cfg w)) xs"
  using machine_launcher.CreateVM_log unfolding appends_def api_socket_def by blast

text \<open>Restarting a VM sends the same sequence for the configuration it was given, with the default kernel, and the
  VM's existing disk.\<close>

theorem restart_boots_configured:
  "\<exists>xs. api_log (fc_os (outside (snd (StartVM c machine_deletes (machine_launch bridge) cfg w)))) =
      api_log (fc_os (outside w)) @ xs \<and>
    completes (boot_log (cfg\<lparr>vc_kernel := if vc_kernel cfg = [] then KernelPath c else vc_kernel cfg\<rparr>)
        (api_socket c (default_namespace (vc_namespace cfg)) (vc_id cfg))
        (vm_dir c (default_namespace (vc_namespace cfg)) (vc_id cfg)) (TapNameForVM (vc_id cfg)))
      (fst (StartVM c machine_deletes (machine_launch bridge) cfg w)) xs"
  using machine_launcher.StartVM_log unfolding appends_def api_socket_def by blast

end
