(* ===== verification/Vm_Backend.thy ===== *)
theory Vm_Backend
  imports Vm_Machine
begin

text \<open>
  The hypervisor-independent interface \<open>Backend\<close> of \<open>pkg/vmbackend/backend.go\<close> and
  the adapter that implements it with the Firecracker client (\<open>firecracker.go\<close>). The
  contract the daemon relies on is the locale \<open>vm_backend\<close>: a nil deletion means that
  the VM is gone, and only creating or starting a VM can bring that VM to life. It is
  interpreted on the adapter.
\<close>

section \<open>The interface\<close>

text \<open>Maps have distinct keys.\<close>

record vmb_config =
  vb_id :: string
  vb_vcpu :: "32 word"
  vb_memory :: "32 word"
  vb_kernel :: string
  vb_rootfs :: string
  vb_rootfs_snapshot :: string
  vb_cloud_init :: string
  vb_ssh_keys :: "string list"
  vb_dotenv :: string
  vb_env :: "(string \<times> string) list"
  vb_metadata :: "(string \<times> string) list"
  vb_image :: string

record vm_info =
  vi_id :: string
  vi_ip :: string
  vi_cid :: "32 word"
  vi_vsock :: string

record vm_state =
  vs_id :: string
  vs_pid :: int
  vs_status :: string

record 'e backend_ops =
  backend_CreateVM :: "vmb_config \<Rightarrow> ('e env, vm_info) op"
  backend_StartVM :: "vmb_config \<Rightarrow> ('e env, vm_info) op"
  backend_StopVM :: "string \<Rightarrow> ('e env, unit) op"
  backend_DeleteVM :: "string \<Rightarrow> ('e env, unit) op"

section \<open>The Firecracker adapter\<close>

text \<open>A missing key of a Go map reads as the empty string.\<close>

definition map_get :: "(string \<times> string) list \<Rightarrow> string \<Rightarrow> string" where
  "map_get m k = (case map_of m k of None \<Rightarrow> [] | Some v \<Rightarrow> v)"

definition adapter_create_config :: "vmb_config \<Rightarrow> vm_config" where
  "adapter_create_config cfg =
     \<lparr>vc_id = vb_id cfg, vc_namespace = ''stockyard'', vc_vcpu = vb_vcpu cfg, vc_memory = vb_memory cfg,
      vc_rootfs = vb_rootfs cfg, vc_rootfs_snapshot = vb_rootfs_snapshot cfg, vc_kernel = vb_kernel cfg,
      vc_cloud_init = vb_cloud_init cfg, vc_tailscale_key = map_get (vb_env cfg) ''_tailscale_auth_key'',
      vc_ssh_keys = vb_ssh_keys cfg, vc_static_ip_args = map_get (vb_env cfg) ''_static_ip_args'',
      vc_network = map_option (\<lambda>ip. \<lparr>mn_ip = ip, mn_netmask = map_get (vb_metadata cfg) ''_network_netmask'',
        mn_gateway = map_get (vb_metadata cfg) ''_network_gateway'', mn_dns = map_get (vb_metadata cfg) ''_network_dns''\<rparr>)
        (map_of (vb_metadata cfg) ''_network_ip''),
      vc_dotenv = vb_dotenv cfg\<rparr>"

definition adapter_start_config :: "vmb_config \<Rightarrow> vm_config" where
  "adapter_start_config cfg =
     \<lparr>vc_id = vb_id cfg, vc_namespace = ''stockyard'', vc_vcpu = vb_vcpu cfg, vc_memory = vb_memory cfg,
      vc_rootfs = [], vc_rootfs_snapshot = [], vc_kernel = [], vc_cloud_init = [], vc_tailscale_key = [],
      vc_ssh_keys = [], vc_static_ip_args = [], vc_network = None, vc_dotenv = []\<rparr>"

definition adapter_info :: "fc_vm_info \<Rightarrow> vm_info" where
  "adapter_info v = \<lparr>vi_id = fv_id v, vi_ip = [], vi_cid = fv_cid v, vi_vsock = fv_vsock v\<rparr>"

definition adapter_state :: "fc_vm \<Rightarrow> vm_state" where
  "adapter_state vm = \<lparr>vs_id = fm_id vm, vs_pid = fm_pid vm, vs_status = vm_status_String (fm_status vm)\<rparr>"

definition adapter_GetVM :: "client_config \<Rightarrow> 'o launch_ops \<Rightarrow> string \<Rightarrow> ('o fc_world env, vm_state) op" where
  "adapter_GetVM c l i = call (on_os (GetVM c l ''stockyard'' i)) (\<lambda>vm. ok (adapter_state vm))"

definition adapter_ListVMs :: "client_config \<Rightarrow> 'o launch_ops \<Rightarrow> ('o fc_world env, vm_state list) op" where
  "adapter_ListVMs c l = call (on_os (ListVMs c l ''stockyard'')) (\<lambda>vms. ok (map adapter_state vms))"

definition firecracker_backend ::
    "client_config \<Rightarrow> 'o process_ops \<Rightarrow> 'o delete_ops \<Rightarrow> 'o launch_ops \<Rightarrow> 'o fc_world backend_ops" where
  "firecracker_backend c p d l =
     \<lparr>backend_CreateVM = (\<lambda>cfg. call (CreateVM c p d l (adapter_create_config cfg)) (\<lambda>v. ok (adapter_info v))),
      backend_StartVM = (\<lambda>cfg. call (StartVM c d l (adapter_start_config cfg)) (\<lambda>v. ok (adapter_info v))),
      backend_StopVM = (\<lambda>i. StopVM c d l ''stockyard'' i),
      backend_DeleteVM = (\<lambda>i. DeleteVM c p d ''stockyard'' i)\<rparr>"

section \<open>The contract\<close>

text \<open>
  \<open>live o i\<close>: the VM \<open>i\<close> runs. Only the VM that is created or started can come to
  life, under its own name; the ids are those the daemon makes (\<open>good\<close>).
\<close>

locale vm_backend =
  fixes b :: "'e backend_ops" and live :: "'e \<Rightarrow> string \<Rightarrow> bool" and good :: "string \<Rightarrow> bool"
  assumes delete_sound: "backend_DeleteVM b i w = (Inr (), w') \<Longrightarrow> \<not> live (outside w') i"
    and delete_births: "backend_DeleteVM b i w = (r, w') \<Longrightarrow> live (outside w') j \<Longrightarrow> live (outside w) j"
    and stop_births: "backend_StopVM b i w = (r, w') \<Longrightarrow> live (outside w') j \<Longrightarrow> live (outside w) j"
    and create_births: "backend_CreateVM b cfg w = (r', w') \<Longrightarrow> good (vb_id cfg) \<Longrightarrow> live (outside w') j \<Longrightarrow>
      live (outside w) j \<or> j = vb_id cfg"
    and start_births: "backend_StartVM b cfg w = (r', w') \<Longrightarrow> good (vb_id cfg) \<Longrightarrow> live (outside w') j \<Longrightarrow>
      live (outside w) j \<or> j = vb_id cfg"
    and create_name: "backend_CreateVM b cfg w = (Inr v, w') \<Longrightarrow> vi_id v = vb_id cfg"

text \<open>A VM runs when a process owns its socket; \<open>vmbackend.GenerateVMID\<close> makes plain names.\<close>

definition vm_live :: "client_config \<Rightarrow> machine fc_world \<Rightarrow> string \<Rightarrow> bool" where
  "vm_live c o' i \<longleftrightarrow> plain i \<and> (\<exists>n. machine_owner (fc_os o') n (api_socket c ''stockyard'' i))"

lemma api_socket_inj:
  assumes "StateDir c \<noteq> []" "plain i" "plain j"
  shows "api_socket c ''stockyard'' i = api_socket c ''stockyard'' j \<longleftrightarrow> i = j"
  using vm_file_inj [of "StateDir c" "''stockyard''" i j "''api.sock''"] assms
  by (simp add: api_socket_def vm_dir_def plain_def)

lemma sockets_births:
  assumes "shrinks (machine_launcher.fc_births s) m" "m w = (r, w')" "s \<noteq> s'"
    and "machine_owner (fc_os (outside w')) n s'"
  shows "machine_owner (fc_os (outside w)) n s'"
  using shrinksD [OF assms(1,2), of "(n, s')"] assms(3,4)
  by (simp add: machine_launcher.others_def machine_owned_def)

lemma all_births:
  assumes "\<And>s. shrinks (machine_launcher.fc_births s) m" "m w = (r, w')" "vm_live c (outside w') j"
  shows "vm_live c (outside w) j"
proof -
  from assms(3) obtain n where "plain j" "machine_owner (fc_os (outside w')) n (api_socket c ''stockyard'' j)"
    by (auto simp: vm_live_def)
  then have "machine_owner (fc_os (outside w)) n (api_socket c ''stockyard'' j)"
    by (intro sockets_births [OF assms(1) [of "CHR ''x'' # api_socket c ''stockyard'' j"] assms(2) not_Cons_self2])
  with \<open>plain j\<close> show ?thesis by (auto simp: vm_live_def)
qed

lemma own_births:
  assumes "shrinks (machine_launcher.fc_births (api_socket c ''stockyard'' i)) m" "m w = (r, w')"
    and "vm_live c (outside w') j" "plain i" "StateDir c \<noteq> []"
  shows "vm_live c (outside w) j \<or> j = i"
proof (rule disjCI)
  assume "j \<noteq> i"
  from assms(3) obtain n where "plain j" "machine_owner (fc_os (outside w')) n (api_socket c ''stockyard'' j)"
    by (auto simp: vm_live_def)
  then show "vm_live c (outside w) j"
    using sockets_births [OF assms(1,2)] api_socket_inj [OF assms(5,4)] \<open>j \<noteq> i\<close> by (auto simp: vm_live_def)
qed

lemma default_defaults: "StateDir (client_defaults c) \<noteq> []"
  by (simp add: client_defaults_def)

lemma adapter_namespace [simp]:
  "vc_id (adapter_create_config cfg) = vb_id cfg" "vc_id (adapter_start_config cfg) = vb_id cfg"
  "default_namespace (vc_namespace (adapter_create_config cfg)) = ''stockyard''"
  "default_namespace (vc_namespace (adapter_start_config cfg)) = ''stockyard''"
  by (simp_all add: adapter_create_config_def adapter_start_config_def default_namespace_def)

lemma CreateVM_id:
  assumes "CreateVM c p d l cfg w = (Inr v, w')"
  shows "fv_id v = vc_id cfg"
proof -
  have "returns (\<lambda>v. fv_id v = vc_id (fill_defaults c cfg)) (CreateVM c p d l cfg)"
    unfolding CreateVM_def boot_def Let_def by (intro returns_intros) simp
  from returnsD [OF this assms] show ?thesis by (simp add: fill_defaults_def)
qed

interpretation firecracker: vm_backend
  "firecracker_backend (client_defaults c) linux_ops machine_deletes (machine_launch bridge)"
  "vm_live (client_defaults c)" plain
proof unfold_locales
  fix i j w r w'
  let ?b = "firecracker_backend (client_defaults c) linux_ops machine_deletes (machine_launch bridge)"
  show "backend_DeleteVM ?b i w = (Inr (), w') \<Longrightarrow> \<not> vm_live (client_defaults c) (outside w') i"
    using machine_host.DeleteVM_absent(1) by (fastforce simp: firecracker_backend_def vm_live_def api_socket_def)
  show "backend_DeleteVM ?b i w = (r, w') \<Longrightarrow> vm_live (client_defaults c) (outside w') j \<Longrightarrow>
      vm_live (client_defaults c) (outside w) j"
    using all_births [OF machine_launcher.DeleteVM_births] by (simp add: firecracker_backend_def)
  show "backend_StopVM ?b i w = (r, w') \<Longrightarrow> vm_live (client_defaults c) (outside w') j \<Longrightarrow>
      vm_live (client_defaults c) (outside w) j"
    using all_births [OF machine_launcher.StopVM_births] by (simp add: firecracker_backend_def)
next
  fix cfg :: vmb_config and w w' :: "machine fc_world env" and r' j
  let ?b = "firecracker_backend (client_defaults c) linux_ops machine_deletes (machine_launch bridge)"
  assume good: "plain (vb_id cfg)" and live: "vm_live (client_defaults c) (outside w') j"
  {
    assume run: "backend_CreateVM ?b cfg w = (r', w')"
    then obtain r'' where "CreateVM (client_defaults c) linux_ops machine_deletes (machine_launch bridge)
        (adapter_create_config cfg) w = (r'', w')"
      by (auto simp: firecracker_backend_def call_def split: prod.splits sum.splits)
    from own_births [OF machine_launcher.CreateVM_births [where cfg = "adapter_create_config cfg",
        unfolded adapter_namespace, folded api_socket_def] this live good default_defaults]
    show "vm_live (client_defaults c) (outside w) j \<or> j = vb_id cfg" .
  next
    assume run: "backend_StartVM ?b cfg w = (r', w')"
    then obtain r'' where "StartVM (client_defaults c) machine_deletes (machine_launch bridge)
        (adapter_start_config cfg) w = (r'', w')"
      by (auto simp: firecracker_backend_def call_def split: prod.splits sum.splits)
    from own_births [OF machine_launcher.StartVM_births [where cfg = "adapter_start_config cfg",
        unfolded adapter_namespace, folded api_socket_def] this live good default_defaults]
    show "vm_live (client_defaults c) (outside w) j \<or> j = vb_id cfg" .
  }
next
  fix cfg :: vmb_config and w v w'
  show "backend_CreateVM (firecracker_backend (client_defaults c) linux_ops machine_deletes (machine_launch bridge))
      cfg w = (Inr v, w') \<Longrightarrow> vi_id v = vb_id cfg"
    by (auto simp: firecracker_backend_def op_Inr_iff adapter_info_def dest: CreateVM_id)
qed

end
