(* ===== verification/Tasks.thy ===== *)
theory Tasks
  imports Task_Store Ip_Pool Cloud_Init Vm_Backend
begin

text \<open>
  The task manager of \<open>pkg/daemon/tasks.go\<close> and \<open>task_lifecycle.go\<close>: creating,
  restarting, stopping, failing and destroying a task, and its snapshots. The functions here
  run under the task's lifecycle lock (theory \<open>Task_Locks\<close>), so each is one
  sequence of calls. What the manager calls outside the daemon (the VM backend, the ZFS
  workspace, files, secrets) are the operations of \<open>services\<close>; the database, the
  address pool and the in-memory observers are the state \<open>daemon\<close>.
\<close>

section \<open>The services\<close>

record 'e workspace_ops =
  ws_create :: "string \<Rightarrow> ('e env, unit) op"
  ws_mountpoint :: "string \<Rightarrow> ('e env, string) op"
  ws_destroy :: "string \<Rightarrow> ('e env, unit) op"
  ws_exists :: "string \<Rightarrow> ('e env, bool) op"
  ws_sync :: "string \<Rightarrow> ('e env, unit) op"
  ws_snapshot :: "string \<Rightarrow> string \<Rightarrow> ('e env, string) op"
  ws_rollback :: "string \<Rightarrow> string \<Rightarrow> ('e env, unit) op"
  ws_list :: "string \<Rightarrow> ('e env, string list) op"

text \<open>
  The daemon's fields: \<open>None\<close> is nil. \<open>sv_registry\<close> is the image registry's
  pool and images path; \<open>sv_validator\<close> the backend as an \<open>ImageValidator\<close>.
\<close>

record 'e services =
  sv_backend_name :: string
  sv_apple_image :: string
  sv_data_dir :: string
  sv_backend :: "'e backend_ops option"
  sv_validator :: "(string \<Rightarrow> ('e env, unit) op) option"
  sv_registry :: "(string \<times> string) option"
  sv_zfs :: "'e workspace_ops option"
  sv_files :: "'e persistence_ops"
  sv_secret :: "string \<Rightarrow> ('e env, string) op"
  sv_yaml :: "cloud_init_data \<Rightarrow> goerr + string"
  sv_wait_peer :: "string \<Rightarrow> ('e env, unit) op"
  sv_feed :: bool
  sv_tailer :: bool
  sv_poller :: bool

datatype activity =
    VMStarted string string
  | VMStopped string string
  | VMFailed string string string

record 'e daemon =
  store :: db
  pool :: "ip_pool option"
  world :: "'e env"
  activities :: "activity list"
  tailers :: "(string \<times> string) list"
  polled :: "string list"

definition on_store :: "(db, 'a) op \<Rightarrow> ('e daemon, 'a) op" where
  "on_store m = zoom store (\<lambda>x d. d\<lparr>store := x\<rparr>) m"

definition on_world :: "('e env, 'a) op \<Rightarrow> ('e daemon, 'a) op" where
  "on_world m = zoom world (\<lambda>x d. d\<lparr>world := x\<rparr>) m"

text \<open>A call of the address pool, which writes its state file in the same outside world.\<close>

definition on_pool :: "(ip_pool \<times> 'e, 'a) op \<Rightarrow> ip_pool \<Rightarrow> ('e daemon, 'a) op" where
  "on_pool m p = (\<lambda>d. case m (p, outside (world d)) of
     (r, (p', o')) \<Rightarrow> (r, d\<lparr>pool := Some p', world := (world d)\<lparr>outside := o'\<rparr>\<rparr>))"

definition record_activity :: "'e services \<Rightarrow> activity \<Rightarrow> 'e daemon \<Rightarrow> 'e daemon" where
  "record_activity sv a d = (if sv_feed sv then d\<lparr>activities := activities d @ [a]\<rparr> else d)"

text \<open>The tailers are keyed \<open>task:stream\<close>; \<open>StopTask\<close> closes those of the task.\<close>

definition tail_file :: "string \<Rightarrow> string \<Rightarrow> string \<Rightarrow> 'e daemon \<Rightarrow> 'e daemon" where
  "tail_file i stream path d =
     (let key = i @ '':'' @ stream in
      if map_of (tailers d) key = None then d\<lparr>tailers := (key, path) # tailers d\<rparr> else d)"

definition stop_tailing :: "string \<Rightarrow> 'e daemon \<Rightarrow> 'e daemon" where
  "stop_tailing i d = d\<lparr>tailers := filter (\<lambda>(key, _). \<not> has_prefix key (i @ '':'')) (tailers d)\<rparr>"

definition stop_observers :: "'e services \<Rightarrow> string \<Rightarrow> 'e daemon \<Rightarrow> 'e daemon" where
  "stop_observers sv i d =
     (let d1 = (if sv_tailer sv then stop_tailing i d else d) in
      if sv_poller sv then d1\<lparr>polled := removeAll i (polled d1)\<rparr> else d1)"

definition start_tailing :: "'e services \<Rightarrow> string \<Rightarrow> string \<Rightarrow> 'e daemon \<Rightarrow> 'e daemon" where
  "start_tailing sv i vmID d =
     (if sv_tailer sv \<and> vmID \<noteq> [] then
        (let dir = path_join [sv_data_dir sv, ''vms'', ''stockyard'', vmID] in
         tail_file i ''stderr'' (path_join [dir, ''stderr.log''])
           (tail_file i ''stdout'' (path_join [dir, ''stdout.log'']) d))
      else d)"

definition firecracker_mode :: "'e services \<Rightarrow> bool" where
  "firecracker_mode sv \<longleftrightarrow> sv_backend_name sv = [] \<or> sv_backend_name sv = ''firecracker''"

section \<open>Stopping, failing and restarting\<close>

definition rejectCleanupPending :: "task \<Rightarrow> ('s, unit) op" where
  "rejectCleanupPending t =
     (if Status t = TaskStatusCleanupPending then fail (Sentinel ErrTaskCleanupPending) else ok ())"

text \<open>The task outside of the retained cleanup state.\<close>

definition admitted_task :: "string \<Rightarrow> ('e daemon, task) op" where
  "admitted_task i =
     call (on_store (state_GetTask i)) (\<lambda>t. call (rejectCleanupPending t) (\<lambda>_. ok t))"

definition with_backend :: "'e services \<Rightarrow> task \<Rightarrow> ('e backend_ops \<Rightarrow> ('e env, unit) op) \<Rightarrow> ('e daemon, unit) op" where
  "with_backend sv t f =
     (case sv_backend sv of
        None \<Rightarrow> ok ()
      | Some b \<Rightarrow> if VMID t = [] then ok () else on_world (f b))"

definition stopTaskLocked :: "'e services \<Rightarrow> nat \<Rightarrow> string \<Rightarrow> ('e daemon, unit) op" where
  "stopTaskLocked sv now i =
     call (admitted_task i) (\<lambda>t.
     pure_step (stop_observers sv i)
       (ignore (with_backend sv t (\<lambda>b. backend_StopVM b (VMID t)))
         (call (on_store (state_UpdateTaskStatus i ''stopped'' now)) (\<lambda>_.
          pure_step (record_activity sv (VMStopped i (Name t))) (ok ())))))"

definition failTaskLocked :: "'e services \<Rightarrow> nat \<Rightarrow> string \<Rightarrow> string \<Rightarrow> ('e daemon, unit) op" where
  "failTaskLocked sv now i reason =
     call (admitted_task i) (\<lambda>t.
     pure_step (stop_observers sv i)
       (call (on_store (state_UpdateTaskStatus i ''failed'' now)) (\<lambda>_.
        pure_step (record_activity sv (VMFailed i (Name t) reason)) (ok ()))))"

text \<open>Storing the connection info only logs its errors.\<close>

definition store_vm_info :: "string \<Rightarrow> vm_info option \<Rightarrow> ('e daemon, unit) op \<Rightarrow> ('e daemon, unit) op" where
  "store_vm_info i info k =
     (case info of
        None \<Rightarrow> k
      | Some v \<Rightarrow>
          ignore (if vi_cid v \<noteq> 0 then on_store (state_UpdateTaskCID i (vi_cid v)) else ok ())
         (ignore (if vi_vsock v \<noteq> [] then on_store (state_UpdateTaskVsockPath i (vi_vsock v)) else ok ())
         (ignore (if vi_ip v \<noteq> [] then on_store (state_UpdateTaskIP i (vi_ip v)) else ok ()) k)))"

definition restart_config :: "string \<Rightarrow> vmb_config" where
  "restart_config vmID =
     \<lparr>vb_id = vmID, vb_vcpu = 2, vb_memory = 1024, vb_kernel = [], vb_rootfs = [], vb_rootfs_snapshot = [],
      vb_cloud_init = [], vb_ssh_keys = [], vb_dotenv = [], vb_env = [], vb_metadata = [], vb_image = []\<rparr>"

definition start_vm :: "'e services \<Rightarrow> nat \<Rightarrow> string \<Rightarrow> task \<Rightarrow> ('e daemon, vm_info option) op" where
  "start_vm sv now i t =
     (case sv_backend sv of
        None \<Rightarrow> ok None
      | Some b \<Rightarrow>
          if VMID t = [] then ok None
          else attempt (on_world (backend_StartVM b (restart_config (VMID t)))) (\<lambda>r. case r of
            Inl e \<Rightarrow>
              ignore (on_store (state_UpdateTaskStatus i ''failed'' now))
                (fail (Wrap ''failed to start VM'' e))
          | Inr v \<Rightarrow> ok (Some v)))"

definition restartTaskLocked :: "'e services \<Rightarrow> nat \<Rightarrow> string \<Rightarrow> ('e daemon, unit) op" where
  "restartTaskLocked sv now i =
     call (admitted_task i) (\<lambda>t.
     if Status t \<noteq> ''stopped'' \<and> Status t \<noteq> ''failed''
     then fail (Wrap (i @ '' (status: '' @ Status t @ '')'') (Sentinel ErrTaskNotStopped))
     else
       call (on_store (state_UpdateTaskStatus i ''starting'' now)) (\<lambda>_.
       call (start_vm sv now i t) (\<lambda>info.
       call (on_store (state_UpdateTaskStatus i ''running'' now)) (\<lambda>_.
       store_vm_info i info
         (pure_step (start_tailing sv i (VMID t))
           (pure_step (record_activity sv (VMStarted i (Name t))) (ok ())))))))"

section \<open>Destroying\<close>

text \<open>
  The order of the deletion: the VM, the workspace and the check that it is gone, the
  pending mark, the address, the row. Every step is left when the context is cancelled.
\<close>

definition d_ctx :: "('e daemon, unit) op" where
  "d_ctx = on_world ctx_err"

definition destroy_vm :: "'e services \<Rightarrow> task \<Rightarrow> ('e daemon, unit) op" where
  "destroy_vm sv t =
     (case sv_backend sv of
        None \<Rightarrow> ok ()
      | Some b \<Rightarrow>
          if VMID t = [] then ok ()
          else call_wrap (''delete VM '' @ VMID t) (on_world (backend_DeleteVM b (VMID t))) (\<lambda>_. d_ctx))"

definition destroy_workspace :: "'e services \<Rightarrow> string \<Rightarrow> ('e daemon, unit) op" where
  "destroy_workspace sv i =
     (case sv_zfs sv of
        None \<Rightarrow> ok ()
      | Some z \<Rightarrow>
          if \<not> firecracker_mode sv then ok ()
          else
            call_wrap (''destroy workspace dataset '' @ i) (on_world (ws_destroy z i)) (\<lambda>_.
            call d_ctx (\<lambda>_.
            call_wrap (''verify workspace dataset deletion '' @ i) (on_world (ws_exists z i)) (\<lambda>exists.
            if exists then fail (Msg (''verify workspace dataset deletion '' @ i @ '': dataset remains''))
            else d_ctx))))"

definition release_address :: "'e services \<Rightarrow> string \<Rightarrow> ('e daemon, unit) op" where
  "release_address sv i = (\<lambda>d. case pool d of
     None \<Rightarrow> ok () d
   | Some p \<Rightarrow> wrap ''release IP allocation'' (on_pool (Release (sv_files sv) i) p) d)"

definition mark_pending :: "task \<Rightarrow> string \<Rightarrow> ('e daemon, unit) op" where
  "mark_pending t i =
     (if Status t = TaskStatusCleanupPending then ok ()
      else call (on_store (state_MarkTaskCleanupPending i)) (\<lambda>_. d_ctx))"

definition destroyTaskLocked :: "'e services \<Rightarrow> string \<Rightarrow> ('e daemon, unit) op" where
  "destroyTaskLocked sv i =
     call d_ctx (\<lambda>_.
     attempt (on_store (state_GetTask i)) (\<lambda>r. case r of
       Inl e \<Rightarrow> if errors_is e ErrTaskNotFound then ok () else fail e
     | Inr t \<Rightarrow>
         pure_step (stop_observers sv i)
           (call (destroy_vm sv t) (\<lambda>_.
            call (destroy_workspace sv i) (\<lambda>_.
            pure_step (if Status t = ''running'' then record_activity sv (VMStopped i (Name t)) else (\<lambda>d. d))
              (call d_ctx (\<lambda>_.
               call (mark_pending t i) (\<lambda>_.
               call (release_address sv i) (\<lambda>_.
               call d_ctx (\<lambda>_.
               on_store (state_DeleteTask i)))))))))))"

fun destroy_each :: "'e services \<Rightarrow> string \<Rightarrow> task list \<Rightarrow> ('e daemon, unit) op" where
  "destroy_each sv img [] = ok ()"
| "destroy_each sv img (t # ts) =
     (if Image t \<noteq> img then destroy_each sv img ts
      else call_wrap (''destroy task '' @ ID t) (destroyTaskLocked sv (ID t)) (\<lambda>_. destroy_each sv img ts))"

definition DestroyTasksByImage :: "'e services \<Rightarrow> string \<Rightarrow> ('e daemon, unit) op" where
  "DestroyTasksByImage sv img =
     call (on_store (state_ListTasks [])) (\<lambda>ts. destroy_each sv img ts)"

section \<open>Reading a task and its snapshots\<close>

definition tm_GetVMCID :: "string \<Rightarrow> ('e daemon, 32 word) op" where
  "tm_GetVMCID i =
     call (admitted_task i) (\<lambda>t.
       if CID t = 0 then fail (Msg ''VM CID not available (VM may not be running)'') else ok (CID t))"

definition tm_GetVsockPath :: "string \<Rightarrow> ('e daemon, string) op" where
  "tm_GetVsockPath i =
     call (admitted_task i) (\<lambda>t.
       if VsockPath t = [] then fail (Msg ''vsock path not available (VM may not be running)'')
       else ok (VsockPath t))"

definition need_zfs :: "'e services \<Rightarrow> ('e workspace_ops \<Rightarrow> ('e daemon, 'a) op) \<Rightarrow> ('e daemon, 'a) op" where
  "need_zfs sv f = (case sv_zfs sv of None \<Rightarrow> fail (Msg ''ZFS manager not available'') | Some z \<Rightarrow> f z)"

definition tm_ListTaskSnapshots :: "'e services \<Rightarrow> string \<Rightarrow> ('e daemon, string list) op" where
  "tm_ListTaskSnapshots sv i =
     call (admitted_task i) (\<lambda>_. need_zfs sv (\<lambda>z. on_world (ws_list z i)))"

definition tm_ListRecordedSnapshots :: "string \<Rightarrow> ('e daemon, (string \<times> nat) list) op" where
  "tm_ListRecordedSnapshots i =
     call (admitted_task i) (\<lambda>_. on_store (state_ListTaskSnapshots i))"

definition tm_CreateSnapshot :: "'e services \<Rightarrow> nat \<Rightarrow> string \<Rightarrow> string \<Rightarrow> ('e daemon, string) op" where
  "tm_CreateSnapshot sv now i label =
     call (admitted_task i) (\<lambda>_.
     need_zfs sv (\<lambda>z.
     call_wrap ''sync workspace'' (on_world (ws_sync z i)) (\<lambda>_.
     call (on_world (ws_snapshot z i label)) (\<lambda>name.
     call (on_store (state_RecordSnapshot i name now)) (\<lambda>_. ok name)))))"

text \<open>A running task is stopped first, under the same lock.\<close>

definition tm_RestoreSnapshot :: "'e services \<Rightarrow> nat \<Rightarrow> string \<Rightarrow> string \<Rightarrow> ('e daemon, unit) op" where
  "tm_RestoreSnapshot sv now i name =
     call (admitted_task i) (\<lambda>t.
     need_zfs sv (\<lambda>z.
     call (if Status t = ''running'' then stopTaskLocked sv now i else ok ()) (\<lambda>_.
     on_world (ws_rollback z i name))))"

section \<open>The environment of a VM\<close>

text \<open>The last line of a key wins, as in the map of the code.\<close>

definition unquote :: "string \<Rightarrow> string" where
  "unquote v =
     (if 2 \<le> length v \<and> ((hd v = CHR 0x22 \<and> last v = CHR 0x22) \<or> (hd v = CHR 0x27 \<and> last v = CHR 0x27))
      then butlast (tl v) else v)"

definition dotenv_line :: "string \<Rightarrow> (string \<times> string) option" where
  "dotenv_line rawLine =
     (let line = trim_space rawLine in
      if line = [] \<or> has_prefix line ''#'' then None
      else
        (let line = trim_prefix line ''export '' in
         case index_byte line (CHR ''='') of
           None \<Rightarrow> None
         | Some 0 \<Rightarrow> None
         | Some idx \<Rightarrow>
             (let key = trim_space (take idx line); val = unquote (drop (Suc idx) line) in
              if key = [] then None else Some (key, val))))"

definition parseDotEnv :: "string \<Rightarrow> (string \<times> string) list" where
  "parseDotEnv bytes =
     fold (\<lambda>raw m. case dotenv_line raw of None \<Rightarrow> m | Some (k, v) \<Rightarrow> AList.update k v m)
       (split_byte (CHR 0x0A) bytes) []"

definition merge :: "(string \<times> string) list \<Rightarrow> (string \<times> string) list \<Rightarrow> (string \<times> string) list" where
  "merge es m = fold (\<lambda>(k, v). AList.update k v) es m"

definition set_if :: "bool \<Rightarrow> string \<Rightarrow> string \<Rightarrow> (string \<times> string) list \<Rightarrow> (string \<times> string) list" where
  "set_if b k v m = (if b then AList.update k v m else m)"

definition buildVMEnvMetadata ::
    "string \<Rightarrow> string \<Rightarrow> string \<Rightarrow> (string \<times> string) list \<Rightarrow> string \<Rightarrow> string \<Rightarrow> string \<Rightarrow>
     static_network_config option \<Rightarrow> string \<Rightarrow> (string \<times> string) list \<times> (string \<times> string) list" where
  "buildVMEnvMetadata backend taskID taskName env authKey hostname staticIPArgs net dotEnv =
     (let md = [(''task-id'', taskID), (''task-name'', taskName)] in
      if backend = ''apple-container'' then
        (let e1 = (if dotEnv = [] then [] else parseDotEnv dotEnv);
             e2 = merge env e1;
             e3 = set_if (authKey \<noteq> []) ''TAILSCALE_AUTH_KEY'' authKey e2
         in (AList.update ''STOCKYARD_HOSTNAME'' hostname e3, md))
      else
        (let e1 = set_if (authKey \<noteq> []) ''_tailscale_auth_key'' authKey [];
             e2 = set_if (staticIPArgs \<noteq> []) ''_static_ip_args'' staticIPArgs e1
         in (e2, (case net of None \<Rightarrow> md
             | Some n \<Rightarrow> merge [(''_network_ip'', sn_ip n), (''_network_netmask'', sn_netmask n),
                 (''_network_gateway'', sn_gateway n), (''_network_dns'', sn_dns n)] md))))"

text \<open>
  The value is parsed into 32 bits; the product with 1024 is taken on 64 and truncated
  to 32.
\<close>

definition memory_value :: "string \<Rightarrow> int \<Rightarrow> 32 word" where
  "memory_value s factor =
     (case parse_int 32 s of None \<Rightarrow> 1024 | Some v \<Rightarrow> word_of_int (v * factor))"

definition parseMemory :: "string \<Rightarrow> 32 word" where
  "parseMemory s0 =
     (if s0 = [] then 1024
      else
        (let s = trim_space (to_lower s0) in
         if has_suffix s ''gb'' then memory_value (trim_suffix s ''gb'') 1024
         else if has_suffix s ''g'' then memory_value (trim_suffix s ''g'') 1024
         else if has_suffix s ''mb'' then memory_value (trim_suffix s ''mb'') 1
         else if has_suffix s ''m'' then memory_value (trim_suffix s ''m'') 1
         else memory_value s 1))"

section \<open>Creating\<close>

record create_request =
  rq_name :: string
  rq_command :: "string list"
  rq_env :: "(string \<times> string) list"
  rq_cpus :: "32 word"
  rq_memory :: "32 word"
  rq_no_tailscale :: bool
  rq_authkey :: string
  rq_ssh_keys :: "string list"
  rq_dotenv :: string
  rq_image :: string

text \<open>The registry as a validator: a miss lists the registered names.\<close>

definition registry_ValidateImage :: "string \<Rightarrow> (db, unit) op" where
  "registry_ValidateImage ref =
     attempt (state_GetImage ref) (\<lambda>r. case r of
       Inr _ \<Rightarrow> ok ()
     | Inl _ \<Rightarrow>
         attempt state_ListImages (\<lambda>l.
           (let available = (case l of
              Inl _ \<Rightarrow> ''(could not list registered images)''
            | Inr recs \<Rightarrow> if recs = [] then ''(none registered)''
                else join_with newline (sort (map im_name recs)))
            in fail (Msg (''image '' @ go_quote ref @ '' not found on host; available images:'' @ newline @ available)))))"

definition task_validator :: "'e services \<Rightarrow> (string \<Rightarrow> ('e daemon, unit) op) option" where
  "task_validator sv =
     (case sv_registry sv of
        Some _ \<Rightarrow> Some (\<lambda>ref. on_store (registry_ValidateImage ref))
      | None \<Rightarrow> map_option (\<lambda>v ref. on_world (v ref)) (sv_validator sv))"

definition resolveTaskImage ::
    "string \<Rightarrow> string \<Rightarrow> string \<Rightarrow> (string \<Rightarrow> ('s, unit) op) option \<Rightarrow> ('s, string) op" where
  "resolveTaskImage requested backendName defaultImage validator =
     (if requested = [] then ok defaultImage
      else case validator of
        None \<Rightarrow> fail (Msg (backendName @ '' backend does not support per-task images yet (PRI-2150 phase 2)''))
      | Some validate \<Rightarrow> call (validate requested) (\<lambda>_. ok requested))"

definition image_of_request :: "'e services \<Rightarrow> create_request \<Rightarrow> ('e daemon, string) op" where
  "image_of_request sv rq =
     (let backendName = (if sv_backend_name sv = [] then ''firecracker'' else sv_backend_name sv);
          defaultImage = (if backendName = ''apple-container'' then sv_apple_image sv else ''default'')
      in resolveTaskImage (rq_image rq) backendName defaultImage (task_validator sv))"

text \<open>What is undone when the creation fails; the address stays when the VM may still use it.\<close>

definition cleanupCreateTask :: "'e services \<Rightarrow> string \<Rightarrow> string \<Rightarrow> bool \<Rightarrow> ('e daemon, goerr option) op" where
  "cleanupCreateTask sv i vmID datasetCreated =
     attempt (case sv_backend sv of
         Some b \<Rightarrow> if vmID = [] then ok ()
           else wrap ''delete VM during task creation cleanup'' (on_world (backend_DeleteVM b vmID))
       | None \<Rightarrow> ok ()) (\<lambda>r1.
     attempt (case sv_zfs sv of
         Some z \<Rightarrow> if datasetCreated
           then wrap ''destroy workspace during task creation cleanup'' (on_world (ws_destroy z i)) else ok ()
       | None \<Rightarrow> ok ()) (\<lambda>r2.
     attempt (\<lambda>d. case pool d of
         Some p \<Rightarrow> if \<not> isl r1
           then wrap ''release IP allocation during task creation cleanup'' (on_pool (Release (sv_files sv) i) p) d
           else ok () d
       | None \<Rightarrow> ok () d) (\<lambda>r3.
     ok (errors_join (map (\<lambda>r. case r of Inl e \<Rightarrow> Some e | Inr _ \<Rightarrow> None) [r1, r2, r3])))))"

definition fail_create :: "'e services \<Rightarrow> string \<Rightarrow> string \<Rightarrow> bool \<Rightarrow> goerr \<Rightarrow> ('e daemon, 'a) op" where
  "fail_create sv i vmID dc e =
     call (cleanupCreateTask sv i vmID dc) (\<lambda>c.
       fail (Join (e # (case c of None \<Rightarrow> [] | Some e' \<Rightarrow> [e']))))"

text \<open>A call whose failure undoes the creation.\<close>

definition or_undo ::
    "'e services \<Rightarrow> string \<Rightarrow> string \<Rightarrow> bool \<Rightarrow> string \<Rightarrow> ('e daemon, 'b) op \<Rightarrow> ('b \<Rightarrow> ('e daemon, 'a) op) \<Rightarrow> ('e daemon, 'a) op" where
  "or_undo sv i vmID dc msg m k =
     attempt m (\<lambda>r. case r of Inl e \<Rightarrow> fail_create sv i vmID dc (Wrap msg e) | Inr b \<Rightarrow> k b)"

definition allocate_address ::
    "'e services \<Rightarrow> string \<Rightarrow> ('e daemon, string \<times> static_network_config option) op" where
  "allocate_address sv i = (\<lambda>d. case pool d of
     None \<Rightarrow> ok ([], None) d
   | Some p \<Rightarrow>
       call_wrap ''allocate static IP'' (on_pool (Allocate (sv_files sv) i) p) (\<lambda>_ d'.
         case pool d' of
           None \<Rightarrow> ok ([], None) d'
         | Some p' \<Rightarrow> ok (KernelIPArgs p' i, NetworkConfig p' i) d') d)"

definition create_workspace :: "'e services \<Rightarrow> string \<Rightarrow> (string \<times> bool \<Rightarrow> ('e daemon, 'a) op) \<Rightarrow> ('e daemon, 'a) op" where
  "create_workspace sv i k =
     (case sv_zfs sv of
        None \<Rightarrow> k ([], False)
      | Some z \<Rightarrow>
          if \<not> firecracker_mode sv then k ([], False)
          else
            or_undo sv i [] False ''failed to create ZFS dataset'' (on_world (ws_create z i)) (\<lambda>_.
            or_undo sv i [] True ''failed to get workspace mountpoint'' (on_world (ws_mountpoint z i)) (\<lambda>mp.
            k (mp, True))))"

definition env_key :: "string \<Rightarrow> string" where
  "env_key name = to_upper (replace_byte (CHR ''-'') ''_'' name)"

fun add_secrets :: "'e services \<Rightarrow> string list \<Rightarrow> (string \<times> string) list \<Rightarrow> ('e daemon, (string \<times> string) list) op" where
  "add_secrets sv [] env = ok env"
| "add_secrets sv (name # names) env =
     attempt (on_world (sv_secret sv name)) (\<lambda>r. case r of
       Inl _ \<Rightarrow> add_secrets sv names env
     | Inr secret \<Rightarrow> add_secrets sv names (AList.update (env_key name) secret env))"

definition ValidateAuthKey :: "string \<Rightarrow> goerr option" where
  "ValidateAuthKey key =
     (if key = [] then Some (Msg ''auth key is empty'')
      else if \<not> has_prefix key ''tskey-'' then Some (Msg (''invalid auth key format: should start with '' @ [CHR 0x27] @ ''tskey-'' @ [CHR 0x27]))
      else None)"

text \<open>The auth key and the hostname; both empty without Tailscale.\<close>

definition tailscale_setup :: "'e services \<Rightarrow> create_request \<Rightarrow> string \<Rightarrow> ('e daemon, string \<times> string) op" where
  "tailscale_setup sv rq i =
     (if rq_no_tailscale rq then ok ([], [])
      else
        attempt (if rq_authkey rq \<noteq> [] then ok (rq_authkey rq)
                 else on_world (sv_secret sv ''tailscale-auth-key'')) (\<lambda>r.
          (let key = (case r of Inl _ \<Rightarrow> [] | Inr k \<Rightarrow> k) in
           ok (if key = [] \<or> ValidateAuthKey key \<noteq> None then ([], []) else (key, ''stockyard-'' @ i)))))"

definition cloud_init_for :: "'e services \<Rightarrow> string \<Rightarrow> (string \<times> string) list \<Rightarrow> string \<Rightarrow> goerr + string" where
  "cloud_init_for sv hostname env workspacePath =
     (if firecracker_mode sv then
        Generate (sv_yaml sv) \<lparr>ci_hostname = hostname, ci_environment = env, ci_ssh_keys = [],
          ci_workspace = workspacePath, ci_post_create = []\<rparr>
      else Inr [])"

definition registered_image :: "'e services \<Rightarrow> string \<Rightarrow> ('e daemon, string \<times> string) op" where
  "registered_image sv img =
     (case sv_registry sv of
        None \<Rightarrow> ok ([], [])
      | Some (zpool, imagesPath) \<Rightarrow>
          call (on_store (state_GetImage img)) (\<lambda>rec.
            ok (zpool @ ''/'' @ imagesPath @ ''/'' @ im_dataset rec @ ''@base'', im_kernel_path rec)))"

definition create_vm ::
    "'e services \<Rightarrow> create_request \<Rightarrow> string \<Rightarrow> bool \<Rightarrow> vmb_config \<Rightarrow> (vm_info \<Rightarrow> ('e daemon, 'a) op) \<Rightarrow> ('e daemon, 'a) op" where
  "create_vm sv rq i dc cfg k =
     (case sv_backend sv of
        None \<Rightarrow> k \<lparr>vi_id = [], vi_ip = [], vi_cid = 0, vi_vsock = []\<rparr>
      | Some b \<Rightarrow> or_undo sv i i dc ''failed to create VM'' (on_world (backend_CreateVM b cfg)) k)"

definition new_task :: "create_request \<Rightarrow> string \<Rightarrow> nat \<Rightarrow> string \<Rightarrow> string \<Rightarrow> vm_info \<Rightarrow> task" where
  "new_task rq i now img tsHost v =
     \<lparr>ID = i, Name = rq_name rq, Command = join_with '' '' (rq_command rq), Status = ''running'',
      VMID = vi_id v, CID = vi_cid v, VsockPath = vi_vsock v, IP = vi_ip v, Owner = [],
      TailscaleHostname = tsHost, Image = img, CreatedAt = now, StoppedAt = None\<rparr>"

text \<open>\<open>i\<close> is the generated task id and \<open>now\<close> the time of the record.\<close>

definition tm_CreateTask :: "'e services \<Rightarrow> create_request \<Rightarrow> string \<Rightarrow> nat \<Rightarrow> ('e daemon, task) op" where
  "tm_CreateTask sv rq i now =
     (let cpus = (if sint (rq_cpus rq) \<le> 0 then 2 else rq_cpus rq);
          memory = (if sint (rq_memory rq) \<le> 0 then 1024 else rq_memory rq);
          hostname = ''stockyard-'' @ i
      in
      call (image_of_request sv rq) (\<lambda>img.
      call (allocate_address sv i) (\<lambda>(staticIPArgs, net).
      create_workspace sv i (\<lambda>(workspacePath, dc).
      call (add_secrets sv [''anthropic-api-key'', ''github-token''] (rq_env rq)) (\<lambda>env.
      call (tailscale_setup sv rq i) (\<lambda>(authKey, tsHost).
      or_undo sv i [] dc ''failed to generate cloud-init config''
        (\<lambda>d. (cloud_init_for sv hostname env workspacePath, d)) (\<lambda>cloudInit.
      or_undo sv i [] dc (''image '' @ go_quote img @ '' disappeared during task creation'')
        (registered_image sv img) (\<lambda>(snapshot, kernel).
      create_vm sv rq i dc
        (case buildVMEnvMetadata (sv_backend_name sv) i (rq_name rq) env authKey hostname staticIPArgs net (rq_dotenv rq) of
           (vmEnv, vmMetadata) \<Rightarrow>
             \<lparr>vb_id = i, vb_vcpu = cpus, vb_memory = memory, vb_kernel = kernel, vb_rootfs = [], vb_rootfs_snapshot = snapshot,
              vb_cloud_init = cloudInit, vb_ssh_keys = rq_ssh_keys rq, vb_dotenv = rq_dotenv rq,
              vb_env = vmEnv, vb_metadata = vmMetadata, vb_image = img\<rparr>) (\<lambda>v.
      (let t = new_task rq i now img tsHost v in
      or_undo sv i (vi_id v) dc ''failed to record task'' (on_store (state_CreateTask t)) (\<lambda>_.
      pure_step (record_activity sv (VMStarted i (rq_name rq)))
        (pure_step (start_tailing sv i (vi_id v))
          (ignore (if tsHost \<noteq> [] then on_world (sv_wait_peer sv tsHost) else ok ()) (ok t))))))))))))))"

end
