(* ===== verification/Reconcile.thy ===== *)
theory Reconcile
  imports Tasks
begin

text \<open>
  The reconciliation at the start of the daemon (\<open>reconcileRunningVMs\<close> and
  \<open>reconcileViaBackend\<close> of \<open>pkg/daemon/daemon.go\<close>): which tasks become
  stopped because their VM died while the daemon was down.
\<close>

section \<open>The operations\<close>

text \<open>\<open>fmt.Sscanf(s, "%d", &pid)\<close>: blanks other than line ends, a sign, and digits that fit an \<open>int\<close>;
  what follows is not looked at.\<close>

definition sscan_int :: "string \<Rightarrow> int option" where
  "sscan_int s =
     (let body = dropWhile (\<lambda>c. is_space c \<and> c \<noteq> CHR 0x0A) s;
          sign = (case body of c # _ \<Rightarrow> if c = CHR ''-'' \<or> c = CHR ''+'' then [c] else [] | [] \<Rightarrow> []);
          ds = takeWhile is_digit (drop (length sign) body)
      in if ds = [] then None else parse_int 64 (sign @ ds))"

text \<open>
  What the daemon asks: a PID file, signal 0 to a process, the backend's list of VMs (\<open>None\<close> without a
  backend), and the log follower of a backend that has them.
\<close>

record 'e reconcile_host =
  rh_pid_file :: "string \<Rightarrow> ('e env, string) op"
  rh_signal0 :: "int \<Rightarrow> ('e env, unit) op"
  rh_list :: "('e env, vm_state list) op option"
  rh_follow :: "(string \<Rightarrow> ('e env, unit) op) option"

definition pid_path :: "string \<Rightarrow> string \<Rightarrow> string" where
  "pid_path dataDir i = path_join [path_join [dataDir, ''vms''], ''stockyard'', i, ''firecracker.pid'']"

definition pid_alive :: "'e reconcile_host \<Rightarrow> string \<Rightarrow> task \<Rightarrow> ('e daemon, bool) op" where
  "pid_alive h dataDir t =
     attempt (on_world (rh_pid_file h (pid_path dataDir (ID t)))) (\<lambda>r. case r of
       Inl _ \<Rightarrow> ok False
     | Inr pidData \<Rightarrow> (case sscan_int pidData of
         None \<Rightarrow> ok False
       | Some pid \<Rightarrow> attempt (on_world (rh_signal0 h pid)) (\<lambda>r. ok (\<not> isl r))))"

text \<open>A VM the backend runs gets its log follower back, whose failure is only logged.\<close>

definition backend_alive :: "'e reconcile_host \<Rightarrow> string list \<Rightarrow> task \<Rightarrow> ('e daemon, bool) op" where
  "backend_alive h running t =
     (if VMID t \<in> set running then
        (case rh_follow h of
           Some follow \<Rightarrow> if VMID t \<noteq> [] then ignore (on_world (follow (VMID t))) (ok True) else ok True
         | None \<Rightarrow> ok True)
      else ok False)"

fun reconcile_each :: "(task \<Rightarrow> ('e daemon, bool) op) \<Rightarrow> nat \<Rightarrow> task list \<Rightarrow> ('e daemon, unit) op" where
  "reconcile_each alive now [] = ok ()"
| "reconcile_each alive now (t # ts) =
     call (alive t) (\<lambda>a.
       if a then reconcile_each alive now ts
       else ignore (on_store (state_UpdateTaskStatus (ID t) ''stopped'' now)) (reconcile_each alive now ts))"

definition reconcileViaBackend :: "'e reconcile_host \<Rightarrow> nat \<Rightarrow> task list \<Rightarrow> ('e daemon, unit) op" where
  "reconcileViaBackend h now ts =
     (case rh_list h of
        None \<Rightarrow> ok ()
      | Some listVMs \<Rightarrow> attempt (on_world listVMs) (\<lambda>r. case r of
          Inl _ \<Rightarrow> ok ()
        | Inr states \<Rightarrow>
            reconcile_each (backend_alive h (map vs_id (filter (\<lambda>s. vs_status s = ''running'') states))) now ts))"

definition reconcileRunningVMs :: "'e services \<Rightarrow> 'e reconcile_host \<Rightarrow> nat \<Rightarrow> ('e daemon, unit) op" where
  "reconcileRunningVMs sv h now =
     attempt (on_store (state_ListTasks ''running'')) (\<lambda>r. case r of
       Inl _ \<Rightarrow> ok ()
     | Inr ts \<Rightarrow>
         if ts = [] then ok ()
         else if sv_backend_name sv = ''apple-container'' then reconcileViaBackend h now ts
         else reconcile_each (pid_alive h (sv_data_dir sv)) now ts)"

section \<open>What is stopped\<close>

definition stopped_at :: "nat \<Rightarrow> task \<Rightarrow> task" where
  "stopped_at now t = t\<lparr>Status := ''stopped'', StoppedAt := Some now\<rparr>"

lemma update_no_fault:
  assumes "db_faults x = []"
  shows "db_faults (snd (state_UpdateTaskStatus i st now x)) = []"
  using assms by (auto simp: state_UpdateTaskStatus_def call_wrap_def call_def wrap_def update_rows_def sql_stmt_no_fault
      split: option.splits)

lemma update_scannable:
  assumes "scannable x"
  shows "scannable (snd (state_UpdateTaskStatus i st now x))"
  using store_step_refines [of x "StatusReq i st now"] assms by (cases "state_UpdateTaskStatus i st now x") (auto simp: refines_map_def)

text \<open>\<open>alive\<close> answers as \<open>P\<close> says and leaves the database, the pool and the observers alone.\<close>

definition answers :: "(task \<Rightarrow> ('e daemon, bool) op) \<Rightarrow> (task \<Rightarrow> bool) \<Rightarrow> bool" where
  "answers alive P \<longleftrightarrow> (\<forall>t d. \<exists>w. alive t d = (Inr (P t), d\<lparr>world := w\<rparr>))"

definition only_stops :: "(string \<Rightarrow> bool) \<Rightarrow> nat \<Rightarrow> 'e daemon \<Rightarrow> 'e daemon \<Rightarrow> bool" where
  "only_stops dead now d d' \<longleftrightarrow>
     task_of (store d') = (\<lambda>i. if dead i then map_option (stopped_at now) (task_of (store d) i) else task_of (store d) i) \<and>
     (\<exists>x w. d' = d\<lparr>store := x, world := w\<rparr>)"

lemma reconcile_each_stops:
  assumes "answers alive P" "scannable (store d)" "db_faults (store d) = []"
    and "\<forall>t \<in> set ts. task_of (store d) (ID t) \<noteq> None"
  shows "\<exists>d'. reconcile_each alive now ts d = (Inr (), d') \<and> only_stops (\<lambda>i. \<exists>t \<in> set ts. ID t = i \<and> \<not> P t) now d d'"
  using assms(2-4)
proof (induction ts arbitrary: d)
  case Nil
  then show ?case by (cases d) (simp add: only_stops_def)
next
  case (Cons t ts)
  obtain w where w: "alive t d = (Inr (P t), d\<lparr>world := w\<rparr>)" using assms(1) by (auto simp: answers_def)
  show ?case
  proof (cases "P t")
    case True
    obtain d' where d': "reconcile_each alive now ts (d\<lparr>world := w\<rparr>) = (Inr (), d')"
      "only_stops (\<lambda>i. \<exists>t \<in> set ts. ID t = i \<and> \<not> P t) now (d\<lparr>world := w\<rparr>) d'"
      using Cons.IH [of "d\<lparr>world := w\<rparr>"] Cons.prems by auto
    then have "only_stops (\<lambda>i. \<exists>t' \<in> set (t # ts). ID t' = i \<and> \<not> P t') now d d'"
      using True by (auto simp: only_stops_def fun_eq_iff)
    with d' w True show ?thesis by (auto simp: call_Inr)
  next
    case False
    obtain r x where x: "state_UpdateTaskStatus (ID t) ''stopped'' now (store d) = (r, x)" by fastforce
    obtain t' where t': "task_of (store d) (ID t) = Some t'" using Cons.prems(3) by auto
    have "''stopped'' \<noteq> TaskStatusCleanupPending" by (simp add: TaskStatusCleanupPending_def)
    with update_run [OF Cons.prems(2) t' Cons.prems(1) _ x]
    have tasks: "task_of x = (task_of (store d))(ID t \<mapsto> stopped_at now t')" by (simp add: stopped_at_def)
    let ?d = "d\<lparr>world := w, store := x\<rparr>"
    have step: "reconcile_each alive now (t # ts) d = reconcile_each alive now ts ?d"
      using False w x by (simp add: call_Inr ignore_def on_store_def zoom_def)
    have "scannable x" "db_faults x = []"
      using update_scannable [OF Cons.prems(1), of "ID t" "''stopped''" now] update_no_fault [OF Cons.prems(2), of "ID t" "''stopped''" now] x
      by simp_all
    moreover have "\<forall>t \<in> set ts. task_of (store ?d) (ID t) \<noteq> None" using Cons.prems(3) tasks by simp
    ultimately obtain d' where d': "reconcile_each alive now ts ?d = (Inr (), d')"
      "only_stops (\<lambda>i. \<exists>t \<in> set ts. ID t = i \<and> \<not> P t) now ?d d'"
      using Cons.IH [of ?d] by auto
    then have "only_stops (\<lambda>i. \<exists>t' \<in> set (t # ts). ID t' = i \<and> \<not> P t') now d d'"
      using False t' by (auto simp: only_stops_def tasks stopped_at_def fun_eq_iff)
    with d' step show ?thesis by auto
  qed
qed

text \<open>The listing gives the tasks of the map, each once the identifiers are unique.\<close>

lemma scan_all_set:
  assumes "\<forall>r \<in> set rs. row_image r \<noteq> None"
  shows "\<exists>ts. scan_all rs = Inr ts \<and> set ts = {t. \<exists>r \<in> set rs. scan_task r = Inr t}"
  using assms by (induction rs) (auto simp: scan_task_def split: sum.splits)

lemma task_of_ID: "task_of d i = Some t \<Longrightarrow> ID t = i"
  by (cases "find_row i (tasks d)") (auto simp: task_of_def scan_task_def dest: find_row_id split: option.splits)

lemma find_row_unique:
  "distinct (map row_id rs) \<Longrightarrow> r \<in> set rs \<Longrightarrow> find_row (row_id r) rs = Some r"
  by (induction rs) (auto simp: find_row_def)

lemma ListTasks_run:
  assumes "scannable d" "db_faults d = []" "distinct (map row_id (tasks d))" "st \<noteq> []"
  shows "\<exists>ts. state_ListTasks st d = (Inr ts, d) \<and> set ts = {t. task_of d (ID t) = Some t \<and> Status t = st}"
proof -
  let ?rs = "sort_key (\<lambda>r. - int (row_created_at r)) (filter (\<lambda>r. st = [] \<or> row_status r = st) (tasks d))"
  obtain ts where ts: "scan_all ?rs = Inr ts" "set ts = {t. \<exists>r \<in> set ?rs. scan_task r = Inr t}"
    using scan_all_set [of ?rs] assms(1) by (auto simp: scannable_def)
  have row: "scan_task r = Inr t \<Longrightarrow> ID t = row_id r \<and> Status t = row_status r" for r t
    by (auto simp: scan_task_def split: option.splits)
  have "set ts = {t. task_of d (ID t) = Some t \<and> Status t = st}"
  proof (intro set_eqI iffI)
    fix t assume "t \<in> set ts"
    then obtain r where r: "r \<in> set (tasks d)" "row_status r = st" "scan_task r = Inr t" using ts(2) assms(4) by auto
    then show "t \<in> {t. task_of d (ID t) = Some t \<and> Status t = st}"
      using find_row_unique [OF assms(3) r(1)] row [OF r(3)] by (simp add: task_of_def)
  next
    fix t assume "t \<in> {t. task_of d (ID t) = Some t \<and> Status t = st}"
    then obtain r where "find_row (ID t) (tasks d) = Some r" "scan_task r = Inr t" "Status t = st"
      by (auto simp: task_of_def split: option.splits sum.splits)
    then show "t \<in> set ts" using ts(2) row by (auto dest: find_row_in)
  qed
  then show ?thesis using ts(1) assms(2)
    by (intro exI [of _ ts]) (simp add: state_ListTasks_def call_wrap_def call_def wrap_def sql_stmt_no_fault)
qed

text \<open>The two ways to ask for a VM, when files and processes do not change while the daemon starts.\<close>

lemma pid_alive_answers:
  assumes "\<And>p w. rh_pid_file h p w = (pidfile p, w)" "\<And>pid w. rh_signal0 h pid w = (sig pid, w)"
  shows "answers (pid_alive h dir) (\<lambda>t. case pidfile (pid_path dir (ID t)) of
     Inl _ \<Rightarrow> False | Inr s \<Rightarrow> (case sscan_int s of None \<Rightarrow> False | Some pid \<Rightarrow> \<not> isl (sig pid)))"
  unfolding answers_def
proof (intro allI)
  fix t and d :: "'a daemon"
  have same: "d\<lparr>world := world d\<rparr> = d" by simp
  show "\<exists>w. pid_alive h dir t d = (Inr (case pidfile (pid_path dir (ID t)) of
     Inl _ \<Rightarrow> False | Inr s \<Rightarrow> (case sscan_int s of None \<Rightarrow> False | Some pid \<Rightarrow> \<not> isl (sig pid))), d\<lparr>world := w\<rparr>)"
    using same by (intro exI [of _ "world d"])
      (auto simp: pid_alive_def attempt_def on_world_def zoom_def assms split: sum.split option.split)
qed

lemma backend_alive_answers: "answers (backend_alive h running) (\<lambda>t. VMID t \<in> set running)"
  unfolding answers_def
proof (intro allI)
  fix t and d :: "'a daemon"
  have "backend_alive h running t d = (Inr (VMID t \<in> set running), d) \<or>
      (\<exists>m :: ('a env, unit) op. backend_alive h running t d = (Inr (VMID t \<in> set running), snd (on_world m d)))"
    by (auto simp: backend_alive_def ignore_def split: option.split)
  moreover have "d = d\<lparr>world := world d\<rparr>" by simp
  moreover have "snd (on_world m d) = d\<lparr>world := snd (m (world d))\<rparr>" for m :: "('a env, unit) op"
    by (simp add: on_world_def zoom_def split: prod.split)
  ultimately show "\<exists>w. backend_alive h running t d = (Inr (VMID t \<in> set running), d\<lparr>world := w\<rparr>)" by metis
qed

text \<open>What a task needs to stay \<open>running\<close>: its PID file names a process, or the backend lists its VM as running;
  no backend, or one that cannot list, counts for all.\<close>

definition vm_found :: "'e services \<Rightarrow> (string \<Rightarrow> goerr + string) \<Rightarrow> (int \<Rightarrow> goerr + unit) \<Rightarrow> (goerr + vm_state list) option \<Rightarrow> task \<Rightarrow> bool" where
  "vm_found sv pidfile sig listed t =
     (if sv_backend_name sv = ''apple-container'' then
        (case listed of Some (Inr states) \<Rightarrow> (\<exists>s \<in> set states. vs_id s = VMID t \<and> vs_status s = ''running'') | _ \<Rightarrow> True)
      else
        (case pidfile (pid_path (sv_data_dir sv) (ID t)) of
           Inl _ \<Rightarrow> False | Inr s \<Rightarrow> (case sscan_int s of None \<Rightarrow> False | Some pid \<Rightarrow> \<not> isl (sig pid))))"

lemma only_stops_refl: "\<not> (\<exists>i. dead i \<and> task_of (store d) i \<noteq> None) \<Longrightarrow> only_stops dead now d d"
  by (cases d) (auto simp: only_stops_def fun_eq_iff)

lemma only_stops_world: "only_stops dead now (d\<lparr>world := w\<rparr>) d' \<Longrightarrow> only_stops dead now d d'"
  by (auto simp: only_stops_def fun_eq_iff)


text \<open>Two running tasks: the process of the first is there, the second has no PID file.\<close>

definition running_row :: "string \<Rightarrow> task_row" where
  "running_row i = \<lparr>row_id = i, row_name = None, row_command = [], row_status = ''running'', row_vmid = Some i, row_cid = None,
     row_vsock_path = None, row_ip = None, row_owner = None, row_tailscale_hostname = None, row_image = Some ''default'',
     row_created_at = 1, row_stopped_at = None\<rparr>"

definition crashed_daemon :: "unit daemon" where
  "crashed_daemon = \<lparr>store = \<lparr>tasks = [running_row ''a'', running_row ''b''], snapshots = [], images = [], status_callback = False,
     status_events = [], db_faults = []\<rparr>, pool = None, world = \<lparr>ctx = None, outside = ()\<rparr>, activities = [], tailers = [], polled = []\<rparr>"

definition crashed_files :: "string \<Rightarrow> goerr + string" where
  "crashed_files p = (if p = ''/data/vms/stockyard/a/firecracker.pid'' then Inr ''4711'' else Inl (Msg ''no such file''))"

definition crashed_host :: "unit reconcile_host" where
  "crashed_host = \<lparr>rh_pid_file = (\<lambda>p w. (crashed_files p, w)), rh_signal0 = (\<lambda>pid w. (Inr (), w)), rh_list = None, rh_follow = None\<rparr>"

definition pid_services :: "unit services" where
  "pid_services = \<lparr>sv_backend_name = ''firecracker'', sv_apple_image = [], sv_data_dir = ''/data'', sv_backend = None,
     sv_validator = None, sv_registry = None, sv_zfs = None,
     sv_files = \<lparr>mkdirAll = \<lambda>_ w. (Inr (), w), createTemp = \<lambda>_ _ w. (Inr [], w), writeFile = \<lambda>_ _ w. (Inr 0, w),
       syncFile = \<lambda>_ w. (Inr (), w), closeFile = \<lambda>_ w. (Inr (), w), renameFile = \<lambda>_ _ w. (Inr (), w),
       openDir = \<lambda>_ w. (Inr [], w), removeFile = \<lambda>_ w. (Inr (), w)\<rparr>,
     sv_secret = \<lambda>_ w. (Inr [], w), sv_yaml = \<lambda>_. Inr [], sv_wait_peer = \<lambda>_ w. (Inr (), w), sv_feed = False,
     sv_tailer = False, sv_poller = False\<rparr>"

lemma crashed_paths: "pid_path ''/data'' ''a'' = ''/data/vms/stockyard/a/firecracker.pid''"
  "pid_path ''/data'' ''b'' = ''/data/vms/stockyard/b/firecracker.pid''"
  by code_simp+

lemma crashed_pid: "sscan_int ''4711'' = Some 4711"
  by (simp add: sscan_int_def parse_int_def parse_digits_def is_digit_def is_space_def digit_val_def)


end
