(* ===== verification/Wire.thy ===== *)
theory Wire
  imports Json
begin

text \<open>
  Byte streams of the guest protocols: a connection with its incoming bytes and the bytes
  written so far, writes that can fail halfway, and 32-bit length fields in both byte orders.
\<close>

section \<open>Connections\<close>

text \<open>
  A write fault says how many bytes were written before the write failed; \<open>None\<close> and an
  empty script are writes that succeed. After the incoming bytes comes the end of the stream.
\<close>

record conn =
  incoming :: string
  written :: string
  write_faults :: "nat option list"

definition write_bytes :: "string \<Rightarrow> (conn, unit) op" where
  "write_bytes bs c =
     (case write_faults c of
        Some k # fs \<Rightarrow> (Inl (Msg ''write failed''), c\<lparr>written := written c @ take k bs, write_faults := fs\<rparr>)
      | None # fs \<Rightarrow> (Inr (), c\<lparr>written := written c @ bs, write_faults := fs\<rparr>)
      | [] \<Rightarrow> (Inr (), c\<lparr>written := written c @ bs\<rparr>))"

text \<open>\<open>io.ReadFull\<close>: nothing at all is EOF, a part an unexpected one.\<close>

definition read_full :: "nat \<Rightarrow> (string, string) op" where
  "read_full n s =
     (if n \<le> length s then (Inr (take n s), drop n s)
      else (Inl (Sentinel (if s = [] then ErrEOF else ErrUnexpectedEOF)), []))"

section \<open>Length fields\<close>

definition byte :: "nat \<Rightarrow> char" where
  "byte n = char_of n"

definition le32 :: "nat \<Rightarrow> string" where
  "le32 n = [byte n, byte (n div 256), byte (n div 65536), byte (n div 16777216)]"

definition be32_bytes :: "nat \<Rightarrow> string" where
  "be32_bytes n = rev (le32 n)"

fun le_value :: "string \<Rightarrow> nat" where
  "le_value [] = 0"
| "le_value (b # bs) = of_char b + 256 * le_value bs"

definition be_value :: "string \<Rightarrow> nat" where
  "be_value bs = le_value (rev bs)"

lemma length_le32 [simp]: "length (le32 n) = 4"
  by (simp add: le32_def)

lemma length_be32_bytes [simp]: "length (be32_bytes n) = 4"
  by (simp add: be32_bytes_def)

lemma digits_256: "(n :: nat) mod 256 + 256 * (n div 256 mod 256 + 256 * (n div 65536 mod 256 + 256 * (n div 16777216 mod 256))) =
    n mod 4294967296"
proof -
  have 1: "n mod 65536 = n mod 256 + 256 * (n div 256 mod 256)" using mod_mult2_eq [of n 256 256] by simp
  have 2: "n mod 16777216 = n mod 65536 + 65536 * (n div 65536 mod 256)" using mod_mult2_eq [of n 65536 256] by simp
  have 3: "n mod 4294967296 = n mod 16777216 + 16777216 * (n div 16777216 mod 256)" using mod_mult2_eq [of n 16777216 256] by simp
  show ?thesis using 1 2 3 by simp
qed

lemma le_value_le32 [simp]: "le_value (le32 n) = n mod 2 ^ 32"
  using digits_256 [of n] by (simp add: le32_def byte_def)

lemma be_value_be32 [simp]: "be_value (be32_bytes n) = n mod 2 ^ 32"
  by (simp add: be_value_def be32_bytes_def)

lemma read_full_append: "read_full (length x) (x @ y) = (Inr x, y)"
  by (simp add: read_full_def)

lemma read_full_append' [simp]: "length x = n \<Longrightarrow> read_full n (x @ y) = (Inr x, y)"
  by (simp add: read_full_def)

lemma read_full_short: "length s < n \<Longrightarrow> \<exists>e. read_full n s = (Inl e, [])"
  by (simp add: read_full_def)

lemma write_bytes_written:
  assumes "write_bytes bs c = (r, c')"
  obtains k where "written c' = written c @ take k bs" "r = Inr () \<Longrightarrow> length bs \<le> k" "incoming c' = incoming c"
proof (cases "write_faults c")
  case Nil
  with assms that [of "length bs"] show ?thesis by (auto simp: write_bytes_def)
next
  case (Cons f fs)
  with assms that [of "case f of None \<Rightarrow> length bs | Some k \<Rightarrow> k"] show ?thesis
    by (cases f) (auto simp: write_bytes_def)
qed

text \<open>A chain of writes leaves a prefix of what it writes, all of it when it succeeds.\<close>

lemma written_chain:
  assumes "call_wrap msg (write_bytes bs) (\<lambda>_. m) c = (r, c')"
    and "\<And>c1. m c1 = (r, c') \<Longrightarrow> \<exists>k. written c' = written c1 @ take k x \<and> (r = Inr () \<longrightarrow> length x \<le> k)"
  shows "\<exists>k. written c' = written c @ take k (bs @ x) \<and> (r = Inr () \<longrightarrow> length (bs @ x) \<le> k)"
proof -
  obtain q c1 where w: "write_bytes bs c = (q, c1)" by fastforce
  obtain j where j: "written c1 = written c @ take j bs" "q = Inr () \<longrightarrow> length bs \<le> j"
    using write_bytes_written [OF w] by (metis (no_types))
  show ?thesis
  proof (cases q)
    case (Inl e)
    then have "r = Inl (Wrap msg e)" "c' = c1" using assms(1) w by (simp_all add: call_wrap_Inl [where m = "write_bytes bs"])
    then show ?thesis using j(1) by (intro exI [of _ "min j (length bs)"]) (simp add: min_def)
  next
    case (Inr y)
    then have "m c1 = (r, c')" using assms(1) w by (simp add: call_wrap_Inr [where m = "write_bytes bs"])
    then obtain k where "written c' = written c1 @ take k x" "r = Inr () \<longrightarrow> length x \<le> k" using assms(2) by blast
    then show ?thesis using j Inr by (intro exI [of _ "length bs + k"]) auto
  qed
qed

lemma written_done: "ok () c1 = (r, c') \<Longrightarrow> \<exists>k. written c' = written c1 @ take k [] \<and> (r = Inr () \<longrightarrow> length ([] :: string) \<le> k)"
  by simp

end
