(* ===== verification/Snapshot_Wire.thy ===== *)
theory Snapshot_Wire
  imports Wire
begin

text \<open>
  The snapshot protocol: \<open>pkg/vsock/protocol.go\<close>, one connection of the server in
  \<open>pkg/vsock/listener.go\<close> and the guest's request in
  \<open>cmd/stockyard-snapshot/main.go\<close>. The guest reports success only when the host's
  handler was called with exactly its label and succeeded, whatever breaks in between.
\<close>

section \<open>The protocol\<close>

definition MaxLabelLength :: nat where "MaxLabelLength = 1024"
definition MaxMessageLength :: nat where "MaxMessageLength = 4096"

definition EncodeSnapshotRequest :: "string \<Rightarrow> (conn, unit) op" where
  "EncodeSnapshotRequest label =
     call_wrap ''write label length'' (write_bytes (le32 (length label))) (\<lambda>_.
     call_wrap ''write label'' (write_bytes label) (\<lambda>_. ok ()))"

definition DecodeSnapshotRequest :: "(string, string) op" where
  "DecodeSnapshotRequest =
     call_wrap ''read label length'' (read_full 4) (\<lambda>lenBuf.
     let len = le_value lenBuf in
     if MaxLabelLength < len then fail (Msg (''label too long: '' @ itoa len))
     else call_wrap ''read label'' (read_full len) ok)"

definition EncodeSnapshotResponse :: "bool \<Rightarrow> string \<Rightarrow> (conn, unit) op" where
  "EncodeSnapshotResponse success message =
     call_wrap ''write status'' (write_bytes [if success then CHR 0x00 else CHR 0x01]) (\<lambda>_.
     call_wrap ''write message length'' (write_bytes (le32 (length message))) (\<lambda>_.
     call_wrap ''write message'' (write_bytes message) (\<lambda>_. ok ())))"

definition DecodeSnapshotResponse :: "(string, bool \<times> string) op" where
  "DecodeSnapshotResponse =
     call_wrap ''read status'' (read_full 1) (\<lambda>status.
     call_wrap ''read message length'' (read_full 4) (\<lambda>lenBuf.
     let len = le_value lenBuf in
     if len = 0 then ok (hd status = CHR 0x00, [])
     else if MaxMessageLength < len then fail (Msg (''message too long: '' @ itoa len))
     else call_wrap ''read message'' (read_full len) (\<lambda>message. ok (hd status = CHR 0x00, message))))"

section \<open>The server's connection\<close>

text \<open>A response that cannot be sent is only logged. \<open>txt\<close> is the error's text.\<close>

definition respond :: "bool \<Rightarrow> string \<Rightarrow> conn \<Rightarrow> conn" where
  "respond success message c = snd (EncodeSnapshotResponse success message c)"

definition handleConnection ::
    "(goerr \<Rightarrow> string) \<Rightarrow> (string \<Rightarrow> string \<Rightarrow> ('w, unit) op) \<Rightarrow> string \<Rightarrow> conn \<times> 'w \<Rightarrow> conn \<times> 'w" where
  "handleConnection txt handler vmID = (\<lambda>(c, w).
     case DecodeSnapshotRequest (incoming c) of
       (Inl e, rest) \<Rightarrow> (respond False (txt e) (c\<lparr>incoming := rest\<rparr>), w)
     | (Inr label, rest) \<Rightarrow> (case handler vmID label w of
         (Inl e, w') \<Rightarrow> (respond False (txt e) (c\<lparr>incoming := rest\<rparr>), w')
       | (Inr _, w') \<Rightarrow> (respond True [] (c\<lparr>incoming := rest\<rparr>), w')))"

section \<open>The guest\<close>

text \<open>\<open>sanitizeLabel\<close> over the code points of the argument.\<close>

definition label_char :: "nat \<Rightarrow> bool" where
  "label_char c \<longleftrightarrow> 97 \<le> c \<and> c \<le> 122 \<or> 65 \<le> c \<and> c \<le> 90 \<or> 48 \<le> c \<and> c \<le> 57 \<or> c = 45 \<or> c = 95 \<or> c = 46"

definition sanitizeLabel :: "nat list \<Rightarrow> string" where
  "sanitizeLabel cs = map (\<lambda>c. if label_char c then char_of c else CHR ''-'') cs"

definition send_request :: "string \<Rightarrow> (conn, unit) op" where
  "send_request label =
     call_wrap ''failed to send label length'' (write_bytes (le32 (length label))) (\<lambda>_.
     call_wrap ''failed to send label'' (write_bytes label) (\<lambda>_. ok ()))"

definition reply_result :: "char \<Rightarrow> nat \<Rightarrow> (string, unit) op" where
  "reply_result status len =
     call (if 0 < len \<and> len < 65536 then
             call_wrap ''failed to read message'' (read_full len) (\<lambda>msg.
               if status \<noteq> CHR 0x00 then fail (Msg (''snapshot failed: '' @ msg)) else ok ())
           else ok ()) (\<lambda>_.
     if status \<noteq> CHR 0x00 then fail (Msg (''snapshot failed with status '' @ itoa (of_char status))) else ok ())"

definition read_reply :: "(string, unit) op" where
  "read_reply =
     call_wrap ''failed to read status'' (read_full 1) (\<lambda>status.
     call_wrap ''failed to read message length'' (read_full 4) (\<lambda>lenBuf. reply_result (hd status) (le_value lenBuf)))"

text \<open>
  One exchange: the guest sends its request, the host reads what arrived until the end of
  the guest's stream, and the guest, if it could send, reads what the host sent.
\<close>

definition requestSnapshot ::
    "(goerr \<Rightarrow> string) \<Rightarrow> (string \<Rightarrow> string \<Rightarrow> ('w, unit) op) \<Rightarrow> string \<Rightarrow> nat option list \<Rightarrow> nat option list \<Rightarrow> string \<Rightarrow> ('w, unit) op" where
  "requestSnapshot txt handler vmID guestFaults hostFaults label w =
     (case send_request label \<lparr>incoming = [], written = [], write_faults = guestFaults\<rparr> of
        (sent, c) \<Rightarrow> (case handleConnection txt handler vmID (\<lparr>incoming = written c, written = [], write_faults = hostFaults\<rparr>, w) of
          (h, w') \<Rightarrow> (case sent of Inl e \<Rightarrow> (Inl e, w') | Inr _ \<Rightarrow> (fst (read_reply (written h)), w'))))"

section \<open>What arrives\<close>

lemma send_request_written:
  assumes "send_request label \<lparr>incoming = [], written = [], write_faults = faults\<rparr> = (r, c')"
  obtains k where "written c' = take k (le32 (length label) @ label)" "r = Inr () \<longrightarrow> length (le32 (length label) @ label) \<le> k"
proof -
  have "\<exists>k. written c' = written c1 @ take k label \<and> (r = Inr () \<longrightarrow> length label \<le> k)"
    if "call_wrap ''failed to send label'' (write_bytes label) (\<lambda>_. ok ()) c1 = (r, c')" for c1
    using written_chain [OF that written_done] by simp
  from written_chain [OF assms [unfolded send_request_def] this] that show ?thesis by auto
qed

lemma respond_written: "\<exists>k. written (respond b msg c) = written c @ take k ((if b then CHR 0x00 else CHR 0x01) # le32 (length msg) @ msg)"
proof -
  obtain r c' where run: "EncodeSnapshotResponse b msg c = (r, c')" by fastforce
  have "\<exists>k. written c' = written c1 @ take k msg \<and> (r = Inr () \<longrightarrow> length msg \<le> k)"
    if "call_wrap ''write message'' (write_bytes msg) (\<lambda>_. ok ()) c1 = (r, c')" for c1
    using written_chain [OF that written_done] by simp
  then have "\<exists>k. written c' = written c1 @ take k (le32 (length msg) @ msg) \<and> (r = Inr () \<longrightarrow> length (le32 (length msg) @ msg) \<le> k)"
    if "call_wrap ''write message length'' (write_bytes (le32 (length msg))) (\<lambda>_. call_wrap ''write message'' (write_bytes msg) (\<lambda>_. ok ())) c1 = (r, c')"
    for c1
    by (intro written_chain [OF that])
  from written_chain [OF run [unfolded EncodeSnapshotResponse_def] this] obtain k where
    "written c' = written c @ take k ([if b then CHR 0x00 else CHR 0x01] @ le32 (length msg) @ msg)" by blast
  then show ?thesis by (intro exI [of _ k]) (simp add: respond_def run)
qed

lemma respond_all: "write_faults c = [] \<Longrightarrow> written (respond b msg c) = written c @ (if b then CHR 0x00 else CHR 0x01) # le32 (length msg) @ msg"
  by (simp add: respond_def EncodeSnapshotResponse_def call_wrap_def call_def wrap_def write_bytes_def)

lemma decode_whole:
  assumes "length label \<le> MaxLabelLength"
  shows "DecodeSnapshotRequest (le32 (length label) @ label) = (Inr label, [])"
proof -
  have len: "le_value (le32 (length label)) = length label" using assms by (simp add: MaxLabelLength_def)
  have l: "read_full 4 (le32 (length label) @ label) = (Inr (le32 (length label)), label)" by simp
  have b: "read_full (length label) label = (Inr label, [])" using read_full_append [of label "[]"] by simp
  show ?thesis
    using assms by (simp add: DecodeSnapshotRequest_def call_wrap_Inr [where m = "read_full _", OF l] len Let_def
        call_wrap_Inr [where m = "read_full _", OF b] del: le_value_le32)
qed

lemma decode_long:
  assumes "MaxLabelLength < length label" "length label < 2 ^ 32"
  shows "\<exists>e rest. DecodeSnapshotRequest (take k (le32 (length label) @ label)) = (Inl e, rest)"
proof (cases "k < 4")
  case True
  then obtain e where "read_full 4 (take k (le32 (length label))) = (Inl e, [])"
    using read_full_short [of "take k (le32 (length label))" 4] by auto
  then show ?thesis using True by (simp add: DecodeSnapshotRequest_def call_wrap_Inl [where m = "read_full _"])
next
  case False
  have len: "le_value (le32 (length label)) = length label" using assms(2) by simp
  have "read_full 4 (take k (le32 (length label) @ label)) = (Inr (le32 (length label)), take (k - 4) label)"
    using False by simp
  then show ?thesis
    using assms(1) by (simp add: DecodeSnapshotRequest_def call_wrap_Inr [where m = "read_full _"] len Let_def del: le_value_le32)
qed

lemma failed_reply: "\<exists>e s. read_reply (take k (CHR 0x01 # x)) = (Inl e, s)"
proof (cases k)
  case 0
  then show ?thesis by (simp add: read_reply_def call_wrap_def call_def wrap_def read_full_def)
next
  case (Suc j)
  define rest where "rest = take j x"
  have "read_full (Suc 0) (take k (CHR 0x01 # x)) = (Inr [CHR 0x01], rest)"
    using read_full_append [of "[CHR 0x01]" rest] by (simp add: Suc rest_def)
  note status = call_wrap_Inr [where m = "read_full _", OF this]
  obtain q u where len: "read_full 4 rest = (q, u)" by fastforce
  have inner: "\<exists>e s. reply_result (CHR 0x01) n u = (Inl e, s)" for n
    by (cases "0 < n \<and> n < 65536"; cases "read_full n u"; cases "fst (read_full n u)")
      (auto simp: reply_result_def call_def call_wrap_def wrap_def)
  show ?thesis
  proof (cases q)
    case (Inl e)
    then show ?thesis by (simp add: read_reply_def status call_wrap_Inl [where m = "read_full _", OF len [unfolded Inl]])
  next
    case (Inr b)
    then show ?thesis using inner [of "le_value b"]
      by (simp add: read_reply_def status call_wrap_Inr [where m = "read_full _", OF len [unfolded Inr]])
  qed
qed

lemma success_reply: "read_reply (CHR 0x00 # le32 0) = (Inr (), [])"
  by (simp add: read_reply_def reply_result_def call_wrap_def call_def wrap_def read_full_def)

lemma snapshot_outcome:
  assumes "requestSnapshot txt handler vmID gf hf label w = (r, w')" "length label < 2 ^ 32"
  shows "(r = Inr () \<longrightarrow> length label \<le> MaxLabelLength \<and> handler vmID label w = (Inr (), w')) \<and>
    (gf = [] \<and> hf = [] \<longrightarrow> (r = Inr () \<longleftrightarrow> length label \<le> MaxLabelLength \<and> fst (handler vmID label w) = Inr ())) \<and>
    (MaxLabelLength < length label \<longrightarrow> w' = w)"
proof -
  obtain sent c where sent: "send_request label \<lparr>incoming = [], written = [], write_faults = gf\<rparr> = (sent, c)" by fastforce
  then obtain k where k: "written c = take k (le32 (length label) @ label)" "sent = Inr () \<longrightarrow> length (le32 (length label) @ label) \<le> k"
    by (rule send_request_written)
  let ?c = "\<lparr>incoming = written c, written = [], write_faults = hf\<rparr>"
  obtain h w1 where h: "handleConnection txt handler vmID (?c, w) = (h, w1)" by fastforce
  have "(case sent of Inl e \<Rightarrow> (Inl e, w1) | Inr x \<Rightarrow> (fst (read_reply (written h)), w1)) = (r, w')"
    unfolding assms(1) [symmetric] requestSnapshot_def sent h prod.case ..
  then have r: "sent = Inl e \<Longrightarrow> r = Inl e" "sent = Inr () \<Longrightarrow> r = fst (read_reply (written h))" "w' = w1" for e
    by (cases sent; simp)+
  have bad: "\<exists>e. fst (read_reply (written (respond False msg (?c\<lparr>incoming := rest\<rparr>)))) = Inl e" for msg rest
  proof -
    obtain k where "written (respond False msg (?c\<lparr>incoming := rest\<rparr>)) = take k (CHR 0x01 # le32 (length msg) @ msg)"
      using respond_written [of False msg "?c\<lparr>incoming := rest\<rparr>"] by auto
    then show ?thesis using failed_reply [of k "le32 (length msg) @ msg"] by auto
  qed
  have all: "gf = [] \<Longrightarrow> sent = Inr ()"
    using sent by (auto simp: send_request_def call_wrap_def call_def wrap_def write_bytes_def)
  show ?thesis
  proof (cases "length label \<le> MaxLabelLength")
    case False
    then obtain e rest where "DecodeSnapshotRequest (written c) = (Inl e, rest)"
      using decode_long [of label k] assms(2) by (auto simp: k(1))
    then have "w1 = w" "h = respond False (txt e) (?c\<lparr>incoming := rest\<rparr>)"
      using h by (simp_all add: handleConnection_def)
    with bad [of "txt e" rest] have "r \<noteq> Inr ()" using r(1,2) by (cases sent) auto
    with \<open>w1 = w\<close> False r(3) show ?thesis by simp
  next
    case True
    show ?thesis
    proof (cases "sent = Inr ()")
      case False
      then obtain e where "sent = Inl e" by (cases sent) auto
      then have "r \<noteq> Inr ()" using r(1) by simp
      moreover have "gf \<noteq> []" using False all by auto
      ultimately show ?thesis using True by simp
    next
      case sent': True
      then have "written c = le32 (length label) @ label" using k by simp
      then have dec: "DecodeSnapshotRequest (written c) = (Inr label, [])" using decode_whole [OF True] by simp
      obtain q w2 where hd: "handler vmID label w = (q, w2)" by fastforce
      show ?thesis
      proof (cases q)
        case (Inl e)
        then have "h = respond False (txt e) (?c\<lparr>incoming := []\<rparr>)" using h by (auto simp: handleConnection_def dec hd)
        with bad [of "txt e" "[]"] True Inl show ?thesis by (auto simp: r(2) [OF sent'] hd)
      next
        case (Inr u)
        then have h': "h = respond True [] (?c\<lparr>incoming := []\<rparr>)" "w1 = w2" using h by (simp_all add: handleConnection_def dec hd split: unit.splits)
        have "hf = [] \<Longrightarrow> fst (read_reply (written h)) = Inr ()" using success_reply by (simp add: h' respond_all)
        with True Inr h' show ?thesis by (simp add: r(2) [OF sent'] r(3) hd)
      qed
    qed
  qed
qed

text \<open>C31. A snapshot is reported to the guest exactly: the guest's command succeeds only if the host's handler was called for
  its VM with exactly its label and succeeded, however the connection breaks in either direction; when nothing breaks it
  succeeds if and only if the handler does, and a label that is too long never reaches the handler.\<close>

theorem snapshot_reported_exactly:
  assumes "requestSnapshot txt handler vmID gf hf label w = (r, w')" "length label < 2 ^ 32"
  shows "(r = Inr () \<longrightarrow> length label \<le> MaxLabelLength \<and> handler vmID label w = (Inr (), w')) \<and>
    (gf = [] \<and> hf = [] \<longrightarrow> (r = Inr () \<longleftrightarrow> length label \<le> MaxLabelLength \<and> fst (handler vmID label w) = Inr ())) \<and>
    (MaxLabelLength < length label \<longrightarrow> w' = w)"
  by (rule snapshot_outcome [OF assms])

lemma snapshot_reported_exactly_witness:
  "\<exists>r w'. requestSnapshot (\<lambda>_. []) (\<lambda>vm label n. (Inr (), Suc n)) ''cid-101'' [] [Some 3] ''before-upgrade'' 4 = (r, w') \<and>
     (r = Inr () \<longrightarrow> (Inr () :: goerr + unit, Suc 4) = (Inr (), w'))"
proof -
  obtain r w' where run: "requestSnapshot (\<lambda>_. []) (\<lambda>vm label n. (Inr (), Suc n)) ''cid-101'' [] [Some 3] ''before-upgrade'' 4 = (r, w')"
    by fastforce
  have "length ''before-upgrade'' < 2 ^ 32" by simp
  from snapshot_reported_exactly [OF run this] run show ?thesis by blast
qed

end
