(* ===== verification/Snapshot_Service.thy ===== *)
theory Snapshot_Service
  imports Reconcile Snapshot_Wire
begin

text \<open>
  The snapshot service of the daemon (\<open>pkg/daemon/snapshots.go\<close>): from the
  identity of a vsock connection to the task, and from there to the task manager. Put together with the
  protocol of \<open>Snapshot_Wire\<close> it says what a guest may conclude from the success of its
  command.
\<close>

definition resolveTaskID :: "string \<Rightarrow> ('e daemon, string) op" where
  "resolveTaskID vmID =
     (if vmID = ''unix-client'' then
        attempt (on_store (state_ListTasks ''running'')) (\<lambda>r. case r of
          Inr (t # _) \<Rightarrow> ok (ID t)
        | _ \<Rightarrow> fail (Msg ''no running tasks''))
      else if has_prefix vmID ''cid-'' then
        (case parse_uint 32 (trim_prefix vmID ''cid-'') of
           None \<Rightarrow> fail (Msg (''invalid CID: '' @ vmID))
         | Some cid \<Rightarrow> call (on_store (state_GetTaskByCID (word_of_nat cid))) (\<lambda>t. ok (ID t)))
      else
        attempt (on_store (state_GetTask vmID)) (\<lambda>r. case r of
          Inr _ \<Rightarrow> ok vmID
        | Inl _ \<Rightarrow> fail (Msg (''unknown VM ID format: '' @ vmID))))"

text \<open>The task manager may be missing.\<close>

definition handleSnapshot :: "'e services option \<Rightarrow> nat \<Rightarrow> string \<Rightarrow> string \<Rightarrow> ('e daemon, unit) op" where
  "handleSnapshot svo now vmID label =
     call_wrap ''unknown VM'' (resolveTaskID vmID) (\<lambda>taskID.
       case svo of
         None \<Rightarrow> fail (Msg ''task manager not initialized'')
       | Some sv \<Rightarrow>
           call_wrap ''failed to create snapshot'' (tm_CreateSnapshot sv now taskID label) (\<lambda>snapName. ok ()))"

section \<open>What a guest's success means\<close>

lemma sql_stmt_Inr:
  assumes "sql_stmt act x = (Inr a, x')"
  shows "\<exists>fs. act (x\<lparr>db_faults := fs\<rparr>) = (Inr a, x')"
  using assms by (auto simp: sql_stmt_def split: prod.splits bool.splits)

lemma GetTaskByCID_Inr:
  assumes "on_store (state_GetTaskByCID c) d = (Inr t, d')"
  shows "(\<exists>r. find (\<lambda>r. row_cid r = Some (uint c) \<and> row_status r = ''running'') (tasks (store d)) = Some r \<and> scan_task r = Inr t) \<and>
    (\<exists>fs. d' = d\<lparr>store := (store d)\<lparr>db_faults := fs\<rparr>\<rparr>)"
proof -
  obtain x where x: "state_GetTaskByCID c (store d) = (Inr t, x)" "d' = d\<lparr>store := x\<rparr>"
    using assms by (auto simp: on_store_def zoom_def split: prod.splits)
  from x(1) obtain row y where row: "sql_stmt (\<lambda>d. (Inr (find (\<lambda>r. row_cid r = Some (uint c) \<and> row_status r = ''running'') (tasks d)), d)) (store d) = (Inr row, y)"
    "(case row of None \<Rightarrow> fail (Msg (''no running task with CID '' @ itoa (unat c)))
       | Some r \<Rightarrow> (\<lambda>d. (case scan_task r of Inl e \<Rightarrow> Inl (Wrap ''failed to get task by CID'' e) | Inr t \<Rightarrow> Inr t, d))) y = (Inr t, x)"
    unfolding state_GetTaskByCID_def call_wrap_Inr_iff by blast
  from sql_stmt_Inr [OF row(1)] obtain fs where
    "row = find (\<lambda>r. row_cid r = Some (uint c) \<and> row_status r = ''running'') (tasks (store d))" "y = (store d)\<lparr>db_faults := fs\<rparr>" by auto
  with row(2) x(2) show ?thesis by (auto split: option.splits sum.splits)
qed

lemma GetTask_Inr:
  assumes "on_store (state_GetTask i) d = (Inr t, d')"
  shows "task_of (store d) i = Some t \<and> (\<exists>fs. d' = d\<lparr>store := (store d)\<lparr>db_faults := fs\<rparr>\<rparr>)"
proof -
  obtain x where x: "state_GetTask i (store d) = (Inr t, x)" "d' = d\<lparr>store := x\<rparr>"
    using assms by (auto simp: on_store_def zoom_def split: prod.splits)
  from x(1) obtain row y where row: "sql_stmt (\<lambda>d. (Inr (find_row i (tasks d)), d)) (store d) = (Inr row, y)"
    "(case row of None \<Rightarrow> fail (not_found i)
       | Some r \<Rightarrow> (\<lambda>d. (case scan_task r of Inl e \<Rightarrow> Inl (Wrap ''failed to get task'' e) | Inr t \<Rightarrow> Inr t, d))) y = (Inr t, x)"
    unfolding state_GetTask_def call_wrap_Inr_iff by blast
  from sql_stmt_Inr [OF row(1)] obtain fs where "row = find_row i (tasks (store d))" "y = (store d)\<lparr>db_faults := fs\<rparr>" by auto
  with row(2) x(2) show ?thesis by (auto simp: task_of_def split: option.splits sum.splits)
qed

lemma RecordSnapshot_Inr:
  assumes "on_store (state_RecordSnapshot i name now) d = (Inr (), d')"
  shows "\<exists>fs. d' = d\<lparr>store := (store d)\<lparr>db_faults := fs, snapshots := snapshots (store d) @ [\<lparr>snap_task = i, snap_name = name, snap_created_at = now\<rparr>]\<rparr>\<rparr>"
proof -
  obtain x where x: "state_RecordSnapshot i name now (store d) = (Inr (), x)" "d' = d\<lparr>store := x\<rparr>"
    using assms by (auto simp: on_store_def zoom_def split: prod.splits)
  from x(1) obtain fs where "x = (store d)\<lparr>db_faults := fs,
      snapshots := snapshots (store d) @ [\<lparr>snap_task = i, snap_name = name, snap_created_at = now\<rparr>]\<rparr>"
    unfolding state_RecordSnapshot_def wrap_Inr_iff by (auto dest!: sql_stmt_Inr)
  then show ?thesis using x(2) by auto
qed

text \<open>The successful snapshot of a task: synchronised, made, and recorded under its name.\<close>

lemma CreateSnapshot_Inr:
  assumes "tm_CreateSnapshot sv now i label d = (Inr name, d')"
  obtains t z w1 w2 fs where "task_of (store d) i = Some t" "Status t \<noteq> TaskStatusCleanupPending" "sv_zfs sv = Some z"
    "ws_sync z i (world d) = (Inr (), w1)" "ws_snapshot z i label w1 = (Inr name, w2)"
    "d' = d\<lparr>world := w2, store := (store d)\<lparr>db_faults := fs, snapshots := snapshots (store d) @ [\<lparr>snap_task = i, snap_name = name, snap_created_at = now\<rparr>]\<rparr>\<rparr>"
proof -
  obtain t d1 where adm: "admitted_task i d = (Inr t, d1)"
    and rest: "need_zfs sv (\<lambda>z. call_wrap ''sync workspace'' (on_world (ws_sync z i)) (\<lambda>_.
      call (on_world (ws_snapshot z i label)) (\<lambda>name. call (on_store (state_RecordSnapshot i name now)) (\<lambda>_. ok name)))) d1 = (Inr name, d')"
    using assms unfolding tm_CreateSnapshot_def call_Inr_iff by blast
  from adm obtain d0 u where get: "on_store (state_GetTask i) d = (Inr t, d0)" and "rejectCleanupPending t d0 = (Inr u, d1)"
    unfolding admitted_task_def call_Inr_iff by auto
  then have t: "Status t \<noteq> TaskStatusCleanupPending" "d1 = d0" by (auto simp: rejectCleanupPending_def split: if_splits)
  from GetTask_Inr [OF get] obtain fs where d1: "task_of (store d) i = Some t" "d1 = d\<lparr>store := (store d)\<lparr>db_faults := fs\<rparr>\<rparr>"
    using t(2) by auto
  from rest obtain z where z: "sv_zfs sv = Some z" by (auto simp: need_zfs_def split: option.splits)
  with rest obtain u1 d2 d3 u2 where steps: "on_world (ws_sync z i) d1 = (Inr u1, d2)" "on_world (ws_snapshot z i label) d2 = (Inr name, d3)"
    "on_store (state_RecordSnapshot i name now) d3 = (Inr u2, d')"
    by (auto simp: need_zfs_def call_Inr_iff call_wrap_Inr_iff)
  from steps(1) obtain w1 where w1: "ws_sync z i (world d) = (Inr (), w1)" "d2 = d1\<lparr>world := w1\<rparr>"
    using d1 by (auto simp: on_world_def zoom_def split: prod.splits)
  from steps(2) obtain w2 where w2: "ws_snapshot z i label w1 = (Inr name, w2)" "d3 = d1\<lparr>world := w2\<rparr>"
    using w1 by (auto simp: on_world_def zoom_def split: prod.splits)
  from steps(3) RecordSnapshot_Inr [of i name now d3 d'] obtain fs' where
    "d' = d3\<lparr>store := (store d3)\<lparr>db_faults := fs', snapshots := snapshots (store d3) @ [\<lparr>snap_task = i, snap_name = name, snap_created_at = now\<rparr>]\<rparr>\<rparr>"
    by auto
  with that d1 t(1) z w1(1) w2 show thesis by auto
qed

lemma resolve_cid:
  fixes c :: "32 word"
  shows "resolveTaskID (''cid-'' @ itoa (unat c)) = call (on_store (state_GetTaskByCID c)) (\<lambda>t. ok (ID t))"
  using unsigned_less [of c, where 'a = nat] by (simp add: resolveTaskID_def has_prefix_def trim_prefix_def parse_uint_def)

text \<open>C8. When the snapshot command of a guest succeeds, the snapshot exists: the daemon took the first running task with the
  context id of the connection, which is not pending cleanup, synchronised its workspace, made a ZFS snapshot with exactly the
  guest's label and recorded its name, and changed nothing else of the daemon's state. This holds however the connection and
  the database fail.\<close>

theorem guest_snapshot_recorded:
  fixes c :: "32 word"
  assumes "requestSnapshot txt (handleSnapshot (Some sv) now) (''cid-'' @ itoa (unat c)) gf hf label d = (Inr (), d')"
    and "length label < 2 ^ 32"
  shows "\<exists>r t z name w1 w2 fs.
    find (\<lambda>r. row_cid r = Some (uint c) \<and> row_status r = ''running'') (tasks (store d)) = Some r \<and> scan_task r = Inr t \<and>
    sv_zfs sv = Some z \<and> ws_sync z (ID t) (world d) = (Inr (), w1) \<and> ws_snapshot z (ID t) label w1 = (Inr name, w2) \<and>
    d' = d\<lparr>world := w2, store := (store d)\<lparr>db_faults := fs,
         snapshots := snapshots (store d) @ [\<lparr>snap_task = ID t, snap_name = name, snap_created_at = now\<rparr>]\<rparr>\<rparr>"
proof -
  have "handleSnapshot (Some sv) now (''cid-'' @ itoa (unat c)) label d = (Inr (), d')"
    using snapshot_outcome [OF assms] by simp
  then obtain i d1 name d2 where i: "resolveTaskID (''cid-'' @ itoa (unat c)) d = (Inr i, d1)"
    and snap: "tm_CreateSnapshot sv now i label d1 = (Inr name, d')"
    by (auto simp: handleSnapshot_def call_wrap_Inr_iff)
  from i obtain t where t: "on_store (state_GetTaskByCID c) d = (Inr t, d1)" "i = ID t"
    unfolding resolve_cid call_Inr_iff by auto
  from GetTaskByCID_Inr [OF t(1)] obtain r fs where r: "find (\<lambda>r. row_cid r = Some (uint c) \<and> row_status r = ''running'') (tasks (store d)) = Some r"
    "scan_task r = Inr t" "d1 = d\<lparr>store := (store d)\<lparr>db_faults := fs\<rparr>\<rparr>" by auto
  from snap obtain z w1 w2 fs' where "sv_zfs sv = Some z" "ws_sync z i (world d1) = (Inr (), w1)" "ws_snapshot z i label w1 = (Inr name, w2)"
    "d' = d1\<lparr>world := w2, store := (store d1)\<lparr>db_faults := fs', snapshots := snapshots (store d1) @ [\<lparr>snap_task = i, snap_name = name, snap_created_at = now\<rparr>]\<rparr>\<rparr>"
    by (rule CreateSnapshot_Inr)
  with r t(2) show ?thesis
    by (intro exI [of _ r] exI [of _ t] exI [of _ z] exI [of _ name] exI [of _ w1] exI [of _ w2] exI [of _ fs']) simp
qed

text \<open>A guest with context id 101 takes a snapshot over a connection that does not fail.\<close>

definition guest_row :: "string \<Rightarrow> int \<Rightarrow> task_row" where
  "guest_row i c = (running_row i)\<lparr>row_cid := Some c\<rparr>"

definition guest_daemon :: "unit daemon" where
  "guest_daemon = crashed_daemon\<lparr>store := (store crashed_daemon)\<lparr>tasks := [guest_row ''a'' 100, guest_row ''b'' 101]\<rparr>\<rparr>"

definition echo_workspaces :: "unit workspace_ops" where
  "echo_workspaces =
     \<lparr>ws_create = \<lambda>_ w. (Inr (), w), ws_mountpoint = \<lambda>_ w. (Inr [], w), ws_destroy = \<lambda>_ w. (Inr (), w), ws_exists = \<lambda>_ w. (Inr True, w),
      ws_sync = \<lambda>_ w. (Inr (), w), ws_snapshot = \<lambda>i l w. (Inr (i @ ''@'' @ l), w), ws_rollback = \<lambda>_ _ w. (Inr (), w),
      ws_list = \<lambda>_ w. (Inr [], w)\<rparr>"

lemma guest_snapshot_recorded_witness:
  "snapshots (store (snd (requestSnapshot (\<lambda>_. []) (handleSnapshot (Some (pid_services\<lparr>sv_zfs := Some echo_workspaces\<rparr>)) 7)
     (''cid-'' @ itoa (unat (101 :: 32 word))) [] [] ''ok'' guest_daemon))) = [\<lparr>snap_task = ''b'', snap_name = ''b@ok'', snap_created_at = 7\<rparr>]"
proof -
  let ?sv = "pid_services\<lparr>sv_zfs := Some echo_workspaces\<rparr>"
  let ?run = "requestSnapshot (\<lambda>_. []) (handleSnapshot (Some ?sv) 7) (''cid-'' @ itoa (unat (101 :: 32 word))) [] [] ''ok'' guest_daemon"
  have sql: "sql_stmt act (store guest_daemon) = act (store guest_daemon)" for act :: "(db, 'x) op"
    by (simp add: sql_stmt_no_fault guest_daemon_def crashed_daemon_def)
  have row: "find (\<lambda>r. row_cid r = Some 101 \<and> row_status r = ''running'') (tasks (store guest_daemon)) = Some (guest_row ''b'' 101)"
    "find_row ''b'' (tasks (store guest_daemon)) = Some (guest_row ''b'' 101)"
    by (simp_all add: guest_daemon_def guest_row_def running_row_def find_row_def)
  obtain t where t: "scan_task (guest_row ''b'' 101) = Inr t" "ID t = ''b''" "Status t = ''running''"
    by (auto simp: guest_row_def running_row_def scan_task_def)
  have same: "guest_daemon\<lparr>store := store guest_daemon\<rparr> = guest_daemon" "guest_daemon\<lparr>world := world guest_daemon\<rparr> = guest_daemon" by simp_all
  have cid: "on_store (state_GetTaskByCID 101) guest_daemon = (Inr t, guest_daemon)"
    by (simp add: on_store_def zoom_def state_GetTaskByCID_def call_wrap_def call_def wrap_def sql row t(1) same)
  have res: "resolveTaskID (''cid-'' @ itoa (unat (101 :: 32 word))) guest_daemon = (Inr ''b'', guest_daemon)"
    unfolding resolve_cid by (simp add: call_def cid t(2))
  have adm: "admitted_task ''b'' guest_daemon = (Inr t, guest_daemon)"
    using t by (simp add: admitted_task_def on_store_def zoom_def state_GetTask_def call_wrap_def call_def wrap_def sql row same
        rejectCleanupPending_def TaskStatusCleanupPending_def)
  have "fst (tm_CreateSnapshot ?sv 7 ''b'' ''ok'' guest_daemon) = Inr ''b@ok''"
    by (simp add: tm_CreateSnapshot_def adm need_zfs_def echo_workspaces_def call_wrap_def call_def wrap_def
        on_world_def zoom_def on_store_def state_RecordSnapshot_def sql same)
  then obtain d1 where snap: "tm_CreateSnapshot ?sv 7 ''b'' ''ok'' guest_daemon = (Inr ''b@ok'', d1)" by (metis prod.collapse)
  have "fst (handleSnapshot (Some ?sv) 7 (''cid-'' @ itoa (unat (101 :: 32 word))) ''ok'' guest_daemon) = Inr ()"
    by (simp add: handleSnapshot_def call_wrap_def call_def wrap_def res [simplified] snap)
  moreover obtain q d' where run: "?run = (q, d')" by fastforce
  ultimately have "q = Inr ()" using snapshot_outcome [OF run] by (simp add: MaxLabelLength_def)
  with run have good: "?run = (Inr (), d')" by simp
  have "length ''ok'' < 2 ^ 32" by simp
  from guest_snapshot_recorded [OF good this] row t
  have "snapshots (store d') = [\<lparr>snap_task = ''b'', snap_name = ''b@ok'', snap_created_at = 7\<rparr>]"
    by (auto simp: echo_workspaces_def guest_daemon_def crashed_daemon_def)
  then show ?thesis unfolding good by simp
qed

end
