(* ===== verification/Triples.thy ===== *)
theory Triples
  imports Prelude
begin

text \<open>
  Triples for operations: \<open>valid P m Q E\<close> says that from a state with \<open>P\<close> the
  operation ends with \<open>Q a\<close> when it returns \<open>a\<close> and with \<open>E e\<close> when it
  fails with \<open>e\<close>. One rule per way of sequencing.
\<close>

definition valid :: "('s \<Rightarrow> bool) \<Rightarrow> ('s, 'a) op \<Rightarrow> ('a \<Rightarrow> 's \<Rightarrow> bool) \<Rightarrow> (goerr \<Rightarrow> 's \<Rightarrow> bool) \<Rightarrow> bool" where
  "valid P m Q E \<longleftrightarrow> (\<forall>s. P s \<longrightarrow> (case m s of (Inr a, s') \<Rightarrow> Q a s' | (Inl e, s') \<Rightarrow> E e s'))"

lemma validI:
  assumes "\<And>s a s'. P s \<Longrightarrow> m s = (Inr a, s') \<Longrightarrow> Q a s'" "\<And>s e s'. P s \<Longrightarrow> m s = (Inl e, s') \<Longrightarrow> E e s'"
  shows "valid P m Q E"
  using assms by (fastforce simp: valid_def split: prod.split sum.split)

lemma valid_Inr: "valid P m Q E \<Longrightarrow> P s \<Longrightarrow> m s = (Inr a, s') \<Longrightarrow> Q a s'"
  by (auto simp: valid_def dest: spec [of _ s])

lemma valid_Inl: "valid P m Q E \<Longrightarrow> P s \<Longrightarrow> m s = (Inl e, s') \<Longrightarrow> E e s'"
  by (auto simp: valid_def dest: spec [of _ s])

lemma valid_outcome:
  "valid P m (\<lambda>_. R) (\<lambda>_. R) \<Longrightarrow> P s \<Longrightarrow> m s = (r, s') \<Longrightarrow> R s'"
  by (cases r) (auto dest: valid_Inr valid_Inl)

lemma valid_pre: "valid P' m Q E \<Longrightarrow> (\<And>s. P s \<Longrightarrow> P' s) \<Longrightarrow> valid P m Q E"
  by (auto simp: valid_def)

lemma valid_post:
  "valid P m Q' E' \<Longrightarrow> (\<And>a s. Q' a s \<Longrightarrow> Q a s) \<Longrightarrow> (\<And>e s. E' e s \<Longrightarrow> E e s) \<Longrightarrow> valid P m Q E"
  by (rule validI) (auto dest: valid_Inr valid_Inl)

lemma valid_conj:
  "valid P m Q E \<Longrightarrow> valid P' m Q' E' \<Longrightarrow>
     valid (\<lambda>s. P s \<and> P' s) m (\<lambda>a s. Q a s \<and> Q' a s) (\<lambda>e s. E e s \<and> E' e s)"
  by (rule validI) (auto dest: valid_Inr valid_Inl)

named_theorems valid_rules \<open>rules of the triples\<close>

lemma valid_ok [valid_rules]: "(\<And>s. P s \<Longrightarrow> Q a s) \<Longrightarrow> valid P (ok a) Q E"
  and valid_fail [valid_rules]: "(\<And>s. P s \<Longrightarrow> E e s) \<Longrightarrow> valid P (fail e) Q E"
  by (simp_all add: valid_def)

lemma valid_call [valid_rules]:
  "valid P m R E \<Longrightarrow> (\<And>a. valid (R a) (k a) Q E) \<Longrightarrow> valid P (call m k) Q E"
  by (rule validI) (auto simp: call_Inr_iff call_Inl_iff dest: valid_Inr valid_Inl)

lemma valid_wrap [valid_rules]: "valid P m Q (\<lambda>e. E (Wrap msg e)) \<Longrightarrow> valid P (wrap msg m) Q E"
  by (rule validI) (auto simp: wrap_Inl_iff dest: valid_Inr valid_Inl)

lemma valid_call_wrap [valid_rules]:
  "valid P m R (\<lambda>e. E (Wrap msg e)) \<Longrightarrow> (\<And>a. valid (R a) (k a) Q E) \<Longrightarrow> valid P (call_wrap msg m k) Q E"
  unfolding call_wrap_def by (intro valid_rules)

lemma valid_attempt [valid_rules]:
  assumes "valid P m R F" "\<And>a. valid (R a) (k (Inr a)) Q E" "\<And>e. valid (F e) (k (Inl e)) Q E"
  shows "valid P (attempt m k) Q E"
proof (rule validI)
  fix s a s' assume P: "P s" and run: "attempt m k s = (Inr a, s')"
  obtain r u where r: "m s = (r, u)" by fastforce
  with run have "k r u = (Inr a, s')" by (simp add: attempt_def)
  then show "Q a s'" using r P assms by (cases r) (metis valid_Inl valid_Inr)+
next
  fix s e s' assume P: "P s" and run: "attempt m k s = (Inl e, s')"
  obtain r u where r: "m s = (r, u)" by fastforce
  with run have "k r u = (Inl e, s')" by (simp add: attempt_def)
  then show "E e s'" using r P assms by (cases r) (metis valid_Inl valid_Inr)+
qed

lemma valid_ignore [valid_rules]:
  assumes "valid P m (\<lambda>_. R) (\<lambda>_. R)" "valid R k Q E"
  shows "valid P (ignore m k) Q E"
proof (rule validI)
  fix s a s' assume "P s" "ignore m k s = (Inr a, s')"
  then show "Q a s'"
    using valid_outcome [OF assms(1) \<open>P s\<close>, of "fst (m s)" "snd (m s)"] valid_Inr [OF assms(2)]
    by (simp add: ignore_def)
next
  fix s e s' assume "P s" "ignore m k s = (Inl e, s')"
  then show "E e s'"
    using valid_outcome [OF assms(1) \<open>P s\<close>, of "fst (m s)" "snd (m s)"] valid_Inl [OF assms(2)]
    by (simp add: ignore_def)
qed

lemma valid_pure_step [valid_rules]:
  "valid P' k Q E \<Longrightarrow> (\<And>s. P s \<Longrightarrow> P' (f s)) \<Longrightarrow> valid P (pure_step f k) Q E"
  by (rule validI) (auto simp: pure_step_def dest: valid_Inr valid_Inl)

lemma valid_if [valid_rules]:
  "(b \<Longrightarrow> valid P m Q E) \<Longrightarrow> (\<not> b \<Longrightarrow> valid P n Q E) \<Longrightarrow> valid P (if b then m else n) Q E"
  by simp

lemma valid_case_option [valid_rules]:
  "(x = None \<Longrightarrow> valid P m Q E) \<Longrightarrow> (\<And>a. x = Some a \<Longrightarrow> valid P (k a) Q E) \<Longrightarrow>
     valid P (case x of None \<Rightarrow> m | Some a \<Rightarrow> k a) Q E"
  by (cases x) auto

lemma valid_case_prod [valid_rules]:
  "(\<And>a b. x = (a, b) \<Longrightarrow> valid P (k a b) Q E) \<Longrightarrow> valid P (case x of (a, b) \<Rightarrow> k a b) Q E"
  by (cases x) auto

lemma valid_state_option [valid_rules]:
  assumes "valid (\<lambda>s. P s \<and> g s = None) m Q E" "\<And>a. valid (\<lambda>s. P s \<and> g s = Some a) (k a) Q E"
  shows "valid P (\<lambda>s. case g s of None \<Rightarrow> m s | Some a \<Rightarrow> k a s) Q E"
proof (rule validI)
  fix s a s' assume "P s" "(case g s of None \<Rightarrow> m s | Some a \<Rightarrow> k a s) = (Inr a, s')"
  then show "Q a s'" using valid_Inr [OF assms(1)] valid_Inr [OF assms(2)] by (cases "g s") auto
next
  fix s e s' assume "P s" "(case g s of None \<Rightarrow> m s | Some a \<Rightarrow> k a s) = (Inl e, s')"
  then show "E e s'" using valid_Inl [OF assms(1)] valid_Inl [OF assms(2)] by (cases "g s") auto
qed

text \<open>Operations on a field: the rest of the state stays.\<close>

lemma valid_zoom:
  assumes "valid P m Q E" "\<And>s. P' s \<Longrightarrow> P (g s)"
    "\<And>s t a. P' s \<Longrightarrow> Q a t \<Longrightarrow> Q' a (put t s)" "\<And>s t e. P' s \<Longrightarrow> E e t \<Longrightarrow> E' e (put t s)"
  shows "valid P' (zoom g put m) Q' E'"
  by (rule validI) (auto simp: zoom_def split: prod.splits intro!: assms(3,4)
      dest: valid_Inr [OF assms(1) assms(2)] valid_Inl [OF assms(1) assms(2)])

lemma valid_keeps:
  "keeps f m \<Longrightarrow> (\<And>s. P s \<Longrightarrow> R (f s)) \<Longrightarrow> valid P m (\<lambda>_ s. R (f s)) (\<lambda>_ s. R (f s))"
  by (rule validI) (auto dest: keepsD)

end
