(* ===== verification/Images.thy ===== *)
theory Images
  imports Tasks Machine Triples
begin

text \<open>
  The image registry of \<open>pkg/daemon/image_registry.go\<close>: rows of the task database and
  ZFS datasets. An import, a removal or the seeding of the default image leaves every other
  image's row and dataset alone, as long as the database answers; when the database fails
  during the collision check, an import can destroy another image.
\<close>

section \<open>The registry\<close>

text \<open>
  \<open>rg_stat\<close> is the size \<open>os.Stat\<close> gives; \<open>rg_destroyer\<close> destroys the tasks
  of an image.
\<close>

record 'e registry =
  rg_zfs :: zfs_manager
  rg_imagesPath :: string
  rg_run :: "'e zfs_run"
  rg_copy :: "string \<Rightarrow> string \<Rightarrow> ('e env, unit) op"
  rg_stat :: "string \<Rightarrow> ('e env, int) op"
  rg_destroyer :: "string \<Rightarrow> ('e daemon, unit) op"

definition image_dataset :: "'e registry \<Rightarrow> string \<Rightarrow> string" where
  "image_dataset rg dataset = PoolName (rg_zfs rg) @ ''/'' @ rg_imagesPath rg @ ''/'' @ dataset"

definition datasetPathFor :: "'e registry \<Rightarrow> image_record \<Rightarrow> string" where
  "datasetPathFor rg rec = image_dataset rg (im_dataset rec)"

definition snapshotPathFor :: "'e registry \<Rightarrow> image_record \<Rightarrow> string" where
  "snapshotPathFor rg rec = datasetPathFor rg rec @ ''@base''"

definition dataset_for :: "string \<Rightarrow> string" where
  "dataset_for name = (if name = ''default'' then ''rootfs'' else SanitizeDatasetComponent name)"

definition import_rootfs :: "'e registry \<Rightarrow> string \<Rightarrow> string \<Rightarrow> ('e daemon, unit) op" where
  "import_rootfs rg dataset src =
     on_world (ImportImageRootfs (rg_zfs rg) (rg_run rg) (rg_copy rg) (rg_imagesPath rg) dataset src)"

definition destroy_dataset :: "'e registry \<Rightarrow> image_record \<Rightarrow> ('e daemon, unit) op" where
  "destroy_dataset rg rec = on_world (DestroyDatasetRecursive (rg_run rg) (datasetPathFor rg rec))"

text \<open>What a replacement and a removal do to the image that is there.\<close>

definition drop_image :: "'e registry \<Rightarrow> string \<Rightarrow> image_record \<Rightarrow> ('e daemon, unit) op" where
  "drop_image rg name rec =
     call_wrap (''destroy tasks on '' @ go_quote name) (rg_destroyer rg name) (\<lambda>_.
     call_wrap (''destroy dataset for '' @ go_quote name) (destroy_dataset rg rec) (\<lambda>_.
     on_store (state_DeleteImage name)))"

definition register_image :: "'e registry \<Rightarrow> image_record \<Rightarrow> ('e daemon, unit) op" where
  "register_image rg rec =
     attempt (on_store (state_CreateImage rec)) (\<lambda>r. case r of
       Inr _ \<Rightarrow> ok ()
     | Inl e \<Rightarrow> ignore (destroy_dataset rg rec)
         (fail (Wrap (''register image '' @ go_quote (im_name rec) @ '' (dataset '' @ go_quote (im_dataset rec) @ '')'') e)))"

definition registry_Import :: "'e registry \<Rightarrow> nat \<Rightarrow> string \<Rightarrow> string \<Rightarrow> string \<Rightarrow> ('e daemon, unit) op" where
  "registry_Import rg now name rootfsPath kernelPath =
     (if name = [] then fail (Msg ''image name is required'')
      else
        call_wrap (''rootfs '' @ go_quote rootfsPath) (on_world (rg_stat rg rootfsPath)) (\<lambda>size.
        call (if kernelPath = [] then ok ()
              else call_wrap (''kernel '' @ go_quote kernelPath) (on_world (rg_stat rg kernelPath)) (\<lambda>_. ok ())) (\<lambda>_.
        let dataset = dataset_for name in
        attempt (on_store (state_GetImageByDataset dataset)) (\<lambda>other.
        if (case other of Inl _ \<Rightarrow> False | Inr x \<Rightarrow> im_name x \<noteq> name) then
          fail (Msg (''image name '' @ go_quote name @ '' sanitizes to dataset '' @ go_quote dataset @ '', already used by image '' @
            go_quote (case other of Inl _ \<Rightarrow> [] | Inr x \<Rightarrow> im_name x) @ ''; choose a different name''))
        else
          attempt (on_store (state_GetImage name)) (\<lambda>existing.
          call (case existing of Inl _ \<Rightarrow> ok () | Inr rec \<Rightarrow> drop_image rg name rec) (\<lambda>_.
          call_wrap ''import rootfs'' (import_rootfs rg dataset rootfsPath) (\<lambda>_.
          register_image rg \<lparr>im_name = name, im_dataset = dataset, im_kernel_path = kernelPath, im_size_bytes = size,
            im_created_at = now\<rparr>)))))))"

definition registry_Remove :: "'e registry \<Rightarrow> string \<Rightarrow> ('e daemon, unit) op" where
  "registry_Remove rg name =
     (if name = ''default'' then fail (Msg ''the default image is seeded from daemon config and cannot be removed'')
      else attempt (on_store (state_GetImage name)) (\<lambda>r. case r of
        Inl _ \<Rightarrow> on_store (registry_ValidateImage name)
      | Inr rec \<Rightarrow> drop_image rg name rec))"

text \<open>A file that cannot be examined leaves the size as it is.\<close>

definition registry_EnsureDefault :: "'e registry \<Rightarrow> nat \<Rightarrow> string \<Rightarrow> ('e daemon, unit) op" where
  "registry_EnsureDefault rg now rootfsPath =
     attempt (on_store (state_GetImage ''default'')) (\<lambda>r.
     call (case r of
         Inr rec \<Rightarrow> ok rec
       | Inl _ \<Rightarrow>
           attempt (on_world (rg_stat rg rootfsPath)) (\<lambda>st.
           let rec = \<lparr>im_name = ''default'', im_dataset = ''rootfs'', im_kernel_path = [],
               im_size_bytes = (case st of Inl _ \<Rightarrow> 0 | Inr n \<Rightarrow> n), im_created_at = now\<rparr> in
           call_wrap ''seed default image'' (on_store (state_CreateImage rec)) (\<lambda>_. ok rec))) (\<lambda>rec.
     call (on_world (SnapshotExists (rg_run rg) (snapshotPathFor rg rec))) (\<lambda>exists.
     if exists then ok ()
     else
       call_wrap ''failed to import base image'' (import_rootfs rg (im_dataset rec) rootfsPath) (\<lambda>_.
       attempt (on_world (rg_stat rg rootfsPath)) (\<lambda>st. case st of
         Inl _ \<Rightarrow> ok ()
       | Inr n \<Rightarrow> ignore (on_store (state_UpdateImageSize ''default'' n)) (ok ()))))))"

section \<open>A disk with datasets\<close>

text \<open>
  The datasets with the root file system copied into them, the snapshots, and the files of
  the host. A dataset is mounted at its own name below the root; a failing command changes
  nothing, a failing copy truncates its target.
\<close>

record image_disk =
  dk_sets :: "(string \<times> string option) list"
  dk_snaps :: "string list"
  dk_files :: "(string \<times> string) list"
  dk_faults :: faults

definition dk_exists :: "image_disk \<Rightarrow> string \<Rightarrow> bool" where
  "dk_exists o' d \<longleftrightarrow> map_of (dk_sets o') d \<noteq> None \<or> d \<in> set (dk_snaps o')"

definition disk_zfs_ok :: "string list \<Rightarrow> image_disk \<Rightarrow> cmd_result \<times> image_disk" where
  "disk_zfs_ok args o' =
     (let c = hd args; d = last args in
      if c = ''create'' then (cmd_ok [], if dk_exists o' d then o' else o'\<lparr>dk_sets := dk_sets o' @ [(d, None)]\<rparr>)
      else if c = ''snapshot'' then
        (if d \<in> set (dk_snaps o') then (cmd_err ''dataset already exists'', o') else (cmd_ok [], o'\<lparr>dk_snaps := dk_snaps o' @ [d]\<rparr>))
      else if \<not> dk_exists o' d then (cmd_err (missing_message d), o')
      else if c = ''destroy'' then
        (cmd_ok [], o'\<lparr>dk_sets := filter (\<lambda>(x, _). \<not> below d x) (dk_sets o'), dk_snaps := filter (\<lambda>x. \<not> below d x) (dk_snaps o')\<rparr>)
      else if c = ''get'' then (cmd_ok (CHR ''/'' # d @ [CHR 0x0A]), o')
      else (cmd_ok (d @ [CHR 0x0A]), o'))"

definition disk_zfs :: "image_disk zfs_run" where
  "disk_zfs args o' =
     (case next_fault (dk_faults o') of
        (True, bs) \<Rightarrow> (cmd_err ''internal error'', o'\<lparr>dk_faults := bs\<rparr>)
      | (False, bs) \<Rightarrow> disk_zfs_ok args (o'\<lparr>dk_faults := bs\<rparr>))"

definition put_file :: "string \<Rightarrow> string \<Rightarrow> image_disk \<Rightarrow> image_disk" where
  "put_file dst content o' =
     o'\<lparr>dk_sets := map (\<lambda>(q, x). if CHR ''/'' # q @ ''/rootfs.ext4'' = dst then (q, Some content) else (q, x)) (dk_sets o')\<rparr>"

definition disk_copy :: "string \<Rightarrow> string \<Rightarrow> (image_disk env, unit) op" where
  "disk_copy src dst = external (\<lambda>o'.
     case next_fault (dk_faults o') of
       (True, bs) \<Rightarrow> (Inl (Msg ''copy''), put_file dst [] (o'\<lparr>dk_faults := bs\<rparr>))
     | (False, bs) \<Rightarrow> (case map_of (dk_files o') src of
         None \<Rightarrow> (Inl (Msg ''no such file''), o'\<lparr>dk_faults := bs\<rparr>)
       | Some content \<Rightarrow> (Inr (), put_file dst content (o'\<lparr>dk_faults := bs\<rparr>))))"

definition disk_stat :: "string \<Rightarrow> (image_disk env, int) op" where
  "disk_stat path = external (\<lambda>o'. (case map_of (dk_files o') path of
     None \<Rightarrow> Inl (Msg ''no such file'') | Some content \<Rightarrow> Inr (int (length content)), o'))"

definition disk_registry :: "zfs_manager \<Rightarrow> string \<Rightarrow> (string \<Rightarrow> (image_disk daemon, unit) op) \<Rightarrow> image_disk registry" where
  "disk_registry m imagesPath destroyer =
     \<lparr>rg_zfs = m, rg_imagesPath = imagesPath, rg_run = disk_zfs, rg_copy = disk_copy, rg_stat = disk_stat, rg_destroyer = destroyer\<rparr>"

text \<open>What is there of an image: the content of its dataset and its snapshot.\<close>

definition image_state :: "string \<Rightarrow> image_disk \<Rightarrow> string option option \<times> bool" where
  "image_state p o' = (map_of (dk_sets o') p, p @ ''@base'' \<in> set (dk_snaps o'))"

section \<open>A command leaves other datasets alone\<close>

definition apart :: "string \<Rightarrow> string \<Rightarrow> bool" where
  "apart d p \<longleftrightarrow> \<not> below d p \<and> \<not> below d (p @ ''@base'')"

lemma map_of_filter_key: "P p \<Longrightarrow> map_of (filter (\<lambda>(x, _). P x) xs) p = map_of xs p"
  by (induction xs) auto

lemma map_of_append_new: "p \<noteq> d \<Longrightarrow> map_of (xs @ [(d, v)]) p = map_of xs p"
  by (simp add: map_add_def split: option.split)

lemma disk_zfs_ok_apart: "apart (last args) p \<Longrightarrow> image_state p (snd (disk_zfs_ok args o')) = image_state p o'"
proof -
  assume a: "apart (last args) p"
  then have "p \<noteq> last args" "p @ ''@base'' \<noteq> last args" by (auto simp: apart_def below_def)
  then show ?thesis using a
    by (simp add: disk_zfs_ok_def image_state_def apart_def Let_def map_of_append_new map_of_filter_key [where P = "\<lambda>x. \<not> below (last args) x"]
        del: map_of_append)
qed

lemma disk_zfs_apart: "apart (last args) p \<Longrightarrow> disk_zfs args o' = (r, o'') \<Longrightarrow> image_state p o'' = image_state p o'"
proof -
  assume a: "apart (last args) p" and run: "disk_zfs args o' = (r, o'')"
  obtain f bs where f: "next_fault (dk_faults o') = (f, bs)" by fastforce
  have "image_state p (o'\<lparr>dk_faults := bs\<rparr>) = image_state p o'" by (simp add: image_state_def)
  then show ?thesis using run disk_zfs_ok_apart [OF a, of "o'\<lparr>dk_faults := bs\<rparr>"] by (cases f) (auto simp: disk_zfs_def f)
qed

lemma put_file_apart: "CHR ''/'' # p @ ''/rootfs.ext4'' \<noteq> dst \<Longrightarrow> image_state p (put_file dst content o') = image_state p o'"
proof -
  assume "CHR ''/'' # p @ ''/rootfs.ext4'' \<noteq> dst"
  then have "map_of (map (\<lambda>(q, x). if CHR ''/'' # q @ ''/rootfs.ext4'' = dst then (q, Some content) else (q, x)) xs) p = map_of xs p" for xs
    by (induction xs) auto
  then show ?thesis by (simp add: image_state_def put_file_def)
qed

abbreviation other_image :: "string \<Rightarrow> image_disk daemon \<Rightarrow> string option option \<times> bool" where
  "other_image p d \<equiv> image_state p (outside (world d))"

lemma run_keeps: "apart (last args) p \<Longrightarrow> keeps (\<lambda>w. image_state p (outside w)) (run_cmd disk_zfs args)"
  by (auto simp: keeps_def run_cmd_def external_def zoom_def split: prod.split dest: disk_zfs_apart)

lemma runZFS_keeps: "apart (last args) p \<Longrightarrow> keeps (\<lambda>w. image_state p (outside w)) (runZFS disk_zfs args)"
  unfolding runZFS_def by (intro frame_intros run_keeps)

lemma exists_keeps: "apart d p \<Longrightarrow> keeps (\<lambda>w. image_state p (outside w)) (DatasetPathExists disk_zfs d)"
  unfolding DatasetPathExists_def by (intro frame_intros run_keeps) simp

lemma destroy_keeps: "apart d p \<Longrightarrow> keeps (\<lambda>w. image_state p (outside w)) (DestroyDatasetRecursive disk_zfs d)"
  unfolding DestroyDatasetRecursive_def by (intro frame_intros exists_keeps runZFS_keeps) simp_all

text \<open>Names of datasets are not empty and made of safe characters; so datasets of the same parent are apart.\<close>

definition plain :: "string \<Rightarrow> bool" where
  "plain d \<longleftrightarrow> d \<noteq> [] \<and> list_all safe_char d"

definition stem_of :: "string \<Rightarrow> string" where
  "stem_of s = takeWhile (\<lambda>c. c \<noteq> CHR ''/'' \<and> c \<noteq> CHR ''@'') s"

lemma stem_of_plain: "plain d \<Longrightarrow> zs = [] \<or> hd zs = CHR ''/'' \<or> hd zs = CHR ''@'' \<Longrightarrow> stem_of (d @ zs) = d"
proof -
  assume d: "plain d" and zs: "zs = [] \<or> hd zs = CHR ''/'' \<or> hd zs = CHR ''@''"
  have "\<forall>c \<in> set d. c \<noteq> CHR ''/'' \<and> c \<noteq> CHR ''@''" using d by (auto simp: plain_def list_all_iff safe_char_def)
  then show ?thesis using zs by (cases zs) (auto simp: stem_of_def takeWhile_append2 takeWhile_eq_all_conv)
qed

lemma below_stem: "below (pre @ a) (pre @ b) \<Longrightarrow> \<exists>zs. b = a @ zs \<and> (zs = [] \<or> hd zs = CHR ''/'' \<or> hd zs = CHR ''@'')"
proof -
  assume "below (pre @ a) (pre @ b)"
  then consider "b = a" | "take (Suc (length a)) b = a @ ''/''" | "take (Suc (length a)) b = a @ ''@''"
    by (auto simp: below_def has_prefix_def)
  then show ?thesis
  proof cases
    case 2
    then have "b = a @ CHR ''/'' # drop (Suc (length a)) b" using append_take_drop_id [of "Suc (length a)" b] by simp
    then show ?thesis by (intro exI [of _ "CHR ''/'' # drop (Suc (length a)) b"]) simp
  next
    case 3
    then have "b = a @ CHR ''@'' # drop (Suc (length a)) b" using append_take_drop_id [of "Suc (length a)" b] by simp
    then show ?thesis by (intro exI [of _ "CHR ''@'' # drop (Suc (length a)) b"]) simp
  qed simp
qed

lemma plain_below:
  assumes "plain x" "plain y" "below (pre @ x @ u) (pre @ y @ v)" "u = [] \<or> hd u = CHR ''@''" "v = [] \<or> hd v = CHR ''@''"
  shows "x = y"
proof -
  obtain zs where zs: "y @ v = (x @ u) @ zs" "zs = [] \<or> hd zs = CHR ''/'' \<or> hd zs = CHR ''@''"
    using below_stem [of pre "x @ u" "y @ v"] assms(3) by auto
  have "u @ zs = [] \<or> hd (u @ zs) = CHR ''/'' \<or> hd (u @ zs) = CHR ''@''" using zs(2) assms(4) by (cases u) auto
  then show ?thesis
    using stem_of_plain [OF assms(1), of "u @ zs"] stem_of_plain [OF assms(2), of v] assms(5) zs(1) by auto
qed

lemma plain_apart:
  assumes "plain x" "plain y" "x \<noteq> y"
  shows "apart (pre @ x) (pre @ y)" and "apart (pre @ x @ ''@base'') (pre @ y)"
  using plain_below [OF assms(1,2), of pre "[]" "[]"] plain_below [OF assms(1,2), of pre "[]" "''@base''"]
    plain_below [OF assms(1,2), of pre "''@base''" "[]"] plain_below [OF assms(1,2), of pre "''@base''" "''@base''"] assms(3)
  by (auto simp: apart_def)

lemma trim_line: "\<not> is_space c \<Longrightarrow> s \<noteq> [] \<Longrightarrow> \<not> is_space (last s) \<Longrightarrow> trim_space (c # s @ [CHR 0x0A]) = c # s"
  by (cases s rule: rev_cases) (simp_all add: trim_space_def is_space_def)

section \<open>Operations leave other images alone\<close>

text \<open>
  The other image \<open>x\<close> is in the table, its dataset below the parent \<open>pre\<close> is in the
  state \<open>st\<close>, and the table is in order.
\<close>

definition kept :: "string \<Rightarrow> image_record \<Rightarrow> string option option \<times> bool \<Rightarrow> image_disk daemon \<Rightarrow> bool" where
  "kept pre x st d \<longleftrightarrow> db_faults (store d) = [] \<and> images_ok (store d) \<and>
     (\<forall>r \<in> set (images (store d)). plain (im_dataset r)) \<and> x \<in> set (images (store d)) \<and>
     other_image (pre @ im_dataset x) d = st"

abbreviation keeping :: "string \<Rightarrow> image_record \<Rightarrow> string option option \<times> bool \<Rightarrow> (image_disk daemon, 'a) op \<Rightarrow> bool" where
  "keeping pre x st m \<equiv> valid (kept pre x st) m (\<lambda>_. kept pre x st) (\<lambda>_. kept pre x st)"

lemma on_world_keeping:
  assumes "keeps (\<lambda>w. image_state (pre @ im_dataset x) (outside w)) m"
  shows "keeping pre x st (on_world m)"
  unfolding on_world_def
  by (rule valid_zoom [OF valid_keeps [OF assms, where P = "\<lambda>w. image_state (pre @ im_dataset x) (outside w) = st"
      and R = "\<lambda>y. y = st"]]) (auto simp: kept_def)

lemma copy_keeps:
  "CHR ''/'' # p @ ''/rootfs.ext4'' \<noteq> dst \<Longrightarrow> keeps (\<lambda>w. image_state p (outside w)) (disk_copy src dst)"
proof -
  assume ne: "CHR ''/'' # p @ ''/rootfs.ext4'' \<noteq> dst"
  have "image_state p (o'\<lparr>dk_faults := bs\<rparr>) = image_state p o'" for o' bs by (simp add: image_state_def)
  then show ?thesis using put_file_apart [OF ne]
    by (auto simp: keeps_def disk_copy_def external_def zoom_def split: prod.split bool.split option.split)
qed

lemma keeps_call_returns: "keeps f m \<Longrightarrow> returns Q m \<Longrightarrow> (\<And>a. Q a \<Longrightarrow> keeps f (k a)) \<Longrightarrow> keeps f (call m k)"
  unfolding keeps_def returns_def call_def
  by (auto split: prod.split sum.split) (metis snd_conv)+

lemma disk_mountpoint:
  assumes "plain ds"
  shows "returns (\<lambda>mp. mp = CHR ''/'' # pre @ ds) (get_mountpoint disk_zfs what (pre @ ds))"
proof -
  have "safe_char (last ds)" using assms by (simp add: plain_def list_all_iff)
  then have "\<not> is_space (last ds)" by (auto simp: safe_char_def is_space_def)
  then have "trim_space (CHR ''/'' # (pre @ ds) @ [CHR 0x0A]) = CHR ''/'' # pre @ ds"
    using assms by (intro trim_line) (auto simp: plain_def is_space_def)
  then show ?thesis
    by (auto simp: returns_def get_mountpoint_def call_Inr_iff run_cmd_def external_def zoom_def disk_zfs_def disk_zfs_ok_def
        cmd_ok_def cmd_err_def Let_def split: prod.splits if_splits bool.splits)
qed

lemma import_keeping:
  assumes "rg = disk_registry m imagesPath destroyer" "plain ds" "plain (im_dataset x)" "ds \<noteq> im_dataset x"
  shows "keeping (image_dataset rg []) x st (import_rootfs rg ds src)"
proof -
  define pre where "pre = PoolName m @ ''/'' @ imagesPath @ ''/''"
  have pre: "image_dataset rg [] = pre" "PoolName m @ ''/'' @ imagesPath @ ''/'' @ ds = pre @ ds"
    by (simp_all add: assms(1) image_dataset_def disk_registry_def pre_def)
  let ?ds = "pre @ ds" and ?f = "\<lambda>w. image_state (pre @ im_dataset x) (outside w)"
  note a = plain_apart [OF assms(2-4), of pre]
  have get: "keeps ?f (get_mountpoint disk_zfs what ?ds)" for what
    unfolding get_mountpoint_def using a by (intro frame_intros run_keeps) simp
  have copied: "keeps ?f (call_wrap ''failed to copy rootfs'' (disk_copy src (mp @ ''/rootfs.ext4'')) (\<lambda>_.
      wrap ''failed to create snapshot'' (runZFS disk_zfs [''snapshot'', ?ds @ ''@base''])))" if "mp = CHR ''/'' # ?ds" for mp
    using that a assms(4) by (intro frame_intros copy_keeps runZFS_keeps) simp_all
  have "keeps ?f (ImportImageRootfs m disk_zfs disk_copy imagesPath ds src)"
    unfolding ImportImageRootfs_def Let_def pre(2) using a
    by (intro keeps_call_wrap keeps_attempt keeps_case_sum keeps_ignore keeps_ok keeps_fail runZFS_keeps
        keeps_call_returns [OF get disk_mountpoint [OF assms(2)]] copied) simp_all
  then show ?thesis
    unfolding import_rootfs_def pre(1) by (intro on_world_keeping) (simp add: assms(1) disk_registry_def)
qed

lemma destroy_keeping:
  assumes "rg = disk_registry m imagesPath destroyer" "plain (im_dataset rec)" "plain (im_dataset x)" "im_dataset rec \<noteq> im_dataset x"
  shows "keeping (image_dataset rg []) x st (destroy_dataset rg rec)"
proof -
  have "datasetPathFor rg rec = image_dataset rg [] @ im_dataset rec" by (simp add: datasetPathFor_def image_dataset_def)
  then show ?thesis
    unfolding destroy_dataset_def using plain_apart(1) [OF assms(2-4), of "image_dataset rg []"]
    by (intro on_world_keeping) (simp add: assms(1) disk_registry_def destroy_keeps)
qed

lemma stat_keeping: "rg = disk_registry m imagesPath destroyer \<Longrightarrow> keeping pre x st (on_world (rg_stat rg path))"
  by (rule on_world_keeping) (simp add: disk_registry_def disk_stat_def keeps_def external_def zoom_def)

lemma snapshot_exists_keeping:
  "rg = disk_registry m imagesPath destroyer \<Longrightarrow> keeping pre x st (on_world (SnapshotExists (rg_run rg) path))"
proof -
  have "image_state p (snd (disk_zfs [''list'', ''-t'', ''snapshot'', path] o')) = image_state p o'" for p o'
    by (simp add: disk_zfs_def disk_zfs_ok_def image_state_def Let_def split: prod.split bool.split)
  then show "rg = disk_registry m imagesPath destroyer \<Longrightarrow> keeping pre x st (on_world (SnapshotExists (rg_run rg) path))"
    by (intro on_world_keeping) (simp add: disk_registry_def SnapshotExists_def keeps_call keeps_ok
      keeps_def run_cmd_def external_def zoom_def call_state split: prod.split, metis snd_conv)
qed

text \<open>The operations on the table; with no faults a failing lookup means that the row is not there.\<close>

lemma images_ok_names: "images_ok d \<Longrightarrow> r \<in> set (images d) \<Longrightarrow> x \<in> set (images d) \<Longrightarrow> im_name r = im_name x \<or> im_dataset r = im_dataset x \<Longrightarrow> r = x"
  unfolding images_ok_def by (meson distinct_map inj_onD)

lemma get_image_kept:
  "valid (kept pre x st) (on_store (state_GetImage n))
     (\<lambda>r d. kept pre x st d \<and> r \<in> set (images (store d)) \<and> im_name r = n)
     (\<lambda>_ d. kept pre x st d \<and> n \<noteq> im_name x)"
  by (rule validI) (auto simp: kept_def on_store_def zoom_def state_GetImage_def call_wrap_def call_def wrap_def sql_stmt_no_fault
      find_image_def find_None_iff find_Some_iff split: option.splits prod.splits sum.splits)

lemma by_dataset_kept:
  "valid (kept pre x st) (on_store (state_GetImageByDataset ds))
     (\<lambda>r d. kept pre x st d \<and> r \<in> set (images (store d)) \<and> im_dataset r = ds)
     (\<lambda>_ d. kept pre x st d \<and> ds \<noteq> im_dataset x)"
  by (rule validI) (auto simp: kept_def on_store_def zoom_def state_GetImageByDataset_def call_wrap_def call_def wrap_def sql_stmt_no_fault
      find_None_iff find_Some_iff split: option.splits prod.splits sum.splits)

lemma create_kept:
  "plain (im_dataset rec) \<Longrightarrow> valid (kept pre x st) (on_store (state_CreateImage rec))
     (\<lambda>_ d. kept pre x st d \<and> rec \<in> set (images (store d))) (\<lambda>_. kept pre x st)"
proof -
  assume p: "plain (im_dataset rec)"
  have same: "d\<lparr>store := store d\<rparr> = d" for d :: "image_disk daemon" by simp
  have new: "kept pre x st (d\<lparr>store := (store d)\<lparr>images := images (store d) @ [rec]\<rparr>\<rparr>)"
    if "kept pre x st d" "\<forall>r \<in> set (images (store d)). im_name r \<noteq> im_name rec \<and> im_dataset r \<noteq> im_dataset rec" for d
  proof -
    have "im_name rec \<notin> im_name ` set (images (store d))" "im_dataset rec \<notin> im_dataset ` set (images (store d))"
      using that(2) by auto
    then show ?thesis using that(1) p by (auto simp: kept_def images_ok_def)
  qed
  show ?thesis
    unfolding valid_def
    by (auto simp: on_store_def zoom_def state_CreateImage_def wrap_def sql_stmt_no_fault [of "store _"] kept_def [THEN iffD1, THEN conjunct1]
        new split: prod.splits sum.splits if_splits)
qed

lemma delete_kept:
  "n \<noteq> im_name x \<Longrightarrow> keeping pre x st (on_store (state_DeleteImage n))"
  by (rule validI) (auto simp: kept_def on_store_def zoom_def state_DeleteImage_def call_wrap_def call_def wrap_def sql_stmt_no_fault
      images_ok_def distinct_map_filter split: prod.splits sum.splits if_splits)

lemma size_kept:
  "n \<noteq> im_name x \<Longrightarrow> keeping pre x st (on_store (state_UpdateImageSize n k))"
proof -
  assume n: "n \<noteq> im_name x"
  let ?f = "\<lambda>r. if im_name r = n then r\<lparr>im_size_bytes := k\<rparr> else r"
  have same: "map im_name (map ?f xs) = map im_name xs" "map im_dataset (map ?f xs) = map im_dataset xs" for xs
    by (induction xs) auto
  have sized: "kept pre x st (d\<lparr>store := (store d)\<lparr>images := map ?f (images (store d))\<rparr>\<rparr>)" if "kept pre x st d" for d
  proof -
    have "x \<in> set (map ?f (images (store d)))" using that n by (auto simp: kept_def image_iff intro!: bexI [of _ x])
    then show ?thesis using that by (simp add: kept_def images_ok_def same del: map_map) auto
  qed
  have "db_faults (store d) = []" if "kept pre x st d" for d using that by (simp add: kept_def)
  then show ?thesis using sized
    by (auto simp: valid_def on_store_def zoom_def state_UpdateImageSize_def wrap_def sql_stmt_no_fault)
qed

lemma drop_keeping:
  assumes "rg = disk_registry m imagesPath destroyer" "plain (im_dataset rec)" "plain (im_dataset x)"
    and "im_dataset rec \<noteq> im_dataset x" "n \<noteq> im_name x" "keeping (image_dataset rg []) x st (destroyer n)"
  shows "keeping (image_dataset rg []) x st (drop_image rg n rec)"
proof -
  have d: "rg_destroyer rg n = destroyer n" by (simp add: assms(1) disk_registry_def)
  show ?thesis unfolding drop_image_def d
    by (rule valid_call_wrap [OF assms(6)], rule valid_call_wrap [OF destroy_keeping [OF assms(1-4)]], rule delete_kept [OF assms(5)])
qed

lemma register_keeping:
  assumes "rg = disk_registry m imagesPath destroyer" "plain (im_dataset rec)" "plain (im_dataset x)" "im_dataset rec \<noteq> im_dataset x"
  shows "keeping (image_dataset rg []) x st (register_image rg rec)"
  unfolding register_image_def
proof (rule valid_attempt [OF create_kept [OF assms(2)]], goal_cases)
  case (2 e)
  show ?case by (simp, rule valid_ignore [OF destroy_keeping [OF assms]], rule valid_fail)
qed (auto intro: valid_ok)

lemma plain_dataset_for: "name \<noteq> [] \<Longrightarrow> plain (dataset_for name)"
  by (auto simp: plain_def dataset_for_def SanitizeDatasetComponent_def list_all_iff safe_char_def)

text \<open>An image found by a name is another one than \<open>x\<close>, so has another dataset.\<close>

lemma dropped_keeping:
  assumes rg: "rg = disk_registry m imagesPath destroyer" and name: "name \<noteq> im_name x" and x: "plain (im_dataset x)"
    and tasks: "keeping (image_dataset rg []) x st (destroyer name)"
  shows "valid (\<lambda>d. kept (image_dataset rg []) x st d \<and> rec \<in> set (images (store d)) \<and> im_name rec = name)
    (drop_image rg name rec) (\<lambda>_. kept (image_dataset rg []) x st) (\<lambda>_. kept (image_dataset rg []) x st)"
proof (cases "plain (im_dataset rec) \<and> im_dataset rec \<noteq> im_dataset x")
  case True
  then show ?thesis by (intro valid_pre [OF drop_keeping [OF rg _ x _ name tasks]]) auto
next
  case False
  have "\<not> (kept (image_dataset rg []) x st d \<and> rec \<in> set (images (store d)) \<and> im_name rec = name)" for d
    using False name images_ok_names [of "store d" rec x] by (auto simp: kept_def)
  then show ?thesis by (intro validI) auto
qed

lemma Import_keeping:
  assumes rg: "rg = disk_registry m imagesPath destroyer" and name: "name \<noteq> im_name x" and x: "plain (im_dataset x)"
    and tasks: "keeping (image_dataset rg []) x st (destroyer name)"
  shows "keeping (image_dataset rg []) x st (registry_Import rg now name rootfsPath kernelPath)"
proof -
  let ?K = "kept (image_dataset rg []) x st" and ?ds = "dataset_for name"
  have rest: "keeping (image_dataset rg []) x st (attempt (on_store (state_GetImage name)) (\<lambda>existing.
      call (case existing of Inl _ \<Rightarrow> ok () | Inr rec \<Rightarrow> drop_image rg name rec) (\<lambda>_.
      call_wrap ''import rootfs'' (import_rootfs rg ?ds rootfsPath) (\<lambda>_.
      register_image rg \<lparr>im_name = name, im_dataset = ?ds, im_kernel_path = kernelPath, im_size_bytes = k, im_created_at = now\<rparr>))))"
    if "?ds \<noteq> im_dataset x" "name \<noteq> []" for k
  proof -
    have p: "plain ?ds" by (rule plain_dataset_for [OF that(2)])
    have installed: "keeping (image_dataset rg []) x st (call_wrap ''import rootfs'' (import_rootfs rg ?ds rootfsPath) (\<lambda>_.
        register_image rg \<lparr>im_name = name, im_dataset = ?ds, im_kernel_path = kernelPath, im_size_bytes = k, im_created_at = now\<rparr>))"
      by (rule valid_call_wrap [OF import_keeping [OF rg p x that(1)]], rule register_keeping [OF rg]) (simp_all add: p x that(1))
    show ?thesis
    proof (rule valid_attempt [OF get_image_kept], goal_cases)
      case (1 rec)
      show ?case using dropped_keeping [OF rg name x tasks, of rec] installed by (auto intro: valid_call [where R = "\<lambda>_. ?K"])
    next
      case (2 e)
      show ?case using installed by (auto intro: valid_call [where R = "\<lambda>_. ?K"] valid_ok)
    qed
  qed
  have checked: "keeping (image_dataset rg []) x st (attempt (on_store (state_GetImageByDataset ?ds)) (\<lambda>other.
      if (case other of Inl _ \<Rightarrow> False | Inr x \<Rightarrow> im_name x \<noteq> name) then fail (e other) else k))"
    if k: "?ds \<noteq> im_dataset x \<Longrightarrow> keeping (image_dataset rg []) x st k" for k :: "(image_disk daemon, unit) op" and e
  proof (rule valid_attempt [OF by_dataset_kept], goal_cases)
    case (1 r)
    have "valid (\<lambda>d. ?K d \<and> r \<in> set (images (store d)) \<and> im_dataset r = ?ds) k (\<lambda>_. ?K) (\<lambda>_. ?K)" if "im_name r = name"
    proof (cases "?ds = im_dataset x")
      case True
      have "\<not> (?K d \<and> r \<in> set (images (store d)) \<and> im_dataset r = ?ds)" for d
        using True name that images_ok_names [of "store d" r x] by (auto simp: kept_def)
      then show ?thesis by (intro validI) auto
    qed (rule valid_pre [OF k], auto)
    then show ?case by (auto intro: valid_fail)
  next
    case (2 e)
    show ?case
    proof (cases "?ds = im_dataset x")
      case True
      then show ?thesis by (intro validI) auto
    qed (simp, rule valid_pre [OF k], auto)
  qed
  have kernel: "keeping (image_dataset rg []) x st (if kernelPath = [] then ok ()
      else call_wrap w (on_world (rg_stat rg kernelPath)) (\<lambda>_. ok ()))" for w
    by (rule valid_if, rule valid_ok, simp, rule valid_call_wrap [OF stat_keeping [OF rg]], rule valid_ok)
  show ?thesis
    unfolding registry_Import_def Let_def
    apply (rule valid_if, rule valid_fail, simp)
    apply (rule valid_call_wrap [OF stat_keeping [OF rg]], rule valid_call [OF kernel])
    apply (rule checked, rule rest, simp_all)
    done
qed

lemma Remove_keeping:
  assumes rg: "rg = disk_registry m imagesPath destroyer" and name: "name \<noteq> im_name x" and x: "plain (im_dataset x)"
    and tasks: "keeping (image_dataset rg []) x st (destroyer name)"
  shows "keeping (image_dataset rg []) x st (registry_Remove rg name)"
proof -
  have "keeping (image_dataset rg []) x st (on_store (registry_ValidateImage name))"
    by (rule validI) (auto simp: kept_def on_store_def zoom_def registry_ValidateImage_def attempt_def call_def
        state_GetImage_def state_ListImages_def call_wrap_def wrap_def sql_stmt_no_fault fail_def ok_def
        split: option.splits prod.splits sum.splits if_splits)
  then have missing: "valid (\<lambda>d. kept (image_dataset rg []) x st d \<and> name \<noteq> im_name x) (on_store (registry_ValidateImage name))
      (\<lambda>_. kept (image_dataset rg []) x st) (\<lambda>_. kept (image_dataset rg []) x st)"
    by (rule valid_pre) auto
  show ?thesis
    unfolding registry_Remove_def
    apply (rule valid_if, rule valid_fail, simp)
    apply (rule valid_attempt [OF get_image_kept])
    using dropped_keeping [OF assms] missing apply auto
    done
qed

lemma EnsureDefault_keeping:
  assumes rg: "rg = disk_registry m imagesPath destroyer" and name: "im_name x \<noteq> ''default''" and x: "plain (im_dataset x)"
  shows "keeping (image_dataset rg []) x st (registry_EnsureDefault rg now rootfsPath)"
proof -
  let ?K = "kept (image_dataset rg []) x st"
  let ?D = "\<lambda>rec d. ?K d \<and> rec \<in> set (images (store d)) \<and> im_name rec = ''default''"
  let ?seed = "\<lambda>n. \<lparr>im_name = ''default'', im_dataset = ''rootfs'', im_kernel_path = [], im_size_bytes = n, im_created_at = now\<rparr>"
  have plain: "plain (im_dataset (?seed n))" for n by (simp add: plain_def safe_char_def)
  have sized: "keeping (image_dataset rg []) x st (call_wrap ''seed default image'' (on_store (state_CreateImage (?seed n))) (\<lambda>_. ok (?seed n)))
      \<and> valid ?K (call_wrap ''seed default image'' (on_store (state_CreateImage (?seed n))) (\<lambda>_. ok (?seed n))) ?D (\<lambda>_. ?K)" for n
    by (intro conjI; rule valid_call_wrap [OF create_kept [OF plain]]) (rule valid_ok, simp)+
  have seeded: "valid (\<lambda>d. ?K d \<and> ''default'' \<noteq> im_name x) (attempt (on_world (rg_stat rg rootfsPath)) (\<lambda>s.
      let rec = ?seed (case s of Inl _ \<Rightarrow> 0 | Inr n \<Rightarrow> n) in
      call_wrap ''seed default image'' (on_store (state_CreateImage rec)) (\<lambda>_. ok rec))) ?D (\<lambda>_. ?K)"
    unfolding Let_def using sized
    by (intro valid_pre [OF valid_attempt [OF stat_keeping [OF rg]]]) auto
  have imported: "valid (?D rec) (import_rootfs rg (im_dataset rec) rootfsPath) (\<lambda>_. ?K) (\<lambda>_. ?K)" for rec
  proof (cases "plain (im_dataset rec) \<and> im_dataset rec \<noteq> im_dataset x")
    case True
    then show ?thesis by (intro valid_pre [OF import_keeping [OF rg _ x]]) auto
  next
    case False
    have "\<not> ?D rec d" for d using False name images_ok_names [of "store d" rec x] by (auto simp: kept_def)
    then show ?thesis by (intro validI) auto
  qed
  have resized: "keeping (image_dataset rg []) x st (attempt (on_world (rg_stat rg rootfsPath)) (\<lambda>st. case st of
      Inl _ \<Rightarrow> ok () | Inr n \<Rightarrow> ignore (on_store (state_UpdateImageSize ''default'' n)) (ok ())))"
    by (rule valid_attempt [OF stat_keeping [OF rg]])
      (auto intro!: valid_ignore [OF size_kept [OF name [symmetric]]] valid_ok)
  have table: "keeps (\<lambda>d. images (store d)) (on_world n)" for n :: "(image_disk env, bool) op"
    by (simp add: keeps_def on_world_def zoom_def split: prod.split)
  have looked: "valid (?D rec) (on_world (SnapshotExists (rg_run rg) path)) (\<lambda>_. ?D rec) (\<lambda>_. ?K)" for rec path
    using valid_conj [OF snapshot_exists_keeping [OF rg, of "image_dataset rg []" x st path]
        valid_keeps [OF table, where P = "\<lambda>d. rec \<in> set (images (store d)) \<and> im_name rec = ''default''"
          and R = "\<lambda>ims. rec \<in> set ims \<and> im_name rec = ''default''"]]
    by (rule valid_post [OF valid_pre]) auto
  have healed: "valid (?D rec) (call (on_world (SnapshotExists (rg_run rg) path)) (\<lambda>exists.
      if exists then ok ()
      else call_wrap ''failed to import base image'' (import_rootfs rg (im_dataset rec) rootfsPath) (\<lambda>_.
        attempt (on_world (rg_stat rg rootfsPath)) (\<lambda>st. case st of
          Inl _ \<Rightarrow> ok () | Inr n \<Rightarrow> ignore (on_store (state_UpdateImageSize ''default'' n)) (ok ())))))
      (\<lambda>_. ?K) (\<lambda>_. ?K)" for rec path
    by (rule valid_call [OF looked], rule valid_if, rule valid_ok, simp, rule valid_call_wrap [OF imported], rule resized)
  show ?thesis
    unfolding registry_EnsureDefault_def
  proof (rule valid_attempt [OF get_image_kept], goal_cases)
    case (1 r)
    show ?case by (simp, rule valid_call [OF valid_ok [where Q = ?D] healed], simp)
  next
    case (2 e)
    show ?case by (simp only: sum.case, rule valid_call [OF seeded healed])
  qed
qed


definition demo_images :: "image_record list" where
  "demo_images = [\<lparr>im_name = ''default'', im_dataset = ''rootfs'', im_kernel_path = [], im_size_bytes = 3, im_created_at = 0\<rparr>]"

definition demo_registry :: "image_disk registry" where
  "demo_registry = disk_registry \<lparr>PoolName = ''tank'', BasePath = ''stockyard''\<rparr> ''images'' (\<lambda>_. ok ())"

definition demo_disk :: image_disk where
  "demo_disk = \<lparr>dk_sets = [(''tank/images/rootfs'', Some ''old'')], dk_snaps = [''tank/images/rootfs@base''],
     dk_files = [(''/new'', ''new'')], dk_faults = []\<rparr>"

definition demo_daemon :: "faults \<Rightarrow> image_disk daemon" where
  "demo_daemon faults = \<lparr>store = \<lparr>tasks = [], snapshots = [], images = demo_images, status_callback = False, status_events = [], db_faults = faults\<rparr>, pool = None,
     world = \<lparr>ctx = None, outside = demo_disk\<rparr>, activities = [], tailers = [], polled = []\<rparr>"


text \<open>The check for a dataset that is in use counts a failing database as ``not in use''. An image \<open>rootfs\<close>,
  imported while that one query fails, is copied over the dataset of the default image and the cleanup of the failing
  import then destroys it, with its snapshot; the row of the default image stays.\<close>

theorem import_destroys_other_image_on_db_error:
  "case registry_Import demo_registry 7 ''rootfs'' ''/new'' [] (demo_daemon [True]) of (r, d') \<Rightarrow>
     (\<exists>e. r = Inl e) \<and> images (store d') = demo_images \<and> image_state ''tank/images/rootfs'' (outside (world d')) = (None, False)"
proof -
  have "case registry_Import demo_registry 7 ''rootfs'' ''/new'' [] (demo_daemon [True]) of (r, d') \<Rightarrow>
     (case r of Inl _ \<Rightarrow> True | Inr _ \<Rightarrow> False) \<and> images (store d') = demo_images \<and>
     image_state ''tank/images/rootfs'' (outside (world d')) = (None, False)"
    by code_simp
  then show ?thesis by (auto split: prod.splits sum.splits)
qed

end
