(* ===== verification/Grpc.thy ===== *)
theory Grpc
  imports Images Reconcile
begin

text \<open>
  The request handlers of \<open>pkg/daemon/grpc.go\<close>: what they take from a request, which
  operation of the task manager or the image registry they run, and the status code a failure is
  answered with.
\<close>

section \<open>Answers\<close>

datatype rpc_code = Unavailable | Internal | NotFound | FailedPrecondition | InvalidArgument | Unimplemented

type_synonym rpc_status = "rpc_code \<times> string"

type_synonym ('e, 'a) rpc = "'e daemon \<Rightarrow> (rpc_status + 'a) \<times> 'e daemon"

text \<open>The texts the standard library makes: of an error, of a time, and of a size (which goes through floats).\<close>

record texts =
  text_error :: "goerr \<Rightarrow> string"
  text_time :: "nat \<Rightarrow> string"
  text_bytes :: "int \<Rightarrow> string"

record image_info =
  ii_reference :: string
  ii_digest :: string
  ii_size :: string
  ii_created :: string

text \<open>The daemon as the handlers see it: the task manager and the image registry may be missing, and so may the
  image listing of the backend.\<close>

record 'e grpc_server =
  gs_tasks :: "'e services option"
  gs_backend :: string
  gs_images :: "'e registry option"
  gs_lister :: "('e env, image_info list) op option"

definition answer :: "(goerr \<Rightarrow> rpc_status) \<Rightarrow> ('a \<Rightarrow> 'b) \<Rightarrow> ('e daemon, 'a) op \<Rightarrow> ('e, 'b) rpc" where
  "answer status f m = (\<lambda>d. case m d of (Inl e, d') \<Rightarrow> (Inl (status e), d') | (Inr a, d') \<Rightarrow> (Inr (f a), d'))"

definition refuse :: "rpc_status \<Rightarrow> ('e, 'a) rpc" where
  "refuse s = (\<lambda>d. (Inl s, d))"

definition with_tasks :: "'e grpc_server \<Rightarrow> ('e services \<Rightarrow> ('e, 'a) rpc) \<Rightarrow> ('e, 'a) rpc" where
  "with_tasks g f = (case gs_tasks g of None \<Rightarrow> refuse (Unavailable, ''task manager not initialized'') | Some sv \<Rightarrow> f sv)"

definition failed :: "texts \<Rightarrow> string \<Rightarrow> goerr \<Rightarrow> rpc_status" where
  "failed tx what e = (Internal, ''failed to '' @ what @ '': '' @ text_error tx e)"

definition not_found_or :: "texts \<Rightarrow> string \<Rightarrow> goerr \<Rightarrow> rpc_status" where
  "not_found_or tx what e = (if errors_is e ErrTaskNotFound then (NotFound, text_error tx e) else failed tx what e)"

section \<open>Tasks\<close>

record create_task_request =
  cr_name :: string
  cr_vm_env :: "(string \<times> string) list"
  cr_cpus :: "32 word"
  cr_memory :: string
  cr_no_tailscale :: bool
  cr_authkey :: string
  cr_ssh_keys :: "string list"
  cr_dotenv :: string
  cr_image :: string

definition manager_request :: "create_task_request \<Rightarrow> create_request" where
  "manager_request req =
     \<lparr>rq_name = cr_name req, rq_command = [], rq_env = cr_vm_env req, rq_cpus = cr_cpus req,
      rq_memory = parseMemory (cr_memory req), rq_no_tailscale = cr_no_tailscale req, rq_authkey = cr_authkey req,
      rq_ssh_keys = cr_ssh_keys req, rq_dotenv = cr_dotenv req, rq_image = cr_image req\<rparr>"

text \<open>\<open>i\<close> is the identifier the task manager draws.\<close>

definition rpc_CreateTask :: "'e grpc_server \<Rightarrow> texts \<Rightarrow> create_task_request \<Rightarrow> string \<Rightarrow> nat \<Rightarrow> ('e, string \<times> string) rpc" where
  "rpc_CreateTask g tx req i now =
     with_tasks g (\<lambda>sv. answer (failed tx ''create task'') (\<lambda>t. (ID t, TailscaleHostname t))
       (tm_CreateTask sv (manager_request req) i now))"

record task_message =
  tm_id :: string
  tm_name :: string
  tm_status :: string
  tm_hostname :: string
  tm_ip :: string
  tm_backend :: string
  tm_vm_id :: string
  tm_image :: string
  tm_created_at :: string
  tm_stopped_at :: string

definition taskToProto :: "texts \<Rightarrow> string \<Rightarrow> task \<Rightarrow> task_message" where
  "taskToProto tx backend t =
     \<lparr>tm_id = ID t, tm_name = Name t, tm_status = Status t, tm_hostname = TailscaleHostname t, tm_ip = IP t, tm_backend = backend,
      tm_vm_id = VMID t, tm_image = Image t, tm_created_at = text_time tx (CreatedAt t),
      tm_stopped_at = (case StoppedAt t of None \<Rightarrow> [] | Some s \<Rightarrow> text_time tx s)\<rparr>"

definition rpc_GetTask :: "'e grpc_server \<Rightarrow> texts \<Rightarrow> string \<Rightarrow> ('e, task_message) rpc" where
  "rpc_GetTask g tx i =
     with_tasks g (\<lambda>sv. answer (not_found_or tx ''get task'') (taskToProto tx (gs_backend g)) (on_store (state_GetTask i)))"

text \<open>The listing asks the database, not the task manager.\<close>

definition rpc_ListTasks :: "'e grpc_server \<Rightarrow> texts \<Rightarrow> string \<Rightarrow> ('e, task_message list) rpc" where
  "rpc_ListTasks g tx status =
     answer (failed tx ''list tasks'') (map (taskToProto tx (gs_backend g))) (on_store (state_ListTasks status))"

definition rpc_StopTask :: "'e grpc_server \<Rightarrow> texts \<Rightarrow> string \<Rightarrow> nat \<Rightarrow> ('e, unit) rpc" where
  "rpc_StopTask g tx i now =
     with_tasks g (\<lambda>sv. answer (not_found_or tx ''stop task'') id (stopTaskLocked sv now i))"

definition rpc_RestartTask :: "'e grpc_server \<Rightarrow> texts \<Rightarrow> string \<Rightarrow> nat \<Rightarrow> ('e, unit) rpc" where
  "rpc_RestartTask g tx i now =
     with_tasks g (\<lambda>sv. answer (\<lambda>e.
         if errors_is e ErrTaskNotFound then (NotFound, text_error tx e)
         else if errors_is e ErrTaskNotStopped then (FailedPrecondition, text_error tx e)
         else failed tx ''restart task'' e) id (restartTaskLocked sv now i))"

definition rpc_DestroyTask :: "'e grpc_server \<Rightarrow> texts \<Rightarrow> string \<Rightarrow> ('e, unit) rpc" where
  "rpc_DestroyTask g tx i =
     with_tasks g (\<lambda>sv. answer (not_found_or tx ''destroy task'') id (destroyTaskLocked sv i))"

section \<open>Snapshots\<close>

definition rpc_CreateSnapshot :: "'e grpc_server \<Rightarrow> texts \<Rightarrow> string \<Rightarrow> string \<Rightarrow> nat \<Rightarrow> ('e, string) rpc" where
  "rpc_CreateSnapshot g tx i label now =
     with_tasks g (\<lambda>sv. answer (failed tx ''create snapshot'') id (tm_CreateSnapshot sv now i label))"

definition rpc_ListSnapshots :: "'e grpc_server \<Rightarrow> texts \<Rightarrow> string \<Rightarrow> ('e, string list) rpc" where
  "rpc_ListSnapshots g tx i =
     with_tasks g (\<lambda>sv. answer (failed tx ''list snapshots'') id (tm_ListTaskSnapshots sv i))"

definition rpc_RestoreSnapshot :: "'e grpc_server \<Rightarrow> texts \<Rightarrow> string \<Rightarrow> string \<Rightarrow> nat \<Rightarrow> ('e, unit) rpc" where
  "rpc_RestoreSnapshot g tx i name now =
     with_tasks g (\<lambda>sv. answer (failed tx ''restore snapshot'') id (tm_RestoreSnapshot sv now i name))"

definition rpc_GetLogs :: "('e, unit) rpc" where
  "rpc_GetLogs = refuse (Unimplemented, ''use SSH via Tailscale for log access'')"

section \<open>Images\<close>

definition backendName :: "'e grpc_server \<Rightarrow> string" where
  "backendName g = (if gs_backend g = [] then ''firecracker'' else gs_backend g)"

definition registry_ListImages :: "texts \<Rightarrow> ('e daemon, image_info list) op" where
  "registry_ListImages tx =
     call (on_store state_ListImages) (\<lambda>recs.
       ok (map (\<lambda>rec. \<lparr>ii_reference = im_name rec, ii_digest = [], ii_size = text_bytes tx (im_size_bytes rec),
         ii_created = text_time tx (im_created_at rec)\<rparr>) recs))"

definition rpc_ListImages :: "'e grpc_server \<Rightarrow> texts \<Rightarrow> ('e, image_info list) rpc" where
  "rpc_ListImages g tx =
     with_tasks g (\<lambda>sv.
       case (case gs_images g of Some rg \<Rightarrow> Some (registry_ListImages tx) | None \<Rightarrow> map_option on_world (gs_lister g)) of
         None \<Rightarrow> refuse (Unimplemented,
           ''image listing is not supported by the '' @ backendName g @ '' backend (PRI-2150 phase 2)'')
       | Some lister \<Rightarrow> answer (\<lambda>e. (Internal, ''list images: '' @ text_error tx e)) id lister)"

definition imageMutationUnsupported :: "'e grpc_server \<Rightarrow> string \<Rightarrow> string \<Rightarrow> rpc_status" where
  "imageMutationUnsupported g verb containerCmd =
     (Unimplemented,
      if backendName g = ''apple-container'' then
        ''the apple-container image store is managed by the container CLI; use `'' @ containerCmd @ ''` on the daemon host''
      else ''image '' @ verb @ '' requires the Firecracker image registry (PRI-2150 phase 2)'')"

definition rpc_ImportImage :: "'e grpc_server \<Rightarrow> texts \<Rightarrow> string \<Rightarrow> string \<Rightarrow> string \<Rightarrow> nat \<Rightarrow> ('e, unit) rpc" where
  "rpc_ImportImage g tx name rootfsPath kernelPath now =
     (case gs_images g of
        Some rg \<Rightarrow> answer (\<lambda>e. (InvalidArgument, text_error tx e)) id (registry_Import rg now name rootfsPath kernelPath)
      | None \<Rightarrow> refuse (imageMutationUnsupported g ''import'' ''container image load` or `container image pull''))"

definition rpc_RemoveImage :: "'e grpc_server \<Rightarrow> texts \<Rightarrow> string \<Rightarrow> ('e, unit) rpc" where
  "rpc_RemoveImage g tx name =
     (case gs_images g of
        Some rg \<Rightarrow> answer (\<lambda>e. (InvalidArgument, text_error tx e)) id (registry_Remove rg name)
      | None \<Rightarrow> refuse (imageMutationUnsupported g ''remove'' ''container image rm''))"

section \<open>Refusals\<close>

lemma GetTask_missing:
  "scannable (store d) \<Longrightarrow> db_faults (store d) = [] \<Longrightarrow> task_of (store d) i = None \<Longrightarrow>
   on_store (state_GetTask i) d = (Inl (not_found i), d)"
  by (simp add: on_store_def zoom_def state_GetTask_task_of)

lemma GetTask_present:
  "db_faults (store d) = [] \<Longrightarrow> task_of (store d) i = Some t \<Longrightarrow> on_store (state_GetTask i) d = (Inr t, d)"
  by (simp add: on_store_def zoom_def GetTask_run)

lemma admitted_missing:
  "scannable (store d) \<Longrightarrow> db_faults (store d) = [] \<Longrightarrow> task_of (store d) i = None \<Longrightarrow>
   admitted_task i d = (Inl (not_found i), d)"
  by (simp add: admitted_task_def call_Inl [OF GetTask_missing])

lemma admitted_refuses:
  "db_faults (store d) = [] \<Longrightarrow> task_of (store d) i = Some t \<Longrightarrow> Status t = TaskStatusCleanupPending \<Longrightarrow>
   admitted_task i d = (Inl (Sentinel ErrTaskCleanupPending), d)"
  by (simp add: admitted_task_def call_def GetTask_present rejectCleanupPending_def)

lemma admitted_admits:
  "db_faults (store d) = [] \<Longrightarrow> task_of (store d) i = Some t \<Longrightarrow> Status t \<noteq> TaskStatusCleanupPending \<Longrightarrow>
   admitted_task i d = (Inr t, d)"
  by (simp add: admitted_task_def call_def GetTask_present rejectCleanupPending_def)

text \<open>The operations that begin with the admission of the task.\<close>

lemma refused_operations:
  assumes "admitted_task i d = (Inl e, d)"
  shows "stopTaskLocked sv now i d = (Inl e, d)" "restartTaskLocked sv now i d = (Inl e, d)"
    "tm_CreateSnapshot sv now i label d = (Inl e, d)" "tm_ListTaskSnapshots sv i d = (Inl e, d)"
    "tm_RestoreSnapshot sv now i name d = (Inl e, d)"
  by (simp_all add: stopTaskLocked_def restartTaskLocked_def tm_CreateSnapshot_def tm_ListTaskSnapshots_def tm_RestoreSnapshot_def
      call_def assms)

lemma ctx_alive: "ctx (world d) = None \<Longrightarrow> d_ctx d = (Inr (), d)"
  by (cases d) (simp add: d_ctx_def on_world_def zoom_def ctx_err_def)

definition denies :: "rpc_code \<Rightarrow> ('e, 'a) rpc \<Rightarrow> 'e daemon \<Rightarrow> bool" where
  "denies c m d \<longleftrightarrow> (\<exists>s. m d = (Inl (c, s), d))"

lemmas rpc_defs = rpc_GetTask_def rpc_StopTask_def rpc_RestartTask_def rpc_DestroyTask_def rpc_CreateSnapshot_def
  rpc_ListSnapshots_def rpc_RestoreSnapshot_def with_tasks_def

lemma destroy_missing:
  assumes "scannable (store d)" "db_faults (store d) = []" "ctx (world d) = None" "task_of (store d) i = None"
  shows "destroyTaskLocked sv i d = (Inr (), d)"
  by (simp add: destroyTaskLocked_def call_def attempt_def ctx_alive [OF assms(3)] GetTask_missing [OF assms(1,2,4)] not_found_def)

text \<open>C10. The API refuses in the documented way, without changing anything. For a task that does not exist it answers
  NotFound to a read, a stop and a restart, Internal to the requests for snapshots, and success to a destruction, which is
  idempotent. A task whose cleanup is pending is shown, and refuses everything but destruction with Internal; a task that
  is neither stopped nor failed refuses a restart with FailedPrecondition. Without a task manager the answer is Unavailable.\<close>

theorem rpc_refusals:
  assumes "scannable (store d)" "db_faults (store d) = []" "ctx (world d) = None"
  shows "case gs_tasks g of
      None \<Rightarrow> denies Unavailable (rpc_GetTask g tx i) d \<and> denies Unavailable (rpc_StopTask g tx i now) d \<and>
        denies Unavailable (rpc_RestartTask g tx i now) d \<and> denies Unavailable (rpc_DestroyTask g tx i) d
    | Some sv \<Rightarrow> (case task_of (store d) i of
        None \<Rightarrow> denies NotFound (rpc_GetTask g tx i) d \<and> denies NotFound (rpc_StopTask g tx i now) d \<and>
          denies NotFound (rpc_RestartTask g tx i now) d \<and> rpc_DestroyTask g tx i d = (Inr (), d) \<and>
          denies Internal (rpc_CreateSnapshot g tx i label now) d \<and> denies Internal (rpc_ListSnapshots g tx i) d \<and>
          denies Internal (rpc_RestoreSnapshot g tx i name now) d
      | Some t \<Rightarrow> rpc_GetTask g tx i d = (Inr (taskToProto tx (gs_backend g) t), d) \<and>
          (Status t = TaskStatusCleanupPending \<longrightarrow>
             denies Internal (rpc_StopTask g tx i now) d \<and> denies Internal (rpc_RestartTask g tx i now) d \<and>
             denies Internal (rpc_CreateSnapshot g tx i label now) d \<and> denies Internal (rpc_ListSnapshots g tx i) d \<and>
             denies Internal (rpc_RestoreSnapshot g tx i name now) d) \<and>
          (Status t \<notin> {TaskStatusCleanupPending, ''stopped'', ''failed''} \<longrightarrow>
             denies FailedPrecondition (rpc_RestartTask g tx i now) d))"
proof (cases "gs_tasks g")
  case None
  then show ?thesis by (simp add: rpc_defs denies_def refuse_def)
next
  case (Some sv)
  note nf = refused_operations [OF admitted_missing [OF assms(1,2)]]
  note pend = refused_operations [OF admitted_refuses [OF assms(2)]]
  show ?thesis
  proof (cases "task_of (store d) i")
    case None
    have "answer (not_found_or tx ''destroy task'') id (destroyTaskLocked sv i) d = (Inr (), d)"
      by (simp add: answer_def destroy_missing [OF assms None])
    then show ?thesis using Some None
      by (simp add: rpc_defs denies_def answer_def nf [OF None] GetTask_missing [OF assms(1,2) None] failed_def not_found_or_def not_found_def)
  next
    case t: (Some t)
    have busy: "restartTaskLocked sv now i d = (Inl (Wrap (i @ '' (status: '' @ Status t @ '')'') (Sentinel ErrTaskNotStopped)), d)"
      if "Status t \<notin> {TaskStatusCleanupPending, ''stopped'', ''failed''}"
      using that by (simp add: restartTaskLocked_def call_def admitted_admits [OF assms(2) t])
    show ?thesis using Some t
      by (auto simp: rpc_defs denies_def answer_def GetTask_present [OF assms(2) t] pend [OF t] busy failed_def not_found_or_def)
  qed
qed

definition plain_texts :: texts where
  "plain_texts = \<lparr>text_error = (\<lambda>_. ''refused''), text_time = (\<lambda>_. ''noon''), text_bytes = (\<lambda>_. ''none'')\<rparr>"

lemma rpc_refusals_witness:
  "denies FailedPrecondition (rpc_RestartTask \<lparr>gs_tasks = Some pid_services, gs_backend = [], gs_images = None, gs_lister = None\<rparr>
     plain_texts ''a'' 7) crashed_daemon \<and>
   denies NotFound (rpc_StopTask \<lparr>gs_tasks = Some pid_services, gs_backend = [], gs_images = None, gs_lister = None\<rparr>
     plain_texts ''c'' 7) crashed_daemon"
proof -
  let ?g = "\<lparr>gs_tasks = Some pid_services, gs_backend = [], gs_images = None, gs_lister = None\<rparr>"
  obtain t where rows: "task_of (store crashed_daemon) ''a'' = Some t" "Status t = ''running''"
    "task_of (store crashed_daemon) ''c'' = None"
    by (auto simp: crashed_daemon_def running_row_def task_of_def scan_task_def find_row_def)
  have "scannable (store crashed_daemon)" "db_faults (store crashed_daemon) = []" "ctx (world crashed_daemon) = None"
    by (simp_all add: crashed_daemon_def running_row_def scannable_def)
  note refused = rpc_refusals [OF this, of ?g plain_texts]
  show ?thesis
    using refused [of "''a''" 7] refused [of "''c''" 7] rows by (simp add: TaskStatusCleanupPending_def)
qed

end
