(* ===== verification/Shell.thy ===== *)
theory Shell
  imports Wire Cloud_Init "HOL-Library.Word"
begin

text \<open>
  The shell protocol between the host and a VM (\<open>pkg/shell/protocol.go\<close>), the session
  the guest starts (\<open>pkg/shell/session.go\<close>) and the handling of the opening message
  (\<open>cmd/stockyard-shell/main.go\<close>). Reading what was written gives the messages back, also
  when the writer was cut off at any byte; a session's fixed environment cannot be overridden.
\<close>

section \<open>Framing\<close>

definition MaxPayloadSize :: nat where
  "MaxPayloadSize = 1024 * 1024"

definition MsgOpen :: char where "MsgOpen = CHR 0x01"
definition MsgData :: char where "MsgData = CHR 0x02"
definition MsgResize :: char where "MsgResize = CHR 0x03"
definition MsgExit :: char where "MsgExit = CHR 0x04"
definition MsgError :: char where "MsgError = CHR 0x05"

definition WriteMessage :: "char \<Rightarrow> string \<Rightarrow> (conn, unit) op" where
  "WriteMessage msgType payload =
     call_wrap ''write type'' (write_bytes [msgType]) (\<lambda>_.
     call_wrap ''write length'' (write_bytes (be32_bytes (length payload))) (\<lambda>_.
     if payload = [] then ok ()
     else call_wrap ''write payload'' (write_bytes payload) (\<lambda>_. ok ())))"

definition ReadMessage :: "(string, char \<times> string) op" where
  "ReadMessage =
     call_wrap ''read type'' (read_full 1) (\<lambda>typeBuf.
     call_wrap ''read length'' (read_full 4) (\<lambda>lenBuf.
     let len = be_value lenBuf in
     if MaxPayloadSize < len then
       fail (Msg (''payload too large: '' @ itoa len @ '' > '' @ itoa MaxPayloadSize))
     else if len = 0 then ok (hd typeBuf, [])
     else call_wrap ''read payload'' (read_full len) (\<lambda>payload. ok (hd typeBuf, payload))))"

text \<open>
  The loops around them: a writer that stops at its first error, and a reader that goes on
  until a read fails.
\<close>

fun write_messages :: "(char \<times> string) list \<Rightarrow> (conn, unit) op" where
  "write_messages [] = ok ()"
| "write_messages ((t, p) # ms) = call (WriteMessage t p) (\<lambda>_. write_messages ms)"

lemma read_full_length: "0 < n \<Longrightarrow> read_full n s = (Inr x, s') \<Longrightarrow> length s' < length s"
  by (auto simp: read_full_def split: if_splits)

lemma read_full_le: "read_full n s = (r, s') \<Longrightarrow> length s' \<le> length s"
  by (auto simp: read_full_def split: if_splits)

lemma ReadMessage_length:
  assumes "ReadMessage s = (Inr m, s')"
  shows "length s' < length s"
proof -
  obtain a u where 1: "read_full 1 s = (Inr a, u)" "call_wrap ''read length'' (read_full 4) (\<lambda>lenBuf.
      let len = be_value lenBuf in
      if MaxPayloadSize < len then fail (Msg (''payload too large: '' @ itoa len @ '' > '' @ itoa MaxPayloadSize))
      else if len = 0 then ok (hd a, [])
      else call_wrap ''read payload'' (read_full len) (\<lambda>payload. ok (hd a, payload))) u = (Inr m, s')"
    using assms by (auto simp: ReadMessage_def call_wrap_Inr_iff)
  from 1(2) have "length s' \<le> length u"
    by (auto simp: call_wrap_Inr_iff Let_def split: if_splits dest!: read_full_le)
  with read_full_length [OF _ 1(1)] show ?thesis by simp
qed

function read_messages :: "string \<Rightarrow> (char \<times> string) list \<times> goerr" where
  "read_messages s =
     (case ReadMessage s of
        (Inl e, _) \<Rightarrow> ([], e)
      | (Inr m, s') \<Rightarrow> (case read_messages s' of (ms, e) \<Rightarrow> (m # ms, e)))"
  by pat_completeness auto
termination by (relation "measure length") (auto dest: ReadMessage_length [OF sym])

declare read_messages.simps [simp del]

definition frame :: "char \<times> string \<Rightarrow> string" where
  "frame m = fst m # be32_bytes (length (snd m)) @ snd m"

lemma MaxPayloadSize_less: "n \<le> MaxPayloadSize \<Longrightarrow> n mod 4294967296 = n"
  by (simp add: MaxPayloadSize_def)

lemma ReadMessage_frame:
  assumes "length p \<le> MaxPayloadSize"
  shows "ReadMessage (frame (t, p) @ s) = (Inr (t, p), s)"
proof -
  have t: "read_full (Suc 0) (frame (t, p) @ s) = (Inr [t], be32_bytes (length p) @ p @ s)"
    using read_full_append [of "[t]"] by (simp add: frame_def)
  have l: "read_full 4 (be32_bytes (length p) @ p @ s) = (Inr (be32_bytes (length p)), p @ s)" by simp
  have len: "be_value (be32_bytes (length p)) = length p" using MaxPayloadSize_less [OF assms] by simp
  show ?thesis
    using assms by (simp add: ReadMessage_def call_wrap_Inr [where m = "read_full _", OF t] Let_def len
        call_wrap_Inr [where m = "read_full _", OF l] call_wrap_Inr [where m = "read_full _", OF read_full_append] del: be_value_be32)
qed

text \<open>A proper prefix of a frame is not a message.\<close>

lemma ReadMessage_cut:
  assumes "length p \<le> MaxPayloadSize" "k < length (frame (t, p))"
  shows "\<exists>e. ReadMessage (take k (frame (t, p))) = (Inl e, [])"
proof (cases k)
  case 0
  then show ?thesis by (simp add: ReadMessage_def call_wrap_def call_def wrap_def read_full_def)
next
  case (Suc j)
  define rest where "rest = take j (be32_bytes (length p) @ p)"
  have t: "read_full (Suc 0) (take k (frame (t, p))) = (Inr [t], rest)"
    using read_full_append [of "[t]" rest] by (simp add: frame_def Suc rest_def)
  have len: "be_value (be32_bytes (length p)) = length p" using MaxPayloadSize_less [OF assms(1)] by simp
  show ?thesis
  proof (cases "j < 4")
    case True
    then obtain e where "read_full 4 rest = (Inl e, [])" using read_full_short [of rest 4] by (auto simp: rest_def)
    then show ?thesis by (simp add: ReadMessage_def call_wrap_Inr [where m = "read_full _", OF t] call_wrap_Inl [where m = "read_full _"])
  next
    case False
    then have l: "read_full 4 rest = (Inr (be32_bytes (length p)), take (j - 4) p)" by (simp add: rest_def)
    have short: "length (take (j - 4) p) < length p" using assms(2) False by (simp add: frame_def Suc)
    then obtain e where "read_full (length p) (take (j - 4) p) = (Inl e, [])" using read_full_short by blast
    moreover have "length p \<noteq> 0" using short by auto
    ultimately show ?thesis
      using assms(1) by (simp add: ReadMessage_def call_wrap_Inr [where m = "read_full _", OF t] len Let_def
          call_wrap_Inr [where m = "read_full _", OF l] call_wrap_Inl [where m = "read_full _"] del: be_value_be32)
  qed
qed

lemma read_messages_end: "\<exists>e. read_messages [] = ([], e)"
  by (subst read_messages.simps) (simp add: ReadMessage_def call_wrap_def call_def wrap_def read_full_def)

lemma read_messages_prefix:
  assumes "\<forall>m \<in> set ms. length (snd m) \<le> MaxPayloadSize"
  shows "\<exists>n e. read_messages (take k (concat (map frame ms))) = (take n ms, e) \<and> (length (concat (map frame ms)) \<le> k \<longrightarrow> length ms \<le> n)"
  using assms
proof (induction ms arbitrary: k)
  case Nil
  then show ?case using read_messages_end by auto
next
  case (Cons m ms)
  obtain t p where m: "m = (t, p)" by fastforce
  have size: "length p \<le> MaxPayloadSize" using Cons.prems by (simp add: m)
  show ?case
  proof (cases "k < length (frame m)")
    case True
    then obtain e where "ReadMessage (take k (frame m)) = (Inl e, [])" using ReadMessage_cut [OF size] by (auto simp: m)
    then have "read_messages (take k (concat (map frame (m # ms)))) = ([], e)"
      using True by (subst read_messages.simps) simp
    then show ?thesis using True by (intro exI [of _ 0]) auto
  next
    case False
    then have split: "take k (concat (map frame (m # ms))) = frame m @ take (k - length (frame m)) (concat (map frame ms))"
      by simp
    obtain n e where n: "read_messages (take (k - length (frame m)) (concat (map frame ms))) = (take n ms, e)"
        "length (concat (map frame ms)) \<le> k - length (frame m) \<longrightarrow> length ms \<le> n"
      using Cons.IH [of "k - length (frame m)"] Cons.prems by auto
    have "read_messages (take k (concat (map frame (m # ms)))) = (take (Suc n) (m # ms), e)"
      unfolding split by (subst read_messages.simps) (simp add: m ReadMessage_frame [OF size] n(1) [unfolded m])
    then show ?thesis using n(2) by (intro exI [of _ "Suc n"]) auto
  qed
qed

text \<open>What a writer leaves on the wire, whatever write fails: a prefix of the frames.\<close>

lemma WriteMessage_written:
  assumes "WriteMessage t p c = (r, c')"
  shows "\<exists>k. written c' = written c @ take k (frame (t, p)) \<and> (r = Inr () \<longrightarrow> length (frame (t, p)) \<le> k)"
proof -
  have "\<exists>k. written c' = written c1 @ take k p \<and> (r = Inr () \<longrightarrow> length p \<le> k)"
    if "(if p = [] then ok () else call_wrap ''write payload'' (write_bytes p) (\<lambda>_. ok ())) c1 = (r, c')" for c1
  proof (cases "p = []")
    case False
    then have "call_wrap ''write payload'' (write_bytes p) (\<lambda>_. ok ()) c1 = (r, c')" using that by simp
    from written_chain [OF this written_done] show ?thesis by simp
  qed (use that in auto)
  then have "\<exists>k. written c' = written c1 @ take k (be32_bytes (length p) @ p) \<and> (r = Inr () \<longrightarrow> length (be32_bytes (length p) @ p) \<le> k)"
    if "call_wrap ''write length'' (write_bytes (be32_bytes (length p))) (\<lambda>_.
      if p = [] then ok () else call_wrap ''write payload'' (write_bytes p) (\<lambda>_. ok ())) c1 = (r, c')" for c1
    by (intro written_chain [OF that])
  from written_chain [OF assms [unfolded WriteMessage_def] this] show ?thesis by (simp add: frame_def)
qed

lemma write_messages_written:
  assumes "write_messages ms c = (r, c')"
  shows "\<exists>k. written c' = written c @ take k (concat (map frame ms)) \<and> (r = Inr () \<longrightarrow> length (concat (map frame ms)) \<le> k)"
  using assms
proof (induction ms arbitrary: c)
  case (Cons m ms)
  obtain t p where m: "m = (t, p)" by fastforce
  obtain q c1 where w: "WriteMessage t p c = (q, c1)" by fastforce
  then obtain j where j: "written c1 = written c @ take j (frame m)" "q = Inr () \<longrightarrow> length (frame m) \<le> j"
    using WriteMessage_written unfolding m by blast
  show ?case
  proof (cases q)
    case (Inl e)
    then have "r = Inl e" "c' = c1" using Cons.prems w by (simp_all add: m call_Inl [where m = "WriteMessage _ _"])
    then show ?thesis using j(1) by (intro exI [of _ "min j (length (frame m))"]) (simp add: min_def)
  next
    case (Inr y)
    then have "write_messages ms c1 = (r, c')" using Cons.prems w by (simp add: m call_Inr [where m = "WriteMessage _ _"])
    from Cons.IH [OF this] obtain k where "written c' = written c1 @ take k (concat (map frame ms))"
        "r = Inr () \<longrightarrow> length (concat (map frame ms)) \<le> k" by blast
    then show ?thesis using j Inr by (intro exI [of _ "length (frame m) + k"]) auto
  qed
qed simp

text \<open>C29. Framing is sound against a connection that breaks anywhere. Messages of at most one MiB are written until the
  first write fails, after any number of bytes of any of its writes; the other side, reading until its first error, gets
  the messages in order, possibly without the last ones, never a message that was not sent, and all of them when every
  write succeeded.\<close>

theorem shell_frames_roundtrip:
  assumes "\<forall>m \<in> set ms. length (snd m) \<le> MaxPayloadSize"
    and "write_messages ms \<lparr>incoming = i, written = [], write_faults = faults\<rparr> = (r, c')"
  shows "\<exists>n. fst (read_messages (written c')) = take n ms \<and> (r = Inr () \<longrightarrow> fst (read_messages (written c')) = ms)"
proof -
  obtain k where k: "written c' = take k (concat (map frame ms))" "r = Inr () \<longrightarrow> length (concat (map frame ms)) \<le> k"
    using write_messages_written [OF assms(2)] by auto
  obtain n e where "read_messages (written c') = (take n ms, e)" "length (concat (map frame ms)) \<le> k \<longrightarrow> length ms \<le> n"
    using read_messages_prefix [OF assms(1), of k] unfolding k(1) by blast
  with k(2) show ?thesis by (intro exI [of _ n]) auto
qed

lemma shell_frames_roundtrip_witness:
  "\<exists>r c' n. write_messages [(MsgData, ''ls''), (MsgExit, [])] \<lparr>incoming = [], written = [], write_faults = [None, Some 2]\<rparr> = (r, c') \<and>
     fst (read_messages (written c')) = take n [(MsgData, ''ls''), (MsgExit, [])]"
proof -
  obtain r c' where run: "write_messages [(MsgData, ''ls''), (MsgExit, [])] \<lparr>incoming = [], written = [], write_faults = [None, Some 2]\<rparr> = (r, c')"
    by fastforce
  have "\<forall>m \<in> set [(MsgData, ''ls''), (MsgExit, [])]. length (snd m) \<le> MaxPayloadSize" by (simp add: MaxPayloadSize_def)
  from shell_frames_roundtrip [OF this run] run show ?thesis by blast
qed

section \<open>The messages\<close>

text \<open>A nil command and an empty one differ; a nil environment and an empty one are both left out.\<close>

record open_message =
  om_user :: string
  om_term :: string
  om_cols :: int
  om_rows :: int
  om_command :: "string list option"
  om_env :: "(string \<times> string) list"

definition open_json :: "open_message \<Rightarrow> json" where
  "open_json m = JObj
     ([(''user'', JStr (om_user m)), (''term'', JStr (om_term m)), (''cols'', JNum (itoa_int (om_cols m))),
       (''rows'', JNum (itoa_int (om_rows m))),
       (''command'', case om_command m of None \<Rightarrow> JNull | Some xs \<Rightarrow> JArr (map JStr xs))] @
      (if om_env m = [] then [] else [(''env'', JObj (map (\<lambda>(k, v). (k, JStr v)) (sort_key fst (om_env m))))]))"

text \<open>
  \<open>json.Unmarshal\<close> into the fields: \<open>null\<close> leaves a scalar alone, a value of another
  kind is an error, unknown members are ignored, names match in any case.
\<close>

definition to_string :: "string \<Rightarrow> json \<Rightarrow> string option" where
  "to_string old v = (case v of JStr s \<Rightarrow> Some s | JNull \<Rightarrow> Some old | _ \<Rightarrow> None)"

definition to_int :: "int \<Rightarrow> json \<Rightarrow> int option" where
  "to_int old v = (case v of JNum t \<Rightarrow> parse_int 64 t | JNull \<Rightarrow> Some old | _ \<Rightarrow> None)"

definition to_strings :: "json \<Rightarrow> string list option option" where
  "to_strings v =
     (case v of
        JNull \<Rightarrow> Some None
      | JArr vs \<Rightarrow> (if \<forall>x \<in> set vs. to_string [] x \<noteq> None then Some (Some (map (the \<circ> to_string []) vs)) else None)
      | _ \<Rightarrow> None)"

fun to_env :: "(string \<times> json) list \<Rightarrow> (string \<times> string) list \<Rightarrow> (string \<times> string) list option" where
  "to_env [] m = Some m"
| "to_env ((k, v) # ms) m = (case to_string [] v of None \<Rightarrow> None | Some s \<Rightarrow> to_env ms (AList.update k s m))"

definition open_field :: "string \<Rightarrow> json \<Rightarrow> open_message \<Rightarrow> open_message option" where
  "open_field k v m =
     (let k' = to_lower k in
      if k' = ''user'' then map_option (\<lambda>x. m\<lparr>om_user := x\<rparr>) (to_string (om_user m) v)
      else if k' = ''term'' then map_option (\<lambda>x. m\<lparr>om_term := x\<rparr>) (to_string (om_term m) v)
      else if k' = ''cols'' then map_option (\<lambda>x. m\<lparr>om_cols := x\<rparr>) (to_int (om_cols m) v)
      else if k' = ''rows'' then map_option (\<lambda>x. m\<lparr>om_rows := x\<rparr>) (to_int (om_rows m) v)
      else if k' = ''command'' then map_option (\<lambda>x. m\<lparr>om_command := x\<rparr>) (to_strings v)
      else if k' = ''env'' then
        (case v of JNull \<Rightarrow> Some (m\<lparr>om_env := []\<rparr>) | JObj ms \<Rightarrow> map_option (\<lambda>x. m\<lparr>om_env := x\<rparr>) (to_env ms (om_env m)) | _ \<Rightarrow> None)
      else Some m)"

fun open_fields :: "(string \<times> json) list \<Rightarrow> open_message \<Rightarrow> open_message option" where
  "open_fields [] m = Some m"
| "open_fields ((k, v) # ms) m = (case open_field k v m of None \<Rightarrow> None | Some m' \<Rightarrow> open_fields ms m')"

definition zero_open :: open_message where
  "zero_open = \<lparr>om_user = [], om_term = [], om_cols = 0, om_rows = 0, om_command = None, om_env = []\<rparr>"

definition unmarshal_open :: "string \<Rightarrow> open_message option" where
  "unmarshal_open data =
     (case json_parse data of
        Some (JObj ms) \<Rightarrow> open_fields ms zero_open
      | Some JNull \<Rightarrow> Some zero_open
      | _ \<Rightarrow> None)"

text \<open>The messages with one field.\<close>

definition error_json :: "string \<Rightarrow> json" where
  "error_json e = JObj [(''error'', JStr e)]"

definition exit_json :: "int \<Rightarrow> json" where
  "exit_json c = JObj [(''code'', JNum (itoa_int c))]"

definition resize_json :: "int \<Rightarrow> int \<Rightarrow> json" where
  "resize_json c r = JObj [(''cols'', JNum (itoa_int c)), (''rows'', JNum (itoa_int r))]"

lemma parse_itoa: "n < 2 ^ 63 \<Longrightarrow> parse_int 64 (itoa n) = Some (int n)"
proof -
  assume n: "n < 2 ^ 63"
  obtain c cs where c: "itoa n = c # cs" "is_digit c" by (rule itoa_Cons)
  then have "c \<noteq> CHR ''-''" "c \<noteq> CHR ''+''" by (auto simp: is_digit_def)
  moreover have "parse_digits (c # cs) = Some n" using parse_digits_itoa [of n] by (simp only: c)
  ultimately show ?thesis using n by (simp add: parse_int_def c(1))
qed

lemma parse_itoa_int: "- (2 ^ 63) \<le> i \<Longrightarrow> i < 2 ^ 63 \<Longrightarrow> parse_int 64 (itoa_int i) = Some i"
proof -
  assume i: "- (2 ^ 63) \<le> i" "i < 2 ^ 63"
  show ?thesis
  proof (cases "i < 0")
    case True
    then have "nat (- i) \<le> 2 ^ 63" using i(1) by simp
    then show ?thesis using True by (simp add: itoa_int_def parse_int_def)
  next
    case False
    then have "nat i < 2 ^ 63" using i(2) by (simp add: nat_less_iff)
    then show ?thesis using False parse_itoa [of "nat i"] by (simp add: itoa_int_def)
  qed
qed

lemma to_env_strings: "distinct (map fst (m @ es)) \<Longrightarrow> to_env (map (\<lambda>(k, v). (k, JStr v)) es) m = Some (m @ es)"
proof (induction es arbitrary: m)
  case (Cons e es)
  obtain k v where e: "e = (k, v)" by fastforce
  have "AList.update k v m = m @ [(k, v)]" using Cons.prems by (induction m) (auto simp: e)
  with Cons.IH [of "m @ [(k, v)]"] Cons.prems show ?case by (simp add: e to_string_def)
qed simp

text \<open>The opening message survives the wire: for sizes that fit Go's \<open>int\<close>, unmarshalling what was marshalled gives
  the user, terminal, size, command (a nil one stays nil) and the environment, as a map, back.\<close>

theorem open_message_roundtrip:
  assumes "- (2 ^ 63) \<le> om_cols m" "om_cols m < 2 ^ 63" "- (2 ^ 63) \<le> om_rows m" "om_rows m < 2 ^ 63"
    and "distinct (map fst (om_env m))"
  shows "\<exists>m'. unmarshal_open (marshal (open_json m)) = Some m' \<and> map_of (om_env m') = map_of (om_env m) \<and>
    m' = m\<lparr>om_env := om_env m'\<rparr>"
proof -
  have int: "int_json (open_json m)"
    by (auto simp: open_json_def list_all_iff split: option.split)
  have d: "distinct (map fst (sort_key fst (om_env m)))"
    using assms(5) by (simp add: distinct_map)
  have same: "map_of (sort_key fst (om_env m)) = map_of (om_env m)"
    using map_of_inject_set [OF d assms(5)] by simp
  let ?m = "m\<lparr>om_env := sort_key fst (om_env m)\<rparr>"
  have command: "to_strings (case om_command m of None \<Rightarrow> JNull | Some xs \<Rightarrow> JArr (map JStr xs)) = Some (om_command m)"
    by (cases "om_command m") (auto simp: to_strings_def to_string_def comp_def)
  have env: "to_env (map (\<lambda>(k, v). (k, JStr v)) (sort_key fst (om_env m))) [] = Some (sort_key fst (om_env m))"
    using to_env_strings [of "[]" "sort_key fst (om_env m)"] d by simp
  have ints: "to_int x (JNum (itoa_int (om_cols m))) = Some (om_cols m)" "to_int x (JNum (itoa_int (om_rows m))) = Some (om_rows m)" for x
    using parse_itoa_int assms by (simp_all add: to_int_def)
  have fields: "open_fields (case open_json m of JObj ms \<Rightarrow> ms) zero_open = Some ?m"
    using env by (simp add: open_json_def zero_open_def open_field_def Let_def to_lower_def to_lower_char_def to_string_def ints command)
  have "unmarshal_open (marshal (open_json m)) = Some ?m"
    using fields by (simp add: unmarshal_open_def json_parse_marshal [OF int]) (simp add: open_json_def)
  then show ?thesis using same by (intro exI [of _ ?m]) simp
qed

definition demo_open :: open_message where
  "demo_open = \<lparr>om_user = ''mooby'', om_term = [], om_cols = 80, om_rows = -1, om_command = Some [''bash'', ''-l''],
     om_env = [(''B'', ''2''), (''A'', ''1'')]\<rparr>"

lemma open_message_roundtrip_witness:
  "\<exists>m'. unmarshal_open (marshal (open_json demo_open)) = Some m' \<and> map_of (om_env m') = [''A'' \<mapsto> ''1'', ''B'' \<mapsto> ''2''] \<and>
     m' = demo_open\<lparr>om_env := om_env m'\<rparr>"
proof -
  have "- (2 ^ 63) \<le> om_cols demo_open" "om_cols demo_open < 2 ^ 63" "- (2 ^ 63) \<le> om_rows demo_open" "om_rows demo_open < 2 ^ 63"
      "distinct (map fst (om_env demo_open))"
    by (simp_all add: demo_open_def)
  moreover have "map_of (om_env demo_open) = [''A'' \<mapsto> ''1'', ''B'' \<mapsto> ''2'']" by (simp add: demo_open_def fun_upd_twist)
  ultimately show ?thesis using open_message_roundtrip [of demo_open] by metis
qed

section \<open>Sessions\<close>

text \<open>
  What the system says about a user, with the texts of its ids, and what is started: the
  command, the credential when privileges are dropped, the environment and the window size,
  whose two numbers are truncated to 16 bits.
\<close>

record os_user =
  ou_uid :: string
  ou_gid :: string
  ou_groups :: "goerr + string list"
  ou_home :: string

record session_spec =
  ss_command :: "string list"
  ss_cred :: "(nat \<times> nat \<times> nat list) option"
  ss_dir :: string
  ss_env :: "string list"
  ss_cols :: "16 word"
  ss_rows :: "16 word"

fun parse_groups :: "string list \<Rightarrow> nat list option" where
  "parse_groups [] = Some []"
| "parse_groups (g # gs) = (case parse_uint 32 g of None \<Rightarrow> None | Some n \<Rightarrow> map_option ((#) n) (parse_groups gs))"

definition assign :: "string \<times> string \<Rightarrow> string" where
  "assign kv = fst kv @ CHR ''='' # snd kv"

definition fixed_env :: "string \<Rightarrow> string \<Rightarrow> string \<Rightarrow> (string \<times> string) list" where
  "fixed_env term home user =
     [(''PATH'', ''/usr/local/bin:/usr/bin:/bin''), (''TERM'', term), (''HOME'', home), (''USER'', user), (''LOGNAME'', user)]"

definition NewSession ::
    "bool \<Rightarrow> (string \<Rightarrow> goerr + os_user) \<Rightarrow> string list \<Rightarrow> string \<Rightarrow> string \<Rightarrow> int \<Rightarrow> int \<Rightarrow> string list \<Rightarrow> (string \<times> string) list \<Rightarrow>
     goerr + session_spec" where
  "NewSession isRoot lookup environ user term cols rows command env =
     (if command = [] then Inl (Msg ''command is required'')
      else if user \<noteq> [] \<and> isRoot then
        (case lookup user of
           Inl e \<Rightarrow> Inl (Wrap (''lookup user '' @ go_quote user) e)
         | Inr u \<Rightarrow> (case parse_uint 32 (ou_uid u) of
             None \<Rightarrow> Inl (Msg ''parse uid'')
           | Some uid \<Rightarrow> (case parse_uint 32 (ou_gid u) of
               None \<Rightarrow> Inl (Msg ''parse gid'')
             | Some gid \<Rightarrow> (case ou_groups u of
                 Inl e \<Rightarrow> Inl (Wrap (''lookup groups for '' @ go_quote user) e)
               | Inr gs \<Rightarrow> (case parse_groups gs of
                   None \<Rightarrow> Inl (Msg ''parse supplementary gid'')
                 | Some groups \<Rightarrow> Inr
                     \<lparr>ss_command = command, ss_cred = Some (uid, gid, groups), ss_dir = ou_home u,
                      ss_env = map assign env @ map assign (fixed_env term (ou_home u) user),
                      ss_cols = word_of_int cols, ss_rows = word_of_int rows\<rparr>)))))
      else Inr
        \<lparr>ss_command = command, ss_cred = None, ss_dir = [], ss_env = environ @ [assign (''TERM'', term)] @ map assign env,
         ss_cols = word_of_int cols, ss_rows = word_of_int rows\<rparr>)"

text \<open>
  What a process sees: \<open>os/exec\<close> keeps the last assignment of a name.
\<close>

definition env_value :: "string list \<Rightarrow> string \<Rightarrow> string option" where
  "env_value es k = (case rev (filter (\<lambda>e. has_prefix e (k @ ''='')) es) of [] \<Rightarrow> None | e # _ \<Rightarrow> Some (trim_prefix e (k @ ''='')))"

datatype open_outcome = Dropped | Refused string | Started session_spec

definition open_defaults :: "open_message \<Rightarrow> open_message" where
  "open_defaults m =
     m\<lparr>om_cols := if om_cols m \<le> 0 then 80 else om_cols m, om_rows := if om_rows m \<le> 0 then 24 else om_rows m,
       om_term := if om_term m = [] then ''xterm'' else om_term m\<rparr>"

definition open_session ::
    "(goerr \<Rightarrow> string) \<Rightarrow> bool \<Rightarrow> (string \<Rightarrow> goerr + os_user) \<Rightarrow> string list \<Rightarrow> string \<Rightarrow> open_outcome" where
  "open_session txt isRoot lookup environ input =
     (case ReadMessage input of
        (Inl e, _) \<Rightarrow> Dropped
      | (Inr (t, payload), _) \<Rightarrow>
          if t \<noteq> MsgOpen then Refused ''expected Open message''
          else (case unmarshal_open payload of
            None \<Rightarrow> Refused ''invalid open message''
          | Some m0 \<Rightarrow>
              (let m = open_defaults m0; command = (case om_command m of None \<Rightarrow> [] | Some xs \<Rightarrow> xs) in
               if command = [] then Refused ''command is required''
               else (case NewSession isRoot lookup environ (om_user m) (om_term m) (om_cols m) (om_rows m) command (om_env m) of
                 Inl e \<Rightarrow> Refused (''failed to create session: '' @ txt e)
               | Inr spec \<Rightarrow> Started spec))))"

text \<open>The reply the guest sends in each case, as a frame.\<close>

definition open_reply :: "open_outcome \<Rightarrow> (char \<times> string) list" where
  "open_reply r = (case r of Refused e \<Rightarrow> [(MsgError, marshal (error_json e))] | _ \<Rightarrow> [])"

lemma env_value_last: "env_value (es @ [assign (k, v)]) k = Some v"
  using trim_prefix_append [of "k @ ''=''" v] has_prefix_append [of "k @ ''=''" v] by (simp add: env_value_def assign_def)

lemma env_value_skip: "\<not> has_prefix e (k @ ''='') \<Longrightarrow> env_value (es @ [e]) k = env_value es k"
  by (simp add: env_value_def)

text \<open>C30. A root guest confines what the host asks it to run. Whatever bytes arrive on the connection, if they open a session
  for a named user then it runs with that user's numeric ids and groups, in its home directory, and it sees the fixed
  search path, the user's home and names, and a non-empty terminal type, whatever the environment in the message says.\<close>

theorem shell_session_confined:
  assumes "open_session txt True lookup environ input = Started spec" "ReadMessage input = (Inr (MsgOpen, payload), rest)"
    and "unmarshal_open payload = Some m" "om_user m \<noteq> []"
  shows "\<exists>u uid gid gs groups. lookup (om_user m) = Inr u \<and> parse_uint 32 (ou_uid u) = Some uid \<and> parse_uint 32 (ou_gid u) = Some gid \<and>
    ou_groups u = Inr gs \<and> parse_groups gs = Some groups \<and>
    ss_cred spec = Some (uid, gid, groups) \<and> ss_dir spec = ou_home u \<and> ss_command spec \<noteq> [] \<and>
    env_value (ss_env spec) ''PATH'' = Some ''/usr/local/bin:/usr/bin:/bin'' \<and> env_value (ss_env spec) ''HOME'' = Some (ou_home u) \<and>
    env_value (ss_env spec) ''USER'' = Some (om_user m) \<and> env_value (ss_env spec) ''LOGNAME'' = Some (om_user m) \<and>
    (\<exists>t. t \<noteq> [] \<and> env_value (ss_env spec) ''TERM'' = Some t)"
proof -
  let ?m = "open_defaults m"
  have user: "om_user ?m = om_user m" "om_term ?m \<noteq> []" by (simp_all add: open_defaults_def)
  obtain command where run: "NewSession True lookup environ (om_user m) (om_term ?m) (om_cols ?m) (om_rows ?m) command (om_env ?m) = Inr spec"
      "command \<noteq> []"
    using assms(1-3) user(1) by (auto simp: open_session_def Let_def split: if_splits sum.splits option.splits)
  then obtain u uid gid gs groups where u: "lookup (om_user m) = Inr u" "parse_uint 32 (ou_uid u) = Some uid" "parse_uint 32 (ou_gid u) = Some gid"
      "ou_groups u = Inr gs" "parse_groups gs = Some groups"
      "spec = \<lparr>ss_command = command, ss_cred = Some (uid, gid, groups), ss_dir = ou_home u,
        ss_env = map assign (om_env ?m) @ map assign (fixed_env (om_term ?m) (ou_home u) (om_user m)),
        ss_cols = word_of_int (om_cols ?m), ss_rows = word_of_int (om_rows ?m)\<rparr>"
    using assms(4) by (auto simp: NewSession_def split: if_splits sum.splits option.splits)
  define es where "es = map assign (om_env ?m)"
  have env: "ss_env spec = es @ [assign (''PATH'', ''/usr/local/bin:/usr/bin:/bin'')] @ [assign (''TERM'', om_term ?m)] @
      [assign (''HOME'', ou_home u)] @ [assign (''USER'', om_user m)] @ [assign (''LOGNAME'', om_user m)]"
    by (simp add: u(6) fixed_env_def es_def)
  have vars: "env_value (ss_env spec) ''PATH'' = Some ''/usr/local/bin:/usr/bin:/bin''" "env_value (ss_env spec) ''TERM'' = Some (om_term ?m)"
    "env_value (ss_env spec) ''HOME'' = Some (ou_home u)" "env_value (ss_env spec) ''USER'' = Some (om_user m)"
    "env_value (ss_env spec) ''LOGNAME'' = Some (om_user m)"
    by (simp_all add: env env_value_def assign_def has_prefix_def trim_prefix_def)
  show ?thesis
    using u run(2) vars user(2)
    by (intro exI [of _ u] exI [of _ uid] exI [of _ gid] exI [of _ gs] exI [of _ groups] conjI exI [of _ "om_term ?m"])
      (simp_all add: u(6))
qed

definition demo_payload :: string where
  "demo_payload = ''{'' @ enc_str ''user'' @ '':'' @ enc_str ''u'' @ '','' @ enc_str ''env'' @ '':{'' @ enc_str ''PATH'' @ '':'' @ enc_str ''/evil'' @
     ''},'' @ enc_str ''command'' @ '':['' @ enc_str ''sh'' @ '']}''"

lemma shell_session_confined_witness:
  "\<exists>spec. open_session (\<lambda>_. []) True (\<lambda>_. Inr \<lparr>ou_uid = ''7'', ou_gid = ''8'', ou_groups = Inr [], ou_home = ''/h''\<rparr>) []
       (frame (MsgOpen, demo_payload)) = Started spec \<and>
     ss_cred spec = Some (7, 8, []) \<and> env_value (ss_env spec) ''PATH'' = Some ''/usr/local/bin:/usr/bin:/bin''"
proof -
  let ?lookup = "\<lambda>_. Inr \<lparr>ou_uid = ''7'', ou_gid = ''8'', ou_groups = Inr [], ou_home = ''/h''\<rparr>"
  let ?m = "zero_open\<lparr>om_user := ''u'', om_env := [(''PATH'', ''/evil'')], om_command := Some [''sh'']\<rparr>"
  have "length demo_payload \<le> 200" by code_simp
  then have "length demo_payload \<le> MaxPayloadSize" by (simp add: MaxPayloadSize_def)
  from ReadMessage_frame [OF this, of MsgOpen "[]"]
  have read: "ReadMessage (frame (MsgOpen, demo_payload)) = (Inr (MsgOpen, demo_payload), [])" by simp
  have m: "unmarshal_open demo_payload = Some ?m" by code_simp
  have ids: "parse_uint 32 ''7'' = Some 7" "parse_uint 32 ''8'' = Some 8"
    by (simp_all add: parse_uint_def parse_digits_def is_digit_def digit_val_def)
  obtain spec where run: "open_session (\<lambda>_. []) True ?lookup [] (frame (MsgOpen, demo_payload)) = Started spec"
    by (simp add: open_session_def read m Let_def open_defaults_def zero_open_def NewSession_def ids)
  have user: "om_user ?m \<noteq> []" by simp
  from shell_session_confined [OF run read m user] run ids show ?thesis by auto
qed

end
