(* ===== verification/Hub.thy ===== *)
theory Hub
  imports Prelude "HOL-Library.Sublist"
begin

text \<open>
  The WebSocket hub of \<open>pkg/dashboard/websocket.go\<close> as a transition system: the main
  loop, the goroutines of each connection, and whoever broadcasts or stops it, interleaved
  freely. A channel operation that Go answers with a panic sets a flag that no step clears.
\<close>

section \<open>Channels of clients\<close>

text \<open>
  A connection is opened by \<open>ServeHTTP\<close>, which blocks in \<open>Register\<close> until the loop
  takes it; its \<open>readPump\<close> blocks in \<open>Unregister\<close> when it ends. \<open>sent\<close> is what its
  \<open>writePump\<close> took from the channel, \<open>offered\<close> a record of what the loop tried to put
  in, which no step looks at.
\<close>

datatype conn_phase = Registering | Active | Unregistering | Finished

record client =
  topic :: string
  buffer :: "string list"
  closed :: bool
  phase :: conn_phase
  sent :: "string list"
  offered :: "string list"

definition send_capacity :: nat where
  "send_capacity = 256"

text \<open>A send in a \<open>select\<close> with a default: on a closed channel it panics, on a full one it is skipped.\<close>

definition offer :: "string \<Rightarrow> client \<Rightarrow> client option" where
  "offer m c =
     (if closed c then None
      else if length (buffer c) < send_capacity then Some (c\<lparr>buffer := buffer c @ [m], offered := offered c @ [m]\<rparr>)
      else Some (c\<lparr>offered := offered c @ [m]\<rparr>))"

definition close_send :: "client \<Rightarrow> client option" where
  "close_send c = (if closed c then None else Some (c\<lparr>closed := True\<rparr>))"

section \<open>The hub\<close>

text \<open>The clients in the order the loop iterates over them; \<open>hub_conns\<close> are the \<open>*Client\<close>s there are.\<close>

record hub =
  hub_clients :: "nat list"
  hub_queue :: "(string \<times> string) list"
  stop_closed :: bool
  running :: bool
  hub_conns :: "nat \<Rightarrow> client option"
  panicked :: bool

definition broadcast_capacity :: nat where
  "broadcast_capacity = 256"

definition NewHub :: hub where
  "NewHub = \<lparr>hub_clients = [], hub_queue = [], stop_closed = False, running = True, hub_conns = Map.empty, panicked = False\<rparr>"

text \<open>An operation on the channel of a client, which may panic.\<close>

definition on_client :: "(client \<Rightarrow> client option) \<Rightarrow> nat \<Rightarrow> hub \<Rightarrow> hub" where
  "on_client f i h =
     (case hub_conns h i of
        None \<Rightarrow> h
      | Some c \<Rightarrow> (case f c of None \<Rightarrow> h\<lparr>panicked := True\<rparr> | Some c' \<Rightarrow> h\<lparr>hub_conns := (hub_conns h)(i \<mapsto> c')\<rparr>))"

definition set_phase :: "conn_phase \<Rightarrow> nat \<Rightarrow> hub \<Rightarrow> hub" where
  "set_phase p = on_client (\<lambda>c. Some (c\<lparr>phase := p\<rparr>))"

subsection \<open>The cases of the main loop\<close>

definition run_register :: "nat \<Rightarrow> hub \<Rightarrow> hub" where
  "run_register i h = h\<lparr>hub_clients := List.insert i (hub_clients h)\<rparr>"

definition run_unregister :: "nat \<Rightarrow> hub \<Rightarrow> hub" where
  "run_unregister i h =
     (if i \<in> set (hub_clients h) then on_client close_send i (h\<lparr>hub_clients := remove1 i (hub_clients h)\<rparr>) else h)"

definition subscribed :: "string \<Rightarrow> client \<Rightarrow> bool" where
  "subscribed taskID c \<longleftrightarrow> topic c = [] \<or> topic c = taskID"

fun deliver_to :: "nat list \<Rightarrow> string \<times> string \<Rightarrow> hub \<Rightarrow> hub" where
  "deliver_to [] msg h = h"
| "deliver_to (i # js) msg h =
     deliver_to js msg (on_client (\<lambda>c. if subscribed (fst msg) c then offer (snd msg) c else Some c) i h)"

definition run_broadcast :: "string \<times> string \<Rightarrow> hub \<Rightarrow> hub" where
  "run_broadcast msg h = deliver_to (hub_clients h) msg h"

fun close_all :: "nat list \<Rightarrow> hub \<Rightarrow> hub" where
  "close_all [] h = h"
| "close_all (i # js) h = close_all js (let h' = on_client close_send i h in h'\<lparr>hub_clients := remove1 i (hub_clients h')\<rparr>)"

definition run_stop :: "hub \<Rightarrow> hub" where
  "run_stop h = (close_all (hub_clients h) h)\<lparr>running := False\<rparr>"

subsection \<open>The methods\<close>

definition hub_Stop :: "hub \<Rightarrow> hub" where
  "hub_Stop h = (if stop_closed h then h\<lparr>panicked := True\<rparr> else h\<lparr>stop_closed := True\<rparr>)"

definition hub_Broadcast :: "string \<Rightarrow> string \<Rightarrow> hub \<Rightarrow> hub" where
  "hub_Broadcast taskID data h =
     (if length (hub_queue h) < broadcast_capacity then h\<lparr>hub_queue := hub_queue h @ [(taskID, data)]\<rparr> else h)"

definition hub_BroadcastAll :: "string \<Rightarrow> hub \<Rightarrow> hub" where
  "hub_BroadcastAll data = hub_Broadcast [] data"

text \<open>
  The client \<open>ServeHTTP\<close> makes, and the pumps: the writer takes what is buffered, also
  from a closed channel; the reader leaves when the connection breaks.
\<close>

definition new_client :: "string \<Rightarrow> client" where
  "new_client taskID = \<lparr>topic = taskID, buffer = [], closed = False, phase = Registering, sent = [], offered = []\<rparr>"

definition write_next :: "client \<Rightarrow> client option" where
  "write_next c = (case buffer c of [] \<Rightarrow> Some c | m # ms \<Rightarrow> Some (c\<lparr>buffer := ms, sent := sent c @ [m]\<rparr>))"

definition in_phase :: "conn_phase \<Rightarrow> nat \<Rightarrow> hub \<Rightarrow> bool" where
  "in_phase p i h \<longleftrightarrow> (case hub_conns h i of None \<Rightarrow> False | Some c \<Rightarrow> phase c = p)"

inductive hub_step :: "hub \<Rightarrow> hub \<Rightarrow> bool" where
  connect: "hub_conns h i = None \<Longrightarrow> hub_step h (h\<lparr>hub_conns := (hub_conns h)(i \<mapsto> new_client taskID)\<rparr>)"
| register: "running h \<Longrightarrow> in_phase Registering i h \<Longrightarrow> hub_step h (set_phase Active i (run_register i h))"
| flush: "hub_step h (on_client write_next i h)"
| disconnect: "in_phase Active i h \<Longrightarrow> hub_step h (set_phase Unregistering i h)"
| unregister: "running h \<Longrightarrow> in_phase Unregistering i h \<Longrightarrow> hub_step h (set_phase Finished i (run_unregister i h))"
| broadcast: "hub_step h (hub_Broadcast taskID data h)"
| broadcast_all: "hub_step h (hub_BroadcastAll data h)"
| deliver: "running h \<Longrightarrow> hub_queue h = msg # rest \<Longrightarrow> hub_step h (run_broadcast msg (h\<lparr>hub_queue := rest\<rparr>))"
| stop: "\<not> stop_closed h \<Longrightarrow> hub_step h (hub_Stop h)"
| stopped: "running h \<Longrightarrow> stop_closed h \<Longrightarrow> hub_step h (run_stop h)"

inductive hub_reachable :: "hub \<Rightarrow> bool" where
  new: "hub_reachable NewHub"
| step: "hub_reachable h \<Longrightarrow> hub_step h h' \<Longrightarrow> hub_reachable h'"

section \<open>The invariant\<close>

text \<open>
  Of a client: its buffer is bounded, it was not overtaken, nothing is lost before the
  buffer could fill; and it is one of the loop's exactly from its registration until its
  channel is closed.
\<close>

definition client_ok :: "client \<Rightarrow> bool" where
  "client_ok c \<longleftrightarrow> length (buffer c) \<le> send_capacity \<and> subseq (sent c @ buffer c) (offered c) \<and>
     (length (offered c) \<le> send_capacity \<longrightarrow> sent c @ buffer c = offered c)"

definition listed_ok :: "bool \<Rightarrow> bool \<Rightarrow> client \<Rightarrow> bool" where
  "listed_ok run listed c \<longleftrightarrow>
     (listed \<longrightarrow> \<not> closed c \<and> (phase c = Active \<or> phase c = Unregistering)) \<and>
     (\<not> listed \<and> run \<longrightarrow> phase c = Registering \<and> \<not> closed c \<or> phase c = Finished) \<and>
     (\<not> listed \<and> phase c = Registering \<longrightarrow> \<not> closed c)"

definition hub_ok :: "hub \<Rightarrow> bool" where
  "hub_ok h \<longleftrightarrow> \<not> panicked h \<and> distinct (hub_clients h) \<and> length (hub_queue h) \<le> broadcast_capacity \<and>
     (\<forall>i c. hub_conns h i = Some c \<longrightarrow> client_ok c \<and> listed_ok (running h) (i \<in> set (hub_clients h)) c) \<and>
     (\<forall>i \<in> set (hub_clients h). hub_conns h i \<noteq> None) \<and>
     (\<not> running h \<longrightarrow> hub_clients h = [])"

text \<open>What the loop's cases do to the connections when no channel operation panics.\<close>

definition received :: "string \<times> string \<Rightarrow> client \<Rightarrow> client" where
  "received msg c = (if subscribed (fst msg) c then the (offer (snd msg) c) else c)"

lemma received_same [simp]: "\<not> closed c \<Longrightarrow> closed (received msg c) = closed c" "\<not> closed c \<Longrightarrow> phase (received msg c) = phase c"
  by (simp_all add: received_def offer_def)

lemma received_step: "\<not> closed c \<Longrightarrow> (if subscribed (fst msg) c then offer (snd msg) c else Some c) = Some (received msg c)"
  by (simp add: received_def offer_def)

definition map_conns :: "(client \<Rightarrow> client) \<Rightarrow> nat set \<Rightarrow> hub \<Rightarrow> hub" where
  "map_conns f X h = h\<lparr>hub_conns := \<lambda>i. if i \<in> X then map_option f (hub_conns h i) else hub_conns h i\<rparr>"

lemma map_conns_empty [simp]: "map_conns f {} h = h"
  by (simp add: map_conns_def)

lemma on_client_Some: "hub_conns h i = Some c \<Longrightarrow> g c = Some (f c) \<Longrightarrow> on_client g i h = map_conns f {i} h"
proof -
  assume c: "hub_conns h i = Some c" and g: "g c = Some (f c)"
  have "(hub_conns h)(i \<mapsto> f c) = (\<lambda>j. if j \<in> {i} then map_option f (hub_conns h j) else hub_conns h j)"
    using c by (intro ext) simp
  then show ?thesis by (simp only: on_client_def map_conns_def c g option.case)
qed

lemma map_conns_insert: "i \<notin> X \<Longrightarrow> map_conns f X (map_conns f {i} h) = map_conns f (insert i X) h"
proof -
  assume i: "i \<notin> X"
  have "(if j \<in> X then map_option f (if j \<in> {i} then map_option f (k j) else k j) else if j \<in> {i} then map_option f (k j) else k j) =
      (if j \<in> insert i X then map_option f (k j) else k j)" for j and k :: "nat \<Rightarrow> client option"
    using i by (cases "j = i") (simp_all only: insert_iff simp_thms if_True if_False empty_iff)
  then show ?thesis by (cases h) (simp only: map_conns_def hub.update_convs hub.select_convs)
qed

definition open_conn :: "hub \<Rightarrow> nat \<Rightarrow> bool" where
  "open_conn h i \<longleftrightarrow> (case hub_conns h i of None \<Rightarrow> False | Some c \<Rightarrow> \<not> closed c)"

lemma deliver_to_eq: "distinct js \<Longrightarrow> \<forall>i \<in> set js. open_conn h i \<Longrightarrow> deliver_to js msg h = map_conns (received msg) (set js) h"
proof (induction js arbitrary: h)
  case (Cons i js)
  then obtain c where c: "hub_conns h i = Some c" "\<not> closed c" by (auto simp: open_conn_def split: option.splits)
  have "\<forall>j \<in> set js. open_conn (map_conns (received msg) {i} h) j" using Cons.prems by (auto simp: open_conn_def map_conns_def)
  then show ?case
    using Cons on_client_Some [where f = "received msg" and g = "\<lambda>c. if subscribed (fst msg) c then offer (snd msg) c else Some c",
        OF c(1) received_step [OF c(2)]]
    by (simp add: map_conns_insert)
qed simp

lemma close_all_eq:
  "distinct js \<Longrightarrow> hub_clients h = js \<Longrightarrow> \<forall>i \<in> set js. open_conn h i \<Longrightarrow>
     close_all js h = (map_conns (closed_update (\<lambda>_. True)) (set js) h)\<lparr>hub_clients := []\<rparr>"
proof (induction js arbitrary: h)
  case (Cons i js)
  then obtain c where c: "hub_conns h i = Some c" "\<not> closed c" by (auto simp: open_conn_def split: option.splits)
  let ?h = "(map_conns (closed_update (\<lambda>_. True)) {i} h)\<lparr>hub_clients := js\<rparr>"
  have "on_client close_send i h = map_conns (closed_update (\<lambda>_. True)) {i} h"
    using c by (intro on_client_Some) (simp_all add: close_send_def)
  then have step: "close_all (i # js) h = close_all js ?h" using Cons.prems(2) by (simp add: map_conns_def Let_def)
  have "close_all js ?h = (map_conns (closed_update (\<lambda>_. True)) (set js) ?h)\<lparr>hub_clients := []\<rparr>"
    using Cons.prems by (intro Cons.IH) (auto simp: open_conn_def map_conns_def)
  also have "\<dots> = (map_conns (closed_update (\<lambda>_. True)) (set (i # js)) h)\<lparr>hub_clients := []\<rparr>"
    using map_conns_insert [of i "set js" _ h] Cons.prems(1) by (simp add: map_conns_def fun_eq_iff)
  finally show ?case using step by simp
qed simp

lemma set_phase_eq: "in_phase p i h \<Longrightarrow> set_phase q i h = map_conns (phase_update (\<lambda>_. q)) {i} h"
  unfolding set_phase_def in_phase_def by (auto intro!: on_client_Some split: option.splits)

lemma hub_okI:
  assumes "\<not> panicked h" "distinct (hub_clients h)" "length (hub_queue h) \<le> broadcast_capacity"
    and "\<And>i c. hub_conns h i = Some c \<Longrightarrow> client_ok c \<and> listed_ok (running h) (i \<in> set (hub_clients h)) c"
    and "\<And>i. i \<in> set (hub_clients h) \<Longrightarrow> hub_conns h i \<noteq> None" "\<not> running h \<Longrightarrow> hub_clients h = []"
  shows "hub_ok h"
  using assms by (simp add: hub_ok_def)

lemma hub_ok_open: "hub_ok h \<Longrightarrow> i \<in> set (hub_clients h) \<Longrightarrow> open_conn h i"
  by (auto simp: hub_ok_def open_conn_def listed_ok_def split: option.splits)

lemma client_ok_received:
  assumes "client_ok c" "\<not> closed c"
  shows "client_ok (received msg c)"
proof -
  let ?xs = "sent c @ buffer c"
  have skip: "subseq ?xs (offered c @ [m])" and take: "subseq (?xs @ [m]) (offered c @ [m])" for m
    using assms(1) by (simp_all add: client_ok_def list_emb_prefix del: append_assoc)
  show ?thesis using assms skip take list_emb_length [of "(=)" ?xs "offered c"]
    by (auto simp: client_ok_def received_def offer_def)
qed

lemma client_ok_written: "client_ok c \<Longrightarrow> write_next c = Some c' \<Longrightarrow> client_ok c'"
  by (auto simp: client_ok_def write_next_def split: list.splits)

lemma client_ok_fields [simp]:
  "client_ok (c\<lparr>closed := b\<rparr>) = client_ok c" "client_ok (c\<lparr>phase := p\<rparr>) = client_ok c"
  by (simp_all add: client_ok_def)

text \<open>Every step keeps the invariant.\<close>

lemma map_conns_fields [simp]:
  "hub_clients (map_conns f X h) = hub_clients h" "hub_queue (map_conns f X h) = hub_queue h"
  "stop_closed (map_conns f X h) = stop_closed h" "running (map_conns f X h) = running h"
  "panicked (map_conns f X h) = panicked h"
  "hub_conns (map_conns f X h) i = (if i \<in> X then map_option f (hub_conns h i) else hub_conns h i)"
  by (simp_all add: map_conns_def)

lemma hub_okD:
  assumes "hub_ok h"
  shows "\<not> panicked h" "distinct (hub_clients h)" "length (hub_queue h) \<le> broadcast_capacity"
    "hub_conns h i = Some c \<Longrightarrow> client_ok c" "hub_conns h i = Some c \<Longrightarrow> listed_ok (running h) (i \<in> set (hub_clients h)) c"
    "i \<in> set (hub_clients h) \<Longrightarrow> hub_conns h i \<noteq> None" "\<not> running h \<Longrightarrow> hub_clients h = []"
  using assms by (simp_all add: hub_ok_def)

lemma deliver_eq:
  "hub_ok h \<Longrightarrow> run_broadcast msg (h\<lparr>hub_queue := rest\<rparr>) = map_conns (received msg) (set (hub_clients h)) (h\<lparr>hub_queue := rest\<rparr>)"
  using hub_okD(2) hub_ok_open by (simp add: run_broadcast_def deliver_to_eq open_conn_def)

lemma step_ok:
  assumes "hub_step h h'" "hub_ok h"
  shows "hub_ok h'"
  using assms(1)
proof cases
  case (connect i taskID)
  then have "i \<notin> set (hub_clients h)" using hub_okD(6) [OF assms(2)] by blast
  then show ?thesis using hub_okD [OF assms(2)] unfolding connect
    by (intro hub_okI) (auto simp: new_client_def client_ok_def listed_ok_def split: if_splits)
next
  case (register i)
  then obtain c where c: "hub_conns h i = Some c" "phase c = Registering" by (auto simp: in_phase_def split: option.splits)
  then have "i \<notin> set (hub_clients h)" "\<not> closed c" using hub_okD(5) [OF assms(2) c(1)] by (auto simp: listed_ok_def)
  moreover have "in_phase Registering i (run_register i h)" using register by (simp add: in_phase_def run_register_def)
  ultimately show ?thesis using hub_okD [OF assms(2)] c register(2) unfolding register(1)
    by (intro hub_okI) (auto simp: set_phase_eq run_register_def listed_ok_def split: if_splits)
next
  case (flush i)
  show ?thesis
  proof (cases "hub_conns h i")
    case None
    then show ?thesis using assms(2) by (simp add: flush on_client_def)
  next
    case (Some c)
    then have "on_client write_next i h = map_conns (\<lambda>c. the (write_next c)) {i} h"
      by (intro on_client_Some) (auto simp: write_next_def split: list.split)
    moreover have "listed_ok run l (the (write_next c)) = listed_ok run l c" for run l c
      by (simp add: write_next_def listed_ok_def split: list.split)
    moreover have "client_ok (the (write_next c))" if "client_ok c" for c
      using that client_ok_written [of c] by (auto simp: write_next_def split: list.splits)
    ultimately show ?thesis using hub_okD [OF assms(2)] unfolding flush
      by (intro hub_okI) (auto split: if_splits)
  qed
next
  case (disconnect i)
  then obtain c where c: "hub_conns h i = Some c" "phase c = Active" by (auto simp: in_phase_def split: option.splits)
  then have "running h \<Longrightarrow> i \<in> set (hub_clients h)" using hub_okD(5) [OF assms(2) c(1)] by (auto simp: listed_ok_def)
  then show ?thesis using hub_okD [OF assms(2)] c unfolding disconnect(1) set_phase_eq [OF disconnect(2)]
    by (intro hub_okI) (auto simp: listed_ok_def split: if_splits)
next
  case (broadcast taskID data)
  show ?thesis using hub_okD [OF assms(2)] unfolding broadcast hub_Broadcast_def by (intro hub_okI) (auto split: if_splits)
next
  case (broadcast_all data)
  show ?thesis using hub_okD [OF assms(2)] unfolding broadcast_all hub_BroadcastAll_def hub_Broadcast_def
    by (intro hub_okI) (auto split: if_splits)
next
  case stop
  then show ?thesis using hub_okD [OF assms(2)] by (intro hub_okI) (auto simp: hub_Stop_def)
next
  case stopped
  have eq: "run_stop h = (map_conns (closed_update (\<lambda>_. True)) (set (hub_clients h)) h)\<lparr>hub_clients := [], running := False\<rparr>"
    using close_all_eq [of "hub_clients h" h] hub_okD(2) [OF assms(2)] hub_ok_open [OF assms(2)] by (simp add: run_stop_def)
  have "phase c \<noteq> Registering" if "i \<in> set (hub_clients h)" "hub_conns h i = Some c" for i c
    using hub_okD(5) [OF assms(2) that(2)] that(1) by (auto simp: listed_ok_def)
  then show ?thesis using hub_okD [OF assms(2)] unfolding stopped(1) eq
    by (intro hub_okI) (auto simp: listed_ok_def split: if_splits)
next
  case (deliver msg rest)
  have "\<not> closed c" if "i \<in> set (hub_clients h)" "hub_conns h i = Some c" for i c
    using hub_okD(5) [OF assms(2) that(2)] that(1) by (auto simp: listed_ok_def)
  moreover have "listed_ok run l (received msg c) = listed_ok run l c" if "\<not> closed c" for run l c
    using that by (simp add: listed_ok_def)
  moreover have "listed_ok (running h) True c" if "i \<in> set (hub_clients h)" "hub_conns h i = Some c" for i c
    using hub_okD(5) [OF assms(2) that(2)] that(1) by simp
  moreover have "listed_ok (running h) False c" if "i \<notin> set (hub_clients h)" "hub_conns h i = Some c" for i c
    using hub_okD(5) [OF assms(2) that(2)] that(1) by simp
  ultimately show ?thesis using hub_okD [OF assms(2)] deliver(3) unfolding deliver(1) deliver_eq [OF assms(2)]
    by (intro hub_okI) (auto simp: client_ok_received split: if_splits)
next
  case (unregister i)
  then obtain c where c: "hub_conns h i = Some c" "phase c = Unregistering" by (auto simp: in_phase_def split: option.splits)
  then have i: "i \<in> set (hub_clients h)" "\<not> closed c" using hub_okD(5) [OF assms(2) c(1)] unregister(2) by (auto simp: listed_ok_def)
  then have "run_unregister i h = map_conns (closed_update (\<lambda>_. True)) {i} (h\<lparr>hub_clients := remove1 i (hub_clients h)\<rparr>)"
    unfolding run_unregister_def using c(1) by (simp, intro on_client_Some) (simp_all add: close_send_def)
  moreover from this have "in_phase Unregistering i (run_unregister i h)" using c by (simp add: in_phase_def)
  ultimately show ?thesis using hub_okD [OF assms(2)] unregister(2) unfolding unregister(1)
    by (intro hub_okI) (auto simp: set_phase_eq listed_ok_def split: if_splits)
qed

lemma hub_reachable_ok: "hub_reachable h \<Longrightarrow> hub_ok h"
proof (induction rule: hub_reachable.induct)
  case new
  show ?case by (simp add: hub_ok_def NewHub_def)
qed (rule step_ok)

section \<open>Properties\<close>

text \<open>C32. The hub never panics: in every interleaving of connections, broadcasts and one \<open>Stop\<close> it neither sends on a
  closed channel nor closes one twice, and its queue and every client's buffer stay within their 256 messages. What a
  client got and has buffered is, in order, part of what the loop offered it since it registered, and all of it as long as
  no more than 256 messages were offered.\<close>

theorem hub_never_panics:
  assumes "hub_reachable h"
  shows "\<not> panicked h \<and> length (hub_queue h) \<le> 256 \<and>
    (\<forall>i c. hub_conns h i = Some c \<longrightarrow> length (buffer c) \<le> 256 \<and> (i \<in> set (hub_clients h) \<longrightarrow> \<not> closed c) \<and>
      subseq (sent c @ buffer c) (offered c) \<and> (length (offered c) \<le> 256 \<longrightarrow> sent c @ buffer c = offered c))"
  using hub_reachable_ok [OF assms]
  by (auto simp: hub_ok_def client_ok_def listed_ok_def send_capacity_def broadcast_capacity_def)

definition demo_hub :: hub where
  "demo_hub = hub_Broadcast ''t1'' ''log'' (set_phase Active 0 (run_register 0
     (NewHub\<lparr>hub_conns := (hub_conns NewHub)(0 \<mapsto> new_client ''t1'')\<rparr>)))"

lemma demo_hub_reachable: "hub_reachable demo_hub"
proof -
  let ?h = "NewHub\<lparr>hub_conns := (hub_conns NewHub)(0 \<mapsto> new_client ''t1'')\<rparr>"
  have 1: "hub_reachable ?h" by (rule hub_reachable.step [OF hub_reachable.new], rule hub_step.connect) (simp add: NewHub_def)
  have 2: "hub_reachable (set_phase Active 0 (run_register 0 ?h))"
    by (rule hub_reachable.step [OF 1], rule hub_step.register) (simp_all add: NewHub_def in_phase_def new_client_def)
  show ?thesis unfolding demo_hub_def by (rule hub_reachable.step [OF 2], rule hub_step.broadcast)
qed

lemma hub_never_panics_witness: "\<not> panicked demo_hub \<and> length (hub_queue demo_hub) \<le> 256"
  using hub_never_panics [OF demo_hub_reachable] by blast

text \<open>A delivered message goes to exactly the registered clients that subscribed to its task or to no task, into their
  buffers unless these are full. So a message to all clients, which is one for the empty task, reaches none of the clients
  that subscribed to a task.\<close>

theorem hub_delivers_to_subscribers:
  assumes "hub_reachable h" "hub_queue h = (taskID, data) # rest" "hub_conns h i = Some c"
  shows "(\<exists>c'. hub_conns (run_broadcast (taskID, data) (h\<lparr>hub_queue := rest\<rparr>)) i = Some c' \<and> sent c' = sent c \<and> closed c' = closed c \<and>
      buffer c' = (if i \<in> set (hub_clients h) \<and> (topic c = [] \<or> topic c = taskID) \<and> length (buffer c) < 256
        then buffer c @ [data] else buffer c)) \<and>
    (\<forall>d. hub_queue (hub_BroadcastAll d (h\<lparr>hub_queue := []\<rparr>)) = [([], d)])"
proof -
  have "\<not> closed c" if "i \<in> set (hub_clients h)"
    using hub_okD(5) [OF hub_reachable_ok [OF assms(1)] assms(3)] that by (simp add: listed_ok_def)
  then show ?thesis
    using assms(3) by (simp add: deliver_eq [OF hub_reachable_ok [OF assms(1)]] received_def subscribed_def offer_def
        send_capacity_def hub_BroadcastAll_def hub_Broadcast_def broadcast_capacity_def)
qed

lemma hub_delivers_to_subscribers_witness:
  "\<exists>c'. hub_conns (run_broadcast (''t1'', ''log'') (demo_hub\<lparr>hub_queue := []\<rparr>)) 0 = Some c' \<and> buffer c' = [''log'']"
proof -
  let ?c = "(new_client ''t1'')\<lparr>phase := Active\<rparr>"
  have "hub_queue demo_hub = [(''t1'', ''log'')]" "hub_conns demo_hub 0 = Some ?c" "0 \<in> set (hub_clients demo_hub)"
      "topic ?c = ''t1''" "buffer ?c = []"
    by (simp_all add: demo_hub_def hub_Broadcast_def set_phase_def on_client_def run_register_def NewHub_def new_client_def broadcast_capacity_def)
  from hub_delivers_to_subscribers [OF demo_hub_reachable this(1,2)] this(3-5) show ?thesis by auto
qed

end
