(* ===== verification/Feeds.thy ===== *)
theory Feeds
  imports Hub Json
begin

text \<open>
  What the dashboard keeps and sends: the activity feed (\<open>pkg/dashboard/activity.go\<close>), the
  log history (\<open>log_history.go\<close>), and the messages of \<open>status.go\<close> and \<open>logs.go\<close>. Both
  stores are windows over the last entries. \<open>stamp\<close> is the text of a time in JSON; the
  time 0 is Go's zero time. Case folding is that of ASCII.
\<close>

section \<open>Windows\<close>

definition push :: "int \<Rightarrow> 'a \<Rightarrow> 'a list \<Rightarrow> 'a list" where
  "push limit x xs = (if limit < int (length (xs @ [x])) then tl (xs @ [x]) else xs @ [x])"

definition last_n :: "nat \<Rightarrow> 'a list \<Rightarrow> 'a list" where
  "last_n n xs = drop (length xs - n) xs"

lemma push_last_n: "push (int n) x (last_n n xs) = last_n n (xs @ [x])"
proof (cases "length xs < n")
  case False
  then have "drop (length xs - n) xs @ [x] \<noteq> []" "tl (drop (length xs - n) xs @ [x]) = drop (Suc (length xs - n)) (xs @ [x])"
    by (simp, cases n) (simp_all add: drop_Suc [symmetric] tl_drop drop_tl)
  then show ?thesis using False by (simp add: push_def last_n_def Suc_diff_le)
qed (simp add: push_def last_n_def)

lemma last_n_Nil [simp]: "last_n n [] = []"
  by (simp add: last_n_def)

lemma fold_push: "fold (\<lambda>x. push (int n) (f x)) ys (last_n n (map f xs)) = last_n n (map f (xs @ ys))"
proof (induction ys arbitrary: xs)
  case (Cons y ys)
  show ?case using Cons.IH [of "xs @ [y]"] push_last_n [of n "f y" "map f xs"] by simp
qed simp

section \<open>The activity feed\<close>

record activity_event =
  ev_id :: string
  ev_type :: string
  ev_task :: string
  ev_name :: string
  ev_owner :: string
  ev_message :: string
  ev_time :: nat

record activity_feed =
  events :: "activity_event list"
  maxSize :: int
  has_hub :: bool
  sequence_no :: nat

text \<open>Making a slice with a negative capacity panics.\<close>

definition NewActivityFeed :: "int \<Rightarrow> bool \<Rightarrow> activity_feed option" where
  "NewActivityFeed limit hub = (if limit < 0 then None else Some \<lparr>events = [], maxSize = limit, has_hub = hub, sequence_no = 0\<rparr>)"

definition event_json :: "(nat \<Rightarrow> string) \<Rightarrow> activity_event \<Rightarrow> json" where
  "event_json stamp e = JObj
     [(''id'', JStr (ev_id e)), (''type'', JStr (ev_type e)), (''task_id'', JStr (ev_task e)), (''task_name'', JStr (ev_name e)),
      (''owner'', JStr (ev_owner e)), (''message'', JStr (ev_message e)), (''timestamp'', JStr (stamp (ev_time e)))]"

definition RecordEvent :: "(nat \<Rightarrow> string) \<Rightarrow> nat \<Rightarrow> activity_event \<Rightarrow> activity_feed \<times> hub \<Rightarrow> activity_feed \<times> hub" where
  "RecordEvent stamp now event = (\<lambda>(af, h).
     let n = sequence_no af + 1;
         event = event\<lparr>ev_id := ''evt-'' @ itoa n, ev_time := if ev_time event = 0 then now else ev_time event\<rparr>;
         msg = JObj [(''type'', JStr ''activity''), (''event'', event_json stamp event)] in
     (af\<lparr>sequence_no := n, events := push (maxSize af) event (events af)\<rparr>,
      if has_hub af then hub_BroadcastAll (marshal msg) h else h))"

definition VMStarted :: "string \<Rightarrow> string \<Rightarrow> string \<Rightarrow> activity_event" where
  "VMStarted taskID taskName owner = \<lparr>ev_id = [], ev_type = ''vm_started'', ev_task = taskID, ev_name = taskName, ev_owner = owner,
     ev_message = ''VM started'', ev_time = 0\<rparr>"

definition VMStopped :: "string \<Rightarrow> string \<Rightarrow> activity_event" where
  "VMStopped taskID taskName = \<lparr>ev_id = [], ev_type = ''vm_stopped'', ev_task = taskID, ev_name = taskName, ev_owner = [],
     ev_message = ''VM stopped'', ev_time = 0\<rparr>"

definition VMFailed :: "string \<Rightarrow> string \<Rightarrow> string \<Rightarrow> activity_event" where
  "VMFailed taskID taskName reason = \<lparr>ev_id = [], ev_type = ''vm_failed'', ev_task = taskID, ev_name = taskName, ev_owner = [],
     ev_message = ''VM failed: '' @ reason, ev_time = 0\<rparr>"

definition SnapshotCreated :: "string \<Rightarrow> string \<Rightarrow> activity_event" where
  "SnapshotCreated taskID snapshotName = \<lparr>ev_id = [], ev_type = ''snapshot_created'', ev_task = taskID, ev_name = [], ev_owner = [],
     ev_message = ''Snapshot created: '' @ snapshotName, ev_time = 0\<rparr>"

text \<open>The loop over the newest events; a negative length panics.\<close>

definition GetRecent :: "int \<Rightarrow> activity_feed \<Rightarrow> activity_event list option" where
  "GetRecent n af =
     (let n = min n (int (length (events af))) in
      if n < 0 then None else Some (map (\<lambda>i. events af ! (length (events af) - 1 - i)) [0..<nat n]))"

section \<open>The log history\<close>

record log_line =
  ll_task :: string
  ll_stream :: string
  ll_text :: string
  ll_time :: nat

record log_history =
  log_lines :: "log_line list"
  maxLines :: int

definition NewLogHistory :: "int \<Rightarrow> log_history option" where
  "NewLogHistory limit = (if limit < 0 then None else Some \<lparr>log_lines = [], maxLines = limit\<rparr>)"

text \<open>The copy into a smaller backing array keeps the lines.\<close>

definition AddLine :: "nat \<Rightarrow> string \<Rightarrow> string \<Rightarrow> string \<Rightarrow> log_history \<Rightarrow> log_history" where
  "AddLine now taskID stream text lh =
     lh\<lparr>log_lines := push (maxLines lh) \<lparr>ll_task = taskID, ll_stream = stream, ll_text = text, ll_time = now\<rparr> (log_lines lh)\<rparr>"

fun search_lines :: "(log_line \<Rightarrow> bool) \<Rightarrow> string \<Rightarrow> log_line list \<Rightarrow> log_line list" where
  "search_lines sel query [] = []"
| "search_lines sel query (l # ls) =
     (if sel l \<and> (query = [] \<or> contains (to_lower (ll_text l)) query) then l # search_lines sel query ls
      else search_lines sel query ls)"

definition history_Search :: "string \<Rightarrow> string \<Rightarrow> log_history \<Rightarrow> log_line list" where
  "history_Search taskID query lh = search_lines (\<lambda>l. ll_task l = taskID) (to_lower query) (log_lines lh)"

definition SearchStream :: "string \<Rightarrow> string \<Rightarrow> string \<Rightarrow> log_history \<Rightarrow> log_line list" where
  "SearchStream taskID stream query lh =
     search_lines (\<lambda>l. ll_task l = taskID \<and> ll_stream l = stream) (to_lower query) (log_lines lh)"

section \<open>Messages\<close>

definition log_json :: "(nat \<Rightarrow> string) \<Rightarrow> log_line \<Rightarrow> json" where
  "log_json stamp l = JObj
     [(''type'', JStr ''log''), (''task_id'', JStr (ll_task l)), (''stream'', JStr (ll_stream l)), (''line'', JStr (ll_text l)),
      (''timestamp'', JStr (stamp (ll_time l)))]"

definition SendLog :: "(nat \<Rightarrow> string) \<Rightarrow> nat \<Rightarrow> string \<Rightarrow> string \<Rightarrow> string \<Rightarrow> hub \<Rightarrow> hub" where
  "SendLog stamp now taskID stream line =
     hub_Broadcast taskID (marshal (log_json stamp \<lparr>ll_task = taskID, ll_stream = stream, ll_text = line, ll_time = now\<rparr>))"

fun SendLogBatch :: "(nat \<Rightarrow> string) \<Rightarrow> string \<Rightarrow> log_line list \<Rightarrow> hub \<Rightarrow> hub" where
  "SendLogBatch stamp taskID [] h = h"
| "SendLogBatch stamp taskID (l # ls) h =
     SendLogBatch stamp taskID ls (hub_Broadcast taskID (marshal (log_json stamp (l\<lparr>ll_task := taskID\<rparr>))) h)"

definition TaskStatusChanged :: "(nat \<Rightarrow> string) \<Rightarrow> nat \<Rightarrow> string \<Rightarrow> string \<Rightarrow> string \<Rightarrow> hub \<Rightarrow> hub" where
  "TaskStatusChanged stamp now taskID oldStatus newStatus =
     hub_BroadcastAll (marshal (JObj [(''type'', JStr ''status''), (''task_id'', JStr taskID), (''old_status'', JStr oldStatus),
       (''new_status'', JStr newStatus), (''timestamp'', JStr (stamp now))]))"

definition broadcast_TaskCreated :: "(nat \<Rightarrow> string) \<Rightarrow> nat \<Rightarrow> string \<Rightarrow> hub \<Rightarrow> hub" where
  "broadcast_TaskCreated stamp now taskID = TaskStatusChanged stamp now taskID [] ''pending''"

definition broadcast_TaskDestroyed :: "(nat \<Rightarrow> string) \<Rightarrow> nat \<Rightarrow> string \<Rightarrow> hub \<Rightarrow> hub" where
  "broadcast_TaskDestroyed stamp now taskID = TaskStatusChanged stamp now taskID ''stopped'' ''destroyed''"

section \<open>Properties\<close>

text \<open>The events as they are recorded, with their numbers and times.\<close>

fun stamped :: "nat \<Rightarrow> (nat \<times> activity_event) list \<Rightarrow> activity_event list" where
  "stamped k [] = []"
| "stamped k ((now, e) # es) =
     e\<lparr>ev_id := ''evt-'' @ itoa k, ev_time := if ev_time e = 0 then now else ev_time e\<rparr> # stamped (k + 1) es"

lemma stamped_append: "stamped k (xs @ ys) = stamped k xs @ stamped (k + length xs) ys"
  by (induction k xs rule: stamped.induct) (simp_all add: add.commute add.left_commute)

lemma stamped_ids: "map ev_id (stamped k es) = map (\<lambda>i. ''evt-'' @ itoa i) [k..<k + length es]"
  by (induction k es rule: stamped.induct) (simp_all add: upt_rec)

lemma length_stamped [simp]: "length (stamped k es) = length es"
  by (induction k es rule: stamped.induct) simp_all

lemma record_all:
  "fold (\<lambda>(now, e). RecordEvent stamp now e) es
     (\<lparr>events = last_n n (stamped 1 xs), maxSize = int n, has_hub = b, sequence_no = length xs\<rparr>, h) = (af', h') \<Longrightarrow>
   af' = \<lparr>events = last_n n (stamped 1 (xs @ es)), maxSize = int n, has_hub = b, sequence_no = length (xs @ es)\<rparr>"
proof (induction es arbitrary: xs h)
  case (Cons e es)
  obtain now ev where e: "e = (now, ev)" by fastforce
  have "stamped 1 (xs @ [e]) = stamped 1 xs @ [ev\<lparr>ev_id := ''evt-'' @ itoa (length xs + 1),
      ev_time := if ev_time ev = 0 then now else ev_time ev\<rparr>]"
    by (simp add: stamped_append e)
  then show ?case using Cons.prems Cons.IH [of "xs @ [e]"] by (simp add: e RecordEvent_def Let_def push_last_n)
qed simp

lemma rev_nth_take: "k \<le> length xs \<Longrightarrow> map (\<lambda>i. xs ! (length xs - Suc i)) [0..<k] = take k (rev xs)"
  by (intro nth_equalityI) (simp_all add: rev_nth)

text \<open>The activity feed is a window. Whatever events are recorded, it holds exactly the last \<open>maxSize\<close> of them, numbered
  without gaps and with different ids, and \<open>GetRecent n\<close> returns the newest \<open>n\<close> of these, newest first, or all there
  are; a negative \<open>n\<close> is the only argument that panics.\<close>

theorem feed_is_window:
  assumes "NewActivityFeed limit hub = Some af" "fold (\<lambda>(now, e). RecordEvent stamp now e) es (af, h) = (af', h')"
  shows "events af' = drop (length es - nat limit) (stamped 1 es) \<and> length (events af') \<le> nat limit \<and>
    distinct (map ev_id (events af')) \<and>
    (\<forall>n. GetRecent n af' = (if n < 0 then None else Some (take (nat n) (rev (events af')))))"
proof -
  from assms(1) have af: "af = \<lparr>events = last_n (nat limit) (stamped 1 []), maxSize = int (nat limit), has_hub = hub,
      sequence_no = length ([] :: (nat \<times> activity_event) list)\<rparr>"
    by (auto simp: NewActivityFeed_def split: if_splits)
  from record_all [OF assms(2) [unfolded af]]
  have ev: "events af' = drop (length es - nat limit) (stamped 1 es)" by (simp add: last_n_def)
  have "distinct (map ev_id (stamped 1 es))" by (auto simp: stamped_ids distinct_map inj_on_def dest: itoa_inj)
  then have "distinct (map ev_id (events af'))" unfolding ev by (simp add: drop_map [symmetric] distinct_drop)
  moreover have "GetRecent n af' = Some (take (nat n) (rev (events af')))" if "\<not> n < 0" for n
  proof (cases "n \<le> int (length (events af'))")
    case True
    then have "nat n \<le> length (events af')" by simp
    then show ?thesis using that True rev_nth_take [of "nat n" "events af'"] by (simp add: GetRecent_def Let_def)
  next
    case False
    then show ?thesis using rev_nth_take [of "length (events af')" "events af'"] by (simp add: GetRecent_def Let_def)
  qed
  moreover have "GetRecent n af' = None" if "n < 0" for n using that by (simp add: GetRecent_def Let_def)
  ultimately show ?thesis unfolding ev by auto
qed

lemma feed_is_window_witness:
  "\<exists>af'. fold (\<lambda>(now, e). RecordEvent (\<lambda>_. []) now e) [(5, VMStarted ''t'' ''n'' []), (6, VMStopped ''t'' ''n''), (7, VMStopped ''u'' ''m'')]
      (\<lparr>events = [], maxSize = 2, has_hub = False, sequence_no = 0\<rparr>, NewHub) = (af', NewHub) \<and> map ev_id (events af') = [''evt-2'', ''evt-3'']"
proof -
  let ?es = "[(5, VMStarted ''t'' ''n'' []), (6, VMStopped ''t'' ''n''), (7, VMStopped ''u'' ''m'')]"
  have new: "NewActivityFeed 2 False = Some \<lparr>events = [], maxSize = 2, has_hub = False, sequence_no = 0\<rparr>"
    by (simp add: NewActivityFeed_def)
  obtain af' h' where run: "fold (\<lambda>(now, e). RecordEvent (\<lambda>_. []) now e) ?es
      (\<lparr>events = [], maxSize = 2, has_hub = False, sequence_no = 0\<rparr>, NewHub) = (af', h')" by fastforce
  then have "h' = NewHub" by (simp add: RecordEvent_def Let_def)
  moreover have "map ev_id (drop (length ?es - nat 2) (stamped 1 ?es)) = [''evt-2'', ''evt-3'']" by code_simp
  ultimately show ?thesis using run feed_is_window [OF new run] by auto
qed

text \<open>The search of the log history sees exactly the last \<open>maxLines\<close> lines: it returns those of the task (and of the
  stream) whose text contains the query in any case, oldest first.\<close>

theorem history_search_exact:
  assumes "NewLogHistory limit = Some lh" "lh' = fold (\<lambda>(now, t, st, txt). AddLine now t st txt) ls lh"
    and "window = drop (length ls - nat limit) (map (\<lambda>(now, t, st, txt). \<lparr>ll_task = t, ll_stream = st, ll_text = txt, ll_time = now\<rparr>) ls)"
  shows "length (log_lines lh') \<le> nat limit \<and>
    history_Search t q lh' = filter (\<lambda>l. ll_task l = t \<and> (q = [] \<or> contains (to_lower (ll_text l)) (to_lower q))) window \<and>
    SearchStream t st q lh' = filter (\<lambda>l. ll_task l = t \<and> ll_stream l = st \<and> (q = [] \<or> contains (to_lower (ll_text l)) (to_lower q))) window"
proof -
  let ?f = "\<lambda>(now, t, st, txt). \<lparr>ll_task = t, ll_stream = st, ll_text = txt, ll_time = now\<rparr>"
  have add: "fold (\<lambda>(now, t, st, txt). AddLine now t st txt) ls \<lparr>log_lines = xs, maxLines = k\<rparr> =
      \<lparr>log_lines = fold (\<lambda>x. push k (?f x)) ls xs, maxLines = k\<rparr>" for xs k
    by (induction ls arbitrary: xs) (simp_all add: AddLine_def split: prod.split)
  have lh: "lh = \<lparr>log_lines = [], maxLines = int (nat limit)\<rparr>" using assms(1) by (auto simp: NewLogHistory_def split: if_splits)
  have w: "log_lines lh' = window"
    using fold_push [of "nat limit" ?f ls "[]"] by (simp add: assms(2,3) lh add last_n_def)
  have s: "search_lines sel query ls = filter (\<lambda>l. sel l \<and> (query = [] \<or> contains (to_lower (ll_text l)) query)) ls" for sel query ls
    by (induction ls) simp_all
  have "(to_lower q = []) = (q = [])" by (simp add: to_lower_def)
  then show ?thesis by (simp add: history_Search_def SearchStream_def w s conj_assoc) (simp add: assms(3))
qed

lemma history_search_exact_witness:
  "\<exists>lh'. lh' = fold (\<lambda>(now, t, st, txt). AddLine now t st txt) [(1, ''t'', ''stdout'', ''Old err''), (2, ''t'', ''stdout'', ''ERR'')]
      \<lparr>log_lines = [], maxLines = 1\<rparr> \<and> map ll_text (history_Search ''t'' ''err'' lh') = [''ERR'']"
proof -
  let ?ls = "[(1 :: nat, ''t'', ''stdout'', ''Old err''), (2, ''t'', ''stdout'', ''ERR'')]"
  have new: "NewLogHistory 1 = Some \<lparr>log_lines = [], maxLines = 1\<rparr>" by (simp add: NewLogHistory_def)
  define lh' where "lh' = fold (\<lambda>(now, t, st, txt). AddLine now t st txt) ?ls \<lparr>log_lines = [], maxLines = 1\<rparr>"
  have texts: "map ll_text (filter (\<lambda>l. ll_task l = ''t'' \<and> (''err'' = [] \<or> contains (to_lower (ll_text l)) (to_lower ''err'')))
      (drop (length ?ls - nat 1) (map (\<lambda>(now, t, st, txt). \<lparr>ll_task = t, ll_stream = st, ll_text = txt, ll_time = now\<rparr>) ?ls))) = [''ERR'']"
    by (simp add: to_lower_def to_lower_char_def has_prefix_def char_of_def bit_0)
  have found: "history_Search ''t'' ''err'' lh' = filter (\<lambda>l. ll_task l = ''t'' \<and> (''err'' = [] \<or> contains (to_lower (ll_text l)) (to_lower ''err'')))
      (drop (length ?ls - nat 1) (map (\<lambda>(now, t, st, txt). \<lparr>ll_task = t, ll_stream = st, ll_text = txt, ll_time = now\<rparr>) ?ls))"
    by (rule history_search_exact [OF new lh'_def refl, THEN conjunct2, THEN conjunct1])
  have "map ll_text (history_Search ''t'' ''err'' lh') = [''ERR'']" by (rule trans [OF arg_cong [where f = "map ll_text", OF found] texts])
  then show ?thesis by (intro exI [of _ lh'] conjI lh'_def)
qed

end
