(* ===== verification/Orphan_Audit.thy ===== *)
theory Orphan_Audit
  imports Ip_Pool Paths "HOL-Library.Product_Lexorder"
begin

text \<open>
  The orphan audit of \<open>cmd/stockyard/gc_audit.go\<close>: reading the daemon's tasks and the
  host's resources, matching them, and the evidence document. \<open>exact_host\<close> says
  what a clean host is; the audit returns nil exactly when every read succeeded and the host
  is that. The strict reader of the address pool's state file is here too.
\<close>

section \<open>The document\<close>

record audit_task =
  at_id :: string
  at_vmid :: string
  at_status :: string

record audit_resource =
  ar_owner :: string
  ar_name :: string

record audit_process =
  ap_owner :: string
  ap_pid :: int
  ap_running :: bool

record audit_mismatch =
  mm_kind :: string
  mm_resource :: string
  mm_owner :: string
  mm_detail :: string
  mm_running :: bool

record orphan_audit =
  au_tasks :: "audit_task list"
  au_vm_dirs :: "audit_resource list"
  au_processes :: "audit_process list"
  au_rootfs :: "audit_resource list"
  au_workspaces :: "audit_resource list"
  au_taps :: "audit_resource list"
  au_allocations :: "(string \<times> string) list"
  au_mismatches :: "audit_mismatch list"
  au_unknown :: "(string \<times> string) list"

definition mismatch :: "string \<Rightarrow> string \<Rightarrow> string \<Rightarrow> string \<Rightarrow> audit_mismatch" where
  "mismatch kind resource owner detail =
     \<lparr>mm_kind = kind, mm_resource = resource, mm_owner = owner, mm_detail = detail, mm_running = False\<rparr>"

section \<open>Canonical values\<close>

definition hex_low :: "char \<Rightarrow> bool" where
  "hex_low c \<longleftrightarrow> (CHR ''0'' \<le> c \<and> c \<le> CHR ''9'') \<or> (CHR ''a'' \<le> c \<and> c \<le> CHR ''f'')"

definition isCanonicalAuditID :: "string \<Rightarrow> bool" where
  "isCanonicalAuditID i \<longleftrightarrow> length i = 8 \<and> list_all hex_low i"

definition isAuditTaskStatus :: "string \<Rightarrow> bool" where
  "isAuditTaskStatus s \<longleftrightarrow> s \<in> {''running'', ''starting'', ''stopped'', ''failed'', ''cleanup_pending''}"

text \<open>
  \<open>netip.ParseAddr\<close> gives an IPv4 address exactly for the dotted decimal form without
  leading zeros.
\<close>

definition isCanonicalAuditIPv4 :: "string \<Rightarrow> bool" where
  "isCanonicalAuditIPv4 v = (case parse_ipv4 v of None \<Rightarrow> False | Some ip \<Rightarrow> ip_string ip = v)"

section \<open>Matching\<close>

text \<open>
  The maps from ids to tasks, in the order of insertion; each function returns the
  mismatches it appends.
\<close>

fun index_tasks ::
    "audit_task list \<Rightarrow> (string \<times> audit_task) list \<Rightarrow> (string \<times> audit_task) list \<Rightarrow>
     audit_mismatch list \<times> (string \<times> audit_task) list \<times> (string \<times> audit_task) list" where
  "index_tasks [] ids vms = ([], ids, vms)"
| "index_tasks (t # ts) ids vms =
     (if \<not> isCanonicalAuditID (at_id t) \<or> \<not> isCanonicalAuditID (at_vmid t) \<or> \<not> isAuditTaskStatus (at_status t) then
        (case index_tasks ts ids vms of (ms, r) \<Rightarrow>
           (mismatch ''malformed'' ''task_row'' (at_id t) ''task id, vm id, and status must be canonical'' # ms, r))
      else if at_id t \<noteq> at_vmid t then
        (case index_tasks ts ids vms of (ms, r) \<Rightarrow> (mismatch ''mismatched'' ''task_vm'' (at_id t) (at_vmid t) # ms, r))
      else if map_of ids (at_id t) \<noteq> None then
        (case index_tasks ts ids vms of (ms, r) \<Rightarrow> (mismatch ''duplicate'' ''task_row'' (at_id t) [] # ms, r))
      else (case map_of vms (at_vmid t) of
        Some t' \<Rightarrow> (case index_tasks ts ids vms of (ms, r) \<Rightarrow>
          (mismatch ''duplicate'' ''task_vm'' (at_vmid t) (at_id t') # ms, r))
      | None \<Rightarrow> index_tasks ts (ids @ [(at_id t, t)]) (vms @ [(at_vmid t, t)])))"

text \<open>\<open>own\<close> is the map the resource is looked up in, \<open>other\<close> the one that makes a mismatch.\<close>

fun reconcileResources ::
    "string \<Rightarrow> audit_resource list \<Rightarrow> string list \<Rightarrow> (string \<times> audit_task) list \<Rightarrow> (string \<times> audit_task) list \<Rightarrow>
     audit_mismatch list" where
  "reconcileResources res [] seen own other = []"
| "reconcileResources res (x # xs) seen own other =
     (if ar_owner x = [] then
        mismatch ''malformed'' res [] (ar_name x) # reconcileResources res xs seen own other
      else if ar_owner x \<in> set seen then
        mismatch ''duplicate'' res (ar_owner x) (ar_name x) # reconcileResources res xs seen own other
      else if map_of own (ar_owner x) \<noteq> None then reconcileResources res xs (ar_owner x # seen) own other
      else if map_of other (ar_owner x) \<noteq> None then
        mismatch ''mismatched'' res (ar_owner x) (ar_name x) # reconcileResources res xs (ar_owner x # seen) own other
      else mismatch ''orphan'' res (ar_owner x) (ar_name x) # reconcileResources res xs (ar_owner x # seen) own other)"

definition process_mismatch :: "string \<Rightarrow> audit_process \<Rightarrow> audit_mismatch" where
  "process_mismatch kind p =
     \<lparr>mm_kind = kind, mm_resource = ''process'', mm_owner = ap_owner p, mm_detail = itoa_int (ap_pid p),
      mm_running = ap_running p\<rparr>"

fun reconcileProcesses ::
    "audit_process list \<Rightarrow> string list \<Rightarrow> (string \<times> audit_task) list \<Rightarrow> (string \<times> audit_task) list \<Rightarrow> audit_mismatch list" where
  "reconcileProcesses [] seen ids vms = []"
| "reconcileProcesses (p # ps) seen ids vms =
     (if ap_owner p = [] \<or> ap_pid p \<le> 0 then process_mismatch ''malformed'' p # reconcileProcesses ps seen ids vms
      else if ap_owner p \<in> set seen then process_mismatch ''duplicate'' p # reconcileProcesses ps seen ids vms
      else if map_of vms (ap_owner p) \<noteq> None then reconcileProcesses ps (ap_owner p # seen) ids vms
      else process_mismatch (if map_of ids (ap_owner p) \<noteq> None then ''mismatched'' else ''orphan'') p #
        reconcileProcesses ps (ap_owner p # seen) ids vms)"

fun reconcileAllocations ::
    "(string \<times> string) list \<Rightarrow> (string \<times> string) list \<Rightarrow> (string \<times> audit_task) list \<Rightarrow> (string \<times> audit_task) list \<Rightarrow>
     audit_mismatch list" where
  "reconcileAllocations [] byIP ids vms = []"
| "reconcileAllocations ((i, ip) # al) byIP ids vms =
     (if \<not> isCanonicalAuditID i \<or> \<not> isCanonicalAuditIPv4 ip then
        mismatch ''malformed'' ''ip_allocation'' i ip # reconcileAllocations al byIP ids vms
      else (case map_of byIP ip of
        Some i' \<Rightarrow> mismatch ''duplicate'' ''ip_allocation'' i (i' @ ''='' @ ip) # reconcileAllocations al byIP ids vms
      | None \<Rightarrow>
          if map_of ids i \<noteq> None then reconcileAllocations al ((ip, i) # byIP) ids vms
          else mismatch (if map_of vms i \<noteq> None then ''mismatched'' else ''orphan'') ''ip_allocation'' i ip #
            reconcileAllocations al ((ip, i) # byIP) ids vms))"

definition hasUnknownRead :: "(string \<times> string) list \<Rightarrow> string \<Rightarrow> bool" where
  "hasUnknownRead rs source \<longleftrightarrow> source \<in> set (map fst rs)"

definition countAuditResources :: "audit_resource list \<Rightarrow> string \<Rightarrow> nat" where
  "countAuditResources rs i = length (filter (\<lambda>r. ar_owner r = i) rs)"

definition countAuditProcesses :: "audit_process list \<Rightarrow> string \<Rightarrow> nat" where
  "countAuditProcesses ps i = length (filter (\<lambda>p. ap_owner p = i) ps)"

definition allocationCount :: "(string \<times> string) list \<Rightarrow> string \<Rightarrow> nat" where
  "allocationCount al i = (if map_of al i \<noteq> None then 1 else 0)"

definition requireOneAuditResource ::
    "orphan_audit \<Rightarrow> audit_task \<Rightarrow> string \<Rightarrow> string \<Rightarrow> nat \<Rightarrow> audit_mismatch list" where
  "requireOneAuditResource a t source resource n =
     (if hasUnknownRead (au_unknown a) source \<or> n = 1 then []
      else [mismatch ''missing'' resource (at_id t) ''expected exactly one''])"

definition requireNoAuditResource ::
    "orphan_audit \<Rightarrow> audit_task \<Rightarrow> string \<Rightarrow> string \<Rightarrow> nat \<Rightarrow> audit_mismatch list" where
  "requireNoAuditResource a t source resource n =
     (if hasUnknownRead (au_unknown a) source \<or> n = 0 then []
      else [mismatch ''mismatched'' resource (at_id t) ''cleanup_pending requires absence''])"

definition task_expectations :: "orphan_audit \<Rightarrow> audit_task \<Rightarrow> audit_mismatch list" where
  "task_expectations a t =
     (let dirs = countAuditResources (au_vm_dirs a) (at_vmid t); rootfs = countAuditResources (au_rootfs a) (at_vmid t);
          ws = countAuditResources (au_workspaces a) (at_id t); taps = countAuditResources (au_taps a) (at_vmid t);
          procs = countAuditProcesses (au_processes a) (at_vmid t)
      in
      if at_status t = ''cleanup_pending'' then
        requireNoAuditResource a t ''vm_directories'' ''vm_directory'' dirs @
        requireNoAuditResource a t ''rootfs_datasets'' ''rootfs_dataset'' rootfs @
        requireNoAuditResource a t ''workspace_datasets'' ''workspace_dataset'' ws @
        requireNoAuditResource a t ''processes'' ''process'' procs @
        requireNoAuditResource a t ''taps'' ''tap'' taps
      else
        requireOneAuditResource a t ''vm_directories'' ''vm_directory'' dirs @
        requireOneAuditResource a t ''rootfs_datasets'' ''rootfs_dataset'' rootfs @
        requireOneAuditResource a t ''workspace_datasets'' ''workspace_dataset'' ws @
        requireOneAuditResource a t ''ip_allocations'' ''ip_allocation'' (allocationCount (au_allocations a) (at_id t)) @
        (if at_status t = ''running'' \<or> at_status t = ''starting'' then
           requireOneAuditResource a t ''processes'' ''process'' procs @ requireOneAuditResource a t ''taps'' ''tap'' taps
         else if at_status t = ''stopped'' then
           requireNoAuditResource a t ''processes'' ''process'' procs @ requireNoAuditResource a t ''taps'' ''tap'' taps
         else []))"

definition reconcileTaskExpectations :: "orphan_audit \<Rightarrow> (string \<times> audit_task) list \<Rightarrow> audit_mismatch list" where
  "reconcileTaskExpectations a ids = concat (map (\<lambda>(i, t). task_expectations a t) ids)"

definition mismatches_of :: "orphan_audit \<Rightarrow> audit_mismatch list" where
  "mismatches_of a =
     (case index_tasks (au_tasks a) [] [] of (ms, ids, vms) \<Rightarrow>
        ms @ reconcileResources ''vm_directory'' (au_vm_dirs a) [] vms ids @
        reconcileProcesses (au_processes a) [] ids vms @
        reconcileResources ''rootfs_dataset'' (au_rootfs a) [] vms ids @
        reconcileResources ''workspace_dataset'' (au_workspaces a) [] ids vms @
        reconcileResources ''tap'' (au_taps a) [] vms ids @
        reconcileAllocations (au_allocations a) [] ids vms @
        reconcileTaskExpectations a ids)"

text \<open>The final order: resource, owner, kind.\<close>

definition reconcileOrphanAudit :: "orphan_audit \<Rightarrow> orphan_audit" where
  "reconcileOrphanAudit a =
     a\<lparr>au_mismatches := sort_key (\<lambda>m. (mm_resource m, mm_owner m, mm_kind m)) (au_mismatches a @ mismatches_of a)\<rparr>"

section \<open>Reading\<close>

text \<open>
  A reader can be missing (\<open>None\<close>); its error becomes an unknown read and an empty list.
  \<open>txt\<close> is \<open>err.Error()\<close>.
\<close>

definition read_audit ::
    "(goerr \<Rightarrow> string) \<Rightarrow> string \<Rightarrow> ('s, 'a list) op option \<Rightarrow> ('a list \<Rightarrow> (string \<times> string) list \<Rightarrow> ('s, 'b) op) \<Rightarrow>
     ('s, 'b) op" where
  "read_audit txt source reader k =
     (case reader of
        None \<Rightarrow> k [] [(source, ''reader is not configured'')]
      | Some m \<Rightarrow> attempt m (\<lambda>r. case r of Inl e \<Rightarrow> k [] [(source, txt e)] | Inr xs \<Rightarrow> k xs []))"

record 's audit_readers =
  listTasks :: "('s, audit_task list) op option"
  listVMDirs :: "('s, audit_resource list) op option"
  listProcesses :: "('s, audit_process list) op option"
  listRootfsDatasets :: "('s, audit_resource list) op option"
  listWorkspaceDatasets :: "('s, audit_resource list) op option"
  listTaps :: "('s, audit_resource list) op option"
  listIPAllocations :: "('s, (string \<times> string) list) op option"

definition collect_audit :: "(goerr \<Rightarrow> string) \<Rightarrow> 's audit_readers \<Rightarrow> ('s, orphan_audit) op" where
  "collect_audit txt r =
     read_audit txt ''tasks'' (listTasks r) (\<lambda>ts e1.
     read_audit txt ''vm_directories'' (listVMDirs r) (\<lambda>ds e2.
     read_audit txt ''processes'' (listProcesses r) (\<lambda>ps e3.
     read_audit txt ''rootfs_datasets'' (listRootfsDatasets r) (\<lambda>rs e4.
     read_audit txt ''workspace_datasets'' (listWorkspaceDatasets r) (\<lambda>ws e5.
     read_audit txt ''taps'' (listTaps r) (\<lambda>tps e6.
     read_audit txt ''ip_allocations'' (listIPAllocations r) (\<lambda>al e7.
     ok \<lparr>au_tasks = ts, au_vm_dirs = ds, au_processes = ps, au_rootfs = rs, au_workspaces = ws, au_taps = tps,
         au_allocations = al, au_mismatches = [], au_unknown = e1 @ e2 @ e3 @ e4 @ e5 @ e6 @ e7\<rparr>)))))))"

text \<open>The document; a slice that was never appended to is \<open>null\<close>, empty fields of a mismatch are left out.\<close>

definition resource_json :: "audit_resource \<Rightarrow> json" where
  "resource_json x = JObj [(''owner_id'', JStr (ar_owner x)), (''name'', JStr (ar_name x))]"

definition mismatch_json :: "audit_mismatch \<Rightarrow> json" where
  "mismatch_json m =
     JObj ([(''kind'', JStr (mm_kind m)), (''resource'', JStr (mm_resource m))] @
       (if mm_owner m = [] then [] else [(''owner_id'', JStr (mm_owner m))]) @
       (if mm_detail m = [] then [] else [(''detail'', JStr (mm_detail m))]) @
       (if mm_running m then [(''running'', JBool True)] else []))"

definition appended :: "json list \<Rightarrow> json" where
  "appended xs = (if xs = [] then JNull else JArr xs)"

definition audit_json :: "orphan_audit \<Rightarrow> json" where
  "audit_json a = JObj
     [(''tasks'', JArr (map (\<lambda>t. JObj [(''id'', JStr (at_id t)), (''vm_id'', JStr (at_vmid t)), (''status'', JStr (at_status t))]) (au_tasks a))),
      (''vm_directories'', JArr (map resource_json (au_vm_dirs a))),
      (''processes'', JArr (map (\<lambda>p. JObj [(''owner_id'', JStr (ap_owner p)), (''pid'', JNum (itoa_int (ap_pid p))),
         (''running'', JBool (ap_running p))]) (au_processes a))),
      (''rootfs_datasets'', JArr (map resource_json (au_rootfs a))),
      (''workspace_datasets'', JArr (map resource_json (au_workspaces a))),
      (''taps'', JArr (map resource_json (au_taps a))),
      (''ip_allocations'', JObj (map (\<lambda>(i, ip). (i, JStr ip)) (sort_key fst (au_allocations a)))),
      (''mismatches'', appended (map mismatch_json (au_mismatches a))),
      (''unknown_reads'', appended (map (\<lambda>(s, e). JObj [(''source'', JStr s), (''error'', JStr e)]) (au_unknown a)))]"

text \<open>The output is written whatever the outcome; \<open>emit\<close> is the command's output.\<close>

definition runOrphanAudit :: "(goerr \<Rightarrow> string) \<Rightarrow> 's audit_readers \<Rightarrow> (string \<Rightarrow> ('s, unit) op) \<Rightarrow> ('s, unit) op" where
  "runOrphanAudit txt r emit =
     call (collect_audit txt r) (\<lambda>a0.
       let a = (if hasUnknownRead (au_unknown a0) ''tasks'' then a0 else reconcileOrphanAudit a0) in
       call_wrap ''encode orphan audit'' (emit (marshal (audit_json a) @ [CHR 0x0A])) (\<lambda>_.
       if au_mismatches a \<noteq> [] \<or> au_unknown a \<noteq> [] then
         fail (Msg (''orphan audit found '' @ itoa (length (au_mismatches a)) @ '' mismatch(es) and '' @
           itoa (length (au_unknown a)) @ '' unknown read(s)''))
       else ok ()))"

definition validateGCAuditFlags :: "bool \<Rightarrow> bool \<Rightarrow> bool \<Rightarrow> goerr option" where
  "validateGCAuditFlags orphans dryRun jsonOutput =
     (if jsonOutput \<and> (\<not> orphans \<or> \<not> dryRun) then Some (Msg ''gc --json requires --orphans --dry-run'') else None)"

section \<open>What a clean host is\<close>

definition exact_tasks :: "audit_task list \<Rightarrow> bool" where
  "exact_tasks ts \<longleftrightarrow> distinct (map at_id ts) \<and> (\<forall>t \<in> set ts. isCanonicalAuditID (at_id t) \<and> at_vmid t = at_id t \<and>
     isAuditTaskStatus (at_status t))"

definition exactly_owned :: "audit_task list \<Rightarrow> string list \<Rightarrow> bool" where
  "exactly_owned ts owners \<longleftrightarrow> distinct owners \<and> set owners \<subseteq> at_id ` set ts"

text \<open>Which resources a task has: a pending cleanup none but an address, every other task its disks.\<close>

definition has_its_resources :: "orphan_audit \<Rightarrow> audit_task \<Rightarrow> bool" where
  "has_its_resources a t \<longleftrightarrow>
     (let i = at_id t; pending = (at_status t = ''cleanup_pending'') in
      (i \<in> ar_owner ` set (au_vm_dirs a) \<longleftrightarrow> \<not> pending) \<and> (i \<in> ar_owner ` set (au_rootfs a) \<longleftrightarrow> \<not> pending) \<and>
      (i \<in> ar_owner ` set (au_workspaces a) \<longleftrightarrow> \<not> pending) \<and>
      (\<not> pending \<longrightarrow> i \<in> fst ` set (au_allocations a)) \<and>
      (at_status t \<in> {''running'', ''starting''} \<longrightarrow> i \<in> ap_owner ` set (au_processes a) \<and> i \<in> ar_owner ` set (au_taps a)) \<and>
      (at_status t \<in> {''stopped'', ''cleanup_pending''} \<longrightarrow> i \<notin> ap_owner ` set (au_processes a) \<and> i \<notin> ar_owner ` set (au_taps a)))"

definition exact_host :: "orphan_audit \<Rightarrow> bool" where
  "exact_host a \<longleftrightarrow> exact_tasks (au_tasks a) \<and>
     exactly_owned (au_tasks a) (map ar_owner (au_vm_dirs a)) \<and>
     exactly_owned (au_tasks a) (map ar_owner (au_rootfs a)) \<and>
     exactly_owned (au_tasks a) (map ar_owner (au_workspaces a)) \<and>
     exactly_owned (au_tasks a) (map ar_owner (au_taps a)) \<and>
     exactly_owned (au_tasks a) (map ap_owner (au_processes a)) \<and> (\<forall>p \<in> set (au_processes a). 0 < ap_pid p) \<and>
     exactly_owned (au_tasks a) (map fst (au_allocations a)) \<and> distinct (map snd (au_allocations a)) \<and>
     (\<forall>x \<in> set (au_allocations a). isCanonicalAuditIPv4 (snd x)) \<and>
     (\<forall>t \<in> set (au_tasks a). has_its_resources a t)"

section \<open>The audit decides it\<close>

abbreviation indexed :: "audit_task list \<Rightarrow> (string \<times> audit_task) list" where
  "indexed ts \<equiv> map (\<lambda>t. (at_id t, t)) ts"

lemma indexed_dom: "map_of (indexed ts) i \<noteq> None \<longleftrightarrow> i \<in> at_id ` set ts"
  by (induction ts) auto

lemma index_tasks_clean:
  assumes "\<forall>t \<in> set done'. at_vmid t = at_id t" "distinct (map at_id done')"
  shows "(case index_tasks ts (indexed done') (indexed done') of (ms, ids, vms) \<Rightarrow>
      (ms = [] \<longleftrightarrow> (\<forall>t \<in> set ts. isCanonicalAuditID (at_id t) \<and> at_vmid t = at_id t \<and> isAuditTaskStatus (at_status t)) \<and>
         distinct (map at_id (done' @ ts))) \<and>
      (ms = [] \<longrightarrow> ids = indexed (done' @ ts) \<and> vms = indexed (done' @ ts)))"
  using assms
proof (induction ts arbitrary: done')
  case (Cons t ts)
  show ?case
  proof (cases "isCanonicalAuditID (at_id t) \<and> at_vmid t = at_id t \<and> isAuditTaskStatus (at_status t) \<and> at_id t \<notin> at_id ` set done'")
    case True
    then have new: "map_of (indexed done') (at_id t) = None" using indexed_dom [of done' "at_id t"] by simp
    have "(case index_tasks ts (indexed (done' @ [t])) (indexed (done' @ [t])) of (ms, ids, vms) \<Rightarrow>
      (ms = [] \<longleftrightarrow> (\<forall>t \<in> set ts. isCanonicalAuditID (at_id t) \<and> at_vmid t = at_id t \<and> isAuditTaskStatus (at_status t)) \<and>
         distinct (map at_id ((done' @ [t]) @ ts))) \<and>
      (ms = [] \<longrightarrow> ids = indexed ((done' @ [t]) @ ts) \<and> vms = indexed ((done' @ [t]) @ ts)))"
      by (rule Cons.IH) (use Cons.prems True in auto)
    then show ?thesis using True new by simp
  next
    case False
    have "fst (index_tasks (t # ts) (indexed done') (indexed done')) \<noteq> []"
    proof (cases "isCanonicalAuditID (at_id t) \<and> at_vmid t = at_id t \<and> isAuditTaskStatus (at_status t)")
      case True
      then have "map_of (indexed done') (at_id t) \<noteq> None" using False indexed_dom [of done' "at_id t"] by blast
      then show ?thesis using True by (auto split: prod.split)
    qed (auto split: prod.split)
    then show ?thesis using False by (cases "index_tasks (t # ts) (indexed done') (indexed done')") (auto simp del: index_tasks.simps)
  qed
qed simp

lemma resources_clean:
  "reconcileResources res xs seen own other = [] \<longleftrightarrow>
     distinct (map ar_owner xs) \<and> (\<forall>x \<in> set xs. ar_owner x \<noteq> [] \<and> ar_owner x \<notin> set seen \<and> map_of own (ar_owner x) \<noteq> None)"
  by (induction res xs seen own other rule: reconcileResources.induct) (auto simp: image_iff)

lemma processes_clean:
  "reconcileProcesses ps seen ids vms = [] \<longleftrightarrow>
     distinct (map ap_owner ps) \<and>
     (\<forall>p \<in> set ps. ap_owner p \<noteq> [] \<and> 0 < ap_pid p \<and> ap_owner p \<notin> set seen \<and> map_of vms (ap_owner p) \<noteq> None)"
  by (induction ps seen ids vms rule: reconcileProcesses.induct) (auto simp: image_iff)

lemma allocations_clean:
  "reconcileAllocations al byIP ids vms = [] \<longleftrightarrow>
     distinct (map snd al) \<and> (\<forall>x \<in> set al. isCanonicalAuditID (fst x) \<and> isCanonicalAuditIPv4 (snd x) \<and>
       map_of byIP (snd x) = None \<and> map_of ids (fst x) \<noteq> None)"
proof (induction al byIP ids vms rule: reconcileAllocations.induct)
  case (2 i ip al byIP ids vms)
  then show ?case by (cases "map_of byIP ip") (auto simp: map_upd_Some_unfold split: if_splits)
qed simp

lemma one_owner: "distinct (map f xs) \<Longrightarrow> length (filter (\<lambda>x. f x = i) xs) = (if i \<in> f ` set xs then 1 else 0)"
  by (induction xs) (auto simp: image_iff)

lemma canonical_not_Nil: "isCanonicalAuditID i \<Longrightarrow> i \<noteq> []"
  by (auto simp: isCanonicalAuditID_def)

lemma expectations_clean:
  assumes "au_unknown a = []" "at_vmid t = at_id t" "isAuditTaskStatus (at_status t)"
    and "distinct (map ar_owner (au_vm_dirs a))" "distinct (map ar_owner (au_rootfs a))"
      "distinct (map ar_owner (au_workspaces a))" "distinct (map ar_owner (au_taps a))"
      "distinct (map ap_owner (au_processes a))"
  shows "task_expectations a t = [] \<longleftrightarrow> has_its_resources a t"
proof -
  have counts: "countAuditResources rs i = (if i \<in> ar_owner ` set rs then 1 else 0)" if "distinct (map ar_owner rs)" for rs i
    using one_owner [OF that] by (simp add: countAuditResources_def)
  have procs: "countAuditProcesses (au_processes a) i = (if i \<in> ap_owner ` set (au_processes a) then 1 else 0)" for i
    using one_owner [OF assms(8)] by (simp add: countAuditProcesses_def)
  have al: "allocationCount al i = (if i \<in> fst ` set al then 1 else 0)" for al i
    using map_of_eq_None_iff [of al i] by (simp add: allocationCount_def)
  have req: "requireOneAuditResource a t x y n = [] \<longleftrightarrow> n = 1" "requireNoAuditResource a t x y n = [] \<longleftrightarrow> n = 0" for x y n
    using assms(1) by (simp_all add: requireOneAuditResource_def requireNoAuditResource_def hasUnknownRead_def)
  note facts = counts [OF assms(4)] counts [OF assms(5)] counts [OF assms(6)] counts [OF assms(7)] procs al req assms(2)
  consider "at_status t = ''cleanup_pending''" | "at_status t = ''running''" | "at_status t = ''starting''"
    | "at_status t = ''stopped''" | "at_status t = ''failed''"
    using assms(3) by (auto simp: isAuditTaskStatus_def)
  then show ?thesis
    by cases (simp_all add: task_expectations_def has_its_resources_def Let_def facts)
qed

lemma mismatches_clean:
  assumes "au_unknown a = []" "distinct (map fst (au_allocations a))"
  shows "mismatches_of a = [] \<longleftrightarrow> exact_host a"
proof -
  obtain ms ids vms where ix: "index_tasks (au_tasks a) [] [] = (ms, ids, vms)" by (metis prod_cases3)
  have ms: "ms = [] \<longleftrightarrow> exact_tasks (au_tasks a)" "ms = [] \<Longrightarrow> ids = indexed (au_tasks a) \<and> vms = indexed (au_tasks a)"
    using index_tasks_clean [of "[]" "au_tasks a"] ix by (auto simp: exact_tasks_def)
  show ?thesis
  proof (cases "exact_tasks (au_tasks a)")
    case False
    then show ?thesis using ms(1) by (simp add: mismatches_of_def ix exact_host_def Let_def)
  next
    case True
    then have idx: "ms = []" "ids = indexed (au_tasks a)" "vms = indexed (au_tasks a)" using ms by auto
    have dom: "map_of (indexed (au_tasks a)) i \<noteq> None \<longleftrightarrow> i \<in> at_id ` set (au_tasks a)" for i by (rule indexed_dom)
    have named: "i \<in> at_id ` set (au_tasks a) \<Longrightarrow> i \<noteq> [] \<and> isCanonicalAuditID i" for i
      using True canonical_not_Nil by (auto simp: exact_tasks_def)
    have res: "reconcileResources r xs [] (indexed (au_tasks a)) (indexed (au_tasks a)) = [] \<longleftrightarrow>
        exactly_owned (au_tasks a) (map ar_owner xs)" for r xs
      unfolding resources_clean dom exactly_owned_def using named by auto
    have pr: "reconcileProcesses (au_processes a) [] (indexed (au_tasks a)) (indexed (au_tasks a)) = [] \<longleftrightarrow>
        exactly_owned (au_tasks a) (map ap_owner (au_processes a)) \<and> (\<forall>p \<in> set (au_processes a). 0 < ap_pid p)"
      unfolding processes_clean dom exactly_owned_def using named by auto
    have al: "reconcileAllocations (au_allocations a) [] (indexed (au_tasks a)) (indexed (au_tasks a)) = [] \<longleftrightarrow>
        exactly_owned (au_tasks a) (map fst (au_allocations a)) \<and> distinct (map snd (au_allocations a)) \<and>
        (\<forall>x \<in> set (au_allocations a). isCanonicalAuditIPv4 (snd x))"
      unfolding allocations_clean dom exactly_owned_def using named assms(2) by auto
    have exp: "reconcileTaskExpectations a (indexed (au_tasks a)) = [] \<longleftrightarrow> (\<forall>t \<in> set (au_tasks a). task_expectations a t = [])"
      by (auto simp: reconcileTaskExpectations_def)
    have task: "t \<in> set (au_tasks a) \<Longrightarrow> at_vmid t = at_id t \<and> isAuditTaskStatus (at_status t)" for t
      using True by (auto simp: exact_tasks_def)
    let ?own = "\<lambda>os. exactly_owned (au_tasks a) os"
    show ?thesis
    proof (cases "?own (map ar_owner (au_vm_dirs a)) \<and> ?own (map ar_owner (au_rootfs a)) \<and> ?own (map ar_owner (au_workspaces a)) \<and>
        ?own (map ar_owner (au_taps a)) \<and> ?own (map ap_owner (au_processes a))")
      case False
      then show ?thesis by (auto simp: mismatches_of_def ix idx res pr exact_host_def Let_def)
    next
      case own: True
      have d: "distinct (map ar_owner (au_vm_dirs a))" "distinct (map ar_owner (au_rootfs a))"
        "distinct (map ar_owner (au_workspaces a))" "distinct (map ar_owner (au_taps a))" "distinct (map ap_owner (au_processes a))"
        using own by (simp_all add: exactly_owned_def)
      have "(\<forall>t \<in> set (au_tasks a). task_expectations a t = []) \<longleftrightarrow> (\<forall>t \<in> set (au_tasks a). has_its_resources a t)"
        by (rule ball_cong [OF refl]) (use expectations_clean [OF assms(1) _ _ d] task in simp)
      moreover have "mismatches_of a = [] \<longleftrightarrow> exactly_owned (au_tasks a) (map fst (au_allocations a)) \<and>
          distinct (map snd (au_allocations a)) \<and> (\<forall>x \<in> set (au_allocations a). isCanonicalAuditIPv4 (snd x)) \<and>
          (\<forall>p \<in> set (au_processes a). 0 < ap_pid p) \<and> (\<forall>t \<in> set (au_tasks a). task_expectations a t = [])"
        using own by (simp add: mismatches_of_def ix idx res pr al exp) blast
      moreover have "exact_host a \<longleftrightarrow> exactly_owned (au_tasks a) (map fst (au_allocations a)) \<and>
          distinct (map snd (au_allocations a)) \<and> (\<forall>x \<in> set (au_allocations a). isCanonicalAuditIPv4 (snd x)) \<and>
          (\<forall>p \<in> set (au_processes a). 0 < ap_pid p) \<and> (\<forall>t \<in> set (au_tasks a). has_its_resources a t)"
        using own True by (simp add: exact_host_def) blast
      ultimately show ?thesis by simp
    qed
  qed
qed

lemma sort_key_Nil: "sort_key f xs = [] \<longleftrightarrow> xs = []"
  by (metis length_0_conv length_sort)

lemma read_audit_returns: "(\<And>xs es. returns Q (k xs es)) \<Longrightarrow> returns Q (read_audit txt source reader k)"
  unfolding read_audit_def by (intro returns_intros) blast+

lemma collect_unmatched: "returns (\<lambda>a. au_mismatches a = []) (collect_audit txt r)"
  unfolding collect_audit_def by (intro read_audit_returns returns_intros) simp

text \<open>C4. The audit's verdict is exact: when the output can be written, the command returns nil if and only if every
  source could be read and the tasks and the host's directories, processes, datasets, TAP devices and addresses
  correspond one to one as each task's status requires.\<close>

theorem audit_nil_iff_exact:
  assumes "collect_audit txt r s = (Inr a, s')" "distinct (map fst (au_allocations a))"
    and "\<And>x u. fst (emit x u) = Inr ()"
  shows "fst (runOrphanAudit txt r emit s) = Inr () \<longleftrightarrow> au_unknown a = [] \<and> exact_host a"
proof -
  have au: "au_mismatches a = []"
    by (rule returnsD [OF collect_unmatched assms(1)])
  have written: "call_wrap ''encode orphan audit'' (emit x) k u = k () (snd (emit x u))" for x u and k :: "unit \<Rightarrow> ('a, unit) op"
    using assms(3) [of x u] by (cases "emit x u") (simp add: call_wrap_def call_def wrap_def)
  have verdict: "fst (runOrphanAudit txt r emit s) = Inr () \<longleftrightarrow> au_mismatches b = [] \<and> au_unknown b = []"
    if "b = (if hasUnknownRead (au_unknown a) ''tasks'' then a else reconcileOrphanAudit a)" for b
    by (simp add: runOrphanAudit_def call_Inr [where m = "collect_audit txt r", OF assms(1)] written Let_def that [symmetric])
  show ?thesis
  proof (cases "au_unknown a = []")
    case True
    have "fst (runOrphanAudit txt r emit s) = Inr () \<longleftrightarrow> mismatches_of a = []"
      by (subst verdict [OF refl]) (simp add: True hasUnknownRead_def reconcileOrphanAudit_def au sort_key_Nil)
    then show ?thesis using mismatches_clean [OF True assms(2)] True by simp
  next
    case False
    have "fst (runOrphanAudit txt r emit s) \<noteq> Inr ()"
      by (subst verdict [OF refl]) (simp add: False reconcileOrphanAudit_def)
    then show ?thesis using False by simp
  qed
qed

definition demo_audit :: orphan_audit where
  "demo_audit =
     (let x = \<lambda>i. \<lparr>ar_owner = i, ar_name = i\<rparr>; a = ''0000000a''; b = ''0000000b'' in
      \<lparr>au_tasks = [\<lparr>at_id = a, at_vmid = a, at_status = ''running''\<rparr>, \<lparr>at_id = b, at_vmid = b, at_status = ''stopped''\<rparr>],
       au_vm_dirs = [x a, x b], au_processes = [\<lparr>ap_owner = a, ap_pid = 7, ap_running = True\<rparr>], au_rootfs = [x b, x a],
       au_workspaces = [x a, x b], au_taps = [x a], au_allocations = [(a, ''10.0.0.2''), (b, ''10.0.0.3'')],
       au_mismatches = [], au_unknown = []\<rparr>)"

definition demo_readers :: "orphan_audit \<Rightarrow> unit audit_readers" where
  "demo_readers a =
     \<lparr>listTasks = Some (ok (au_tasks a)), listVMDirs = Some (ok (au_vm_dirs a)), listProcesses = Some (ok (au_processes a)),
      listRootfsDatasets = Some (ok (au_rootfs a)), listWorkspaceDatasets = Some (ok (au_workspaces a)),
      listTaps = Some (ok (au_taps a)), listIPAllocations = Some (ok (au_allocations a))\<rparr>"

lemma demo_collect: "au_mismatches a = [] \<Longrightarrow> au_unknown a = [] \<Longrightarrow> collect_audit txt (demo_readers a) () = (Inr a, ())"
  by (simp add: collect_audit_def read_audit_def demo_readers_def attempt_def)

lemma audit_nil_iff_exact_witness:
  "fst (runOrphanAudit (\<lambda>_. []) (demo_readers demo_audit) (\<lambda>_. ok ()) ()) = Inr () \<and>
   fst (runOrphanAudit (\<lambda>_. []) (demo_readers (demo_audit\<lparr>au_taps := []\<rparr>)) (\<lambda>_. ok ()) ()) \<noteq> Inr ()"
proof -
  have "au_mismatches demo_audit = []" "au_unknown demo_audit = []" "distinct (map fst (au_allocations demo_audit))"
    "exact_host demo_audit" "\<not> exact_host (demo_audit\<lparr>au_taps := []\<rparr>)"
    by code_simp+
  then show ?thesis
    using audit_nil_iff_exact [where emit = "\<lambda>_. ok ()", OF demo_collect [of demo_audit]]
      audit_nil_iff_exact [where emit = "\<lambda>_. ok ()", OF demo_collect [of "demo_audit\<lparr>au_taps := []\<rparr>"]] by simp
qed

end
