(* ===== verification/Audit_Readers.thy ===== *)
theory Audit_Readers
  imports Orphan_Audit Vm_Machine
begin

text \<open>
  What the orphan audit reads (\<open>gc_audit.go\<close>): directories, datasets, TAP devices and
  processes as the host lists them, and the strict reader of the address pool's state file.
  The reader accepts every state file the pool writes, and the socket a VM's process is
  started with names its VM.
\<close>

section \<open>Addresses\<close>

text \<open>\<open>netip.ParsePrefix\<close> of an IPv4 prefix of 24 bits, masked; the gateway; the broadcast address.\<close>

definition auditIPv4Pool :: "string \<Rightarrow> string \<Rightarrow> (octets \<times> octets \<times> octets) option" where
  "auditIPv4Pool subnet gw =
     (case last_index_byte subnet (CHR ''/'') of
        None \<Rightarrow> None
      | Some i \<Rightarrow>
          if drop (Suc i) subnet \<noteq> ''24'' then None
          else (case parse_ipv4 (take i subnet) of
            None \<Rightarrow> None
          | Some (a, b, c, _) \<Rightarrow> (case parse_ipv4 gw of
              None \<Rightarrow> None
            | Some g \<Rightarrow>
                if contains_ip ((a, b, c, 0), (255, 255, 255, 0)) g
                then Some ((a, b, c, 0), g, (a, b, c, 255)) else None)))"

definition isUsableAuditIPv4 :: "string \<Rightarrow> octets \<times> octets \<times> octets \<Rightarrow> bool" where
  "isUsableAuditIPv4 v p =
     (case p of (base, gw, broadcast) \<Rightarrow> isCanonicalAuditIPv4 v \<and>
       (case parse_ipv4 v of None \<Rightarrow> False | Some ip \<Rightarrow>
          contains_ip (base, (255, 255, 255, 0)) ip \<and> ip \<noteq> base \<and> ip \<noteq> gw \<and> ip \<noteq> broadcast))"

section \<open>The state file\<close>

text \<open>
  The token decoder reads the same text as the whole parser; the two differ only in which
  error a malformed text gives first. \<open>null\<close> decodes to the empty string.
\<close>

fun decodeAuditAllocations ::
    "octets \<times> octets \<times> octets \<Rightarrow> (string \<times> json) list \<Rightarrow> (string \<times> string) list \<Rightarrow> goerr + (string \<times> string) list" where
  "decodeAuditAllocations p [] al = Inr al"
| "decodeAuditAllocations p ((i, v) # ms) al =
     (if \<not> isCanonicalAuditID i then Inl (Msg ''invalid allocation task id'')
      else if map_of al i \<noteq> None then Inl (Msg ''duplicate allocation task id'')
      else (case v of
        JStr ip \<Rightarrow>
          if \<not> isUsableAuditIPv4 ip p then Inl (Msg ''invalid allocation address'')
          else if ip \<in> set (map snd al) then Inl (Msg ''duplicate allocation address'')
          else decodeAuditAllocations p ms (al @ [(i, ip)])
      | JNull \<Rightarrow> Inl (Msg ''invalid allocation address'')
      | _ \<Rightarrow> Inl (Msg ''cannot unmarshal into string'')))"

definition parseAuditIPAllocations :: "string \<Rightarrow> string \<Rightarrow> string \<Rightarrow> goerr + (string \<times> string) list" where
  "parseAuditIPAllocations data subnet gw =
     (case auditIPv4Pool subnet gw of
        None \<Rightarrow> Inl (Msg ''invalid IPv4 allocation subnet or gateway'')
      | Some p \<Rightarrow> (case json_parse data of
          None \<Rightarrow> Inl (Msg ''invalid JSON'')
        | Some (JObj []) \<Rightarrow> Inl (Msg ''allocation state omits allocated map'')
        | Some (JObj ((k, v) # ms)) \<Rightarrow>
            if k \<noteq> ''allocated'' then Inl (Msg ''unknown allocation state key'')
            else (case v of
              JObj es \<Rightarrow> (case decodeAuditAllocations p es [] of
                  Inl e \<Rightarrow> Inl e
                | Inr al \<Rightarrow> if ms = [] then Inr al else Inl (Msg ''duplicate or unknown allocation state key''))
            | _ \<Rightarrow> Inl (Msg ''allocated must be a JSON object''))
        | Some _ \<Rightarrow> Inl (Msg ''allocation state must be a JSON object'')))"

section \<open>Listings of the host\<close>

text \<open>
  The host's answers: the entries of a directory with whether they are directories, the
  content of a file (\<open>Inr None\<close>: not there), what \<open>zfs list\<close> and \<open>ip link\<close>
  print, and the processes with their command line and executable (\<open>None\<close>: gone).
\<close>

record 's host_reads =
  readDir :: "string \<Rightarrow> ('s, (string \<times> bool) list) op"
  readFile :: "string \<Rightarrow> ('s, string option) op"
  zfsList :: "string \<Rightarrow> ('s, string) op"
  ipLinks :: "('s, string) op"
  procPIDs :: "('s, nat list) op"
  procCmdline :: "nat \<Rightarrow> ('s, string option) op"
  procIsFirecracker :: "nat \<Rightarrow> ('s, bool option) op"

fun dir_items :: "string \<Rightarrow> (string \<times> bool) list \<Rightarrow> audit_resource list \<Rightarrow> ('s env, audit_resource list) op" where
  "dir_items vmDir [] items = ok (rev items)"
| "dir_items vmDir ((n, isDir) # es) items =
     call ctx_err (\<lambda>_. dir_items vmDir es (if isDir then \<lparr>ar_owner = n, ar_name = path_join [vmDir, n]\<rparr> # items else items))"

definition listAuditVMDirs :: "('s env) host_reads \<Rightarrow> string \<Rightarrow> ('s env, audit_resource list) op" where
  "listAuditVMDirs h vmDir = call ctx_err (\<lambda>_. call (readDir h vmDir) (\<lambda>es. dir_items vmDir es []))"

text \<open>\<open>strings.Split(strings.TrimSuffix(out, "\n"), "\n")\<close>.\<close>

definition output_lines :: "string \<Rightarrow> string list" where
  "output_lines out = split_byte (CHR 0x0A) (trim_suffix out [CHR 0x0A])"

definition dataset_item :: "string \<Rightarrow> string \<Rightarrow> audit_resource option" where
  "dataset_item base line =
     (if line = [] \<or> line = base then None
      else if \<not> has_prefix line (base @ ''/'') \<or> contains (trim_prefix line (base @ ''/'')) ''/'' then
        Some \<lparr>ar_owner = [], ar_name = line\<rparr>
      else Some \<lparr>ar_owner = trim_prefix line (base @ ''/''), ar_name = line\<rparr>)"

definition listAuditDatasets :: "'s host_reads \<Rightarrow> string \<Rightarrow> ('s, audit_resource list) op" where
  "listAuditDatasets h base = call (zfsList h base) (\<lambda>out. ok (List.map_filter (dataset_item base) (output_lines out)))"

fun tap_owners :: "('s env) host_reads \<Rightarrow> string \<Rightarrow> (string \<times> bool) list \<Rightarrow> (string \<times> string) list \<Rightarrow>
    ('s env, (string \<times> string) list) op" where
  "tap_owners h vmDir [] owners = ok owners"
| "tap_owners h vmDir ((n, isDir) # es) owners =
     call ctx_err (\<lambda>_.
     if \<not> isDir then tap_owners h vmDir es owners
     else call (readFile h (path_join [vmDir, n, ''tap_name''])) (\<lambda>f. case f of
       None \<Rightarrow> tap_owners h vmDir es owners
     | Some x \<Rightarrow>
         let tap = trim_space x in
         if tap = [] then fail (Msg (''empty tap name for VM '' @ n))
         else if map_of owners tap \<noteq> None then fail (Msg (''duplicate tap name '' @ tap))
         else tap_owners h vmDir es ((tap, n) # owners)))"

fun link_items :: "(string \<times> string) list \<Rightarrow> string list \<Rightarrow> goerr + audit_resource list" where
  "link_items owners [] = Inr []"
| "link_items owners (line # ls) =
     (case Go_Strings.fields line of
        _ # f # _ \<Rightarrow>
          (let name = trim_suffix f '':'' in
           case link_items owners ls of
             Inl e \<Rightarrow> Inl e
           | Inr items \<Rightarrow> Inr (if has_prefix name ''tap-''
               then \<lparr>ar_owner = (case map_of owners name of None \<Rightarrow> [] | Some n \<Rightarrow> n), ar_name = name\<rparr> # items else items))
      | _ \<Rightarrow> Inl (Msg (''malformed link row'')))"

definition listAuditTaps :: "('s env) host_reads \<Rightarrow> string \<Rightarrow> ('s env, audit_resource list) op" where
  "listAuditTaps h vmDir =
     call (readDir h vmDir) (\<lambda>es.
     call (tap_owners h vmDir es []) (\<lambda>owners.
     call (ipLinks h) (\<lambda>out. \<lambda>s. (link_items owners (output_lines out), s))))"

section \<open>Processes\<close>

text \<open>\<open>filepath.Rel\<close> after both paths are cleaned: equal leading elements are dropped.\<close>

function rel_rest :: "string \<Rightarrow> string \<Rightarrow> string \<times> string \<times> string" where
  "rel_rest base targ =
     (if base = [] \<or> targ = [] then (base, [], targ)
      else
        let b = takeWhile (\<lambda>c. c \<noteq> CHR ''/'') base; t = takeWhile (\<lambda>c. c \<noteq> CHR ''/'') targ in
        if b \<noteq> t then (base, b, targ)
        else rel_rest (drop (Suc (length b)) base) (drop (Suc (length t)) targ))"
  by pat_completeness auto
termination by (relation "measure (\<lambda>(b, t). length b)") auto

definition filepath_rel :: "string \<Rightarrow> string \<Rightarrow> string option" where
  "filepath_rel basepath targpath =
     (let base0 = path_clean basepath; targ = path_clean targpath in
      if targ = base0 then Some ''.''
      else
        let base = (if base0 = ''.'' then [] else base0) in
        if has_prefix base ''/'' \<noteq> has_prefix targ ''/'' then None
        else (case rel_rest base targ of (b, b0, t) \<Rightarrow>
          if b0 = ''..'' then None
          else if b \<noteq> [] then
            Some (concat (''..'' # replicate (length (filter (\<lambda>c. c = CHR ''/'') b)) ''/..'') @
                  (if t = [] then [] else CHR ''/'' # t))
          else Some t))"

definition auditSocketOwner :: "string \<Rightarrow> string \<Rightarrow> string option" where
  "auditSocketOwner vmDir socketPath =
     (case filepath_rel vmDir socketPath of
        None \<Rightarrow> None
      | Some relative \<Rightarrow>
          if relative = ''..'' \<or> has_prefix relative ''../'' then None
          else (case split_byte (CHR ''/'') (path_clean relative) of
            [p, f] \<Rightarrow> if f \<noteq> ''api.sock'' \<or> p = ''.'' \<or> p = [] then None else Some p
          | _ \<Rightarrow> None))"

definition readAuditProcessArguments :: "string \<Rightarrow> string list" where
  "readAuditProcessArguments data =
     (let fs = split_byte (CHR 0x00) (trim_suffix data [CHR 0x00]) in
      if length fs < 2 then [] else tl fs)"

fun scan_audit_socket :: "string list \<Rightarrow> string \<Rightarrow> goerr + string" where
  "scan_audit_socket (a # b # as) socket =
     (if a \<noteq> ''--api-sock'' then scan_audit_socket (b # as) socket
      else if b = [] then Inl (Msg ''empty --api-sock value'')
      else if socket \<noteq> [] then Inl (Msg ''multiple --api-sock values'')
      else scan_audit_socket (b # as) b)"
| "scan_audit_socket _ socket = Inr socket"

definition auditProcessSocket :: "string list \<Rightarrow> goerr + string" where
  "auditProcessSocket as =
     (case scan_audit_socket as [] of
        Inl e \<Rightarrow> Inl e
      | Inr socket \<Rightarrow>
          if as \<noteq> [] \<and> last as = ''--api-sock'' then Inl (Msg ''missing --api-sock value'') else Inr socket)"

text \<open>The owner of a process: empty when the socket is missing, malformed or not a VM's.\<close>

definition process_owner :: "string \<Rightarrow> string list \<Rightarrow> string" where
  "process_owner vmDir as =
     (case auditProcessSocket as of
        Inl _ \<Rightarrow> []
      | Inr socket \<Rightarrow> if socket = [] then [] else
          (case auditSocketOwner vmDir socket of None \<Rightarrow> [] | Some i \<Rightarrow> i))"

fun list_processes :: "('s env) host_reads \<Rightarrow> string \<Rightarrow> nat list \<Rightarrow> audit_process list \<Rightarrow> ('s env, audit_process list) op" where
  "list_processes h vmDir [] items = ok (rev items)"
| "list_processes h vmDir (pid # pids) items =
     call ctx_err (\<lambda>_.
     if pid = 0 then list_processes h vmDir pids items
     else call (procCmdline h pid) (\<lambda>cmdline. case cmdline of
       None \<Rightarrow> list_processes h vmDir pids items
     | Some data \<Rightarrow> call (procIsFirecracker h pid) (\<lambda>exe. case exe of
         Some True \<Rightarrow> list_processes h vmDir pids
           (\<lparr>ap_owner = process_owner vmDir (readAuditProcessArguments data), ap_pid = int pid, ap_running = True\<rparr> # items)
       | _ \<Rightarrow> list_processes h vmDir pids items)))"

definition listAuditProcesses :: "('s env) host_reads \<Rightarrow> ('s env, unit) op \<Rightarrow> string \<Rightarrow> ('s env, audit_process list) op" where
  "listAuditProcesses h lookBinary vmDir =
     call lookBinary (\<lambda>_. call (procPIDs h) (\<lambda>pids. list_processes h vmDir pids []))"

text \<open>The readers of the running system.\<close>

record audit_config =
  ac_vmDir :: string
  ac_vms :: string
  ac_workspaces :: string
  ac_poolFile :: string
  ac_subnet :: string
  ac_gateway :: string

definition newSystemOrphanAuditReaders ::
    "('s env) host_reads \<Rightarrow> ('s env, unit) op \<Rightarrow> ('s env, audit_task list) op \<Rightarrow> audit_config \<Rightarrow> ('s env) audit_readers" where
  "newSystemOrphanAuditReaders h lookBinary tasks cfg =
     \<lparr>listTasks = Some tasks,
      listVMDirs = Some (listAuditVMDirs h (ac_vmDir cfg)),
      listProcesses = Some (listAuditProcesses h lookBinary (ac_vmDir cfg)),
      listRootfsDatasets = Some (listAuditDatasets h (ac_vms cfg)),
      listWorkspaceDatasets = Some (listAuditDatasets h (ac_workspaces cfg)),
      listTaps = Some (listAuditTaps h (ac_vmDir cfg)),
      listIPAllocations = Some (call (readFile h (ac_poolFile cfg)) (\<lambda>f s.
        (case f of None \<Rightarrow> Inl (Msg ''file does not exist'')
         | Some data \<Rightarrow> parseAuditIPAllocations data (ac_subnet cfg) (ac_gateway cfg), s)))\<rparr>"

section \<open>The reader accepts what the pool writes\<close>

lemma digit_char_val: "is_digit c \<Longrightarrow> digit_char (digit_val c) = c"
  by (simp add: is_digit_def digit_val_def digit_char_def)

lemma digit_val_less: "is_digit c \<Longrightarrow> digit_val c < 10"
  by (auto simp: is_digit_def digit_val_def)

lemma itoa_small: "d < 10 \<Longrightarrow> itoa d = [digit_char d]"
  by (subst itoa.simps) simp

lemma itoa_snoc: "n \<noteq> 0 \<Longrightarrow> d < 10 \<Longrightarrow> itoa (10 * n + d) = itoa n @ [digit_char d]"
  by (subst itoa.simps) simp

lemma itoa_digits_val: "list_all is_digit f \<Longrightarrow> f \<noteq> [] \<Longrightarrow> hd f \<noteq> CHR ''0'' \<Longrightarrow> itoa (digits_val 0 f) = f"
proof (induction f rule: rev_induct)
  case (snoc c g)
  have c: "digit_val c < 10" "digit_char (digit_val c) = c"
    using snoc.prems(1) digit_char_val digit_val_less by auto
  show ?case
  proof (cases g)
    case Nil
    with c show ?thesis by (simp add: itoa_small)
  next
    case (Cons d g')
    then have g: "itoa (digits_val 0 g) = g" "hd g \<noteq> CHR ''0''" using snoc by simp_all
    then have "digits_val 0 g \<noteq> 0" by (metis itoa_zero list.sel(1))
    with g c show ?thesis by (simp add: digits_val_append itoa_snoc)
  qed
qed simp

lemma parse_octet_text: "parse_octet f = Some w \<Longrightarrow> itoa (unat w) = f"
proof -
  assume a: "parse_octet f = Some w"
  then have d: "list_all is_digit f" "f \<noteq> []" and n: "digits_val 0 f \<le> 255" "w = word_of_nat (digits_val 0 f)"
    and z: "length f = 1 \<or> hd f \<noteq> CHR ''0''"
    by (auto simp: parse_octet_def parse_digits_def split: if_splits)
  from n have "unat w = digits_val 0 f" by (simp add: unsigned_of_nat take_bit_nat_eq_self)
  moreover have "itoa (digits_val 0 f) = f"
  proof (cases "hd f = CHR ''0''")
    case True
    with z d(2) have "f = ''0''" by (cases f) auto
    then show ?thesis by (simp add: digit_val_def itoa_zero)
  qed (use itoa_digits_val d in blast)
  ultimately show ?thesis by simp
qed

lemma parse_ipv4_canonical: "parse_ipv4 s = Some ip \<Longrightarrow> ip_string ip = s"
proof -
  assume a: "parse_ipv4 s = Some ip"
  then obtain w x y z where s: "split_byte (CHR ''.'') s = [w, x, y, z]"
    by (auto simp: parse_ipv4_def split: list.splits option.splits)
  with a show ?thesis using split_byte_concat [of "CHR ''.''" s]
    by (auto simp: parse_ipv4_def parse_octet_text split: option.splits)
qed

lemma canonical_ipv4_iff: "isCanonicalAuditIPv4 s \<longleftrightarrow> (\<exists>ip. s = ip_string ip)"
  unfolding isCanonicalAuditIPv4_def using parse_ipv4_canonical
  by (cases "parse_ipv4 s") (auto simp del: ip_string.simps, metis)

lemma first_sep_digits: "list_all is_digit x \<Longrightarrow> first_sep (x @ y) = first_sep y"
  by (induction x) (auto simp: is_digit_def)

lemma first_sep_ipv4: "parse_ipv4 s = Some ip \<Longrightarrow> first_sep s = Some (CHR ''.'')"
proof -
  assume "parse_ipv4 s = Some ip"
  then have "s = ip_string ip" using parse_ipv4_canonical by simp
  then show ?thesis by (cases ip) (simp add: first_sep_digits itoa_digits)
qed

lemma octet_and_255: "(x :: 8 word) AND 255 = x"
proof -
  have "(255 :: 8 word) = - 1" by code_simp
  then show ?thesis by (simp only: and.right_neutral)
qed

lemma mask24: "be32 m = NOT (mask 8) \<Longrightarrow> m = (255, 255, 255, 0)"
proof -
  assume "be32 m = NOT (mask 8)"
  moreover have "be32 (255, 255, 255, 0) = NOT (mask 8)" by code_simp
  ultimately show ?thesis by (metis be32_inj)
qed

lemma broadcast24: "be32 (a, b, c, 255) = be32 (a, b, c, 0) + mask 8"
proof -
  have "unat (mask 8 :: 32 word) = 255" by (simp add: mask_eq_exp_minus_1)
  moreover have "unat a < 256" "unat b < 256" "unat c < 256" using unat8_less by auto
  ultimately have "unat (be32 (a, b, c, 0) + mask 8) = unat (be32 (a, b, c, 255))"
    by (simp add: unat_word_ariths unat_be32 del: be32.simps)
  then show ?thesis by (simp only: word_unat_eq_iff)
qed

text \<open>What the pool hands out is usable for the audit's reader of the same subnet.\<close>

lemma pool_address_usable:
  assumes "auditIPv4Pool subnet gw = Some q" "parse_ip p6 gw = V4 g" "NewIPPoolFromGateway p6 gw (int 24) = Inr p0"
    and "s \<in> set (available p0)"
  shows "isUsableAuditIPv4 s q"
proof -
  have k: "(24 :: nat) \<le> 32" by simp
  obtain m where m: "be32 m = NOT (mask (32 - 24))" "be32 (and_octets g m) AND mask (32 - 24) = 0"
      "p0 = pool_of_network (Some (and_octets g m, m)) gw"
    using NewIPPoolFromGateway_shape [OF assms(2) k] assms(3) by (metis sum.inject(2))
  have m24: "m = (255, 255, 255, 0)" using mask24 m(1) by simp
  obtain a b c d g' where q: "q = ((a, b, c, 0), g', (a, b, c, 255))" and g': "parse_ipv4 gw = Some g'"
      and sub: "contains_ip ((a, b, c, 0), (255, 255, 255, 0)) g'"
    using assms(1) by (auto simp: auditIPv4Pool_def split: option.splits if_splits)
  have "g' = g" using g' assms(2) first_sep_ipv4 [OF g'] by (auto simp: parse_ip_def split: if_splits option.splits)
  then have nw: "and_octets g m = (a, b, c, 0)" using sub by (cases g) (simp add: contains_ip_def m24 octet_and_255)
  obtain ip where ip: "s = ip_string ip" "contains_ip ((a, b, c, 0), m) ip" "ip \<noteq> (a, b, c, 0)"
      "be32 ip \<noteq> be32 (a, b, c, 0) + mask 8" "s \<noteq> gw"
    using assms(4) generate_mem [OF m(1,2)] unfolding m(3) nw by (auto simp: pool_of_network_def simp del: ip_string.simps be32.simps)
  have "ip \<noteq> g'" using ip(1,5) parse_ipv4_canonical [OF g'] by auto
  moreover have "ip \<noteq> (a, b, c, 255)" using ip(4) broadcast24 by metis
  moreover have "isCanonicalAuditIPv4 s" using ip(1) canonical_ipv4_iff by blast
  ultimately show ?thesis using ip by (simp add: isUsableAuditIPv4_def q m24 del: ip_string.simps)
qed

lemma decode_audit:
  assumes "distinct (map fst (al @ es))" "distinct (map snd (al @ es))"
    and "\<forall>(i, ip) \<in> set es. isCanonicalAuditID i \<and> isUsableAuditIPv4 ip q"
  shows "decodeAuditAllocations q (map (\<lambda>(k, v). (k, JStr v)) es) al = Inr (al @ es)"
  using assms
proof (induction es arbitrary: al)
  case (Cons e es)
  obtain i ip where e: "e = (i, ip)" by fastforce
  have "map_of al i = None" using Cons.prems(1) by (auto simp: e map_of_eq_None_iff)
  moreover have "decodeAuditAllocations q (map (\<lambda>(k, v). (k, JStr v)) es) (al @ [(i, ip)]) = Inr ((al @ [(i, ip)]) @ es)"
    by (rule Cons.IH) (use Cons.prems in \<open>auto simp: e\<close>)
  ultimately show ?case using Cons.prems by (auto simp: e)
qed simp

lemma serve_ids:
  "set (map fst (allocated (fst (serve ops rs s)))) \<subseteq>
     set (map fst (allocated (fst s))) \<union> {i. AllocateReq i \<in> set rs}"
proof (induction ops rs s rule: serve.induct)
  case (2 ops vm rs s)
  obtain p f where s: "s = (p, f)" by fastforce
  obtain r p' f' where run: "Allocate ops vm (p, f) = (r, (p', f'))" by (metis prod_cases3)
  have "set (map fst (allocated p')) \<subseteq> insert vm (set (map fst (allocated p)))"
    using run by (cases rule: Allocate_cases) (auto dest: subsetD [OF equalityD1 [OF dom_update]] simp: dom_map_of_conv_image_fst [symmetric])
  with 2 show ?case unfolding s run by (auto simp: run)
next
  case (3 ops vm rs s)
  obtain p f where s: "s = (p, f)" by fastforce
  obtain r p' f' where run: "Release ops vm (p, f) = (r, (p', f'))" by (metis prod_cases3)
  have "set (map fst (allocated p')) \<subseteq> set (map fst (allocated p))"
    using run by (cases rule: Release_cases) (auto simp: delete_keys)
  with 3 show ?case unfolding s run by (auto simp: run)
qed simp

text \<open>C25. The audit's strict reader accepts every state the pool persists: for the subnet of the
  gateway, and ids in the form the daemon gives them, it returns exactly the pool's
  allocations, so a healthy pool is never an unknown read of the audit.\<close>

theorem audit_accepts_pool_state:
  assumes "auditIPv4Pool subnet gw \<noteq> None" "parse_ip p6 gw = V4 g" "NewIPPoolFromGateway p6 gw (int 24) = Inr p0"
    and "serve ops rs (p0\<lparr>persistPath := path\<rparr>, f) = (p, f')"
    and "\<forall>i. AllocateReq i \<in> set rs \<longrightarrow> isCanonicalAuditID i"
  shows "parseAuditIPAllocations (marshal_state (allocated p)) subnet gw = Inr (sort_key fst (allocated p))"
proof -
  obtain q where q: "auditIPv4Pool subnet gw = Some q" using assms(1) by blast
  have k: "(24 :: nat) \<le> 32" by simp
  obtain m where m: "be32 m = NOT (mask (32 - 24))" "be32 (and_octets g m) AND mask (32 - 24) = 0"
      "p0 = pool_of_network (Some (and_octets g m, m)) gw"
    using NewIPPoolFromGateway_shape [OF assms(2) k] assms(3) by (metis sum.inject(2))
  have "pool_ok p0" unfolding m(3) by (rule pool_ok_new [OF m(1,2)]) simp
  then have ok: "pool_ok p" and same: "pool_addresses p = pool_addresses p0"
    using serve_keeps [of "(p0\<lparr>persistPath := path\<rparr>, f)" ops rs] assms(4)
    by (simp_all add: pool_ok_def pool_addresses_def)
  let ?al = "sort_key fst (allocated p)"
  have "set_mset (pool_addresses p0) = set (available p0)"
    by (simp add: pool_addresses_def m(3) pool_of_network_def)
  then have inits: "\<forall>ip \<in> set (map snd ?al). ip \<in> set (available p0)"
    unfolding same [symmetric] by (auto simp: pool_addresses_def)
  have "set (map fst (allocated p)) \<subseteq> {i. AllocateReq i \<in> set rs}"
    using serve_ids [of ops rs "(p0\<lparr>persistPath := path\<rparr>, f)"] assms(4) by (simp add: m(3) pool_of_network_def)
  then have ids: "\<forall>(i, ip) \<in> set ?al. isCanonicalAuditID i" using assms(5) by auto
  have usable: "\<forall>(i, ip) \<in> set ?al. isCanonicalAuditID i \<and> isUsableAuditIPv4 ip q"
    using inits ids pool_address_usable [OF q assms(2,3)] by fastforce
  have "mset (map fst ?al) = mset (map fst (allocated p))" "mset (map snd ?al) = mset (map snd (allocated p))"
    by (simp_all only: mset_map mset_sort)
  then have "distinct (map fst ?al)" "distinct (map snd ?al)"
    using ok unfolding pool_ok_def distinct_append by (metis mset_eq_imp_distinct_iff)+
  then have "decodeAuditAllocations q (map (\<lambda>(k, v). (k, JStr v)) ?al) [] = Inr ?al"
    using decode_audit [of "[]" ?al q] usable by simp
  moreover have "json_parse (marshal_state (allocated p)) = Some (state_json (allocated p))"
    unfolding marshal_state_def by (rule json_parse_indent [OF int_json_state])
  ultimately show ?thesis by (simp add: parseAuditIPAllocations_def q state_json_def)
qed

lemma audit_accepts_pool_state_witness:
  "\<exists>p0 p f'. NewIPPoolFromGateway (\<lambda>s. None) ''10.1.2.1'' (int 24) = Inr p0 \<and>
     serve os_ops [AllocateReq ''0a1b2c3d''] (p0\<lparr>persistPath := ''/s''\<rparr>, \<lparr>files = [], fs_faults = [True]\<rparr>) = (p, f') \<and>
     parseAuditIPAllocations (marshal_state (allocated p)) ''10.1.2.7/24'' ''10.1.2.1'' = Inr (sort_key fst (allocated p))"
proof -
  have sub: "auditIPv4Pool ''10.1.2.7/24'' ''10.1.2.1'' \<noteq> None" by code_simp
  have gw: "parse_ip (\<lambda>s. None) ''10.1.2.1'' = V4 (10, 1, 2, 1)" by code_simp
  have k: "(24 :: nat) \<le> 32" by simp
  obtain p0 where p0: "NewIPPoolFromGateway (\<lambda>s. None) ''10.1.2.1'' (int 24) = Inr p0"
    using NewIPPoolFromGateway_shape [OF gw k] by metis
  obtain p f' where run: "serve os_ops [AllocateReq ''0a1b2c3d'']
      (p0\<lparr>persistPath := ''/s''\<rparr>, \<lparr>files = [], fs_faults = [True]\<rparr>) = (p, f')" by fastforce
  have ids: "\<forall>i. AllocateReq i \<in> set [AllocateReq ''0a1b2c3d''] \<longrightarrow> isCanonicalAuditID i"
    by (simp, code_simp)
  from audit_accepts_pool_state [OF sub gw p0 run ids] p0 run show ?thesis by blast
qed

section \<open>The reader recognises the processes the client starts\<close>

declare rel_rest.simps [simp del]

lemma rel_rest_under: "base \<noteq> [] \<Longrightarrow> last base \<noteq> CHR ''/'' \<Longrightarrow> \<exists>b0. rel_rest base (base @ CHR ''/'' # t) = ([], b0, t) \<and> b0 \<noteq> ''..''"
proof (induction "length base" arbitrary: base rule: less_induct)
  case less
  let ?b = "takeWhile (\<lambda>c. c \<noteq> CHR ''/'') base"
  show ?case
  proof (cases "CHR ''/'' \<in> set base")
    case True
    then obtain x y where xy: "base = x @ CHR ''/'' # y" "CHR ''/'' \<notin> set x" by (meson split_list_first)
    have tw: "takeWhile (\<lambda>c. c \<noteq> CHR ''/'') (x @ CHR ''/'' # z) = x" for z
      using xy(2) by (auto simp: takeWhile_append takeWhile_eq_all_conv)
    have "y \<noteq> []" using less.prems xy by auto
    then have "\<exists>b0. rel_rest y (y @ CHR ''/'' # t) = ([], b0, t) \<and> b0 \<noteq> ''..''"
      by (intro less.hyps) (use less.prems xy in auto)
    moreover have "rel_rest base (base @ CHR ''/'' # t) = rel_rest y (y @ CHR ''/'' # t)"
      using tw [of y] tw [of "y @ CHR ''/'' # t"] by (subst rel_rest.simps) (simp add: xy(1) Let_def del: rel_rest.simps)
    ultimately show ?thesis by simp
  next
    case False
    then have "takeWhile (\<lambda>c. c \<noteq> CHR ''/'') base = base" "takeWhile (\<lambda>c. c \<noteq> CHR ''/'') (base @ CHR ''/'' # t) = base"
      by (auto simp: takeWhile_eq_all_conv takeWhile_append)
    moreover have "drop (Suc (length base)) (base @ CHR ''/'' # t) = t" by simp
    moreover have "rel_rest [] t = ([], [], t)" by (subst rel_rest.simps) simp
    ultimately have "rel_rest base (base @ CHR ''/'' # t) = ([], [], t)"
      using less.prems by (subst rel_rest.simps) (simp only: Let_def if_False simp_thms append_is_Nil_conv drop_all le_SucI order_refl list.distinct)
    then show ?thesis by simp
  qed
qed

lemma rel_under:
  assumes "path_clean base = base" "path_clean targ = base @ CHR ''/'' # t" "last base \<noteq> CHR ''/''" "base \<noteq> ''.''"
  shows "filepath_rel base targ = Some t"
proof -
  have ne: "base \<noteq> []" using path_clean_not_Nil [of base] assms(1) by simp
  obtain b0 where "rel_rest base (base @ CHR ''/'' # t) = ([], b0, t)" "b0 \<noteq> ''..''"
    using rel_rest_under [OF ne assms(3)] by blast
  moreover have "has_prefix (base @ CHR ''/'' # t) ''/'' = has_prefix base ''/''"
    using ne by (cases base) (simp_all add: has_prefix_def)
  ultimately show ?thesis using assms by (simp add: filepath_rel_def)
qed

lemma socket_owner_plain: "plain i \<Longrightarrow> filepath_rel base targ = Some (i @ ''/api.sock'') \<Longrightarrow> auditSocketOwner base targ = Some i"
proof -
  assume i: "plain i" and rel: "filepath_rel base targ = Some (i @ ''/api.sock'')"
  have "plain ''api.sock''" by (simp add: plain_def)
  then have clean: "path_clean (i @ ''/api.sock'') = i @ ''/api.sock''"
    using path_clean_push [of i "''api.sock''"] i path_clean_plain [OF i] by (auto simp: plain_def push_def split: if_splits)
  have "split_byte (CHR ''/'') (i @ ''/api.sock'') = [i, ''api.sock'']"
    using split_byte_append [of "CHR ''/''" i "''api.sock''"] i by (simp add: plain_def)
  moreover have "\<not> has_prefix (i @ ''/api.sock'') ''../''"
    using i by (auto simp: has_prefix_iff plain_def append_eq_append_conv2 Cons_eq_append_conv append_eq_Cons_conv)
  ultimately show ?thesis using i clean by (auto simp: auditSocketOwner_def rel plain_def)
qed

text \<open>The audit and the client agree about sockets: a process started with the command
  line that CreateVM gives it is listed as owned by the id of its VM, for every id that is one
  path element; an \<open>orphan\<close> or \<open>malformed\<close> process is therefore not one the
  client started for a known task.\<close>

theorem audit_owns_started_process:
  assumes "path_clean (StateDir c) = StateDir c" "plain i" "CHR 0x00 \<notin> set bin" "CHR 0x00 \<notin> set (api_socket c ''stockyard'' i)"
  shows "process_owner (path_join [StateDir c, ''stockyard'']) (readAuditProcessArguments (spawn_cmdline bin (api_socket c ''stockyard'' i))) = i"
proof -
  let ?s = "api_socket c ''stockyard'' i" and ?base = "path_join [StateDir c, ''stockyard'']"
  have args: "readAuditProcessArguments (spawn_cmdline bin ?s) = [''--api-sock'', ?s]"
    using spawn_args [OF assms(3,4)] by (simp add: readAuditProcessArguments_def cmdline_args_def)
  have S: "StateDir c \<noteq> []" using path_clean_not_Nil [of "StateDir c"] assms(1) by auto
  have p: "plain ''stockyard''" "plain ''api.sock''" by (simp_all add: plain_def)
  have base: "?base = push (StateDir c) ''stockyard''"
    using path_join_push [OF S p(1)] assms(1) by simp
  have "vm_dir c ''stockyard'' i = push (path_clean (StateDir c @ CHR ''/'' # ''stockyard'')) i"
    using vm_path_push [OF S _ assms(2), of "''stockyard''"] by (simp add: vm_dir_def)
  then have dir: "vm_dir c ''stockyard'' i = push (push (StateDir c) ''stockyard'') i"
    using path_clean_push [OF S p(1)] assms(1) by simp
  have ne: "push (StateDir c) ''stockyard'' \<noteq> []" "push (push (StateDir c) ''stockyard'') i \<noteq> []"
    using push_proper [OF p(1)] push_proper [OF assms(2)] by blast+
  have cb: "path_clean (push (StateDir c) ''stockyard'') = push (StateDir c) ''stockyard''"
    using path_clean_of_push [OF S p(1)] assms(1) by simp
  then have cd: "path_clean (push (push (StateDir c) ''stockyard'') i) = push (push (StateDir c) ''stockyard'') i"
    using path_clean_of_push [OF ne(1) assms(2)] by simp
  have sock: "?s = push (push (push (StateDir c) ''stockyard'') i) ''api.sock''"
    using path_join_push [OF ne(2) p(2)] by (simp add: api_socket_def dir cd)
  then have "path_clean ?s = ?s" using path_clean_of_push [OF ne(2) p(2)] cd by simp
  then have "path_clean ?s = ?base @ CHR ''/'' # i @ ''/api.sock''"
    using push_proper [OF p(1), of "StateDir c"] push_proper [OF assms(2), of "push (StateDir c) ''stockyard''"]
    by (simp add: sock base push_def [of _ "''api.sock''"] push_def [of _ i])
  moreover have "last ?base \<noteq> CHR ''/''" by (simp add: base push_def)
  ultimately have "filepath_rel ?base ?s = Some (i @ ''/api.sock'')"
    using rel_under [of ?base ?s "i @ ''/api.sock''"] cb push_proper [OF p(1), of "StateDir c"] by (simp add: base)
  then have "auditSocketOwner ?base ?s = Some i" by (rule socket_owner_plain [OF assms(2)])
  moreover have "?s \<noteq> []" "?s \<noteq> ''--api-sock''"
    using push_proper [OF p(2)] by (auto simp: sock push_def append_eq_Cons_conv split: if_splits)
  ultimately show ?thesis by (simp add: process_owner_def args auditProcessSocket_def)
qed

lemma audit_owns_started_process_witness:
  "process_owner ''/var/stockyard'' (readAuditProcessArguments
     (spawn_cmdline ''/fc'' (api_socket (demo_config\<lparr>StateDir := ''/var''\<rparr>) ''stockyard'' ''0a1b2c3d''))) = ''0a1b2c3d''"
proof -
  let ?c = "demo_config\<lparr>StateDir := ''/var''\<rparr>"
  have "path_clean (StateDir ?c) = StateDir ?c" "plain ''0a1b2c3d''" "CHR 0x00 \<notin> set ''/fc''"
      "CHR 0x00 \<notin> set (api_socket ?c ''stockyard'' ''0a1b2c3d'')" by code_simp+
  note audit_owns_started_process [OF this]
  moreover have "path_join [StateDir ?c, ''stockyard''] = ''/var/stockyard''" by code_simp
  ultimately show ?thesis by simp
qed

end
