(* ===== verification/Gc.thy ===== *)
theory Gc
  imports Audit_Readers
begin

text \<open>
  The garbage collector of \<open>cmd/stockyard/gc.go\<close>: the plan it makes from the daemon's
  tasks and the host's directories, datasets and TAP devices, and its execution. The plan is
  characterised exactly; executing it touches nothing of a known task except stopped tasks,
  which the daemon destroys. Without the daemon no task is known, and the plan then holds the
  disks and the TAP device of running VMs.
\<close>

section \<open>The plan\<close>

record cleanup_item =
  ci_id :: string
  ci_type :: string
  ci_path :: string
  ci_orphan :: bool

text \<open>What the collector does to the host and asks of the daemon.\<close>

datatype gc_action =
    DestroyTask string
  | Kill int
  | LinkDelete string
  | ArchiveVMDir string string
  | RemoveAll string
  | ZfsDestroy string

text \<open>
  The readers are those of the audit; \<open>signal0\<close> is \<open>kill(pid, 0)\<close>, and
  \<open>act\<close> carries out an action, with the output of a command beside its error.
\<close>

record 's gc_host =
  gh_reads :: "'s host_reads"
  signal0 :: "int \<Rightarrow> ('s, bool) op"
  act :: "gc_action \<Rightarrow> ('s, goerr option \<times> string) op"

record gc_config =
  gc_vmDir :: string
  gc_vms :: string
  gc_workspaces :: string

record garbage_collector =
  gc_cfg :: gc_config
  gc_tasks :: "(string \<times> string) list"
  gc_dryRun :: bool
  gc_cleanAll :: bool
  gc_cleanOrphans :: bool
  gc_connected :: bool
  gc_archives :: bool

definition known :: "garbage_collector \<Rightarrow> string \<Rightarrow> bool" where
  "known g i \<longleftrightarrow> map_of (gc_tasks g) i \<noteq> None"

text \<open>Reads that fail are ignored; \<open>best_effort\<close> gives the default then.\<close>

definition best_effort :: "'a \<Rightarrow> ('s, 'a) op \<Rightarrow> ('s, 'a) op" where
  "best_effort d m = attempt m (\<lambda>r. ok (case r of Inl _ \<Rightarrow> d | Inr x \<Rightarrow> x))"

definition pid_in :: "string \<Rightarrow> int option" where
  "pid_in data = parse_int 64 (trim_space data)"

definition IsVMRunning :: "'s gc_host \<Rightarrow> string \<Rightarrow> ('s, bool) op" where
  "IsVMRunning h vmDir =
     call (best_effort None (readFile (gh_reads h) (path_join [vmDir, ''firecracker.pid'']))) (\<lambda>f.
       case f of None \<Rightarrow> ok False | Some data \<Rightarrow>
       (case pid_in data of None \<Rightarrow> ok False | Some pid \<Rightarrow> best_effort False (signal0 h pid)))"

fun orphan_dirs :: "'s gc_host \<Rightarrow> garbage_collector \<Rightarrow> (string \<times> bool) list \<Rightarrow> ('s, cleanup_item list) op" where
  "orphan_dirs h g [] = ok []"
| "orphan_dirs h g ((n, isDir) # es) =
     (if \<not> isDir \<or> known g n then orphan_dirs h g es
      else
        let vmDir = path_join [gc_vmDir (gc_cfg g), n] in
        call (IsVMRunning h vmDir) (\<lambda>running.
        call (orphan_dirs h g es) (\<lambda>items.
        ok (if running then items
            else \<lparr>ci_id = n, ci_type = ''vm-dir'', ci_path = vmDir, ci_orphan = True\<rparr> # items))))"

definition findOrphanVMDirs :: "'s gc_host \<Rightarrow> garbage_collector \<Rightarrow> ('s, cleanup_item list) op" where
  "findOrphanVMDirs h g =
     call (best_effort [] (readDir (gh_reads h) (gc_vmDir (gc_cfg g)))) (orphan_dirs h g)"

definition orphan_dataset :: "garbage_collector \<Rightarrow> string \<Rightarrow> string \<Rightarrow> string \<Rightarrow> cleanup_item option" where
  "orphan_dataset g basePath resourceType line =
     (let name = trim_space line; i = last (split_byte (CHR ''/'') name) in
      if name = basePath \<or> known g i then None
      else Some \<lparr>ci_id = i, ci_type = resourceType, ci_path = name, ci_orphan = True\<rparr>)"

definition findOrphanDatasetsIn :: "'s gc_host \<Rightarrow> garbage_collector \<Rightarrow> string \<Rightarrow> string \<Rightarrow> ('s, cleanup_item list) op" where
  "findOrphanDatasetsIn h g basePath resourceType =
     call (best_effort [] (zfsList (gh_reads h) basePath)) (\<lambda>out.
       ok (List.map_filter (orphan_dataset g basePath resourceType) (scanned out)))"

definition findOrphanZFSDatasets :: "'s gc_host \<Rightarrow> garbage_collector \<Rightarrow> ('s, cleanup_item list) op" where
  "findOrphanZFSDatasets h g =
     call (findOrphanDatasetsIn h g (gc_vms (gc_cfg g)) ''zfs-vm'') (\<lambda>xs.
     call (findOrphanDatasetsIn h g (gc_workspaces (gc_cfg g)) ''zfs-workspace'') (\<lambda>ys. ok (xs @ ys)))"

text \<open>From TAP device names to task ids; a later directory overwrites an earlier one.\<close>

fun tap_tasks :: "'s gc_host \<Rightarrow> string \<Rightarrow> (string \<times> bool) list \<Rightarrow> (string \<times> string) list \<Rightarrow> ('s, (string \<times> string) list) op" where
  "tap_tasks h vmDir [] m = ok m"
| "tap_tasks h vmDir ((n, isDir) # es) m =
     (if \<not> isDir then tap_tasks h vmDir es m
      else call (best_effort None (readFile (gh_reads h) (path_join [vmDir, n, ''tap_name'']))) (\<lambda>f.
        tap_tasks h vmDir es (case f of None \<Rightarrow> m | Some data \<Rightarrow> AList.update (trim_space data) n m)))"

definition buildTapToTaskMap :: "'s gc_host \<Rightarrow> garbage_collector \<Rightarrow> ('s, (string \<times> string) list) op" where
  "buildTapToTaskMap h g =
     call (best_effort [] (readDir (gh_reads h) (gc_vmDir (gc_cfg g)))) (\<lambda>es. tap_tasks h (gc_vmDir (gc_cfg g)) es [])"

definition orphan_tap :: "garbage_collector \<Rightarrow> (string \<times> string) list \<Rightarrow> string \<Rightarrow> cleanup_item option" where
  "orphan_tap g m line =
     (case Go_Strings.fields line of
        _ # f # _ \<Rightarrow>
          (let name = trim_suffix f '':'' in
           if \<not> has_prefix name ''tap-'' then None
           else if (case map_of m name of None \<Rightarrow> False | Some i \<Rightarrow> known g i) then None
           else Some \<lparr>ci_id = name, ci_type = ''tap'', ci_path = [], ci_orphan = True\<rparr>)
      | _ \<Rightarrow> None)"

definition findOrphanTaps :: "'s gc_host \<Rightarrow> garbage_collector \<Rightarrow> ('s, cleanup_item list) op" where
  "findOrphanTaps h g =
     call (buildTapToTaskMap h g) (\<lambda>m.
     call (best_effort [] (ipLinks (gh_reads h))) (\<lambda>out.
       ok (List.map_filter (orphan_tap g m) (scanned out))))"

definition stopped_tasks :: "garbage_collector \<Rightarrow> cleanup_item list" where
  "stopped_tasks g =
     map (\<lambda>(i, st). \<lparr>ci_id = i, ci_type = ''task'', ci_path = [], ci_orphan = False\<rparr>)
       (filter (\<lambda>(i, st). st = ''stopped'') (gc_tasks g))"

definition findResources :: "'s gc_host \<Rightarrow> garbage_collector \<Rightarrow> ('s, cleanup_item list) op" where
  "findResources h g =
     (let stopped = (if gc_cleanAll g then stopped_tasks g else []) in
      if \<not> gc_cleanOrphans g then ok stopped
      else
        call (findOrphanVMDirs h g) (\<lambda>dirs.
        call (findOrphanZFSDatasets h g) (\<lambda>datasets.
        call (findOrphanTaps h g) (\<lambda>taps. ok (stopped @ dirs @ datasets @ taps)))))"

section \<open>Carrying it out\<close>

definition act_ok :: "'s gc_host \<Rightarrow> gc_action \<Rightarrow> ('s, unit) op" where
  "act_ok h a = call (act h a) (\<lambda>(e, out). case e of None \<Rightarrow> ok () | Some x \<Rightarrow> fail x)"

definition act_ignored :: "'s gc_host \<Rightarrow> gc_action \<Rightarrow> ('s, unit) op" where
  "act_ignored h a = attempt (act h a) (\<lambda>_. ok ())"

definition cleanTask :: "'s gc_host \<Rightarrow> garbage_collector \<Rightarrow> cleanup_item \<Rightarrow> ('s, unit) op" where
  "cleanTask h g item =
     (if \<not> gc_connected g then fail (Msg ''daemon not connected'') else act_ok h (DestroyTask (ci_id item)))"

definition cleanVMDir :: "'s gc_host \<Rightarrow> garbage_collector \<Rightarrow> cleanup_item \<Rightarrow> ('s, unit) op" where
  "cleanVMDir h g item =
     call (best_effort None (readFile (gh_reads h) (path_join [ci_path item, ''firecracker.pid'']))) (\<lambda>f.
     call (case f of None \<Rightarrow> ok () | Some data \<Rightarrow>
             (case pid_in data of None \<Rightarrow> ok () | Some pid \<Rightarrow> act_ignored h (Kill pid))) (\<lambda>_.
     call (best_effort None (readFile (gh_reads h) (path_join [ci_path item, ''tap_name'']))) (\<lambda>t.
     call (case t of None \<Rightarrow> ok () | Some data \<Rightarrow> act_ignored h (LinkDelete (trim_space data))) (\<lambda>_.
     call (if gc_archives g then act_ignored h (ArchiveVMDir (ci_path item) (ci_id item)) else ok ()) (\<lambda>_.
     act_ok h (RemoveAll (ci_path item)))))))"

definition cleanZFSDataset :: "'s gc_host \<Rightarrow> cleanup_item \<Rightarrow> ('s, unit) op" where
  "cleanZFSDataset h item =
     call (act h (ZfsDestroy (ci_path item))) (\<lambda>(e, out). case e of None \<Rightarrow> ok () | Some x \<Rightarrow> fail (Wrap out x))"

definition cleanTap :: "'s gc_host \<Rightarrow> cleanup_item \<Rightarrow> ('s, unit) op" where
  "cleanTap h item =
     call (act h (LinkDelete (ci_id item))) (\<lambda>(e, out). case e of
       None \<Rightarrow> ok ()
     | Some x \<Rightarrow> if contains out ''Cannot find device'' then ok () else fail (Wrap out x))"

definition clean_item :: "'s gc_host \<Rightarrow> garbage_collector \<Rightarrow> cleanup_item \<Rightarrow> ('s, unit) op" where
  "clean_item h g item =
     (if ci_type item = ''task'' then cleanTask h g item
      else if ci_type item = ''vm-dir'' then cleanVMDir h g item
      else if ci_type item = ''zfs-vm'' \<or> ci_type item = ''zfs-workspace'' then cleanZFSDataset h item
      else if ci_type item = ''tap'' then cleanTap h item
      else ok ())"

text \<open>Every item is tried; the errors are counted.\<close>

fun clean_each :: "'s gc_host \<Rightarrow> garbage_collector \<Rightarrow> cleanup_item list \<Rightarrow> ('s, nat) op" where
  "clean_each h g [] = ok 0"
| "clean_each h g (item # items) =
     attempt (clean_item h g item) (\<lambda>r. call (clean_each h g items) (\<lambda>n. ok (case r of Inl _ \<Rightarrow> Suc n | Inr _ \<Rightarrow> n)))"

definition gc_clean :: "'s gc_host \<Rightarrow> garbage_collector \<Rightarrow> cleanup_item list \<Rightarrow> ('s, unit) op" where
  "gc_clean h g items =
     call (clean_each h g items) (\<lambda>n. if 0 < n then fail (Msg (itoa n @ '' cleanup errors'')) else ok ())"

section \<open>The command\<close>

record gc_flags =
  gcAll :: bool
  gcOrphans :: bool
  gcEverything :: bool
  gcForce :: bool
  gcDryRun :: bool

text \<open>The collector the command builds; the daemon's answer is its task list.\<close>

definition new_collector :: "gc_config \<Rightarrow> bool \<Rightarrow> gc_flags \<Rightarrow> goerr + (string \<times> string) list \<Rightarrow> garbage_collector" where
  "new_collector cfg archiving fl r =
     (let all = gcAll fl \<or> gcEverything fl; orphans = gcOrphans fl \<or> gcEverything fl in
      \<lparr>gc_cfg = cfg, gc_tasks = (case r of Inl _ \<Rightarrow> [] | Inr ts \<Rightarrow> ts), gc_dryRun = gcDryRun fl \<or> (\<not> all \<and> \<not> orphans),
       gc_cleanAll = all, gc_cleanOrphans = orphans, gc_connected = (case r of Inl _ \<Rightarrow> False | Inr _ \<Rightarrow> True),
       gc_archives = archiving\<rparr>)"

text \<open>Without \<open>--json\<close>; \<open>confirm\<close> is the line read from the terminal.\<close>

definition run_gc ::
    "'s gc_host \<Rightarrow> ('s, (string \<times> string) list) op \<Rightarrow> ('s, string) op \<Rightarrow> gc_config \<Rightarrow> bool \<Rightarrow> gc_flags \<Rightarrow> ('s, unit) op" where
  "run_gc h daemon confirm cfg archiving fl =
     attempt daemon (\<lambda>r.
      let g = new_collector cfg archiving fl r in
      if \<not> gc_connected g \<and> \<not> gc_cleanOrphans g then
        fail (Msg ''daemon connection required for --all; use --orphans for orphan cleanup'')
      else
        call (findResources h g) (\<lambda>items.
        if items = [] \<or> gc_dryRun g then ok ()
        else if gcForce fl then gc_clean h g items
        else call (best_effort [] confirm) (\<lambda>line.
          let answer = trim_space (to_lower line) in
          if answer \<noteq> ''y'' \<and> answer \<noteq> ''yes'' then ok () else gc_clean h g items)))"

section \<open>A host that records what is done to it\<close>

text \<open>
  \<open>host_view\<close> is what the reads answer in a state of the host; the log holds every
  action with the state it was carried out in.
\<close>

record 'w host_view =
  v_dir :: "'w \<Rightarrow> string \<Rightarrow> goerr + (string \<times> bool) list"
  v_file :: "'w \<Rightarrow> string \<Rightarrow> goerr + string option"
  v_zfs :: "'w \<Rightarrow> string \<Rightarrow> goerr + string"
  v_links :: "'w \<Rightarrow> goerr + string"
  v_alive :: "'w \<Rightarrow> int \<Rightarrow> goerr + bool"

type_synonym 'w history = "'w \<times> ('w \<times> gc_action) list"

definition on_host_world :: "('w, 'a) op \<Rightarrow> ('w history, 'a) op" where
  "on_host_world m = (\<lambda>(w, l). case m w of (r, w') \<Rightarrow> (r, (w', l)))"

definition host_of :: "'w host_view \<Rightarrow> (gc_action \<Rightarrow> ('w, goerr option \<times> string) op) \<Rightarrow> 'w history gc_host" where
  "host_of v acts =
     \<lparr>gh_reads =
        \<lparr>readDir = \<lambda>p s. (v_dir v (fst s) p, s), readFile = \<lambda>p s. (v_file v (fst s) p, s),
         zfsList = \<lambda>p s. (v_zfs v (fst s) p, s), ipLinks = \<lambda>s. (v_links v (fst s), s),
         procPIDs = ok [], procCmdline = \<lambda>_. ok None, procIsFirecracker = \<lambda>_. ok None\<rparr>,
      signal0 = \<lambda>pid s. (v_alive v (fst s) pid, s),
      act = \<lambda>a (w, l). (case acts a w of (r, w') \<Rightarrow> (r, (w', l @ [(w, a)])))\<rparr>"

definition known_or :: "'a \<Rightarrow> goerr + 'a \<Rightarrow> 'a" where
  "known_or d r = (case r of Inl _ \<Rightarrow> d | Inr x \<Rightarrow> x)"

definition running_at :: "'w host_view \<Rightarrow> 'w \<Rightarrow> string \<Rightarrow> bool" where
  "running_at v w dir =
     (case known_or None (v_file v w (path_join [dir, ''firecracker.pid''])) of
        None \<Rightarrow> False
      | Some data \<Rightarrow> (case pid_in data of None \<Rightarrow> False | Some pid \<Rightarrow> known_or False (v_alive v w pid)))"

text \<open>The directories, and the owner of each TAP device, as they are read in one state.\<close>

definition dirs_at :: "'w host_view \<Rightarrow> 'w \<Rightarrow> string \<Rightarrow> string list" where
  "dirs_at v w vmDir = map fst (filter snd (known_or [] (v_dir v w vmDir)))"

fun tap_owner_at :: "'w host_view \<Rightarrow> 'w \<Rightarrow> string \<Rightarrow> string list \<Rightarrow> string \<Rightarrow> string option" where
  "tap_owner_at v w vmDir [] t = None"
| "tap_owner_at v w vmDir (n # ns) t =
     (case tap_owner_at v w vmDir ns t of
        Some i \<Rightarrow> Some i
      | None \<Rightarrow> (case known_or None (v_file v w (path_join [vmDir, n, ''tap_name''])) of
          None \<Rightarrow> None
        | Some data \<Rightarrow> if trim_space data = t then Some n else None))"

definition taps_in :: "string \<Rightarrow> string list" where
  "taps_in out = List.map_filter (\<lambda>l. case Go_Strings.fields l of
     _ # f # _ \<Rightarrow> if has_prefix (trim_suffix f '':'') ''tap-'' then Some (trim_suffix f '':'') else None | _ \<Rightarrow> None) (scanned out)"

definition datasets_in :: "'w host_view \<Rightarrow> 'w \<Rightarrow> string \<Rightarrow> string list" where
  "datasets_in v w base = map trim_space (scanned (known_or [] (v_zfs v w base)))"

definition base_name :: "string \<Rightarrow> string" where
  "base_name p = last (split_byte (CHR ''/'') p)"

text \<open>The plan as a function of one state of the host.\<close>

definition gc_plan :: "'w host_view \<Rightarrow> garbage_collector \<Rightarrow> 'w \<Rightarrow> cleanup_item list" where
  "gc_plan v g w =
     (if gc_cleanAll g then stopped_tasks g else []) @
     (if \<not> gc_cleanOrphans g then [] else
        map (\<lambda>n. \<lparr>ci_id = n, ci_type = ''vm-dir'', ci_path = path_join [gc_vmDir (gc_cfg g), n], ci_orphan = True\<rparr>)
          (filter (\<lambda>n. \<not> known g n \<and> \<not> running_at v w (path_join [gc_vmDir (gc_cfg g), n])) (dirs_at v w (gc_vmDir (gc_cfg g)))) @
        concat (map (\<lambda>(base, ty).
          map (\<lambda>d. \<lparr>ci_id = base_name d, ci_type = ty, ci_path = d, ci_orphan = True\<rparr>)
            (filter (\<lambda>d. d \<noteq> base \<and> \<not> known g (base_name d)) (datasets_in v w base)))
          [(gc_vms (gc_cfg g), ''zfs-vm''), (gc_workspaces (gc_cfg g), ''zfs-workspace'')]) @
        map (\<lambda>t. \<lparr>ci_id = t, ci_type = ''tap'', ci_path = [], ci_orphan = True\<rparr>)
          (filter (\<lambda>t. \<not> (\<exists>i. tap_owner_at v w (gc_vmDir (gc_cfg g)) (dirs_at v w (gc_vmDir (gc_cfg g))) t = Some i \<and> known g i))
            (taps_in (known_or [] (v_links v w)))))"

lemma best_effort_read: "best_effort d (\<lambda>s. (f s, s)) s = (Inr (known_or d (f s)), s)"
  by (simp add: best_effort_def attempt_def known_or_def)

lemma host_of_reads [simp]:
  "readDir (gh_reads (host_of v acts)) p = (\<lambda>s. (v_dir v (fst s) p, s))"
  "readFile (gh_reads (host_of v acts)) p = (\<lambda>s. (v_file v (fst s) p, s))"
  "zfsList (gh_reads (host_of v acts)) p = (\<lambda>s. (v_zfs v (fst s) p, s))"
  "ipLinks (gh_reads (host_of v acts)) = (\<lambda>s. (v_links v (fst s), s))"
  "signal0 (host_of v acts) pid = (\<lambda>s. (v_alive v (fst s) pid, s))"
  by (simp_all add: host_of_def)

lemma IsVMRunning_at: "IsVMRunning (host_of v acts) dir s = (Inr (running_at v (fst s) dir), s)"
  by (simp add: IsVMRunning_def running_at_def call_Inr [where m = "best_effort _ _", OF best_effort_read] best_effort_read
      split: option.split)

lemma orphan_dirs_at:
  "orphan_dirs (host_of v acts) g es s =
     (Inr (map (\<lambda>n. \<lparr>ci_id = n, ci_type = ''vm-dir'', ci_path = path_join [gc_vmDir (gc_cfg g), n], ci_orphan = True\<rparr>)
        (filter (\<lambda>n. \<not> known g n \<and> \<not> running_at v (fst s) (path_join [gc_vmDir (gc_cfg g), n])) (map fst (filter snd es)))), s)"
proof (induction es)
  case (Cons e es)
  then show ?case
    by (cases e) (simp add: Let_def call_Inr [where m = "IsVMRunning _ _", OF IsVMRunning_at] call_Inr [where m = "orphan_dirs _ _ _"])
qed simp

lemma tap_tasks_at:
  "\<exists>m'. tap_tasks (host_of v acts) vmDir es m s = (Inr m', s) \<and>
     (\<forall>t. map_of m' t = (case tap_owner_at v (fst s) vmDir (map fst (filter snd es)) t of Some i \<Rightarrow> Some i | None \<Rightarrow> map_of m t))"
proof (induction es arbitrary: m)
  case (Cons e es)
  obtain n d where e: "e = (n, d)" by fastforce
  show ?case
  proof (cases d)
    case True
    let ?f = "known_or None (v_file v (fst s) (path_join [vmDir, n, ''tap_name'']))"
    let ?m = "case ?f of None \<Rightarrow> m | Some data \<Rightarrow> AList.update (trim_space data) n m"
    from Cons.IH [of ?m] obtain m' where "tap_tasks (host_of v acts) vmDir es ?m s = (Inr m', s)"
      "\<forall>t. map_of m' t = (case tap_owner_at v (fst s) vmDir (map fst (filter snd es)) t of Some i \<Rightarrow> Some i | None \<Rightarrow> map_of ?m t)"
      by blast
    then show ?thesis
      by (intro exI [of _ m']) (auto simp: e True call_Inr [where m = "best_effort _ _", OF best_effort_read] split: option.split)
  next
    case False
    with Cons.IH [of m] show ?thesis by (simp add: e)
  qed
qed simp

lemma map_filter_map: "(\<And>x. f x = (if P (h x) then Some (k (h x)) else None)) \<Longrightarrow> List.map_filter f xs = map k (filter P (map h xs))"
  by (induction xs) (auto simp: List.map_filter_def)

lemma datasets_at:
  "findOrphanDatasetsIn (host_of v acts) g base ty s =
     (Inr (map (\<lambda>d. \<lparr>ci_id = base_name d, ci_type = ty, ci_path = d, ci_orphan = True\<rparr>)
        (filter (\<lambda>d. d \<noteq> base \<and> \<not> known g (base_name d)) (datasets_in v (fst s) base))), s)"
  unfolding findOrphanDatasetsIn_def datasets_in_def
  by (simp add: call_Inr [where m = "best_effort _ _", OF best_effort_read])
    (rule map_filter_map, simp add: orphan_dataset_def Let_def base_name_def)

lemma orphan_taps_filter:
  assumes "\<And>t. map_of m t = own t"
  shows "List.map_filter (orphan_tap g m) ls =
    map (\<lambda>t. \<lparr>ci_id = t, ci_type = ''tap'', ci_path = [], ci_orphan = True\<rparr>)
      (filter (\<lambda>t. \<not> (\<exists>i. own t = Some i \<and> known g i)) (List.map_filter (\<lambda>l. case Go_Strings.fields l of
         _ # f # _ \<Rightarrow> if has_prefix (trim_suffix f '':'') ''tap-'' then Some (trim_suffix f '':'') else None | _ \<Rightarrow> None) ls))"
proof (induction ls)
  case (Cons l ls)
  then show ?case
    by (auto simp: List.map_filter_def orphan_tap_def Let_def assms split: list.splits option.splits)
qed (simp add: List.map_filter_def)

lemma case_option_Some: "(case x of None \<Rightarrow> map_of [] t | Some i \<Rightarrow> Some i) = x"
  by (cases x) auto

lemma findOrphanTaps_at:
  "findOrphanTaps (host_of v acts) g s =
     (Inr (map (\<lambda>t. \<lparr>ci_id = t, ci_type = ''tap'', ci_path = [], ci_orphan = True\<rparr>)
        (filter (\<lambda>t. \<not> (\<exists>i. tap_owner_at v (fst s) (gc_vmDir (gc_cfg g)) (dirs_at v (fst s) (gc_vmDir (gc_cfg g))) t = Some i \<and> known g i))
          (taps_in (known_or [] (v_links v (fst s)))))), s)"
proof -
  let ?dir = "gc_vmDir (gc_cfg g)"
  obtain m where m: "tap_tasks (host_of v acts) ?dir (known_or [] (v_dir v (fst s) ?dir)) [] s = (Inr m, s)"
      "\<And>t. map_of m t = tap_owner_at v (fst s) ?dir (dirs_at v (fst s) ?dir) t"
    using tap_tasks_at [of v acts ?dir "known_or [] (v_dir v (fst s) ?dir)" "[]" s]
    by (auto simp: dirs_at_def case_option_Some)
  then have "buildTapToTaskMap (host_of v acts) g s = (Inr m, s)"
    by (simp add: buildTapToTaskMap_def call_Inr [where m = "best_effort _ _", OF best_effort_read])
  then show ?thesis
    by (simp add: findOrphanTaps_def call_Inr [where m = "buildTapToTaskMap _ _"] taps_in_def
        call_Inr [where m = "best_effort _ _", OF best_effort_read] orphan_taps_filter [OF m(2)])
qed

lemma findOrphanVMDirs_at:
  "findOrphanVMDirs (host_of v acts) g s =
     (Inr (map (\<lambda>n. \<lparr>ci_id = n, ci_type = ''vm-dir'', ci_path = path_join [gc_vmDir (gc_cfg g), n], ci_orphan = True\<rparr>)
        (filter (\<lambda>n. \<not> known g n \<and> \<not> running_at v (fst s) (path_join [gc_vmDir (gc_cfg g), n]))
          (dirs_at v (fst s) (gc_vmDir (gc_cfg g))))), s)"
  by (simp add: findOrphanVMDirs_def call_Inr [where m = "best_effort _ _", OF best_effort_read] orphan_dirs_at dirs_at_def)

lemma findResources_at: "findResources (host_of v acts) g s = (Inr (gc_plan v g (fst s)), s)"
  by (simp add: findResources_def gc_plan_def Let_def findOrphanZFSDatasets_def
      call_Inr [where m = "findOrphanVMDirs _ _", OF findOrphanVMDirs_at]
      call_Inr [where m = "findOrphanDatasetsIn _ _ _ _", OF datasets_at]
      call_Inr [where m = "findOrphanTaps _ _", OF findOrphanTaps_at]
      call_Inr [where m = "call _ _"])

section \<open>What is done is justified\<close>

text \<open>
  \<open>justified v g w0 (w, a)\<close>: carrying out \<open>a\<close> in the state \<open>w\<close> of the host is
  within what the plan made in \<open>w0\<close> is for.
\<close>

definition unknown_dir :: "'w host_view \<Rightarrow> garbage_collector \<Rightarrow> 'w \<Rightarrow> string \<Rightarrow> string \<Rightarrow> bool" where
  "unknown_dir v g w0 n p \<longleftrightarrow> n \<in> set (dirs_at v w0 (gc_vmDir (gc_cfg g))) \<and> \<not> known g n \<and>
     p = path_join [gc_vmDir (gc_cfg g), n] \<and> \<not> running_at v w0 p"

fun justified :: "'w host_view \<Rightarrow> garbage_collector \<Rightarrow> 'w \<Rightarrow> 'w \<times> gc_action \<Rightarrow> bool" where
  "justified v g w0 (w, DestroyTask i) = (gc_cleanAll g \<and> gc_connected g \<and> (i, ''stopped'') \<in> set (gc_tasks g))"
| "justified v g w0 (w, Kill pid) = (gc_cleanOrphans g \<and>
     (\<exists>n p data. unknown_dir v g w0 n p \<and> v_file v w (path_join [p, ''firecracker.pid'']) = Inr (Some data) \<and> pid_in data = Some pid))"
| "justified v g w0 (w, LinkDelete t) = (gc_cleanOrphans g \<and>
     ((\<exists>n p data. unknown_dir v g w0 n p \<and> v_file v w (path_join [p, ''tap_name'']) = Inr (Some data) \<and> trim_space data = t) \<or>
      (\<forall>i. tap_owner_at v w0 (gc_vmDir (gc_cfg g)) (dirs_at v w0 (gc_vmDir (gc_cfg g))) t = Some i \<longrightarrow> \<not> known g i)))"
| "justified v g w0 (w, ArchiveVMDir p n) = (gc_cleanOrphans g \<and> unknown_dir v g w0 n p)"
| "justified v g w0 (w, RemoveAll p) = (gc_cleanOrphans g \<and> (\<exists>n. unknown_dir v g w0 n p))"
| "justified v g w0 (w, ZfsDestroy d) = (gc_cleanOrphans g \<and> \<not> known g (base_name d) \<and>
     (d \<in> set (datasets_in v w0 (gc_vms (gc_cfg g))) \<and> d \<noteq> gc_vms (gc_cfg g) \<or>
      d \<in> set (datasets_in v w0 (gc_workspaces (gc_cfg g))) \<and> d \<noteq> gc_workspaces (gc_cfg g)))"

definition adds :: "('w \<times> gc_action \<Rightarrow> bool) \<Rightarrow> ('w history, 'a) op \<Rightarrow> 'w history \<Rightarrow> bool" where
  "adds P m s \<longleftrightarrow> (\<exists>xs. snd (snd (m s)) = snd s @ xs \<and> list_all P xs)"

lemma adds_ok: "adds P (ok a) s" "adds P (fail e) s"
  by (simp_all add: adds_def)

lemma adds_read: "adds P (k (known_or d (f s))) s \<Longrightarrow> adds P (call (best_effort d (\<lambda>s. (f s, s))) k) s"
  by (simp add: adds_def call_Inr [where m = "best_effort _ _", OF best_effort_read])

lemma adds_attempt: "adds P m s \<Longrightarrow> (\<And>r s'. adds P (k r) s') \<Longrightarrow> adds P (attempt m k) s"
proof -
  assume m: "adds P m s" and k: "\<And>r s'. adds P (k r) s'"
  obtain r s' where run: "m s = (r, s')" by (cases "m s")
  with m obtain xs where "snd s' = snd s @ xs" "list_all P xs" by (auto simp: adds_def)
  moreover obtain ys where "snd (snd (k r s')) = snd s' @ ys" "list_all P ys" using k [of r s'] by (auto simp: adds_def)
  ultimately show ?thesis by (simp add: adds_def attempt_eq [where m = m, OF run])
qed

lemma adds_call: "adds P m s \<Longrightarrow> (\<And>a s'. adds P (k a) s') \<Longrightarrow> adds P (call m k) s"
proof -
  assume m: "adds P m s" and k: "\<And>a s'. adds P (k a) s'"
  have "adds P (attempt m (\<lambda>r. case r of Inl e \<Rightarrow> fail e | Inr a \<Rightarrow> k a)) s"
    by (rule adds_attempt [OF m]) (auto intro: adds_ok k split: sum.split)
  moreover have "call m k s = attempt m (\<lambda>r. case r of Inl e \<Rightarrow> fail e | Inr a \<Rightarrow> k a) s"
    by (cases "m s") (auto simp: call_def attempt_def split: sum.split)
  ultimately show ?thesis by (simp add: adds_def)
qed

lemma adds_act: "P (fst s, a) \<Longrightarrow> adds P (act (host_of v acts) a) s"
  by (cases s) (auto simp: adds_def host_of_def split: prod.split)

lemma adds_act_ok: "P (fst s, a) \<Longrightarrow> adds P (act_ok (host_of v acts) a) s"
  unfolding act_ok_def by (rule adds_call [OF adds_act]) (auto split: prod.split option.split intro: adds_ok)

lemma adds_act_ignored: "P (fst s, a) \<Longrightarrow> adds P (act_ignored (host_of v acts) a) s"
  unfolding act_ignored_def by (rule adds_attempt [OF adds_act]) (auto intro: adds_ok)

lemma known_or_Some: "known_or None r = Some x \<longleftrightarrow> r = Inr (Some x)"
  by (auto simp: known_or_def split: sum.split)

lemma justified_of_dir:
  assumes "gc_cleanOrphans g" "unknown_dir v g w0 n p"
  shows "known_or None (v_file v w (path_join [p, ''firecracker.pid''])) = Some data \<Longrightarrow> pid_in data = Some pid \<Longrightarrow>
      justified v g w0 (w, Kill pid)"
    and "known_or None (v_file v w (path_join [p, ''tap_name''])) = Some data \<Longrightarrow> justified v g w0 (w, LinkDelete (trim_space data))"
    and "justified v g w0 (w, ArchiveVMDir p n)" and "justified v g w0 (w, RemoveAll p)"
  using assms unfolding justified.simps known_or_Some by blast+

lemma cleanVMDir_adds:
  assumes "gc_cleanOrphans g" "unknown_dir v g w0 (ci_id item) (ci_path item)"
  shows "adds (justified v g w0) (cleanVMDir (host_of v acts) g item) s"
  unfolding cleanVMDir_def host_of_reads
proof (rule adds_read, rule adds_call)
  show "adds (justified v g w0) (case known_or None (v_file v (fst s) (path_join [ci_path item, ''firecracker.pid''])) of
      None \<Rightarrow> ok () | Some data \<Rightarrow> (case pid_in data of None \<Rightarrow> ok () | Some pid \<Rightarrow> act_ignored (host_of v acts) (Kill pid))) s"
    by (auto intro!: adds_ok adds_act_ignored dest: justified_of_dir(1,2) [OF assms] split: option.split simp del: justified.simps)
  show "adds (justified v g w0) (call (best_effort None (\<lambda>s. (v_file v (fst s) (path_join [ci_path item, ''tap_name'']), s))) (\<lambda>t.
      call (case t of None \<Rightarrow> ok () | Some data \<Rightarrow> act_ignored (host_of v acts) (LinkDelete (trim_space data))) (\<lambda>_.
      call (if gc_archives g then act_ignored (host_of v acts) (ArchiveVMDir (ci_path item) (ci_id item)) else ok ()) (\<lambda>_.
      act_ok (host_of v acts) (RemoveAll (ci_path item)))))) s'" for s'
  proof (rule adds_read, rule adds_call)
    show "adds (justified v g w0) (case known_or None (v_file v (fst s') (path_join [ci_path item, ''tap_name''])) of
        None \<Rightarrow> ok () | Some data \<Rightarrow> act_ignored (host_of v acts) (LinkDelete (trim_space data))) s'"
      by (auto intro!: adds_ok adds_act_ignored dest: justified_of_dir(1,2) [OF assms] split: option.split simp del: justified.simps)
  qed (auto intro!: adds_call adds_ok adds_act_ignored adds_act_ok justified_of_dir [OF assms] simp del: justified.simps)
qed

lemma clean_item_adds:
  assumes "item \<in> set (gc_plan v g w0)"
  shows "adds (justified v g w0) (clean_item (host_of v acts) g item) s"
proof -
  have res: "adds (justified v g w0) (case r of (None, out) \<Rightarrow> ok () | (Some x, out) \<Rightarrow> k x out) s'"
    if "\<And>x out. adds (justified v g w0) (k x out) s'" for r k and s' :: "'a history"
    using that by (cases r) (auto intro: adds_ok split: option.split)
  consider "ci_type item = ''task''" "gc_cleanAll g" "(ci_id item, ''stopped'') \<in> set (gc_tasks g)"
    | "ci_type item = ''vm-dir''" "gc_cleanOrphans g" "unknown_dir v g w0 (ci_id item) (ci_path item)"
    | "ci_type item = ''zfs-vm'' \<or> ci_type item = ''zfs-workspace''" "justified v g w0 (fst s, ZfsDestroy (ci_path item))"
    | "ci_type item = ''tap''" "justified v g w0 (fst s, LinkDelete (ci_id item))"
    using assms by (auto simp: gc_plan_def stopped_tasks_def unknown_dir_def split: if_splits)
  then show ?thesis
  proof cases
    case 1
    then show ?thesis by (auto simp: clean_item_def cleanTask_def intro!: adds_ok adds_act_ok)
  next
    case 2
    then show ?thesis using cleanVMDir_adds by (simp add: clean_item_def)
  next
    case 3
    then show ?thesis
      by (auto simp: clean_item_def cleanZFSDataset_def split: prod.split option.split
          intro!: adds_ok adds_call adds_act [where P = "justified v g w0"] simp del: justified.simps)
  next
    case 4
    then show ?thesis
      by (auto simp: clean_item_def cleanTap_def split: prod.split option.split
          intro!: adds_ok adds_call adds_act [where P = "justified v g w0"] simp del: justified.simps)
  qed
qed

lemma clean_each_adds: "set items \<subseteq> set (gc_plan v g w0) \<Longrightarrow> adds (justified v g w0) (clean_each (host_of v acts) g items) s"
proof (induction items arbitrary: s)
  case (Cons item items)
  then show ?case
    by (auto intro!: adds_attempt adds_call adds_ok clean_item_adds)
qed (simp add: adds_ok)

lemma gc_clean_adds: "adds (justified v g w0) (gc_clean (host_of v acts) g (gc_plan v g w0)) s"
  unfolding gc_clean_def by (rule adds_call [OF clean_each_adds]) (auto intro: adds_ok)

lemma best_effort_world: "best_effort d (on_host_world m) s = (Inr (known_or d (fst (m (fst s)))), (snd (m (fst s)), snd s))"
  by (cases s) (simp add: best_effort_def attempt_def on_host_world_def known_or_def split: prod.split)

lemma run_gc_log:
  assumes "run_gc (host_of v acts) (on_host_world daemon) (on_host_world confirm) cfg archiving fl (w, []) = (r, (w', log))"
    and "daemon w = (d, w0)"
  shows "list_all (justified v (new_collector cfg archiving fl d) w0) log \<and>
    (gc_dryRun (new_collector cfg archiving fl d) \<longrightarrow> log = [])"
proof -
  let ?g = "new_collector cfg archiving fl d"
  have "on_host_world daemon (w, []) = (d, (w0, []))" using assms(2) by (simp add: on_host_world_def)
  then have run: "run_gc (host_of v acts) (on_host_world daemon) (on_host_world confirm) cfg archiving fl (w, []) =
      (if \<not> gc_connected ?g \<and> \<not> gc_cleanOrphans ?g then fail (Msg ''daemon connection required for --all; use --orphans for orphan cleanup'')
       else if gc_plan v ?g w0 = [] \<or> gc_dryRun ?g then ok ()
       else if gcForce fl then gc_clean (host_of v acts) ?g (gc_plan v ?g w0)
       else call (best_effort [] (on_host_world confirm)) (\<lambda>line.
         let answer = trim_space (to_lower line) in
         if answer \<noteq> ''y'' \<and> answer \<noteq> ''yes'' then ok () else gc_clean (host_of v acts) ?g (gc_plan v ?g w0))) (w0, [])"
    by (simp add: run_gc_def attempt_eq [where m = "on_host_world daemon"] Let_def call_Inr [where m = "findResources _ _", OF findResources_at [of v acts _ "(w0, [])", simplified]])
  have clean: "snd s = [] \<Longrightarrow> list_all (justified v ?g w0) (snd (snd (gc_clean (host_of v acts) ?g (gc_plan v ?g w0) s)))" for s
    using gc_clean_adds [of v ?g w0 acts s] by (auto simp: adds_def simp del: justified.simps)
  have "list_all (justified v ?g w0) (snd (snd (r, (w', log)))) \<and> (gc_dryRun ?g \<longrightarrow> snd (snd (r, (w', log))) = [])"
    unfolding assms(1) [symmetric] run
    using clean [of "(w0, [])"] clean [of "(snd (confirm w0), [])"]
    by (auto simp: Let_def call_Inr [where m = "best_effort _ _", OF best_effort_world] simp del: justified.simps)
  then show ?thesis by simp
qed


section \<open>Without the daemon\<close>

lemma clean_item_grows: "adds (\<lambda>_. True) (clean_item (host_of v acts) g item) s"
  unfolding clean_item_def cleanTask_def cleanVMDir_def cleanZFSDataset_def cleanTap_def host_of_reads
  by (auto intro!: adds_ok adds_call adds_act adds_act_ok adds_act_ignored adds_read split: option.split prod.split)

lemma clean_each_grows: "adds (\<lambda>_. True) (clean_each (host_of v acts) g items) s"
  by (induction items arbitrary: s) (auto intro!: adds_ok adds_attempt adds_call clean_item_grows)

lemma clean_each_snd: "snd (clean_each h g (x # xs) s) = snd (clean_each h g xs (snd (clean_item h g x s)))"
  by (cases "clean_item h g x s"; cases "clean_each h g xs (snd (clean_item h g x s))"; cases "fst (clean_each h g xs (snd (clean_item h g x s)))")
    (auto simp: attempt_def call_def)

lemma zfs_item_log:
  assumes "ci_type item = ''zfs-vm'' \<or> ci_type item = ''zfs-workspace''"
  shows "(fst s, ZfsDestroy (ci_path item)) \<in> set (snd (snd (clean_item (host_of v acts) g item s)))"
proof -
  have "snd (snd (clean_item (host_of v acts) g item s)) = snd s @ [(fst s, ZfsDestroy (ci_path item))]"
    using assms by (cases s) (auto simp: clean_item_def cleanZFSDataset_def call_def host_of_def split: prod.split sum.split option.split)
  then show ?thesis by simp
qed

lemma clean_each_log:
  assumes "item \<in> set items" "ci_type item = ''zfs-vm'' \<or> ci_type item = ''zfs-workspace''"
  shows "\<exists>u. (u, ZfsDestroy (ci_path item)) \<in> set (snd (snd (clean_each (host_of v acts) g items s)))"
  using assms(1)
proof (induction items arbitrary: s)
  case (Cons x xs)
  let ?s = "snd (clean_item (host_of v acts) g x s)"
  show ?case
  proof (cases "item \<in> set xs")
    case True
    from Cons.IH [OF this, of ?s] show ?thesis unfolding clean_each_snd .
  next
    case False
    with Cons.prems have "x = item" by simp
    then have "(fst s, ZfsDestroy (ci_path item)) \<in> set (snd ?s)" using zfs_item_log [OF assms(2)] by blast
    moreover have "set (snd ?s) \<subseteq> set (snd (snd (clean_each (host_of v acts) g xs ?s)))"
      using clean_each_grows [of v acts g xs ?s] by (auto simp: adds_def)
    ultimately show ?thesis unfolding clean_each_snd by blast
  qed
qed simp

text \<open>C26. Without the daemon every VM is an orphan: when the daemon cannot be reached, \<open>gc --orphans --force\<close> tries to
  destroy every dataset below the VMs' dataset, also the root disk of a VM that the same run has just found running and
  whose directory it therefore spares. The command's help promises that it does not clean up running VMs.\<close>

theorem gc_without_daemon_destroys_disks:
  assumes "run_gc (host_of v acts) (on_host_world daemon) (on_host_world confirm) cfg archiving fl (w, []) = (r, (w', log))"
    and "daemon w = (Inl e, w0)" "gcOrphans fl" "gcForce fl" "\<not> gcDryRun fl"
    and "d \<in> set (datasets_in v w0 (gc_vms cfg))" "d \<noteq> gc_vms cfg"
  shows "\<exists>u. (u, ZfsDestroy d) \<in> set log"
proof -
  let ?g = "new_collector cfg archiving fl (Inl e)"
  let ?item = "\<lparr>ci_id = base_name d, ci_type = ''zfs-vm'', ci_path = d, ci_orphan = True\<rparr>"
  have g: "gc_cfg ?g = cfg" "gc_tasks ?g = []" "gc_dryRun ?g = False" "gc_cleanOrphans ?g"
    using assms(3,5) by (auto simp: new_collector_def Let_def)
  have item: "?item \<in> set (gc_plan v ?g w0)"
    using assms(6,7) by (simp add: gc_plan_def g known_def)
  then have ne: "gc_plan v ?g w0 \<noteq> []" by auto
  have "on_host_world daemon (w, []) = (Inl e, (w0, []))" using assms(2) by (simp add: on_host_world_def)
  then have "(r, (w', log)) = gc_clean (host_of v acts) ?g (gc_plan v ?g w0) (w0, [])"
    unfolding assms(1) [symmetric] using ne assms(4)
    by (simp add: run_gc_def attempt_eq [where m = "on_host_world daemon"] Let_def g
        call_Inr [where m = "findResources _ _", OF findResources_at [of v acts _ "(w0, [])", simplified]])
  moreover have "snd (gc_clean h g' xs s) = snd (clean_each h g' xs s)" for h :: "'a history gc_host" and g' xs s
    by (cases "clean_each h g' xs s"; cases "fst (clean_each h g' xs s)") (auto simp: gc_clean_def call_def)
  ultimately have "snd (clean_each (host_of v acts) ?g (gc_plan v ?g w0) (w0, [])) = (w', log)" by (metis snd_conv)
  then show ?thesis using clean_each_log [OF item, of v acts ?g "(w0, [])"] by simp
qed

text \<open>A host with two VM directories, the VM of the first running.\<close>

definition demo_view :: "unit host_view" where
  "demo_view =
     \<lparr>v_dir = \<lambda>_ _. Inr [(''0000000a'', True), (''0000000b'', True), (''lock'', False)],
      v_file = \<lambda>_ p. Inr (if p = ''/vms/0000000a/firecracker.pid'' then Some ''41'' else None),
      v_zfs = \<lambda>_ base. Inr (base @ [CHR 0x0A] @ base @ ''/0000000a'' @ [CHR 0x0A] @ base @ ''/0000000b'' @ [CHR 0x0A]),
      v_links = \<lambda>_. Inr ''1: lo: up'', v_alive = \<lambda>_ pid. Inr (pid = 41)\<rparr>"

definition demo_gc :: gc_config where
  "demo_gc = \<lparr>gc_vmDir = ''/vms'', gc_vms = ''tank/vms'', gc_workspaces = ''tank/ws''\<rparr>"


lemma gc_without_daemon_destroys_disks_witness:
  "running_at demo_view () ''/vms/0000000a'' \<and>
   (\<exists>r log u. run_gc (host_of demo_view (\<lambda>_ w. (Inr (None, []), w))) (on_host_world (fail (Msg ''refused''))) (on_host_world (ok [])) demo_gc
       False \<lparr>gcAll = False, gcOrphans = True, gcEverything = False, gcForce = True, gcDryRun = False\<rparr> ((), []) = (r, ((), log)) \<and>
     (u, ZfsDestroy ''tank/vms/0000000a'') \<in> set log)"
proof -
  let ?acts = "\<lambda>_ w. (Inr (None :: goerr option, []), w)"
  let ?fl = "\<lparr>gcAll = False, gcOrphans = True, gcEverything = False, gcForce = True, gcDryRun = False\<rparr>"
  obtain r w' log where run: "run_gc (host_of demo_view ?acts) (on_host_world (fail (Msg ''refused''))) (on_host_world (ok [])) demo_gc False ?fl ((), []) =
      (r, (w', log))" by (metis surj_pair)
  have f: "fail (Msg ''refused'') () = (Inl (Msg ''refused'') :: goerr + (string \<times> string) list, ())"
    "gcOrphans ?fl" "gcForce ?fl" "\<not> gcDryRun ?fl" by simp_all
  have d: "''tank/vms/0000000a'' \<in> set (datasets_in demo_view () (gc_vms demo_gc))" "''tank/vms/0000000a'' \<noteq> gc_vms demo_gc"
    by (simp_all add: datasets_in_def demo_view_def demo_gc_def known_or_def scanned_def trim_suffix_def has_suffix_def
        has_prefix_def trim_space_def is_space_def)
  have "path_join [''/vms/0000000a'', ''firecracker.pid''] = ''/vms/0000000a/firecracker.pid''" by code_simp
  moreover have "pid_in ''41'' = Some 41"
    by (simp add: pid_in_def trim_space_def is_space_def parse_int_def parse_digits_def is_digit_def digit_val_def)
  ultimately have "running_at demo_view () ''/vms/0000000a''" by (simp add: running_at_def demo_view_def known_or_def)
  with gc_without_daemon_destroys_disks [OF run f d] run show ?thesis by auto
qed

end
