(* ===== verification/Leases.thy ===== *)
theory Leases
  imports Prelude Go_Strings
begin

text \<open>
  The two readers of DHCP leases, of dnsmasq (\<open>pkg/network/dhcp.go\<close>) and of macOS
  (\<open>pkg/vmbackend/leases.go\<close>), and the process of the DHCP server. A lease file is the
  text of the file or the failure to open it. Case folding is that of ASCII.
\<close>

section \<open>Reading lines\<close>

text \<open>The \<open>Err\<close> of the scanner says whether it stopped before the end.\<close>

definition scan_err :: "string \<Rightarrow> goerr option" where
  "scan_err text =
     (if text \<noteq> [] \<and> (\<exists>l \<in> set (split_byte (CHR 0x0A) (trim_suffix text [CHR 0x0A])). 65536 \<le> length l)
      then Some (Msg ''bufio.Scanner: token too long'') else None)"

section \<open>Leases of macOS\<close>

text \<open>The variables of the scan: the current and the last matching address, and whether the block matches.\<close>

record lease_scan =
  currentIP :: string
  lastIP :: string
  matched :: bool

definition field_value :: "string \<Rightarrow> string \<Rightarrow> string" where
  "field_value matchField value =
     (if matchField = ''hw_address'' then
        (case index_byte value (CHR '','') of None \<Rightarrow> value | Some i \<Rightarrow> drop (Suc i) value)
      else value)"

definition line_matches :: "string \<Rightarrow> string \<Rightarrow> string \<Rightarrow> bool" where
  "line_matches matchField searchValue line \<longleftrightarrow>
     has_prefix line (matchField @ ''='') \<and>
     to_lower (field_value matchField (trim_prefix line (matchField @ ''=''))) = searchValue"

definition lease_line :: "string \<Rightarrow> string \<Rightarrow> string \<Rightarrow> lease_scan \<Rightarrow> lease_scan" where
  "lease_line matchField searchValue text s0 =
     (let line = trim_space text;
          s1 = (if has_prefix line ''ip_address='' then s0\<lparr>currentIP := trim_prefix line ''ip_address=''\<rparr> else s0);
          s2 = (if line_matches matchField searchValue line then s1\<lparr>matched := True\<rparr> else s1) in
      if line = ''}'' then
        (if matched s2 \<and> currentIP s2 \<noteq> [] then s2\<lparr>lastIP := currentIP s2\<rparr> else s2)\<lparr>currentIP := [], matched := False\<rparr>
      else s2)"

definition findIPInLeases :: "goerr + string \<Rightarrow> string \<Rightarrow> string \<Rightarrow> goerr + string" where
  "findIPInLeases file matchField matchValue =
     (case file of
        Inl e \<Rightarrow> Inl (Wrap ''open lease file'' e)
      | Inr text \<Rightarrow>
          (let s = fold (lease_line matchField (to_lower matchValue)) (scanned text) \<lparr>currentIP = [], lastIP = [], matched = False\<rparr> in
           if lastIP s \<noteq> [] then Inr (lastIP s)
           else Inl (Msg (''no lease found for '' @ matchField @ ''='' @ matchValue))))"

definition FindIPByMAC :: "goerr + string \<Rightarrow> string \<Rightarrow> goerr + string" where
  "FindIPByMAC file mac = findIPInLeases file ''hw_address'' mac"

definition FindIPByName :: "goerr + string \<Rightarrow> string \<Rightarrow> goerr + string" where
  "FindIPByName file name = findIPInLeases file ''name'' name"

section \<open>Leases of dnsmasq\<close>

fun ip_for_mac :: "string \<Rightarrow> string list \<Rightarrow> string option" where
  "ip_for_mac searchMAC [] = None"
| "ip_for_mac searchMAC (line # ls) =
     (case Go_Strings.fields line of
        _ # m # ip # _ \<Rightarrow> if to_lower m = searchMAC then Some ip else ip_for_mac searchMAC ls
      | _ \<Rightarrow> ip_for_mac searchMAC ls)"

definition GetIPForMAC :: "goerr + string \<Rightarrow> string \<Rightarrow> string option" where
  "GetIPForMAC file mac = (case file of Inl _ \<Rightarrow> None | Inr text \<Rightarrow> ip_for_mac (to_lower mac) (scanned text))"

record dhcp_lease =
  Expiry :: int
  MAC :: string
  lease_IP :: string
  Hostname :: string
  ClientID :: string

definition lease_of_line :: "string \<Rightarrow> dhcp_lease option" where
  "lease_of_line line =
     (case Go_Strings.fields line of
        e # m # ip # h # c # _ \<Rightarrow>
          map_option (\<lambda>t. \<lparr>Expiry = t, MAC = m, lease_IP = ip, Hostname = h, ClientID = c\<rparr>) (parse_int 64 e)
      | _ \<Rightarrow> None)"

definition ListLeases :: "goerr + string \<Rightarrow> goerr + dhcp_lease list" where
  "ListLeases file =
     (case file of
        Inl e \<Rightarrow> Inl (Wrap ''dhcp: failed to open lease file'' e)
      | Inr text \<Rightarrow>
          (case scan_err text of
             Some e \<Rightarrow> Inl (Wrap ''dhcp: failed to read lease file'' e)
           | None \<Rightarrow> Inr (List.map_filter lease_of_line (scanned text))))"

section \<open>The DHCP server\<close>

record dhcp_config =
  dc_bridge :: string
  dc_gateway :: string
  dc_start :: string
  dc_end :: string
  dc_netmask :: string
  dc_lease :: string
  dc_dns :: string

record dhcp_server =
  ds_config :: dhcp_config
  ds_dir :: string
  ds_binary :: string
  ds_cmd :: "nat option"

definition validateDHCPConfig :: "dhcp_config \<Rightarrow> (string, string) sum" where
  "validateDHCPConfig c =
     (if dc_bridge c = [] then Inl ''dhcp: bridge is required''
      else if dc_gateway c = [] then Inl ''dhcp: gateway is required''
      else if dc_start c = [] then Inl ''dhcp: range start is required''
      else if dc_end c = [] then Inl ''dhcp: range end is required''
      else if dc_netmask c = [] then Inl ''dhcp: netmask is required''
      else Inr [])"

definition NewDHCPServer :: "dhcp_config \<Rightarrow> string \<Rightarrow> goerr + dhcp_server" where
  "NewDHCPServer c dataDir =
     (case validateDHCPConfig c of
        Inl m \<Rightarrow> Inl (Msg m)
      | Inr _ \<Rightarrow> Inr \<lparr>ds_config = c, ds_dir = dataDir, ds_binary = ''dnsmasq'', ds_cmd = None\<rparr>)"

definition config_path :: "dhcp_server \<Rightarrow> string" where
  "config_path s = path_join [ds_dir s, ''dnsmasq.conf'']"

definition lease_path :: "dhcp_server \<Rightarrow> string" where
  "lease_path s = path_join [ds_dir s, ''dnsmasq.leases'']"

definition log_path :: "dhcp_server \<Rightarrow> string" where
  "log_path s = path_join [ds_dir s, ''dnsmasq.log'']"

text \<open>The rendered template.\<close>

definition config_lines :: "dhcp_server \<Rightarrow> string list" where
  "config_lines s =
     (let c = ds_config s in
      [''interface='' @ dc_bridge c, ''bind-interfaces'',
       ''dhcp-range='' @ join_with '','' [dc_start c, dc_end c, dc_netmask c, dc_lease c],
       ''dhcp-option=option:router,'' @ dc_gateway c, ''dhcp-option=option:dns-server,'' @ dc_dns c, ''dhcp-authoritative'',
       ''dhcp-leasefile='' @ lease_path s, ''log-dhcp'', ''log-facility='' @ log_path s])"

definition config_text :: "dhcp_server \<Rightarrow> string" where
  "config_text s = concat (map (\<lambda>l. l @ [CHR 0x0A]) (config_lines s))"

text \<open>What the server asks of the system: \<open>sy_write\<close> fills an open file, or creates one for the leases; \<open>sy_stat_missing\<close> is \<open>os.IsNotExist\<close> of a \<open>Stat\<close>.\<close>

record 'e dhcp_system =
  sy_look :: "string \<Rightarrow> ('e, string) op"
  sy_create :: "string \<Rightarrow> ('e, unit) op"
  sy_write :: "string \<Rightarrow> string \<Rightarrow> ('e, unit) op"
  sy_stat_missing :: "string \<Rightarrow> ('e, bool) op"
  sy_start :: "string list \<Rightarrow> ('e, nat) op"
  sy_kill :: "nat \<Rightarrow> ('e, unit) op"
  sy_wait :: "nat \<Rightarrow> ('e, unit) op"
  sy_alive :: "nat \<Rightarrow> ('e, bool) op"

definition on_system :: "('e, 'a) op \<Rightarrow> (dhcp_server \<times> 'e, 'a) op" where
  "on_system m = zoom snd (\<lambda>o' (s, _). (s, o')) m"

definition set_cmd :: "nat option \<Rightarrow> dhcp_server \<times> 'e \<Rightarrow> dhcp_server \<times> 'e" where
  "set_cmd c = (\<lambda>(s, o'). (s\<lparr>ds_cmd := c\<rparr>, o'))"

definition writeConfigLocked :: "'e dhcp_system \<Rightarrow> (dhcp_server \<times> 'e, unit) op" where
  "writeConfigLocked sy = (\<lambda>(s, o').
     call_wrap ''dhcp: failed to create config file'' (on_system (sy_create sy (config_path s))) (\<lambda>_.
     call_wrap ''dhcp: failed to write config'' (on_system (sy_write sy (config_path s) (config_text s))) (\<lambda>_. ok ())) (s, o'))"

text \<open>\<open>WriteConfig\<close> has the same body, under the lock.\<close>

definition SetBinaryPath :: "string \<Rightarrow> dhcp_server \<times> 'e \<Rightarrow> dhcp_server \<times> 'e" where
  "SetBinaryPath path = (\<lambda>(s, o'). (s\<lparr>ds_binary := path\<rparr>, o'))"

definition dhcp_Start :: "'e dhcp_system \<Rightarrow> (dhcp_server \<times> 'e, unit) op" where
  "dhcp_Start sy = (\<lambda>(s, o').
     (if ds_cmd s \<noteq> None then fail (Msg ''dhcp: server already running'')
      else
        call_wrap ''dhcp: dnsmasq binary not found'' (on_system (sy_look sy (ds_binary s))) (\<lambda>binary.
        call (writeConfigLocked sy) (\<lambda>_.
        call (on_system (sy_stat_missing sy (lease_path s))) (\<lambda>missing.
        call (if missing then call_wrap ''dhcp: failed to create lease file'' (on_system (sy_write sy (lease_path s) [])) (\<lambda>_. ok ())
              else ok ()) (\<lambda>_.
        call_wrap ''dhcp: failed to start dnsmasq'' (on_system (sy_start sy [binary, ''-k'', ''-C'', config_path s])) (\<lambda>pid.
        pure_step (set_cmd (Some pid)) (ok ()))))))) (s, o'))"

definition dhcp_Stop :: "'e dhcp_system \<Rightarrow> (dhcp_server \<times> 'e, unit) op" where
  "dhcp_Stop sy = (\<lambda>(s, o').
     (case ds_cmd s of
        None \<Rightarrow> ok ()
      | Some pid \<Rightarrow>
          call_wrap ''dhcp: failed to stop dnsmasq'' (on_system (sy_kill sy pid)) (\<lambda>_.
          ignore (on_system (sy_wait sy pid)) (pure_step (set_cmd None) (ok ())))) (s, o'))"

definition dhcp_IsRunning :: "'e dhcp_system \<Rightarrow> (dhcp_server \<times> 'e, bool) op" where
  "dhcp_IsRunning sy = (\<lambda>(s, o'). (case ds_cmd s of None \<Rightarrow> ok False | Some pid \<Rightarrow> on_system (sy_alive sy pid)) (s, o'))"

section \<open>The last matching lease\<close>

text \<open>The blocks of a lease file: the lines up to each closing brace. Lines after the last brace are no lease.\<close>

fun blocks :: "string list \<Rightarrow> string list \<Rightarrow> string list list" where
  "blocks b [] = []"
| "blocks b (l # ls) = (if l = ''}'' then (b @ [l]) # blocks [] ls else blocks (b @ [l]) ls)"

definition block_ip :: "string list \<Rightarrow> string" where
  "block_ip b = (case rev (filter (\<lambda>l. has_prefix l ''ip_address='') b) of [] \<Rightarrow> [] | l # _ \<Rightarrow> trim_prefix l ''ip_address='')"

definition block_matches :: "string \<Rightarrow> string \<Rightarrow> string list \<Rightarrow> bool" where
  "block_matches matchField searchValue b \<longleftrightarrow> (\<exists>l \<in> set b. line_matches matchField searchValue l)"

definition reference_ip :: "string \<Rightarrow> string \<Rightarrow> string list \<Rightarrow> string option" where
  "reference_ip matchField searchValue lines =
     (case rev (filter (\<lambda>b. block_matches matchField searchValue b \<and> block_ip b \<noteq> []) (blocks [] lines)) of
        [] \<Rightarrow> None | b # _ \<Rightarrow> Some (block_ip b))"

text \<open>The scan after the lines of a block, and after whole blocks.\<close>

lemma block_ip_snoc: "block_ip (b @ [l]) = (if has_prefix l ''ip_address='' then trim_prefix l ''ip_address='' else block_ip b)"
  by (simp add: block_ip_def)

lemma block_matches_snoc: "block_matches f v (b @ [l]) \<longleftrightarrow> block_matches f v b \<or> line_matches f v l"
  by (auto simp: block_matches_def)

lemma brace_no_ip: "\<not> has_prefix ''}'' ''ip_address=''"
  by (simp add: has_prefix_def)

lemma scan_blocks:
  "lastIP (fold (lease_line f v) ls \<lparr>currentIP = block_ip b, lastIP = ip, matched = block_matches f v b\<rparr>) =
     (case rev (filter (\<lambda>b. block_matches f v b \<and> block_ip b \<noteq> []) (blocks b (map trim_space ls))) of [] \<Rightarrow> ip | x # _ \<Rightarrow> block_ip x)"
proof (induction ls arbitrary: b ip)
  case (Cons l ls)
  let ?l = "trim_space l"
  show ?case
  proof (cases "?l = ''}''")
    case True
    let ?b = "b @ [''}'']"
    let ?last = "if block_matches f v ?b \<and> block_ip ?b \<noteq> [] then block_ip ?b else ip"
    have "lease_line f v l \<lparr>currentIP = block_ip b, lastIP = ip, matched = block_matches f v b\<rparr> =
        \<lparr>currentIP = block_ip [], lastIP = ?last, matched = block_matches f v []\<rparr>"
      using True brace_no_ip
      by (simp add: lease_line_def Let_def block_ip_snoc block_matches_snoc) (auto simp: block_ip_def block_matches_def)
    then show ?thesis using True Cons.IH [of "[]" ?last] by (auto split: list.split)
  next
    case False
    have "lease_line f v l \<lparr>currentIP = block_ip b, lastIP = ip, matched = block_matches f v b\<rparr> =
        \<lparr>currentIP = block_ip (b @ [?l]), lastIP = ip, matched = block_matches f v (b @ [?l])\<rparr>"
      using False by (simp add: lease_line_def Let_def block_ip_snoc block_matches_snoc)
    then show ?thesis using False Cons.IH [of "b @ [?l]" ip] by simp
  qed
qed simp

lemma ip_for_mac_find: "ip_for_mac m ls =
    map_option (\<lambda>l. Go_Strings.fields l ! 2) (find (\<lambda>l. 3 \<le> length (Go_Strings.fields l) \<and> to_lower (Go_Strings.fields l ! 1) = m) ls)"
  by (induction m ls rule: ip_for_mac.induct) (auto split: list.split simp: numeral_2_eq_2 numeral_3_eq_3)

text \<open>C35. Lease lookup is what it means to be. The one-pass scan of the macOS lease file gives the address of the last complete
  block that has an address and a matching line, in any case, whatever the order of the lines in the block and whatever
  follows the last brace, and fails exactly when there is none; the lookup in the dnsmasq file gives the address of the
  first line of at least three fields that has the hardware address.\<close>

theorem lease_lookup_exact:
  "findIPInLeases (Inr text) matchField value =
     (case reference_ip matchField (to_lower value) (map trim_space (scanned text)) of
        Some ip \<Rightarrow> Inr ip
      | None \<Rightarrow> Inl (Msg (''no lease found for '' @ matchField @ ''='' @ value))) \<and>
   GetIPForMAC (Inr text) value =
     map_option (\<lambda>l. Go_Strings.fields l ! 2)
       (find (\<lambda>l. 3 \<le> length (Go_Strings.fields l) \<and> to_lower (Go_Strings.fields l ! 1) = to_lower value) (scanned text))"
proof -
  have start: "\<lparr>currentIP = [], lastIP = [], matched = False\<rparr> =
      \<lparr>currentIP = block_ip [], lastIP = [], matched = block_matches matchField (to_lower value) []\<rparr>"
    by (simp add: block_ip_def block_matches_def)
  let ?bs = "rev (filter (\<lambda>b. block_matches matchField (to_lower value) b \<and> block_ip b \<noteq> []) (blocks [] (map trim_space (scanned text))))"
  have scan: "lastIP (fold (lease_line matchField (to_lower value)) (scanned text) \<lparr>currentIP = [], lastIP = [], matched = False\<rparr>) =
      (case ?bs of [] \<Rightarrow> [] | b # _ \<Rightarrow> block_ip b)"
    unfolding start by (rule scan_blocks)
  show ?thesis
  proof (cases ?bs)
    case Nil
    then show ?thesis by (simp add: findIPInLeases_def scan reference_ip_def GetIPForMAC_def ip_for_mac_find)
  next
    case (Cons b bs)
    then have "b \<in> set ?bs" by simp
    then have "block_ip b \<noteq> []" by auto
    with Cons show ?thesis by (simp add: findIPInLeases_def scan reference_ip_def GetIPForMAC_def ip_for_mac_find)
  qed
qed

end
