(* ===== verification/Resources.thy ===== *)
theory Resources
  imports Gc Leases
begin

text \<open>
  The two listings of resources: of the dashboard (\<open>pkg/dashboard/resources.go\<close>) and of the
  command \<open>stockyard resources\<close> (\<open>cmd/stockyard/resources.go\<close>). Both mark what belongs to no
  task as an orphan. They agree with each other, and with the plan of the garbage collector up to the
  directories of VMs that still run.
\<close>

section \<open>The listing of the dashboard\<close>

record resource =
  rs_id :: string
  rs_type :: string
  rs_status :: string
  rs_task :: string
  rs_details :: string
  rs_size :: string

text \<open>\<open>zfs_used\<close> is \<open>zfs list -H -r -d 1 -o name,used\<close>.\<close>

record 's resource_host =
  rh_host :: "'s gc_host"
  zfs_used :: "string \<Rightarrow> ('s, string) op"

abbreviation rh_file :: "'s resource_host \<Rightarrow> string \<Rightarrow> ('s, string option) op" where
  "rh_file h p \<equiv> best_effort None (readFile (gh_reads (rh_host h)) p)"

abbreviation rh_dir :: "'s resource_host \<Rightarrow> string \<Rightarrow> ('s, (string \<times> bool) list) op" where
  "rh_dir h p \<equiv> best_effort [] (readDir (gh_reads (rh_host h)) p)"

text \<open>A map of Go that a loop fills: a later entry overwrites an earlier one.\<close>

definition filled :: "(string \<times> 'v) list \<Rightarrow> (string \<times> 'v) list" where
  "filled es = fold (\<lambda>(k, v). AList.update k v) es []"

fun dash_dirs :: "'s resource_host \<Rightarrow> string \<Rightarrow> (string \<times> string) list \<Rightarrow> (string \<times> bool) list \<Rightarrow> ('s, resource list) op" where
  "dash_dirs h vmDir st [] = ok []"
| "dash_dirs h vmDir st ((n, isDir) # es) =
     (if \<not> isDir then dash_dirs h vmDir st es
      else
        let dir = path_join [vmDir, n] in
        call (rh_file h (path_join [dir, ''mac_addr''])) (\<lambda>f.
        call (dash_dirs h vmDir st es) (\<lambda>rs.
        ok (\<lparr>rs_id = n, rs_type = ''vm'', rs_status = (case map_of st n of Some x \<Rightarrow> x | None \<Rightarrow> ''orphan''), rs_task = [],
             rs_details = (case f of None \<Rightarrow> dir | Some data \<Rightarrow> dir @ '' (MAC: '' @ trim_space data @ '')''), rs_size = []\<rparr> # rs))))"

definition dash_collectVMDirs :: "'s resource_host \<Rightarrow> string \<Rightarrow> (string \<times> string) list \<Rightarrow> ('s, resource list) op" where
  "dash_collectVMDirs h vmDir st = call (rh_dir h vmDir) (dash_dirs h vmDir st)"

definition active_status :: "string \<Rightarrow> string" where
  "active_status s = (if s = ''running'' then ''active'' else s)"

definition tap_resource :: "(string \<times> string) list \<Rightarrow> (string \<times> string) list \<Rightarrow> string \<Rightarrow> resource option" where
  "tap_resource tapToTask st line =
     (case Go_Strings.fields line of
        _ # f # _ \<Rightarrow>
          (let name = trim_suffix f '':'' in
           if \<not> has_prefix name ''tap-'' then None
           else Some \<lparr>rs_id = name, rs_type = ''tap'',
             rs_status = (case map_of tapToTask name of None \<Rightarrow> ''orphan''
               | Some tid \<Rightarrow> (case map_of st tid of None \<Rightarrow> ''orphan'' | Some ts \<Rightarrow> active_status ts)),
             rs_task = (case map_of tapToTask name of None \<Rightarrow> [] | Some tid \<Rightarrow> tid), rs_details = [], rs_size = []\<rparr>)
      | _ \<Rightarrow> None)"

definition parseTapOutput :: "string \<Rightarrow> (string \<times> string) list \<Rightarrow> (string \<times> string) list \<Rightarrow> resource list" where
  "parseTapOutput out tapToTask st = List.map_filter (tap_resource tapToTask st) (scanned out)"

definition dash_buildTapToTaskMap :: "'s resource_host \<Rightarrow> string \<Rightarrow> ('s, (string \<times> string) list) op" where
  "dash_buildTapToTaskMap h vmDir = call (rh_dir h vmDir) (\<lambda>es. tap_tasks (rh_host h) vmDir es [])"

definition dash_collectTapInterfaces :: "'s resource_host \<Rightarrow> string \<Rightarrow> (string \<times> string) list \<Rightarrow> ('s, resource list) op" where
  "dash_collectTapInterfaces h vmDir st =
     call (dash_buildTapToTaskMap h vmDir) (\<lambda>m.
     call (best_effort [] (ipLinks (gh_reads (rh_host h)))) (\<lambda>out. ok (parseTapOutput out m st)))"

definition zfs_resource :: "string \<Rightarrow> string \<Rightarrow> (string \<times> string) list \<Rightarrow> string \<Rightarrow> resource option" where
  "zfs_resource basePath resourceType st line =
     (case Go_Strings.fields line of
        name # used # _ \<Rightarrow>
          if name = basePath then None
          else (let i = last (split_byte (CHR ''/'') name) in
            Some \<lparr>rs_id = i, rs_type = resourceType,
              rs_status = (case map_of st i of None \<Rightarrow> ''orphan'' | Some ts \<Rightarrow> active_status ts),
              rs_task = i, rs_details = name, rs_size = used\<rparr>)
      | _ \<Rightarrow> None)"

definition parseZfsOutput :: "string \<Rightarrow> string \<Rightarrow> string \<Rightarrow> (string \<times> string) list \<Rightarrow> resource list" where
  "parseZfsOutput out basePath resourceType st = List.map_filter (zfs_resource basePath resourceType st) (scanned out)"

definition dash_collectZFSDatasetsFromPath ::
    "'s resource_host \<Rightarrow> string \<Rightarrow> string \<Rightarrow> (string \<times> string) list \<Rightarrow> ('s, resource list) op" where
  "dash_collectZFSDatasetsFromPath h basePath resourceType st =
     call (best_effort [] (zfs_used h basePath)) (\<lambda>out. ok (parseZfsOutput out basePath resourceType st))"

definition dash_collectZFSDatasets :: "'s resource_host \<Rightarrow> string \<Rightarrow> (string \<times> string) list \<Rightarrow> ('s, resource list) op" where
  "dash_collectZFSDatasets h zfsPool st =
     call (dash_collectZFSDatasetsFromPath h (zfsPool @ ''/vms'') ''zfs_vm'' st) (\<lambda>xs.
     call (dash_collectZFSDatasetsFromPath h (zfsPool @ ''/workspaces'') ''zfs_workspace'' st) (\<lambda>ys. ok (xs @ ys)))"

text \<open>Times are nanoseconds; an expiry is in seconds.\<close>

definition lease_resource :: "int \<Rightarrow> (string \<times> string) list \<Rightarrow> string \<Rightarrow> resource option" where
  "lease_resource now st line =
     (case Go_Strings.fields line of
        e # mac # ip # hostname # _ \<Rightarrow> (case parse_int 64 e of
            None \<Rightarrow> None
          | Some expiry \<Rightarrow> Some \<lparr>rs_id = ip, rs_type = ''dhcp'',
              rs_status = (if expiry * 10 ^ 9 < now then ''expired'' else ''active''),
              rs_task = (if map_of st hostname = None then [] else hostname),
              rs_details = ''MAC: '' @ mac @ '', Hostname: '' @ hostname, rs_size = []\<rparr>)
      | _ \<Rightarrow> None)"

definition dash_collectDHCPLeases :: "'s resource_host \<Rightarrow> int \<Rightarrow> string \<Rightarrow> (string \<times> string) list \<Rightarrow> ('s, resource list) op" where
  "dash_collectDHCPLeases h now leaseFile st =
     call (rh_file h leaseFile) (\<lambda>f. ok (case f of None \<Rightarrow> [] | Some text \<Rightarrow> List.map_filter (lease_resource now st) (scanned text)))"

record resource_collector =
  rc_vmDir :: string
  rc_leaseFile :: string
  rc_zfsPool :: string

definition dash_Collect :: "'s resource_host \<Rightarrow> resource_collector \<Rightarrow> int \<Rightarrow> (string \<times> string) list \<Rightarrow> ('s, resource list) op" where
  "dash_Collect h rc now tasks =
     (let st = filled tasks in
      call (dash_collectVMDirs h (rc_vmDir rc) st) (\<lambda>dirs.
      call (dash_collectTapInterfaces h (rc_vmDir rc) st) (\<lambda>taps.
      call (dash_collectZFSDatasets h (rc_zfsPool rc) st) (\<lambda>zfs.
      call (dash_collectDHCPLeases h now (rc_leaseFile rc) st) (\<lambda>leases.
      ok (dirs @ taps @ zfs @ leases))))))"

section \<open>The listing of the command line\<close>

record cli_resource =
  cr_id :: string
  cr_type :: string
  cr_status :: string
  cr_size :: string
  cr_detail :: string

record dhcp_entry =
  de_expiry :: int
  de_mac :: string
  de_ip :: string
  de_hostname :: string

record task_info =
  ti_id :: string
  ti_status :: string
  ti_ip :: string
  ti_mac :: string

definition lease_entry :: "string \<Rightarrow> dhcp_entry option" where
  "lease_entry line =
     (case Go_Strings.fields line of
        e # mac # ip # hostname # _ \<Rightarrow>
          map_option (\<lambda>x. \<lparr>de_expiry = x, de_mac = to_lower mac, de_ip = ip, de_hostname = hostname\<rparr>) (parse_int 64 e)
      | _ \<Rightarrow> None)"

text \<open>The leases and the map from MAC to IP addresses.\<close>

definition loadDHCPLeases :: "'s resource_host \<Rightarrow> string \<Rightarrow> ('s, dhcp_entry list \<times> (string \<times> string) list) op" where
  "loadDHCPLeases h leaseFile =
     call (rh_file h leaseFile) (\<lambda>f.
       (let ls = (case f of None \<Rightarrow> [] | Some text \<Rightarrow> List.map_filter lease_entry (scanned text))
        in ok (ls, filled (map (\<lambda>l. (de_mac l, de_ip l)) ls))))"

text \<open>The daemon's answer is its list of ids and statuses; an unreachable daemon leaves the maps empty.\<close>

fun task_infos :: "'s resource_host \<Rightarrow> string \<Rightarrow> (string \<times> string) list \<Rightarrow> (string \<times> string) list \<Rightarrow> ('s, task_info list) op" where
  "task_infos h vmDir macs [] = ok []"
| "task_infos h vmDir macs ((i, status) # ts) =
     call (rh_file h (path_join [vmDir, i, ''mac_addr''])) (\<lambda>f.
     call (task_infos h vmDir macs ts) (\<lambda>infos.
     ok ((case f of
            None \<Rightarrow> \<lparr>ti_id = i, ti_status = status, ti_ip = [], ti_mac = []\<rparr>
          | Some data \<Rightarrow> (let mac = to_lower (trim_space data) in
              \<lparr>ti_id = i, ti_status = status, ti_ip = (case map_of macs mac of None \<Rightarrow> [] | Some ip \<Rightarrow> ip), ti_mac = mac\<rparr>)) # infos)))"

definition collectFromDaemon ::
    "'s resource_host \<Rightarrow> string \<Rightarrow> (string \<times> string) list \<Rightarrow> goerr + (string \<times> string) list \<Rightarrow>
     ('s, (string \<times> string) list \<times> (string \<times> task_info) list) op" where
  "collectFromDaemon h vmDir macs daemon =
     (case daemon of
        Inl _ \<Rightarrow> ok ([], [])
      | Inr tasks \<Rightarrow> call (task_infos h vmDir macs tasks) (\<lambda>infos.
          ok (filled tasks, filled (map (\<lambda>x. (ti_id x, x)) infos))))"

fun cli_dirs ::
    "'s resource_host \<Rightarrow> string \<Rightarrow> (string \<times> string) list \<Rightarrow> (string \<times> string) list \<Rightarrow> (string \<times> bool) list \<Rightarrow>
     ('s, cli_resource list) op" where
  "cli_dirs h vmDir ids macs [] = ok []"
| "cli_dirs h vmDir ids macs ((n, isDir) # es) =
     (if \<not> isDir then cli_dirs h vmDir ids macs es
      else
        let dir = path_join [vmDir, n] in
        call (IsVMRunning (rh_host h) dir) (\<lambda>running.
        call (rh_file h (path_join [dir, ''mac_addr''])) (\<lambda>f.
        call (cli_dirs h vmDir ids macs es) (\<lambda>rs.
        ok (\<lparr>cr_id = n, cr_type = ''vm-dir'',
             cr_status = (if map_of ids n = None then ''orphan'' else if running then ''running'' else ''stopped''), cr_size = [],
             cr_detail = (case f of None \<Rightarrow> dir | Some data \<Rightarrow>
               (case map_of macs (to_lower (trim_space data)) of None \<Rightarrow> dir | Some ip \<Rightarrow> dir @ '' (IP: '' @ ip @ '')''))\<rparr> # rs)))))"

definition cli_collectVMDirs ::
    "'s resource_host \<Rightarrow> string \<Rightarrow> (string \<times> string) list \<Rightarrow> (string \<times> string) list \<Rightarrow> ('s, cli_resource list) op" where
  "cli_collectVMDirs h vmDir ids macs = call (rh_dir h vmDir) (cli_dirs h vmDir ids macs)"

definition cli_dataset :: "string \<Rightarrow> string \<Rightarrow> (string \<times> string) list \<Rightarrow> string \<Rightarrow> cli_resource option" where
  "cli_dataset basePath resourceType ids line =
     (case Go_Strings.fields line of
        name # used # _ \<Rightarrow>
          if name = basePath then None
          else (let i = last (split_byte (CHR ''/'') name) in
            Some \<lparr>cr_id = i, cr_type = resourceType,
              cr_status = (case map_of ids i of None \<Rightarrow> ''orphan'' | Some ts \<Rightarrow> if ts = ''stopped'' then ''stopped'' else ''active''),
              cr_size = used, cr_detail = name\<rparr>)
      | _ \<Rightarrow> None)"

definition cli_collectZFSDatasetsFromPath ::
    "'s resource_host \<Rightarrow> string \<Rightarrow> string \<Rightarrow> (string \<times> string) list \<Rightarrow> ('s, cli_resource list) op" where
  "cli_collectZFSDatasetsFromPath h basePath resourceType ids =
     call (best_effort [] (zfs_used h basePath)) (\<lambda>out. ok (List.map_filter (cli_dataset basePath resourceType ids) (scanned out)))"

definition cli_collectZFSDatasets :: "'s resource_host \<Rightarrow> gc_config \<Rightarrow> (string \<times> string) list \<Rightarrow> ('s, cli_resource list) op" where
  "cli_collectZFSDatasets h cfg ids =
     call (cli_collectZFSDatasetsFromPath h (gc_vms cfg) ''zfs-vm'' ids) (\<lambda>xs.
     call (cli_collectZFSDatasetsFromPath h (gc_workspaces cfg) ''zfs-workspace'' ids) (\<lambda>ys. ok (xs @ ys)))"

definition cli_tap :: "(string \<times> string) list \<Rightarrow> (string \<times> string) list \<Rightarrow> string \<Rightarrow> cli_resource option" where
  "cli_tap tapToTask ids line =
     (case Go_Strings.fields line of
        _ # f # _ \<Rightarrow>
          (let name = trim_suffix f '':'' in
           if \<not> has_prefix name ''tap-'' then None
           else Some \<lparr>cr_id = name, cr_type = ''tap'',
             cr_status = (case map_of tapToTask name of None \<Rightarrow> ''orphan''
               | Some tid \<Rightarrow> (case map_of ids tid of None \<Rightarrow> ''orphan'' | Some ts \<Rightarrow> active_status ts)),
             cr_size = [], cr_detail = []\<rparr>)
      | _ \<Rightarrow> None)"

definition cli_buildTapToTaskMap :: "'s resource_host \<Rightarrow> string \<Rightarrow> ('s, (string \<times> string) list) op" where
  "cli_buildTapToTaskMap h vmDir = call (rh_dir h vmDir) (\<lambda>es. tap_tasks (rh_host h) vmDir es [])"

definition cli_collectTapInterfaces :: "'s resource_host \<Rightarrow> string \<Rightarrow> (string \<times> string) list \<Rightarrow> ('s, cli_resource list) op" where
  "cli_collectTapInterfaces h vmDir ids =
     call (cli_buildTapToTaskMap h vmDir) (\<lambda>m.
     call (best_effort [] (ipLinks (gh_reads (rh_host h)))) (\<lambda>out. ok (List.map_filter (cli_tap m ids) (scanned out))))"

text \<open>The command up to its printing: the tasks, the leases and the resources.\<close>

definition resources_cmd ::
    "'s resource_host \<Rightarrow> gc_config \<Rightarrow> string \<Rightarrow> goerr + (string \<times> string) list \<Rightarrow>
     ('s, (string \<times> task_info) list \<times> dhcp_entry list \<times> cli_resource list) op" where
  "resources_cmd h cfg leaseFile daemon =
     call (loadDHCPLeases h leaseFile) (\<lambda>(leases, macs).
     call (collectFromDaemon h (gc_vmDir cfg) macs daemon) (\<lambda>(ids, infos).
     call (cli_collectVMDirs h (gc_vmDir cfg) ids macs) (\<lambda>dirs.
     call (cli_collectZFSDatasets h cfg ids) (\<lambda>zfs.
     call (cli_collectTapInterfaces h (gc_vmDir cfg) ids) (\<lambda>taps.
     ok (infos, leases, dirs @ zfs @ taps))))))"

text \<open>The counts of the summary line: running, stopped and orphans.\<close>

definition summary :: "(string \<times> task_info) list \<Rightarrow> cli_resource list \<Rightarrow> nat \<times> nat \<times> nat" where
  "summary infos rs =
     (let count = (\<lambda>s. length (filter (\<lambda>x. ti_status (snd x) = s) infos) + length (filter (\<lambda>r. cr_status r = s) rs))
      in (count ''running'', count ''stopped'', length (filter (\<lambda>r. cr_status r = ''orphan'') rs)))"

section \<open>The three views of a host\<close>

text \<open>The host is the one of the collector, with the sizes of the datasets. A view is the type, the id and whether it is an
  orphan.\<close>

definition listing_host ::
    "'w host_view \<Rightarrow> ('w \<Rightarrow> string \<Rightarrow> goerr + string) \<Rightarrow> (gc_action \<Rightarrow> ('w, goerr option \<times> string) op) \<Rightarrow> 'w history resource_host" where
  "listing_host v used acts = \<lparr>rh_host = host_of v acts, zfs_used = (\<lambda>p s. (used (fst s) p, s))\<rparr>"

definition dview :: "resource \<Rightarrow> string \<times> string \<times> bool" where
  "dview r = (rs_type r, rs_id r, rs_status r = ''orphan'')"

definition cview :: "cli_resource \<Rightarrow> string \<times> string \<times> bool" where
  "cview r = (cr_type r, cr_id r, cr_status r = ''orphan'')"

definition gview :: "cleanup_item \<Rightarrow> string \<times> string \<times> bool" where
  "gview x = (ci_type x, ci_id x, ci_orphan x)"

definition orphans :: "string \<Rightarrow> (string \<times> string \<times> bool) list \<Rightarrow> string list" where
  "orphans ty vs = map (\<lambda>(_, i, _). i) (filter (\<lambda>(t, _, u). t = ty \<and> u) vs)"

definition zfs_names :: "string \<Rightarrow> string list" where
  "zfs_names out = List.map_filter (\<lambda>l. case Go_Strings.fields l of n # _ # _ \<Rightarrow> Some n | _ \<Rightarrow> None) (scanned out)"

lemma orphans_append [simp]: "orphans ty (xs @ ys) = orphans ty xs @ orphans ty ys"
  by (simp add: orphans_def)

lemma orphans_map [simp]:
  "orphans ty (map (\<lambda>x. (t, f x, P x)) xs) = (if t = ty then map f (filter P xs) else [])"
  by (induction xs) (auto simp: orphans_def)

lemma view_simps [simp]:
  "dview \<lparr>rs_id = i, rs_type = t, rs_status = st, rs_task = k, rs_details = d, rs_size = z\<rparr> = (t, i, st = ''orphan'')"
  "cview \<lparr>cr_id = i, cr_type = t, cr_status = st, cr_size = z, cr_detail = d\<rparr> = (t, i, st = ''orphan'')"
  "gview \<lparr>ci_id = i, ci_type = t, ci_path = p, ci_orphan = u\<rparr> = (t, i, u)"
  by (simp_all add: dview_def cview_def gview_def)

lemma map_of_filled_snoc: "map_of (filled (es @ [e])) k = (if k = fst e then Some (snd e) else map_of (filled es) k)"
  by (cases e) (simp add: filled_def update_conv')

lemma filled_None: "map_of (filled es) k = None \<longleftrightarrow> k \<notin> fst ` set es"
  by (induction es rule: rev_induct) (auto simp: map_of_filled_snoc, simp add: filled_def)

lemma filled_Some: "map_of (filled es) k = Some v \<Longrightarrow> (k, v) \<in> set es"
  by (induction es rule: rev_induct) (auto simp: map_of_filled_snoc split: if_splits, simp add: filled_def)

lemma listing_host_simps [simp]:
  "rh_host (listing_host v used acts) = host_of v acts"
  "zfs_used (listing_host v used acts) = (\<lambda>p s. (used (fst s) p, s))"
  by (simp_all add: listing_host_def)

lemmas read_at = call_Inr [where m = "best_effort _ _", OF best_effort_read]

lemma tap_map_at:
  "\<exists>m. call (rh_dir (listing_host v used acts) d) (\<lambda>es. tap_tasks (host_of v acts) d es []) s = (Inr m, s) \<and>
     (\<forall>t. map_of m t = tap_owner_at v (fst s) d (dirs_at v (fst s) d) t)"
  using tap_tasks_at [of v acts d "known_or [] (v_dir v (fst s) d)" "[]" s]
  by (auto simp: read_at dirs_at_def case_option_Some)

section \<open>What the listings show\<close>

lemma dash_dirs_at:
  assumes "\<forall>i x. map_of st i = Some x \<longrightarrow> x \<noteq> ''orphan''"
  shows "\<exists>rs. dash_dirs (listing_host v used acts) d st es s = (Inr rs, s) \<and>
    map dview rs = map (\<lambda>n. (''vm'', n, map_of st n = None)) (map fst (filter snd es))"
proof (induction es)
  case (Cons e es)
  then obtain rs where "dash_dirs (listing_host v used acts) d st es s = (Inr rs, s)"
    "map dview rs = map (\<lambda>n. (''vm'', n, map_of st n = None)) (map fst (filter snd es))" by blast
  with assms show ?case
    by (cases e) (auto simp: Let_def read_at call_Inr [where m = "dash_dirs _ _ _ _"] split: option.split)
qed simp

lemma cli_dirs_at:
  "\<exists>rs. cli_dirs (listing_host v used acts) d ids macs es s = (Inr rs, s) \<and>
    map cview rs = map (\<lambda>n. (''vm-dir'', n, map_of ids n = None)) (map fst (filter snd es))"
proof (induction es)
  case (Cons e es)
  then obtain rs where "cli_dirs (listing_host v used acts) d ids macs es s = (Inr rs, s)"
    "map cview rs = map (\<lambda>n. (''vm-dir'', n, map_of ids n = None)) (map fst (filter snd es))" by blast
  then show ?case
    by (cases e) (simp add: Let_def read_at call_Inr [where m = "IsVMRunning _ _", OF IsVMRunning_at]
        call_Inr [where m = "cli_dirs _ _ _ _ _"])
qed simp

lemma zfs_resource_views:
  assumes "\<forall>i x. map_of st i = Some x \<longrightarrow> x \<noteq> ''orphan''"
  shows "map dview (List.map_filter (zfs_resource base ty st) ls) =
    map (\<lambda>n. (ty, base_name n, map_of st (base_name n) = None))
      (filter (\<lambda>n. n \<noteq> base) (List.map_filter (\<lambda>l. case Go_Strings.fields l of n # _ # _ \<Rightarrow> Some n | _ \<Rightarrow> None) ls))"
proof (induction ls)
  case (Cons l ls)
  then show ?case using assms
    by (auto simp: List.map_filter_def zfs_resource_def Let_def base_name_def active_status_def
        split: list.splits option.splits)
qed (simp add: List.map_filter_def)

lemma cli_dataset_views:
  "map cview (List.map_filter (cli_dataset base ty ids) ls) =
    map (\<lambda>n. (ty, base_name n, map_of ids (base_name n) = None))
      (filter (\<lambda>n. n \<noteq> base) (List.map_filter (\<lambda>l. case Go_Strings.fields l of n # _ # _ \<Rightarrow> Some n | _ \<Rightarrow> None) ls))"
proof (induction ls)
  case (Cons l ls)
  then show ?case
    by (auto simp: List.map_filter_def cli_dataset_def Let_def base_name_def split: list.splits option.splits)
qed (simp add: List.map_filter_def)

definition tap_orphan :: "(string \<times> string) list \<Rightarrow> (string \<Rightarrow> string option) \<Rightarrow> string \<Rightarrow> bool" where
  "tap_orphan st own t \<longleftrightarrow> (case own t of None \<Rightarrow> True | Some i \<Rightarrow> map_of st i = None)"

lemma tap_views:
  assumes "\<forall>i x. map_of st i = Some x \<longrightarrow> x \<noteq> ''orphan''" "\<forall>t. map_of m t = own t"
  shows "map dview (List.map_filter (tap_resource m st) ls) = map (\<lambda>t. (''tap'', t, tap_orphan st own t))
      (List.map_filter (\<lambda>l. case Go_Strings.fields l of
         _ # f # _ \<Rightarrow> if has_prefix (trim_suffix f '':'') ''tap-'' then Some (trim_suffix f '':'') else None | _ \<Rightarrow> None) ls)"
    and "map cview (List.map_filter (cli_tap m st) ls) = map (\<lambda>t. (''tap'', t, tap_orphan st own t))
      (List.map_filter (\<lambda>l. case Go_Strings.fields l of
         _ # f # _ \<Rightarrow> if has_prefix (trim_suffix f '':'') ''tap-'' then Some (trim_suffix f '':'') else None | _ \<Rightarrow> None) ls)"
  using assms
  by (induction ls)
    (auto simp: List.map_filter_def tap_resource_def cli_tap_def Let_def active_status_def tap_orphan_def
      split: list.splits option.splits)

lemma datasets_views:
  assumes "\<forall>i x. map_of st i = Some x \<longrightarrow> x \<noteq> ''orphan''"
  shows "\<exists>rs. dash_collectZFSDatasetsFromPath (listing_host v used acts) base ty st s = (Inr rs, s) \<and>
      map dview rs = map (\<lambda>n. (ty, base_name n, map_of st (base_name n) = None))
        (filter (\<lambda>n. n \<noteq> base) (zfs_names (known_or [] (used (fst s) base))))"
  by (simp add: dash_collectZFSDatasetsFromPath_def read_at parseZfsOutput_def zfs_resource_views [OF assms] zfs_names_def)

lemma cli_datasets_views:
  "\<exists>rs. cli_collectZFSDatasetsFromPath (listing_host v used acts) base ty ids s = (Inr rs, s) \<and>
      map cview rs = map (\<lambda>n. (ty, base_name n, map_of ids (base_name n) = None))
        (filter (\<lambda>n. n \<noteq> base) (zfs_names (known_or [] (used (fst s) base))))"
  by (simp add: cli_collectZFSDatasetsFromPath_def read_at cli_dataset_views zfs_names_def)

text \<open>Without a task that has the status of an orphan, both listings mark the same resources.\<close>

definition shown_dirs :: "string \<Rightarrow> 'w host_view \<Rightarrow> 'w \<Rightarrow> string \<Rightarrow> (string \<times> string) list \<Rightarrow> (string \<times> string \<times> bool) list" where
  "shown_dirs ty v w d tasks = map (\<lambda>n. (ty, n, n \<notin> fst ` set tasks)) (dirs_at v w d)"

definition shown_taps :: "'w host_view \<Rightarrow> 'w \<Rightarrow> string \<Rightarrow> (string \<times> string) list \<Rightarrow> (string \<times> string \<times> bool) list" where
  "shown_taps v w d tasks =
     map (\<lambda>t. (''tap'', t, tap_orphan (filled tasks) (tap_owner_at v w d (dirs_at v w d)) t)) (taps_in (known_or [] (v_links v w)))"

definition dataset_views :: "(string \<times> string) list \<Rightarrow> string \<Rightarrow> string \<Rightarrow> string list \<Rightarrow> (string \<times> string \<times> bool) list" where
  "dataset_views st ty base names = map (\<lambda>n. (ty, base_name n, map_of st (base_name n) = None)) (filter (\<lambda>n. n \<noteq> base) names)"

lemma dash_Collect_at:
  assumes "\<forall>(i, x) \<in> set tasks. x \<noteq> ''orphan''"
  shows "\<exists>rs. dash_Collect (listing_host v used acts) rc now tasks s = (Inr rs, s) \<and>
    (\<exists>leases. (\<forall>x \<in> set leases. fst x = ''dhcp'') \<and> map dview rs =
      shown_dirs ''vm'' v (fst s) (rc_vmDir rc) tasks @ shown_taps v (fst s) (rc_vmDir rc) tasks @
      dataset_views (filled tasks) ''zfs_vm'' (rc_zfsPool rc @ ''/vms'')
        (zfs_names (known_or [] (used (fst s) (rc_zfsPool rc @ ''/vms'')))) @
      dataset_views (filled tasks) ''zfs_workspace'' (rc_zfsPool rc @ ''/workspaces'')
        (zfs_names (known_or [] (used (fst s) (rc_zfsPool rc @ ''/workspaces'')))) @ leases)"
proof -
  let ?h = "listing_host v used acts" and ?st = "filled tasks" and ?d = "rc_vmDir rc"
  have st: "\<forall>i x. map_of ?st i = Some x \<longrightarrow> x \<noteq> ''orphan''" using assms filled_Some by fastforce
  obtain ds where ds: "dash_collectVMDirs ?h ?d ?st s = (Inr ds, s)"
      "map dview ds = shown_dirs ''vm'' v (fst s) ?d tasks"
    using dash_dirs_at [OF st] by (fastforce simp: dash_collectVMDirs_def read_at shown_dirs_def dirs_at_def filled_None)
  obtain m where m: "dash_buildTapToTaskMap ?h ?d s = (Inr m, s)"
      "\<forall>t. map_of m t = tap_owner_at v (fst s) ?d (dirs_at v (fst s) ?d) t"
    using tap_map_at [of v used acts ?d s] by (auto simp: dash_buildTapToTaskMap_def)
  let ?ts = "List.map_filter (tap_resource m ?st) (scanned (known_or [] (v_links v (fst s))))"
  have ts: "dash_collectTapInterfaces ?h ?d ?st s = (Inr ?ts, s)"
    by (simp add: dash_collectTapInterfaces_def call_Inr [where m = "dash_buildTapToTaskMap _ _", OF m(1)] read_at parseTapOutput_def)
  obtain xs where xs: "dash_collectZFSDatasetsFromPath ?h (rc_zfsPool rc @ ''/vms'') ''zfs_vm'' ?st s = (Inr xs, s)"
      "map dview xs = dataset_views ?st ''zfs_vm'' (rc_zfsPool rc @ ''/vms'')
        (zfs_names (known_or [] (used (fst s) (rc_zfsPool rc @ ''/vms''))))"
    using datasets_views [OF st] unfolding dataset_views_def by blast
  obtain ys where ys: "dash_collectZFSDatasetsFromPath ?h (rc_zfsPool rc @ ''/workspaces'') ''zfs_workspace'' ?st s = (Inr ys, s)"
      "map dview ys = dataset_views ?st ''zfs_workspace'' (rc_zfsPool rc @ ''/workspaces'')
        (zfs_names (known_or [] (used (fst s) (rc_zfsPool rc @ ''/workspaces''))))"
    using datasets_views [OF st] unfolding dataset_views_def by blast
  have zs: "dash_collectZFSDatasets ?h (rc_zfsPool rc) ?st s = (Inr (xs @ ys), s)"
    by (simp add: dash_collectZFSDatasets_def call_Inr [where m = "dash_collectZFSDatasetsFromPath _ _ _ _", OF xs(1)]
        call_Inr [where m = "dash_collectZFSDatasetsFromPath _ _ _ _", OF ys(1)])
  obtain ls where ls: "dash_collectDHCPLeases ?h now (rc_leaseFile rc) ?st s = (Inr ls, s)" "\<forall>x \<in> set ls. fst (dview x) = ''dhcp''"
    by (fastforce simp: dash_collectDHCPLeases_def read_at lease_resource_def List.map_filter_def
        split: option.splits list.splits)
  show ?thesis
    by (intro exI [of _ "ds @ ?ts @ (xs @ ys) @ ls"] conjI exI [of _ "map dview ls"])
      (simp_all add: dash_Collect_def Let_def call_Inr [where m = "dash_collectVMDirs _ _ _", OF ds(1)]
        call_Inr [where m = "dash_collectTapInterfaces _ _ _", OF ts] call_Inr [where m = "dash_collectZFSDatasets _ _ _", OF zs]
        call_Inr [where m = "dash_collectDHCPLeases _ _ _ _", OF ls(1)] ls(2) ds(2) xs(2) ys(2) tap_views(1) [OF st m(2)] shown_taps_def taps_in_def)
qed

definition answered :: "goerr + (string \<times> string) list \<Rightarrow> (string \<times> string) list" where
  "answered daemon = (case daemon of Inl _ \<Rightarrow> [] | Inr tasks \<Rightarrow> tasks)"

lemma task_infos_at: "\<exists>infos. task_infos (listing_host v used acts) d macs ts s = (Inr infos, s)"
proof (induction ts)
  case (Cons x ts)
  then obtain infos where "task_infos (listing_host v used acts) d macs ts s = (Inr infos, s)" by blast
  then show ?case by (cases x) (simp add: read_at call_Inr [where m = "task_infos _ _ _ _"])
qed simp

lemma resources_cmd_at:
  assumes "\<forall>(i, x) \<in> set (answered daemon). x \<noteq> ''orphan''"
  shows "\<exists>infos leases rs. resources_cmd (listing_host v used acts) cfg leaseFile daemon s = (Inr (infos, leases, rs), s) \<and>
    map cview rs =
      shown_dirs ''vm-dir'' v (fst s) (gc_vmDir cfg) (answered daemon) @
      dataset_views (filled (answered daemon)) ''zfs-vm'' (gc_vms cfg) (zfs_names (known_or [] (used (fst s) (gc_vms cfg)))) @
      dataset_views (filled (answered daemon)) ''zfs-workspace'' (gc_workspaces cfg)
        (zfs_names (known_or [] (used (fst s) (gc_workspaces cfg)))) @
      shown_taps v (fst s) (gc_vmDir cfg) (answered daemon)"
proof -
  let ?h = "listing_host v used acts" and ?ids = "filled (answered daemon)" and ?d = "gc_vmDir cfg"
  have ids: "\<forall>i x. map_of ?ids i = Some x \<longrightarrow> x \<noteq> ''orphan''" using assms filled_Some by fastforce
  obtain leases macs where l: "loadDHCPLeases ?h leaseFile s = (Inr (leases, macs), s)"
    by (simp add: loadDHCPLeases_def read_at Let_def)
  obtain infos where i: "collectFromDaemon ?h ?d macs daemon s = (Inr (?ids, infos), s)"
  proof (cases daemon)
    case (Inl e)
    with that show ?thesis by (simp add: collectFromDaemon_def answered_def filled_def)
  next
    case (Inr tasks)
    obtain infos where "task_infos ?h ?d macs tasks s = (Inr infos, s)" using task_infos_at by blast
    with Inr that show ?thesis by (simp add: collectFromDaemon_def answered_def call_Inr [where m = "task_infos _ _ _ _"])
  qed
  obtain ds where ds: "cli_collectVMDirs ?h ?d ?ids macs s = (Inr ds, s)"
      "map cview ds = shown_dirs ''vm-dir'' v (fst s) ?d (answered daemon)"
    using cli_dirs_at [of v used acts ?d ?ids macs "known_or [] (v_dir v (fst s) ?d)" s]
    by (fastforce simp: cli_collectVMDirs_def read_at shown_dirs_def dirs_at_def filled_None)
  obtain xs where xs: "cli_collectZFSDatasetsFromPath ?h (gc_vms cfg) ''zfs-vm'' ?ids s = (Inr xs, s)"
      "map cview xs = dataset_views ?ids ''zfs-vm'' (gc_vms cfg) (zfs_names (known_or [] (used (fst s) (gc_vms cfg))))"
    using cli_datasets_views unfolding dataset_views_def by blast
  obtain ys where ys: "cli_collectZFSDatasetsFromPath ?h (gc_workspaces cfg) ''zfs-workspace'' ?ids s = (Inr ys, s)"
      "map cview ys = dataset_views ?ids ''zfs-workspace'' (gc_workspaces cfg) (zfs_names (known_or [] (used (fst s) (gc_workspaces cfg))))"
    using cli_datasets_views unfolding dataset_views_def by blast
  have zs: "cli_collectZFSDatasets ?h cfg ?ids s = (Inr (xs @ ys), s)"
    by (simp add: cli_collectZFSDatasets_def call_Inr [where m = "cli_collectZFSDatasetsFromPath _ _ _ _", OF xs(1)]
        call_Inr [where m = "cli_collectZFSDatasetsFromPath _ _ _ _", OF ys(1)])
  obtain m where m: "cli_buildTapToTaskMap ?h ?d s = (Inr m, s)"
      "\<forall>t. map_of m t = tap_owner_at v (fst s) ?d (dirs_at v (fst s) ?d) t"
    using tap_map_at [of v used acts ?d s] by (auto simp: cli_buildTapToTaskMap_def)
  let ?ts = "List.map_filter (cli_tap m ?ids) (scanned (known_or [] (v_links v (fst s))))"
  have ts: "cli_collectTapInterfaces ?h ?d ?ids s = (Inr ?ts, s)"
    by (simp add: cli_collectTapInterfaces_def call_Inr [where m = "cli_buildTapToTaskMap _ _", OF m(1)] read_at)
  show ?thesis
    by (intro exI [of _ infos] exI [of _ leases] exI [of _ "ds @ (xs @ ys) @ ?ts"] conjI)
      (simp_all add: resources_cmd_def call_Inr [where m = "loadDHCPLeases _ _", OF l] call_Inr [where m = "collectFromDaemon _ _ _ _", OF i]
        call_Inr [where m = "cli_collectVMDirs _ _ _ _", OF ds(1)] call_Inr [where m = "cli_collectZFSDatasets _ _ _", OF zs]
        call_Inr [where m = "cli_collectTapInterfaces _ _ _", OF ts] ds(2) xs(2) ys(2) tap_views(2) [OF ids m(2)] shown_taps_def taps_in_def)
qed

section \<open>The listings agree\<close>

lemma orphans_datasets [simp]:
  "orphans ty (dataset_views st ty base ns) = map base_name (filter (\<lambda>n. n \<noteq> base \<and> map_of st (base_name n) = None) ns)"
  "t \<noteq> ty \<Longrightarrow> orphans ty (dataset_views st t base ns) = []"
  by (simp_all add: dataset_views_def conj_commute)

lemma orphans_shown [simp]:
  "orphans ty (shown_dirs t v w d tasks) = (if t = ty then filter (\<lambda>n. n \<notin> fst ` set tasks) (dirs_at v w d) else [])"
  "orphans ty (shown_taps v w d tasks) = (if ''tap'' = ty then
     filter (\<lambda>t. \<forall>i. tap_owner_at v w d (dirs_at v w d) t = Some i \<longrightarrow> i \<notin> fst ` set tasks) (taps_in (known_or [] (v_links v w)))
   else [])"
  by (auto simp: shown_dirs_def shown_taps_def tap_orphan_def filled_None intro!: filter_cong split: option.split)

lemma orphans_Nil [simp]: "orphans ty [] = []"
  by (simp add: orphans_def)

lemma orphans_none: "\<forall>x \<in> set vs. fst x \<noteq> ty \<Longrightarrow> orphans ty vs = []"
  by (auto simp: orphans_def filter_empty_conv)

text \<open>The hypotheses: the dashboard looks where the configuration says, both \<open>zfs list\<close> commands name the same
  datasets, and no task has the status \<open>orphan\<close>.\<close>

definition listings_comparable ::
    "'w host_view \<Rightarrow> ('w \<Rightarrow> string \<Rightarrow> goerr + string) \<Rightarrow> gc_config \<Rightarrow> resource_collector \<Rightarrow> (string \<times> string) list \<Rightarrow> 'w \<Rightarrow> bool" where
  "listings_comparable v used cfg rc tasks w \<longleftrightarrow>
     rc_vmDir rc = gc_vmDir cfg \<and> gc_vms cfg = rc_zfsPool rc @ ''/vms'' \<and> gc_workspaces cfg = rc_zfsPool rc @ ''/workspaces'' \<and>
     (\<forall>base \<in> {gc_vms cfg, gc_workspaces cfg}. zfs_names (known_or [] (used w base)) = datasets_in v w base) \<and>
     (\<forall>(i, x) \<in> set tasks. x \<noteq> ''orphan'')"

definition plan_orphans :: "'w host_view \<Rightarrow> gc_config \<Rightarrow> 'w \<Rightarrow> string \<Rightarrow> string list \<Rightarrow> string list" where
  "plan_orphans v cfg w ty ns =
     (if ty = ''vm-dir'' then filter (\<lambda>n. \<not> running_at v w (path_join [gc_vmDir cfg, n])) ns else ns)"


text \<open>A host with a directory, a dataset and a TAP device of the task \<open>a\<close> and of an unknown VM \<open>b\<close>.\<close>

definition two_vms :: "unit host_view" where
  "two_vms =
     \<lparr>v_dir = (\<lambda>_ p. Inr [(''a'', True), (''b'', True)]),
      v_file = (\<lambda>_ p. Inr (if p = ''/v/a/tap_name'' then Some ''tap-a'' else None)),
      v_zfs = (\<lambda>_ base. Inr (base @ newline @ base @ ''/a'' @ newline @ base @ ''/b'' @ newline)),
      v_links = (\<lambda>_. Inr (''1: tap-a: up'' @ newline @ ''2: tap-b: up'' @ newline)),
      v_alive = (\<lambda>_ _. Inr False)\<rparr>"

definition two_vms_used :: "unit \<Rightarrow> string \<Rightarrow> goerr + string" where
  "two_vms_used _ base = Inr (base @ '' 3G'' @ newline @ base @ ''/a 1G'' @ newline @ base @ ''/b 2G'' @ newline)"


end
