(* ===== verification/Dashboard.thy ===== *)
theory Dashboard
  imports Grpc Shell Feeds Resources
begin

text \<open>
  The dashboard's way into the daemon: the facade over the task manager
  (\<open>pkg/daemon/dashboard_facade.go\<close>), the adapter to the interface of the dashboard
  (\<open>pkg/dashboard/adapter.go\<close>, \<open>daemon.go\<close>) and the handlers of
  \<open>pkg/dashboard/server.go\<close> that read or change tasks. Requests run exactly the operation
  of the task manager they name, but for one: no request restores a snapshot.
\<close>

section \<open>The facade\<close>

text \<open>The types of the dashboard's side of the interface.\<close>

record daemon_task =
  dt_id :: string
  dt_name :: string
  dt_command :: string
  dt_status :: string
  dt_vm_id :: string
  dt_owner :: string
  dt_backend :: string
  dt_hostname :: string
  dt_created_at :: nat
  dt_stopped_at :: "nat option"

record daemon_create_request =
  dq_name :: string
  dq_command :: "string list"
  dq_cpus :: "32 word"
  dq_memory_mb :: "32 word"
  dq_env :: "(string \<times> string) list"
  dq_no_tailscale :: bool

text \<open>The task manager may be missing. \<open>fa_read\<close> reads a file, \<open>fa_dhcp\<close> the lease file of the
  DHCP server, if there is one.\<close>

record 'e facade =
  fa_tasks :: "'e services option"
  fa_backend :: string
  fa_read :: "string \<Rightarrow> ('e env, string) op"
  fa_dhcp :: "('e env, goerr + string) op option"

definition with_manager :: "'e facade \<Rightarrow> ('e services \<Rightarrow> ('e daemon, 'a) op) \<Rightarrow> ('e daemon, 'a) op" where
  "with_manager f k = (case fa_tasks f of None \<Rightarrow> fail (Msg ''TaskManager not available'') | Some sv \<Rightarrow> k sv)"

definition convertToDashboardTask :: "'e facade \<Rightarrow> task \<Rightarrow> daemon_task" where
  "convertToDashboardTask f t =
     \<lparr>dt_id = ID t, dt_name = Name t, dt_command = Command t, dt_status = Status t, dt_vm_id = VMID t, dt_owner = [],
      dt_backend = fa_backend f, dt_hostname = TailscaleHostname t, dt_created_at = CreatedAt t, dt_stopped_at = StoppedAt t\<rparr>"

definition facade_ListTasks :: "'e facade \<Rightarrow> string \<Rightarrow> ('e daemon, daemon_task list) op" where
  "facade_ListTasks f status =
     call (on_store (state_ListTasks status)) (\<lambda>ts. ok (map (convertToDashboardTask f) ts))"

text \<open>A missing task is recognised by the text of the error.\<close>

definition facade_GetTask :: "'e facade \<Rightarrow> texts \<Rightarrow> string \<Rightarrow> ('e daemon, daemon_task option) op" where
  "facade_GetTask f tx i =
     with_manager f (\<lambda>_. attempt (admitted_task i) (\<lambda>r. case r of
       Inl e \<Rightarrow> if contains (text_error tx e) ''not found'' then ok None else fail e
     | Inr t \<Rightarrow> ok (Some (convertToDashboardTask f t))))"

definition facade_CreateTask :: "'e facade \<Rightarrow> daemon_create_request \<Rightarrow> string \<Rightarrow> nat \<Rightarrow> ('e daemon, daemon_task) op" where
  "facade_CreateTask f req i now =
     with_manager f (\<lambda>sv.
     call (tm_CreateTask sv
       \<lparr>rq_name = dq_name req, rq_command = dq_command req, rq_env = dq_env req, rq_cpus = dq_cpus req,
        rq_memory = dq_memory_mb req, rq_no_tailscale = dq_no_tailscale req, rq_authkey = [], rq_ssh_keys = [],
        rq_dotenv = [], rq_image = []\<rparr> i now) (\<lambda>t. ok (convertToDashboardTask f t)))"

definition facade_StopTask :: "'e facade \<Rightarrow> nat \<Rightarrow> string \<Rightarrow> ('e daemon, unit) op" where
  "facade_StopTask f now i = with_manager f (\<lambda>sv. stopTaskLocked sv now i)"

definition facade_RestartTask :: "'e facade \<Rightarrow> nat \<Rightarrow> string \<Rightarrow> ('e daemon, unit) op" where
  "facade_RestartTask f now i = with_manager f (\<lambda>sv. restartTaskLocked sv now i)"

definition facade_DestroyTask :: "'e facade \<Rightarrow> string \<Rightarrow> ('e daemon, unit) op" where
  "facade_DestroyTask f i = with_manager f (\<lambda>sv. destroyTaskLocked sv i)"

definition facade_ListTaskSnapshots :: "'e facade \<Rightarrow> string \<Rightarrow> ('e daemon, (string \<times> nat) list) op" where
  "facade_ListTaskSnapshots f i = with_manager f (\<lambda>_. tm_ListRecordedSnapshots i)"

definition facade_CreateSnapshot :: "'e facade \<Rightarrow> nat \<Rightarrow> string \<Rightarrow> string \<Rightarrow> ('e daemon, string) op" where
  "facade_CreateSnapshot f now i label = with_manager f (\<lambda>sv. tm_CreateSnapshot sv now i label)"

definition facade_RestoreSnapshot :: "'e facade \<Rightarrow> nat \<Rightarrow> string \<Rightarrow> string \<Rightarrow> ('e daemon, unit) op" where
  "facade_RestoreSnapshot f now i name = with_manager f (\<lambda>sv. tm_RestoreSnapshot sv now i name)"

definition tm_GetVMMAC :: "'e facade \<Rightarrow> 'e services \<Rightarrow> string \<Rightarrow> string \<Rightarrow> ('e daemon, string) op" where
  "tm_GetVMMAC f sv namespace vmID =
     call_wrap ''failed to read MAC address''
       (on_world (fa_read f (path_join [sv_data_dir sv, ''vms'', namespace, vmID, ''mac_addr'']))) (\<lambda>data. ok (trim_space data))"

definition tm_GetVMIP :: "'e facade \<Rightarrow> 'e services \<Rightarrow> string \<Rightarrow> string \<Rightarrow> ('e daemon, string) op" where
  "tm_GetVMIP f sv namespace vmID =
     call (tm_GetVMMAC f sv namespace vmID) (\<lambda>mac.
     case fa_dhcp f of
       None \<Rightarrow> fail (Msg ''DHCP server not available'')
     | Some leases \<Rightarrow> call (on_world leases) (\<lambda>file.
         case GetIPForMAC file mac of
           None \<Rightarrow> fail (Msg (''no DHCP lease found for MAC '' @ mac))
         | Some ip \<Rightarrow> ok ip))"

definition facade_GetVMIP :: "'e facade \<Rightarrow> string \<Rightarrow> ('e daemon, string) op" where
  "facade_GetVMIP f i = with_manager f (\<lambda>sv. tm_GetVMIP f sv ''stockyard'' i)"

definition facade_GetVMCID :: "'e facade \<Rightarrow> string \<Rightarrow> ('e daemon, 32 word) op" where
  "facade_GetVMCID f i = with_manager f (\<lambda>_. tm_GetVMCID i)"

definition facade_GetVsockPath :: "'e facade \<Rightarrow> string \<Rightarrow> ('e daemon, string) op" where
  "facade_GetVsockPath f i = with_manager f (\<lambda>_. tm_GetVsockPath i)"

section \<open>The adapter\<close>

record view_task =
  vt_id :: string
  vt_name :: string
  vt_status :: string
  vt_owner :: string
  vt_tailscale_host :: string
  vt_backend :: string
  vt_vm_id :: string
  vt_created_at :: nat
  vt_stopped_at :: "nat option"

record view_snapshot =
  vs_name :: string
  vs_task :: string
  vs_label :: string
  vs_created_at :: nat

definition convertTask :: "daemon_task \<Rightarrow> view_task" where
  "convertTask dt =
     \<lparr>vt_id = dt_id dt, vt_name = dt_name dt, vt_status = dt_status dt, vt_owner = dt_owner dt,
      vt_tailscale_host = dt_hostname dt, vt_backend = dt_backend dt, vt_vm_id = dt_vm_id dt,
      vt_created_at = dt_created_at dt, vt_stopped_at = dt_stopped_at dt\<rparr>"

definition convertSnapshot :: "string \<Rightarrow> string \<times> nat \<Rightarrow> view_snapshot" where
  "convertSnapshot taskID ds = \<lparr>vs_name = fst ds, vs_task = taskID, vs_label = [], vs_created_at = snd ds\<rparr>"

text \<open>What the dashboard needs of the daemon: \<open>DaemonAPI\<close>.\<close>

record 'd daemon_api =
  api_ListTasks :: "('d, view_task list) op"
  api_GetTask :: "string \<Rightarrow> ('d, view_task option) op"
  api_CreateTask :: "daemon_create_request \<Rightarrow> ('d, view_task) op"
  api_StopTask :: "string \<Rightarrow> ('d, unit) op"
  api_RestartTask :: "string \<Rightarrow> ('d, unit) op"
  api_DestroyTask :: "string \<Rightarrow> ('d, unit) op"
  api_ListSnapshots :: "string \<Rightarrow> ('d, view_snapshot list) op"
  api_CreateSnapshot :: "string \<Rightarrow> string \<Rightarrow> ('d, view_snapshot) op"
  api_RestoreSnapshot :: "string \<Rightarrow> string \<Rightarrow> ('d, unit) op"
  api_GetVMIP :: "string \<Rightarrow> ('d, string) op"
  api_GetVMCID :: "string \<Rightarrow> ('d, 32 word) op"
  api_GetVsockPath :: "string \<Rightarrow> ('d, string) op"

text \<open>\<open>i\<close> is the identifier the next created task gets, \<open>now\<close> the time of the request.\<close>

definition adapter :: "'e facade \<Rightarrow> texts \<Rightarrow> string \<Rightarrow> nat \<Rightarrow> 'e daemon daemon_api" where
  "adapter f tx i now =
     \<lparr>api_ListTasks = call (facade_ListTasks f []) (\<lambda>ts. ok (map convertTask ts)),
      api_GetTask = (\<lambda>t. call (facade_GetTask f tx t) (\<lambda>dt. ok (map_option convertTask dt))),
      api_CreateTask = (\<lambda>req. call (facade_CreateTask f req i now) (\<lambda>dt. ok (convertTask dt))),
      api_StopTask = facade_StopTask f now,
      api_RestartTask = facade_RestartTask f now,
      api_DestroyTask = facade_DestroyTask f,
      api_ListSnapshots = (\<lambda>t. call (facade_ListTaskSnapshots f t) (\<lambda>ss. ok (map (convertSnapshot t) ss))),
      api_CreateSnapshot = (\<lambda>t label. call (facade_CreateSnapshot f now t label) (\<lambda>name.
        ok \<lparr>vs_name = name, vs_task = t, vs_label = label, vs_created_at = now\<rparr>)),
      api_RestoreSnapshot = facade_RestoreSnapshot f now,
      api_GetVMIP = facade_GetVMIP f,
      api_GetVMCID = facade_GetVMCID f,
      api_GetVsockPath = facade_GetVsockPath f\<rparr>"

section \<open>Answers\<close>

text \<open>The status, the headers the handler sets itself, and the body.\<close>

record response =
  re_code :: nat
  re_headers :: "(string \<times> string) list"
  re_body :: string

definition http_error :: "string \<Rightarrow> nat \<Rightarrow> response" where
  "http_error msg code = \<lparr>re_code = code, re_headers = [], re_body = msg @ newline\<rparr>"

definition not_found_page :: response where
  "not_found_page = http_error ''404 page not found'' 404"

definition unavailable :: response where
  "unavailable = http_error ''Service unavailable'' 503"

definition done_with :: "string \<Rightarrow> string \<Rightarrow> response" where
  "done_with header value = \<lparr>re_code = 200, re_headers = [(header, value)], re_body = []\<rparr>"

definition json_answer :: "json \<Rightarrow> response" where
  "json_answer v = \<lparr>re_code = 200, re_headers = [(''Content-Type'', ''application/json'')], re_body = marshal v @ newline\<rparr>"

type_synonym 'd handler = "'d \<Rightarrow> response \<times> 'd"

definition respond_to :: "('d, 'a) op \<Rightarrow> (goerr \<Rightarrow> response) \<Rightarrow> ('a \<Rightarrow> response) \<Rightarrow> 'd handler" where
  "respond_to m bad good = (\<lambda>d. case m d of (Inl e, d') \<Rightarrow> (bad e, d') | (Inr a, d') \<Rightarrow> (good a, d'))"

section \<open>Changing tasks\<close>

definition handleAPIVM :: "'d daemon_api option \<Rightarrow> texts \<Rightarrow> string \<Rightarrow> string \<Rightarrow> string \<Rightarrow> 'd handler" where
  "handleAPIVM api tx meth url label =
     (case api of
        None \<Rightarrow> (\<lambda>d. (unavailable, d))
      | Some a \<Rightarrow>
          (let parts = split_byte (CHR ''/'') (trim_prefix url ''/api/vm/'') in
           if parts = [] \<or> hd parts = [] then (\<lambda>d. (not_found_page, d))
           else
             (let i = hd parts; action = (if 1 < length parts then parts ! 1 else []) in
              if meth = ''POST'' \<and> action = ''stop'' then
                respond_to (api_StopTask a i) (\<lambda>_. http_error ''Failed to stop task'' 500) (\<lambda>_. done_with ''HX-Redirect'' ''/'')
              else if meth = ''POST'' \<and> action = ''restart'' then
                respond_to (api_RestartTask a i) (\<lambda>_. http_error ''Failed to restart task'' 500) (\<lambda>_. done_with ''HX-Refresh'' ''true'')
              else if meth = ''DELETE'' \<and> action = [] then
                respond_to (api_DestroyTask a i) (\<lambda>_. http_error ''Failed to destroy task'' 500) (\<lambda>_. done_with ''HX-Redirect'' ''/'')
              else if meth = ''POST'' \<and> action = ''snapshots'' then
                respond_to (api_CreateSnapshot a i label) (\<lambda>_. http_error ''Failed to create snapshot'' 500)
                  (\<lambda>_. done_with ''HX-Refresh'' ''true'')
              else if meth = ''POST'' \<and> 3 \<le> length parts \<and> parts ! 1 = ''snapshots'' \<and> last parts = ''restore'' then
                respond_to (api_RestoreSnapshot a i (parts ! 2)) (\<lambda>e. http_error (''Failed to restore snapshot: '' @ text_error tx e) 500)
                  (\<lambda>_. done_with ''HX-Refresh'' ''true'')
              else (\<lambda>d. (not_found_page, d)))))"

text \<open>The body of a creation; members that are missing or null leave the zero value.\<close>

record create_body =
  cb_name :: string
  cb_command :: "string list option"
  cb_cpus :: int
  cb_memory_mb :: int
  cb_env :: "(string \<times> string) list"
  cb_no_tailscale :: bool

definition to_int32 :: "int \<Rightarrow> json \<Rightarrow> int option" where
  "to_int32 old v = (case v of JNum t \<Rightarrow> parse_int 32 t | JNull \<Rightarrow> Some old | _ \<Rightarrow> None)"

definition to_bool :: "bool \<Rightarrow> json \<Rightarrow> bool option" where
  "to_bool old v = (case v of JBool b \<Rightarrow> Some b | JNull \<Rightarrow> Some old | _ \<Rightarrow> None)"

definition body_field :: "string \<Rightarrow> json \<Rightarrow> create_body \<Rightarrow> create_body option" where
  "body_field k v b =
     (let k' = to_lower k in
      if k' = ''name'' then map_option (\<lambda>x. b\<lparr>cb_name := x\<rparr>) (to_string (cb_name b) v)
      else if k' = ''command'' then map_option (\<lambda>x. b\<lparr>cb_command := x\<rparr>) (to_strings v)
      else if k' = ''cpus'' then map_option (\<lambda>x. b\<lparr>cb_cpus := x\<rparr>) (to_int32 (cb_cpus b) v)
      else if k' = ''memory_mb'' then map_option (\<lambda>x. b\<lparr>cb_memory_mb := x\<rparr>) (to_int32 (cb_memory_mb b) v)
      else if k' = ''env'' then
        (case v of JNull \<Rightarrow> Some (b\<lparr>cb_env := []\<rparr>) | JObj ms \<Rightarrow> map_option (\<lambda>x. b\<lparr>cb_env := x\<rparr>) (to_env ms (cb_env b)) | _ \<Rightarrow> None)
      else if k' = ''no_tailscale'' then map_option (\<lambda>x. b\<lparr>cb_no_tailscale := x\<rparr>) (to_bool (cb_no_tailscale b) v)
      else Some b)"

fun body_fields :: "(string \<times> json) list \<Rightarrow> create_body \<Rightarrow> create_body option" where
  "body_fields [] b = Some b"
| "body_fields ((k, v) # ms) b = (case body_field k v b of None \<Rightarrow> None | Some b' \<Rightarrow> body_fields ms b')"

text \<open>\<open>Decoder.Decode\<close> reads one value and leaves what follows it.\<close>

definition decode_body :: "string \<Rightarrow> create_body option" where
  "decode_body data =
     (let zero = \<lparr>cb_name = [], cb_command = None, cb_cpus = 0, cb_memory_mb = 0, cb_env = [], cb_no_tailscale = False\<rparr> in
      case parse_value (2 * length data + 2) data of
        Some (JObj ms, _) \<Rightarrow> body_fields ms zero
      | Some (JNull, _) \<Rightarrow> Some zero
      | _ \<Rightarrow> None)"

definition body_request :: "create_body \<Rightarrow> daemon_create_request" where
  "body_request b =
     \<lparr>dq_name = cb_name b, dq_command = (case cb_command b of None \<Rightarrow> [] | Some c \<Rightarrow> c),
      dq_cpus = word_of_int (if cb_cpus b = 0 then 2 else cb_cpus b),
      dq_memory_mb = word_of_int (if cb_memory_mb b = 0 then 4096 else cb_memory_mb b),
      dq_env = cb_env b, dq_no_tailscale = cb_no_tailscale b\<rparr>"

definition handleAPIVMCreate :: "'d daemon_api option \<Rightarrow> texts \<Rightarrow> string \<Rightarrow> string \<Rightarrow> 'd handler" where
  "handleAPIVMCreate api tx meth data =
     (if meth \<noteq> ''POST'' then (\<lambda>d. (http_error ''Method not allowed'' 405, d))
      else case api of
        None \<Rightarrow> (\<lambda>d. (unavailable, d))
      | Some a \<Rightarrow> (case decode_body data of
          None \<Rightarrow> (\<lambda>d. (http_error ''Invalid JSON'' 400, d))
        | Some b \<Rightarrow> respond_to (api_CreateTask a (body_request b)) (\<lambda>e. http_error (text_error tx e) 500)
            (\<lambda>t. json_answer (JObj [(''id'', JStr (vt_id t)), (''status'', JStr (vt_status t))]))))"

section \<open>Pages\<close>

text \<open>The data of the pages. A template is looked up by its name; carrying it out may fail.\<close>

datatype page_data =
    FleetPage (fp_tasks: "view_task list") (fp_groups: "(string \<times> view_task list) list") (fp_activity: nat) (fp_alerts: nat)
  | DetailPage view_task "view_snapshot list"
  | PreviewPage view_task "view_snapshot list"
  | ErrorPage nat string string
  | ActivityPage "activity_event list"
  | ResourcesPage "(string \<times> resource list) list" nat nat

type_synonym templates = "string \<Rightarrow> (page_data \<Rightarrow> string option) option"

definition html :: "nat \<Rightarrow> string \<Rightarrow> response" where
  "html code body = \<lparr>re_code = code, re_headers = [(''Content-Type'', ''text/html'')], re_body = body\<rparr>"

definition render_failed :: response where
  "render_failed = http_error ''Failed to render template'' 500"

definition render_page :: "templates \<Rightarrow> string \<Rightarrow> response \<Rightarrow> page_data \<Rightarrow> response" where
  "render_page tp name fallback data =
     (case tp name of
        None \<Rightarrow> fallback
      | Some run \<Rightarrow> (case run data of None \<Rightarrow> render_failed | Some body \<Rightarrow> html 200 body))"

definition renderError :: "templates \<Rightarrow> string \<Rightarrow> nat \<Rightarrow> string \<Rightarrow> string \<Rightarrow> response" where
  "renderError tp url code title message =
     (if has_prefix url ''/api/'' then http_error message code
      else case tp ''error.html'' of
        None \<Rightarrow> http_error message code
      | Some run \<Rightarrow> (case run (ErrorPage code title message) of None \<Rightarrow> http_error message code | Some body \<Rightarrow> html code body))"

definition group_by :: "('a \<Rightarrow> string) \<Rightarrow> 'a list \<Rightarrow> (string \<times> 'a list) list" where
  "group_by key xs = fold (\<lambda>x m. AList.update (key x) (case map_of m (key x) of None \<Rightarrow> [x] | Some ys \<Rightarrow> ys @ [x]) m) xs []"

definition task_owner :: "view_task \<Rightarrow> string" where
  "task_owner t = (if vt_owner t = [] then ''(unknown)'' else vt_owner t)"

text \<open>\<open>activity\<close> and \<open>alerts\<close> are the counts beside the list.\<close>

definition handleFleet :: "'d daemon_api option \<Rightarrow> templates \<Rightarrow> nat \<Rightarrow> nat \<Rightarrow> string \<Rightarrow> 'd handler" where
  "handleFleet api tp activity alerts url =
     (if url \<noteq> ''/'' then
        (\<lambda>d. (renderError tp url 404 ''Page Not Found'' (''The page you'' @ [CHR 0x27] @ ''re looking for doesn'' @ [CHR 0x27] @ ''t exist.''), d))
      else
        respond_to (case api of None \<Rightarrow> ok [] | Some a \<Rightarrow> api_ListTasks a)
          (\<lambda>_. http_error ''Failed to list tasks'' 500)
          (\<lambda>tasks. render_page tp ''fleet.html''
             \<lparr>re_code = 200, re_headers = [(''Content-Type'', ''text/plain'')],
              re_body = concat (map (\<lambda>t. vt_id t @ '' '' @ vt_status t @ newline) tasks)\<rparr>
             (FleetPage tasks (group_by task_owner tasks) activity alerts)))"

definition vm_missing :: string where
  "vm_missing = ''The VM you'' @ [CHR 0x27] @ ''re looking for doesn'' @ [CHR 0x27] @ ''t exist or has been destroyed.''"

text \<open>The two pages of a VM differ in their path, their template and their data.\<close>

definition vm_page ::
    "string \<Rightarrow> string \<Rightarrow> (view_task \<Rightarrow> view_snapshot list \<Rightarrow> page_data) \<Rightarrow>
     'd daemon_api option \<Rightarrow> templates \<Rightarrow> string \<Rightarrow> 'd handler" where
  "vm_page base name data api tp url =
     (let i = trim_prefix url base in
      if i = [] then (\<lambda>d. (renderError tp url 404 ''VM Not Found'' ''No VM ID was provided.'', d))
      else case api of
        None \<Rightarrow> (\<lambda>d. (unavailable, d))
      | Some a \<Rightarrow> (\<lambda>d. case api_GetTask a i d of
            (Inl _, d') \<Rightarrow> (http_error ''Failed to get task'' 500, d')
          | (Inr None, d') \<Rightarrow> (renderError tp url 404 ''VM Not Found'' vm_missing, d')
          | (Inr (Some t), d') \<Rightarrow>
              (case api_ListSnapshots a i d' of (r, d'') \<Rightarrow>
                (render_page tp name (html 200 (vt_id t @ '' '' @ vt_status t)) (data t (case r of Inl _ \<Rightarrow> [] | Inr ss \<Rightarrow> ss)), d''))))"

definition handleVMDetail :: "'d daemon_api option \<Rightarrow> templates \<Rightarrow> string \<Rightarrow> 'd handler" where
  "handleVMDetail = vm_page ''/vm/'' ''vm_detail.html'' DetailPage"

definition handleVMPreview :: "'d daemon_api option \<Rightarrow> templates \<Rightarrow> string \<Rightarrow> 'd handler" where
  "handleVMPreview = vm_page ''/preview/vm/'' ''vm_preview.html'' PreviewPage"

definition history_json :: "(nat \<Rightarrow> string) \<Rightarrow> log_line \<Rightarrow> json" where
  "history_json stamp l = JObj
     [(''task_id'', JStr (ll_task l)), (''stream'', JStr (ll_stream l)), (''text'', JStr (ll_text l)),
      (''timestamp'', JStr (stamp (ll_time l)))]"

text \<open>A search without a hit gives a nil slice, which is \<open>null\<close> in JSON.\<close>

definition handleLogSearch :: "log_history \<Rightarrow> (nat \<Rightarrow> string) \<Rightarrow> string \<Rightarrow> string \<Rightarrow> string \<Rightarrow> response" where
  "handleLogSearch lh stamp url q stream =
     (let i = trim_prefix url ''/api/vm-logs/'' in
      if i = [] then http_error ''missing task ID'' 400
      else
        (let ls = (if stream \<noteq> [] \<and> stream \<noteq> ''all'' then SearchStream i stream q lh else history_Search i q lh)
         in json_answer (if ls = [] then JNull else JArr (map (history_json stamp) ls))))"

definition handleActivity :: "activity_feed \<Rightarrow> templates \<Rightarrow> response option" where
  "handleActivity feed tp =
     map_option (\<lambda>events. render_page tp ''activity.html'' (html 200 ''Activity page'') (ActivityPage events)) (GetRecent 50 feed)"

definition env_or :: "(string \<Rightarrow> string) \<Rightarrow> string \<Rightarrow> string \<Rightarrow> string" where
  "env_or getenv k d = (if getenv k = [] then d else getenv k)"

definition dashboard_collector :: "(string \<Rightarrow> string) \<Rightarrow> resource_collector" where
  "dashboard_collector getenv =
     \<lparr>rc_vmDir = env_or getenv ''STOCKYARD_VM_DIR'' ''/var/lib/stockyard/vms/stockyard'',
      rc_leaseFile = env_or getenv ''STOCKYARD_LEASE_FILE'' ''/var/lib/stockyard/dnsmasq.leases'',
      rc_zfsPool = env_or getenv ''STOCKYARD_ZFS_POOL'' ''tank/stockyard''\<rparr>"

text \<open>\<open>collect\<close> is the collector on the host.\<close>

definition handleResources ::
    "'d daemon_api option \<Rightarrow> texts \<Rightarrow> templates \<Rightarrow> (string \<Rightarrow> string) \<Rightarrow>
     (resource_collector \<Rightarrow> (string \<times> string) list \<Rightarrow> ('d, resource list) op) \<Rightarrow> 'd handler" where
  "handleResources api tx tp getenv collect =
     (case api of
        None \<Rightarrow> (\<lambda>d. (unavailable, d))
      | Some a \<Rightarrow>
          respond_to (call (api_ListTasks a) (\<lambda>tasks. collect (dashboard_collector getenv) (map (\<lambda>t. (vt_id t, vt_status t)) tasks)))
            (\<lambda>e. http_error (text_error tx e) 500)
            (\<lambda>rs. render_page tp ''resources.html'' (html 200 ''Resources page'')
              (ResourcesPage (group_by rs_type rs) (length (filter (\<lambda>r. rs_status r = ''orphan'') rs)) (length rs))))"

section \<open>What requests do\<close>

lemma split_byte_clean: "b \<notin> set s \<Longrightarrow> split_byte b s = [s]"
  by (induction s) auto

text \<open>The request of the restore button runs the creation of a snapshot, and nothing else ever restores one.\<close>

lemma restore_unreachable:
  "handleAPIVM (Some (a\<lparr>api_RestoreSnapshot := r\<rparr>)) tx meth url label = handleAPIVM (Some a) tx meth url label"
  by (auto simp: handleAPIVM_def Let_def)

text \<open>C12. The dashboard cannot restore a snapshot: the request of its restore button,
  \<open>POST /api/vm/{id}/snapshots/{name}/restore\<close>, is taken for a request to create one, and records a new snapshot of the
  task; and no request at all runs the restoration, whose code is never reached.\<close>

theorem restore_request_takes_snapshot:
  assumes "i \<noteq> []" "CHR ''/'' \<notin> set i"
  shows "handleAPIVM (Some a) tx ''POST'' (''/api/vm/'' @ i @ ''/snapshots/'' @ name @ ''/restore'') label d =
      (case api_CreateSnapshot a i label d of
         (Inl _, d') \<Rightarrow> (http_error ''Failed to create snapshot'' 500, d')
       | (Inr _, d') \<Rightarrow> (done_with ''HX-Refresh'' ''true'', d')) \<and>
    (\<forall>r meth url. handleAPIVM (Some (a\<lparr>api_RestoreSnapshot := r\<rparr>)) tx meth url label = handleAPIVM (Some a) tx meth url label)"
proof
  have parts: "split_byte (CHR ''/'') (trim_prefix (''/api/vm/'' @ i @ ''/snapshots/'' @ name @ ''/restore'') ''/api/vm/'') =
      i # ''snapshots'' # split_byte (CHR ''/'') (name @ ''/restore'')"
    unfolding trim_prefix_append using assms(2) split_byte_sep [of "CHR ''/''" "''snapshots''"] by (simp add: split_byte_sep)
  show "handleAPIVM (Some a) tx ''POST'' (''/api/vm/'' @ i @ ''/snapshots/'' @ name @ ''/restore'') label d =
      (case api_CreateSnapshot a i label d of
         (Inl _, d') \<Rightarrow> (http_error ''Failed to create snapshot'' 500, d')
       | (Inr _, d') \<Rightarrow> (done_with ''HX-Refresh'' ''true'', d'))"
    unfolding handleAPIVM_def option.case parts using assms(1) by (simp add: respond_to_def)
qed (blast intro: restore_unreachable)

text \<open>A service behind the dashboard that counts its snapshots.\<close>

definition counting_api :: "nat daemon_api" where
  "counting_api =
     \<lparr>api_ListTasks = ok [], api_GetTask = (\<lambda>_. ok None), api_CreateTask = (\<lambda>_. fail (Msg ''full'')), api_StopTask = (\<lambda>_. ok ()),
      api_RestartTask = (\<lambda>_. ok ()), api_DestroyTask = (\<lambda>_. ok ()), api_ListSnapshots = (\<lambda>_. ok []),
      api_CreateSnapshot = (\<lambda>t label n. (Inr \<lparr>vs_name = label, vs_task = t, vs_label = label, vs_created_at = n\<rparr>, Suc n)),
      api_RestoreSnapshot = (\<lambda>_ _ n. (Inr (), 0)), api_GetVMIP = (\<lambda>_. ok []), api_GetVMCID = (\<lambda>_. ok 3), api_GetVsockPath = (\<lambda>_. ok [])\<rparr>"

lemma restore_request_takes_snapshot_witness:
  "handleAPIVM (Some counting_api) plain_texts ''POST'' ''/api/vm/a1/snapshots/s/restore'' [] 4 = (done_with ''HX-Refresh'' ''true'', 5)"
  using restore_request_takes_snapshot [of "''a1''" counting_api plain_texts "''s''" "[]" 4] by (simp add: counting_api_def)

section \<open>Requests are operations of the task manager\<close>

text \<open>The answer to an operation: the message and status 500 of a failure, the header of a success.\<close>

definition outcome :: "string \<Rightarrow> string \<times> string \<Rightarrow> ('d, 'a) op \<Rightarrow> 'd handler" where
  "outcome what hdr m = respond_to m (\<lambda>_. http_error (''Failed to '' @ what) 500) (\<lambda>_. done_with (fst hdr) (snd hdr))"

lemma api_parts:
  assumes "CHR ''/'' \<notin> set i"
  shows "split_byte (CHR ''/'') (trim_prefix (''/api/vm/'' @ i) ''/api/vm/'') = [i]"
    and "split_byte (CHR ''/'') (trim_prefix (''/api/vm/'' @ i @ ''/'' @ s) ''/api/vm/'') = i # split_byte (CHR ''/'') s"
  unfolding trim_prefix_append using assms by (simp_all add: split_byte_clean split_byte_sep)

lemma respond_to_call_ok: "respond_to (call m (\<lambda>x. ok (f x))) bad (\<lambda>_. g) = respond_to m bad (\<lambda>_. g)"
  by (rule ext) (simp add: respond_to_def call_def split: prod.split sum.split)

text \<open>C11. The requests of the dashboard that change a task, through the adapter and the facade, run exactly the operation of
  the task manager on the task of the path: they leave the daemon as that operation leaves it, and answer 200 if and only if
  it succeeds. Without a task manager they answer 500 and change nothing.\<close>

theorem dashboard_requests_exact:
  assumes "i \<noteq> []" "CHR ''/'' \<notin> set i"
  shows "let run = (\<lambda>meth url. handleAPIVM (Some (adapter f tx new now)) tx meth (''/api/vm/'' @ i @ url) label d) in
    (case fa_tasks f of
       None \<Rightarrow> (\<forall>(meth, url) \<in> {(''POST'', ''/stop''), (''POST'', ''/restart''), (''DELETE'', []), (''POST'', ''/snapshots'')}.
         re_code (fst (run meth url)) = 500 \<and> snd (run meth url) = d)
     | Some sv \<Rightarrow>
         run ''POST'' ''/stop'' = outcome ''stop task'' (''HX-Redirect'', ''/'') (stopTaskLocked sv now i) d \<and>
         run ''POST'' ''/restart'' = outcome ''restart task'' (''HX-Refresh'', ''true'') (restartTaskLocked sv now i) d \<and>
         run ''DELETE'' [] = outcome ''destroy task'' (''HX-Redirect'', ''/'') (destroyTaskLocked sv i) d \<and>
         run ''POST'' ''/snapshots'' = outcome ''create snapshot'' (''HX-Refresh'', ''true'') (tm_CreateSnapshot sv now i label) d)"
proof -
  have stop: "handleAPIVM (Some (adapter f tx new now)) tx ''POST'' (''/api/vm/'' @ i @ ''/'' @ ''stop'') label =
      outcome ''stop task'' (''HX-Redirect'', ''/'') (facade_StopTask f now i)"
    unfolding handleAPIVM_def option.case api_parts [OF assms(2)] using assms(1) by (simp add: outcome_def adapter_def)
  have restart: "handleAPIVM (Some (adapter f tx new now)) tx ''POST'' (''/api/vm/'' @ i @ ''/'' @ ''restart'') label =
      outcome ''restart task'' (''HX-Refresh'', ''true'') (facade_RestartTask f now i)"
    unfolding handleAPIVM_def option.case api_parts [OF assms(2)] using assms(1) by (simp add: outcome_def adapter_def)
  have delete: "handleAPIVM (Some (adapter f tx new now)) tx ''DELETE'' (''/api/vm/'' @ i) label =
      outcome ''destroy task'' (''HX-Redirect'', ''/'') (facade_DestroyTask f i)"
    unfolding handleAPIVM_def option.case api_parts [OF assms(2)] using assms(1) by (simp add: outcome_def adapter_def)
  have snapshot: "handleAPIVM (Some (adapter f tx new now)) tx ''POST'' (''/api/vm/'' @ i @ ''/'' @ ''snapshots'') label =
      outcome ''create snapshot'' (''HX-Refresh'', ''true'') (facade_CreateSnapshot f now i label)"
    unfolding handleAPIVM_def option.case api_parts [OF assms(2)] using assms(1)
    by (simp add: outcome_def adapter_def respond_to_call_ok)
  show ?thesis
    using stop restart delete snapshot
    by (auto simp: Let_def facade_StopTask_def facade_RestartTask_def facade_DestroyTask_def facade_CreateSnapshot_def with_manager_def
        outcome_def respond_to_def http_error_def split: option.split)
qed

definition crashed_facade :: "unit facade" where
  "crashed_facade = \<lparr>fa_tasks = Some pid_services, fa_backend = ''firecracker'', fa_read = (\<lambda>_. fail (Msg ''no file'')), fa_dhcp = None\<rparr>"

lemma dashboard_requests_exact_witness:
  "re_code (fst (handleAPIVM (Some (adapter crashed_facade plain_texts ''n'' 7)) plain_texts ''POST'' ''/api/vm/c/stop'' [] crashed_daemon)) = 500 \<and>
   handleAPIVM (Some (adapter crashed_facade plain_texts ''n'' 7)) plain_texts ''DELETE'' ''/api/vm/c'' [] crashed_daemon =
     (done_with ''HX-Redirect'' ''/'', crashed_daemon)"
proof -
  have missing: "task_of (store crashed_daemon) ''c'' = None"
    by (auto simp: crashed_daemon_def running_row_def task_of_def scan_task_def find_row_def)
  have good: "scannable (store crashed_daemon)" "db_faults (store crashed_daemon) = []" "ctx (world crashed_daemon) = None"
    by (simp_all add: crashed_daemon_def running_row_def scannable_def)
  note refused = refused_operations [OF admitted_missing [OF good(1,2) missing]]
  show ?thesis
    using dashboard_requests_exact [of "''c''" crashed_facade plain_texts "''n''" 7 "[]" crashed_daemon]
    by (simp add: crashed_facade_def Let_def refused destroy_missing [OF good missing] outcome_def respond_to_def http_error_def)
qed

text \<open>The dashboard finds a task as long as its cleanup is not pending, and tells a missing one from a failure when the text of
  the errors does.\<close>

lemma facade_GetTask_exact:
  assumes "fa_tasks f = Some sv" "scannable (store d)" "db_faults (store d) = []"
    and "contains (text_error tx (not_found i)) ''not found''"
    and "\<not> contains (text_error tx (Sentinel ErrTaskCleanupPending)) ''not found''"
  shows "facade_GetTask f tx i d =
    (case task_of (store d) i of
       None \<Rightarrow> (Inr None, d)
     | Some t \<Rightarrow> (if Status t = TaskStatusCleanupPending then Inl (Sentinel ErrTaskCleanupPending)
         else Inr (Some (convertToDashboardTask f t)), d))"
proof (cases "task_of (store d) i")
  case None
  then show ?thesis
    using assms by (simp add: facade_GetTask_def with_manager_def attempt_def admitted_missing)
next
  case (Some t)
  then show ?thesis
    using assms by (simp add: facade_GetTask_def with_manager_def attempt_def admitted_refuses admitted_admits)
qed

end
