(* ===== verification/Command_Line.thy ===== *)
theory Command_Line
  imports Grpc
begin

text \<open>
  The commands of \<open>cmd/stockyard\<close> that talk to the daemon, and the client they use
  (\<open>pkg/client\<close>). A command prints and calls the daemon; what it prints is part of its state.
  Destruction is asked for only as the command's own rules say, its confirmation can be pasted into a shell,
  and \<open>task-presence\<close> reports the row of the database through the API.
\<close>

section \<open>The client\<close>

text \<open>What a call of the client does to the daemon; a response may lack its task.\<close>

record 'd api_client =
  cl_CreateTask :: "create_task_request \<Rightarrow> 'd \<Rightarrow> (rpc_status + string \<times> string) \<times> 'd"
  cl_GetTask :: "string \<Rightarrow> 'd \<Rightarrow> (rpc_status + task_message option) \<times> 'd"
  cl_ListTasks :: "string \<Rightarrow> 'd \<Rightarrow> (rpc_status + task_message list) \<times> 'd"
  cl_ListImages :: "'d \<Rightarrow> (rpc_status + image_info list) \<times> 'd"
  cl_ImportImage :: "string \<Rightarrow> string \<Rightarrow> string \<Rightarrow> 'd \<Rightarrow> (rpc_status + unit) \<times> 'd"
  cl_RemoveImage :: "string \<Rightarrow> 'd \<Rightarrow> (rpc_status + unit) \<times> 'd"
  cl_StopTask :: "string \<Rightarrow> 'd \<Rightarrow> (rpc_status + unit) \<times> 'd"
  cl_RestartTask :: "string \<Rightarrow> 'd \<Rightarrow> (rpc_status + unit) \<times> 'd"
  cl_DestroyTask :: "string \<Rightarrow> 'd \<Rightarrow> (rpc_status + unit) \<times> 'd"
  cl_CreateSnapshot :: "string \<Rightarrow> string \<Rightarrow> 'd \<Rightarrow> (rpc_status + string) \<times> 'd"
  cl_ListSnapshots :: "string \<Rightarrow> 'd \<Rightarrow> (rpc_status + (string \<times> string) list) \<times> 'd"
  cl_RestoreSnapshot :: "string \<Rightarrow> string \<Rightarrow> 'd \<Rightarrow> (rpc_status + unit) \<times> 'd"

definition mapped :: "('a \<Rightarrow> 'b) \<Rightarrow> ('d \<Rightarrow> (rpc_status + 'a) \<times> 'd) \<Rightarrow> 'd \<Rightarrow> (rpc_status + 'b) \<times> 'd" where
  "mapped f m = (\<lambda>d. case m d of (Inl e, d') \<Rightarrow> (Inl e, d') | (Inr x, d') \<Rightarrow> (Inr (f x), d'))"

text \<open>The client of a connected daemon: the handlers of the API, over a transport that carries every call. The listing of
  snapshots has names only.\<close>

definition daemon_client :: "'e grpc_server \<Rightarrow> texts \<Rightarrow> string \<Rightarrow> nat \<Rightarrow> 'e daemon api_client" where
  "daemon_client g tx new now =
     \<lparr>cl_CreateTask = (\<lambda>req. rpc_CreateTask g tx req new now),
      cl_GetTask = (\<lambda>i. mapped Some (rpc_GetTask g tx i)),
      cl_ListTasks = rpc_ListTasks g tx,
      cl_ListImages = rpc_ListImages g tx,
      cl_ImportImage = (\<lambda>name rootfsPath kernelPath. rpc_ImportImage g tx name rootfsPath kernelPath now),
      cl_RemoveImage = rpc_RemoveImage g tx,
      cl_StopTask = (\<lambda>i. rpc_StopTask g tx i now),
      cl_RestartTask = (\<lambda>i. rpc_RestartTask g tx i now),
      cl_DestroyTask = rpc_DestroyTask g tx,
      cl_CreateSnapshot = (\<lambda>i label. rpc_CreateSnapshot g tx i label now),
      cl_ListSnapshots = (\<lambda>i. mapped (map (\<lambda>n. (n, []))) (rpc_ListSnapshots g tx i)),
      cl_RestoreSnapshot = (\<lambda>i name. rpc_RestoreSnapshot g tx i name now)\<rparr>"

definition DefaultSocketPath :: string where
  "DefaultSocketPath = ''/var/run/stockyard/stockyard.sock''"

text \<open>\<open>getenv\<close> is the value of \<open>STOCKYARD_URL\<close>.\<close>

definition ResolveURL :: "string \<Rightarrow> string \<Rightarrow> string \<Rightarrow> string" where
  "ResolveURL getenv flagURL configSocketPath =
     (if flagURL \<noteq> [] then flagURL
      else if getenv \<noteq> [] then getenv
      else if configSocketPath \<noteq> [] then ''unix://'' @ configSocketPath
      else ''unix://'' @ DefaultSocketPath)"

definition ParseURL :: "string \<Rightarrow> goerr + string \<times> bool" where
  "ParseURL rawURL =
     (if rawURL = [] then Inl (Msg ''empty URL'')
      else if has_prefix rawURL ''unix://'' then Inr (rawURL, False)
      else if has_prefix rawURL ''grpcs://'' then Inr (trim_prefix rawURL ''grpcs://'', True)
      else if has_prefix rawURL ''grpc://'' then Inr (trim_prefix rawURL ''grpc://'', False)
      else if contains rawURL ''://'' then
        Inl (Msg (''unsupported URL scheme: '' @ rawURL @ '' (use unix://, grpc://, or grpcs://)''))
      else if contains rawURL '':'' then Inr (rawURL, False)
      else Inl (Msg (''invalid URL: '' @ rawURL @ '' (must include port, e.g., '' @ rawURL @ '':65433)'')))"

section \<open>Commands\<close>

datatype cli_error =
    CliMsg string
  | CliRpc rpc_status
  | CliWrap string cli_error

record 'd tty =
  tty_daemon :: 'd
  tty_out :: string

type_synonym ('d, 'a) cmd = "'d tty \<Rightarrow> (cli_error + 'a) \<times> 'd tty"

definition cmd_return :: "'a \<Rightarrow> ('d, 'a) cmd" where
  "cmd_return a = (\<lambda>s. (Inr a, s))"

definition cmd_fail :: "cli_error \<Rightarrow> ('d, 'a) cmd" where
  "cmd_fail e = (\<lambda>s. (Inl e, s))"

definition cmd_bind :: "('d, 'a) cmd \<Rightarrow> ('a \<Rightarrow> ('d, 'b) cmd) \<Rightarrow> ('d, 'b) cmd" where
  "cmd_bind m k = (\<lambda>s. case m s of (Inl e, s') \<Rightarrow> (Inl e, s') | (Inr a, s') \<Rightarrow> k a s')"

definition println :: "string \<Rightarrow> ('d, unit) cmd" where
  "println t = (\<lambda>s. (Inr (), s\<lparr>tty_out := tty_out s @ t @ newline\<rparr>))"

definition request :: "(cli_error \<Rightarrow> cli_error) \<Rightarrow> ('d \<Rightarrow> (rpc_status + 'a) \<times> 'd) \<Rightarrow> ('d, 'a) cmd" where
  "request wrapping m = (\<lambda>s. case m (tty_daemon s) of
     (Inl e, d) \<Rightarrow> (Inl (wrapping (CliRpc e)), s\<lparr>tty_daemon := d\<rparr>)
   | (Inr a, d) \<Rightarrow> (Inr a, s\<lparr>tty_daemon := d\<rparr>))"

lemmas cmd_defs = cmd_return_def cmd_fail_def cmd_bind_def println_def request_def

text \<open>The client, or the failure to make one.\<close>

definition with_client :: "cli_error + 'd api_client \<Rightarrow> ('d api_client \<Rightarrow> ('d, 'a) cmd) \<Rightarrow> ('d, 'a) cmd" where
  "with_client cl k = (case cl of Inl e \<Rightarrow> cmd_fail e | Inr c \<Rightarrow> k c)"

section \<open>Destroying\<close>

text \<open>A value is shown when it is valid text of printable characters; \<open>uni\<close> decides this for text that is not ASCII.\<close>

definition printable :: "(string \<Rightarrow> bool) \<Rightarrow> string \<Rightarrow> bool" where
  "printable uni v =
     (if list_all (\<lambda>c. c < CHR 0x80) v then list_all (\<lambda>c. CHR '' '' \<le> c \<and> c \<le> CHR ''~'') v else uni v)"

definition quotePOSIXShellArgument :: "(string \<Rightarrow> bool) \<Rightarrow> string \<Rightarrow> string option" where
  "quotePOSIXShellArgument uni v =
     (if \<not> printable uni v then None
      else Some (CHR 0x27 # replace_byte (CHR 0x27) [CHR 0x27, CHR 0x22, CHR 0x27, CHR 0x22, CHR 0x27] v @ [CHR 0x27]))"

text \<open>\<open>qa\<close> is \<open>strconv.QuoteToASCII\<close>; \<open>confirm\<close> is the value of the flag when it was given.\<close>

definition preview_destroy :: "(string \<Rightarrow> bool) \<Rightarrow> (string \<Rightarrow> string) \<Rightarrow> string \<Rightarrow> string \<Rightarrow> ('d, unit) cmd" where
  "preview_destroy uni qa i name =
     cmd_bind (println (''About to destroy task '' @ i @ (if name \<noteq> [] then '' (name '' @ qa name @ '')'' else []) @ '':'')) (\<lambda>_.
     cmd_bind (println (newline @ ''This will delete the VM and all workspace data.'')) (\<lambda>_.
     if name = [] then println ''Run with --force to confirm.''
     else case quotePOSIXShellArgument uni name of
       Some q \<Rightarrow> println (''Add --force --confirm-name='' @ q @ '' to the same command.'')
     | None \<Rightarrow> println (''Task name: '' @ qa name @ ''. Add --force and --confirm-name with that exact value; no pasteable suffix is shown because the name contains non-printing characters.'')))"

definition destroy_cmd ::
    "(string \<Rightarrow> bool) \<Rightarrow> (string \<Rightarrow> string) \<Rightarrow> bool \<Rightarrow> string option \<Rightarrow> cli_error + 'd api_client \<Rightarrow> string \<Rightarrow> ('d, unit) cmd" where
  "destroy_cmd uni qa force confirm cl i =
     with_client cl (\<lambda>c.
     cmd_bind (request (CliWrap ''failed to get task'') (cl_GetTask c i)) (\<lambda>r.
     case r of
       None \<Rightarrow> cmd_fail (CliMsg (''get task '' @ go_quote i @ '' returned an empty task''))
     | Some t \<Rightarrow>
         if tm_id t \<noteq> i then cmd_fail (CliMsg (''get task '' @ go_quote i @ '' returned task '' @ go_quote (tm_id t)))
         else if \<not> force then preview_destroy uni qa i (tm_name t)
         else if confirm \<noteq> None \<and> tm_name t = [] then
           cmd_fail (CliMsg (''refusing to destroy unnamed task '' @ go_quote i @ '': --confirm-name was provided but the task has no name''))
         else if tm_name t \<noteq> [] \<and> (case confirm of None \<Rightarrow> [] | Some x \<Rightarrow> x) \<noteq> tm_name t then
           cmd_fail (CliMsg (''refusing to destroy named task '' @ go_quote i @ '' (name '' @ qa (tm_name t) @ ''): --confirm-name must match exactly''))
         else
           cmd_bind (println (''Destroying task '' @ i @ ''...'')) (\<lambda>_.
           cmd_bind (request (CliWrap ''failed to destroy task'') (cl_DestroyTask c i)) (\<lambda>_.
           println ''Task destroyed.''))))"

section \<open>The presence of a task\<close>

definition presence_json :: "string \<Rightarrow> string \<Rightarrow> string" where
  "presence_json i p = marshal (JObj [(''task_id'', JStr i), (''task_presence'', JStr p)])"

definition writeTaskPresence :: "'d api_client \<Rightarrow> string \<Rightarrow> ('d, unit) cmd" where
  "writeTaskPresence c i = (\<lambda>s. case request id (cl_GetTask c i) s of
       (Inl (CliRpc (code, m)), s') \<Rightarrow>
         if code = NotFound then println (presence_json i ''absent'') s'
         else (Inl (CliWrap (''get task '' @ go_quote i) (CliRpc (code, m))), s')
     | (Inl e, s') \<Rightarrow> (Inl e, s')
     | (Inr None, s') \<Rightarrow> (Inl (CliMsg (''get task '' @ go_quote i @ '' returned an empty task'')), s')
     | (Inr (Some t), s') \<Rightarrow>
         if tm_id t \<noteq> i then (Inl (CliMsg (''get task '' @ go_quote i @ '' returned task '' @ go_quote (tm_id t))), s')
         else println (presence_json i (if tm_status t = ''cleanup_pending'' then ''cleanup_pending'' else ''present'')) s')"

definition task_presence_cmd :: "bool \<Rightarrow> cli_error + 'd api_client \<Rightarrow> string \<Rightarrow> ('d, unit) cmd" where
  "task_presence_cmd jsonOutput cl i =
     (if \<not> jsonOutput then cmd_fail (CliMsg ''task-presence requires --json'')
      else with_client cl (\<lambda>c. writeTaskPresence c i))"

section \<open>The other commands\<close>

definition stop_cmd :: "cli_error + 'd api_client \<Rightarrow> string \<Rightarrow> ('d, unit) cmd" where
  "stop_cmd cl i = with_client cl (\<lambda>c.
     cmd_bind (println (''Stopping task '' @ i @ ''...'')) (\<lambda>_.
     cmd_bind (request (CliWrap ''failed to stop task'') (cl_StopTask c i)) (\<lambda>_.
     println ''Task stopped. Workspace preserved.'')))"

definition restart_cmd :: "cli_error + 'd api_client \<Rightarrow> string \<Rightarrow> ('d, unit) cmd" where
  "restart_cmd cl i = with_client cl (\<lambda>c.
     cmd_bind (println (''Restarting task '' @ i @ ''...'')) (\<lambda>_.
     cmd_bind (request (CliWrap ''failed to restart task'') (cl_RestartTask c i)) (\<lambda>_.
     println ''Task restarted.'')))"

text \<open>\<open>table\<close> lays out the columns.\<close>

definition or_dash :: "string \<Rightarrow> string" where
  "or_dash s = (if s = [] then ''-'' else s)"

definition list_cmd :: "(string list list \<Rightarrow> string) \<Rightarrow> cli_error + 'd api_client \<Rightarrow> string \<Rightarrow> ('d, unit) cmd" where
  "list_cmd table cl status = with_client cl (\<lambda>c.
     cmd_bind (request id (cl_ListTasks c status)) (\<lambda>tasks.
     if tasks = [] then println ''No tasks found''
     else println (table ([''ID'', ''NAME'', ''STATUS'', ''IMAGE'', ''CREATED''] #
       map (\<lambda>t. [tm_id t, or_dash (tm_name t), tm_status t, or_dash (tm_image t), tm_created_at t]) tasks))))"

definition snapshot_create_cmd :: "cli_error + 'd api_client \<Rightarrow> string \<Rightarrow> string option \<Rightarrow> ('d, unit) cmd" where
  "snapshot_create_cmd cl i arg =
     (let label = (case arg of None \<Rightarrow> ''manual'' | Some l \<Rightarrow> l) in
      with_client cl (\<lambda>c.
      cmd_bind (println (''Creating snapshot for '' @ i @ '': '' @ label)) (\<lambda>_.
      cmd_bind (request (CliWrap ''failed to create snapshot'') (cl_CreateSnapshot c i label)) (\<lambda>name.
      println (''Snapshot created: '' @ name)))))"

definition snapshot_ls_cmd :: "(string list list \<Rightarrow> string) \<Rightarrow> cli_error + 'd api_client \<Rightarrow> string \<Rightarrow> ('d, unit) cmd" where
  "snapshot_ls_cmd table cl i = with_client cl (\<lambda>c.
     cmd_bind (request (CliWrap ''failed to list snapshots'') (cl_ListSnapshots c i)) (\<lambda>ss.
     if ss = [] then println ''No snapshots found''
     else println (table ([''NAME'', ''CREATED''] # map (\<lambda>(n, t). [n, t]) ss))))"

definition snapshot_restore_cmd :: "bool \<Rightarrow> cli_error + 'd api_client \<Rightarrow> string \<Rightarrow> string \<Rightarrow> ('d, unit) cmd" where
  "snapshot_restore_cmd force cl i name = with_client cl (\<lambda>c.
     cmd_bind (request (CliWrap ''failed to get task'') (cl_GetTask c i)) (\<lambda>r.
     case r of
       None \<Rightarrow> cmd_fail (CliMsg (''task not found: '' @ i))
     | Some t \<Rightarrow>
         if \<not> force then
           cmd_bind (println (''About to restore task '' @ i @ '' to snapshot '' @ name)) (\<lambda>_.
           cmd_bind (if tm_status t = ''running'' then println ''Warning: Task is running. Restore will stop the VM.'' else cmd_return ()) (\<lambda>_.
           cmd_bind (println ''This will roll back all changes since the snapshot.'') (\<lambda>_.
           println ''Run with --force to confirm.'')))
         else
           cmd_bind (println (''Restoring task '' @ i @ '' to '' @ name @ ''...'')) (\<lambda>_.
           cmd_bind (request (CliWrap ''failed to restore'') (cl_RestoreSnapshot c i name)) (\<lambda>_.
           println ''Restored successfully.''))))"

text \<open>Images.\<close>

definition shortDigest :: "string \<Rightarrow> string" where
  "shortDigest d0 =
     (let d = trim_prefix d0 ''sha256:'' in
      if 12 < length d then take 12 d else if d = [] then ''-'' else d)"

definition displayRef :: "string \<Rightarrow> string" where
  "displayRef ref =
     (if has_prefix ref ''docker.io/library/'' then trim_prefix ref ''docker.io/library/'' else trim_prefix ref ''docker.io/'')"

definition image_ls_cmd :: "(string list list \<Rightarrow> string) \<Rightarrow> cli_error + 'd api_client \<Rightarrow> ('d, unit) cmd" where
  "image_ls_cmd table cl = with_client cl (\<lambda>c.
     cmd_bind (request id (cl_ListImages c)) (\<lambda>images.
     if images = [] then println ''No images found''
     else println (table ([''REFERENCE'', ''DIGEST'', ''SIZE'', ''CREATED''] #
       map (\<lambda>x. [displayRef (ii_reference x), shortDigest (ii_digest x), ii_size x, or_dash (ii_created x)]) images))))"

definition image_import_cmd :: "cli_error + 'd api_client \<Rightarrow> string \<Rightarrow> string \<Rightarrow> string \<Rightarrow> ('d, unit) cmd" where
  "image_import_cmd cl name rootfsPath kernelPath = with_client cl (\<lambda>c. request id (cl_ImportImage c name rootfsPath kernelPath))"

definition image_rm_cmd :: "cli_error + 'd api_client \<Rightarrow> string \<Rightarrow> ('d, unit) cmd" where
  "image_rm_cmd cl name = with_client cl (\<lambda>c. request id (cl_RemoveImage c name))"

text \<open>Running: the environment of the flags, and the public keys of the user, each file once. \<open>glob\<close> gives the paths
  that match a pattern in \<open>~/.ssh\<close>, \<open>read\<close> the contents of a file, when they can be read.\<close>

definition env_flags :: "string list \<Rightarrow> (string \<times> string) list" where
  "env_flags es = fold (\<lambda>e m. case index_byte e (CHR ''='') of None \<Rightarrow> m
     | Some k \<Rightarrow> AList.update (take k e) (drop (Suc k) e) m) es []"

fun keys_of :: "(string \<Rightarrow> string option) \<Rightarrow> string list \<Rightarrow> string list \<Rightarrow> string list" where
  "keys_of read seen [] = []"
| "keys_of read seen (p # ps) =
     (if p \<in> set seen then keys_of read seen ps
      else (case read p of
          None \<Rightarrow> []
        | Some data \<Rightarrow> (let key = trim_space data in if key \<noteq> [] \<and> has_prefix key ''ssh-'' then [key] else [])) @ keys_of read (p # seen) ps)"

definition readSSHPublicKeys :: "bool \<Rightarrow> (string \<Rightarrow> string list) \<Rightarrow> (string \<Rightarrow> string option) \<Rightarrow> string list" where
  "readSSHPublicKeys home glob read =
     (if home then keys_of read [] (glob ''id_*.pub'' @ glob ''*.pub'') else [])"

record run_flags =
  rf_name :: string
  rf_cpus :: "32 word"
  rf_memory :: string
  rf_no_tailscale :: bool
  rf_authkey :: string
  rf_env :: "string list"
  rf_env_file :: string
  rf_image :: string

definition run_request :: "run_flags \<Rightarrow> string \<Rightarrow> string list \<Rightarrow> create_task_request" where
  "run_request fl dotenv keys =
     \<lparr>cr_name = rf_name fl, cr_vm_env = env_flags (rf_env fl), cr_cpus = rf_cpus fl, cr_memory = rf_memory fl,
      cr_no_tailscale = rf_no_tailscale fl, cr_authkey = rf_authkey fl, cr_ssh_keys = keys, cr_dotenv = dotenv, cr_image = rf_image fl\<rparr>"

definition run_cmd ::
    "run_flags \<Rightarrow> (string \<Rightarrow> string option) \<Rightarrow> string list \<Rightarrow> cli_error + 'd api_client \<Rightarrow> ('d, unit) cmd" where
  "run_cmd fl read keys cl = with_client cl (\<lambda>c.
     case (if rf_env_file fl = [] then Some [] else read (rf_env_file fl)) of
       None \<Rightarrow> cmd_fail (CliMsg ''failed to read env file'')
     | Some dotenv \<Rightarrow>
         cmd_bind (println ''Creating task...'') (\<lambda>_.
         cmd_bind (request (CliWrap ''failed to create task'') (cl_CreateTask c (run_request fl dotenv keys))) (\<lambda>(i, hostname).
         cmd_bind (println (''Task created: '' @ i)) (\<lambda>_.
         cmd_bind (if hostname \<noteq> [] then println (''Tailscale hostname: '' @ hostname) else cmd_return ()) (\<lambda>_.
         println (newline @ ''To attach: stockyard attach '' @ i))))))"

section \<open>Commands that run another program\<close>

definition buildAttachCommand :: "task_message \<Rightarrow> string \<Rightarrow> string \<Rightarrow> string list \<Rightarrow> cli_error + string \<times> string list" where
  "buildAttachCommand t sshUser containerBin extraArgs =
     (if tm_backend t = ''apple-container'' then
        (if tm_vm_id t = [] then Inl (CliMsg ''apple-container task has no vm_id'')
         else Inr (containerBin, [containerBin, ''exec'', ''-t'', ''-i'', ''-u'', sshUser, ''stockyard-'' @ tm_vm_id t] @
           (if extraArgs \<noteq> [] then extraArgs else [''/bin/bash''])))
      else
        (let sshHost = (if tm_hostname t = [] then tm_ip t else tm_hostname t) in
         if sshHost = [] then Inl (CliMsg ''task has no reachable address (no Tailscale hostname or IP)'')
         else Inr (''ssh'', [''ssh'', ''-o'', ''StrictHostKeyChecking=no'', ''-o'', ''UserKnownHostsFile=/dev/null'', ''-o'',
           ''LogLevel=ERROR'', sshUser @ ''@'' @ sshHost] @ (if extraArgs \<noteq> [] then ''--'' # extraArgs else []))))"

text \<open>\<open>cfg\<close> is the user and the container command of the configuration, or the failure to load it; \<open>look\<close> finds
  a program. The command ends in the program it becomes.\<close>

definition attach_cmd ::
    "cli_error + string \<times> string \<Rightarrow> (string \<Rightarrow> string option) \<Rightarrow> cli_error + 'd api_client \<Rightarrow> string \<Rightarrow> string list \<Rightarrow>
     ('d, string \<times> string list) cmd" where
  "attach_cmd cfg look cl i extraArgs = with_client cl (\<lambda>c.
     case cfg of Inl e \<Rightarrow> cmd_fail e
     | Inr (user, bin) \<Rightarrow>
         cmd_bind (request (CliWrap ''failed to get task'') (cl_GetTask c i)) (\<lambda>r.
         case r of
           None \<Rightarrow> cmd_fail (CliMsg (''task not found: '' @ i))
         | Some t \<Rightarrow>
             if tm_status t \<noteq> ''running'' then cmd_fail (CliMsg (''task is not running (status: '' @ tm_status t @ '')''))
             else case buildAttachCommand t user (if bin = [] then ''container'' else bin) extraArgs of
               Inl e \<Rightarrow> cmd_fail e
             | Inr (program, argv) \<Rightarrow> (case look program of
                   None \<Rightarrow> cmd_fail (CliMsg (program @ '' not found''))
                 | Some path \<Rightarrow> cmd_bind (println (''Attaching to '' @ i @ ''...'')) (\<lambda>_. cmd_return (path, argv)))))"

definition log_args :: "string \<Rightarrow> string \<Rightarrow> bool \<Rightarrow> bool \<Rightarrow> string list" where
  "log_args hostname user follow system =
     (let path = (if system then ''/var/log/cloud-init-output.log'' else ''/workspace/.claude/logs/latest.log'') in
      [''-o'', ''StrictHostKeyChecking=accept-new'', user @ ''@'' @ hostname] @
      (if follow then [''tail'', ''-f'', path] else [''cat'', path]))"

text \<open>\<open>exec\<close> runs a program.\<close>

definition run_program :: "(string \<Rightarrow> string list \<Rightarrow> 'd \<Rightarrow> string option \<times> 'd) \<Rightarrow> string \<Rightarrow> string list \<Rightarrow> ('d, unit) cmd" where
  "run_program exec prog args = (\<lambda>s. case exec prog args (tty_daemon s) of
     (None, d) \<Rightarrow> (Inr (), s\<lparr>tty_daemon := d\<rparr>) | (Some e, d) \<Rightarrow> (Inl (CliMsg e), s\<lparr>tty_daemon := d\<rparr>))"

definition logs_cmd ::
    "(string \<Rightarrow> string list \<Rightarrow> 'd \<Rightarrow> string option \<times> 'd) \<Rightarrow> cli_error + string \<times> string \<Rightarrow> bool \<Rightarrow> bool \<Rightarrow>
     cli_error + 'd api_client \<Rightarrow> string \<Rightarrow> ('d, unit) cmd" where
  "logs_cmd exec cfg follow system cl i = with_client cl (\<lambda>c.
     case cfg of Inl e \<Rightarrow> cmd_fail e
     | Inr (user, _) \<Rightarrow>
         cmd_bind (request (CliWrap ''failed to get task'') (cl_GetTask c i)) (\<lambda>r.
         case r of
           None \<Rightarrow> cmd_fail (CliMsg (''task not found: '' @ i))
         | Some t \<Rightarrow>
             if tm_status t \<noteq> ''running'' then cmd_fail (CliMsg ''task is not running'')
             else
               (let hostname = (if tm_hostname t = [] then tm_ip t else tm_hostname t) in
                if hostname = [] then cmd_fail (CliMsg ''task has no reachable address (no Tailscale hostname or IP)'')
                else run_program exec ''ssh'' (log_args hostname user follow system))))"

definition cp_cmd ::
    "(string \<Rightarrow> string list \<Rightarrow> 'd \<Rightarrow> string option \<times> 'd) \<Rightarrow> cli_error + string \<times> string \<Rightarrow>
     cli_error + 'd api_client \<Rightarrow> string \<Rightarrow> string \<Rightarrow> ('d, unit) cmd" where
  "cp_cmd exec cfg cl source dest =
     (case index_byte source (CHR '':'') of
        None \<Rightarrow> cmd_fail (CliMsg ''source must be in format <task-id>:<path>'')
      | Some k \<Rightarrow>
          (let i = take k source; remotePath = drop (Suc k) source in
           with_client cl (\<lambda>c.
           case cfg of Inl e \<Rightarrow> cmd_fail e
           | Inr (user, _) \<Rightarrow>
               cmd_bind (request (CliWrap ''failed to get task'') (cl_GetTask c i)) (\<lambda>r.
               case r of
                 None \<Rightarrow> cmd_fail (CliMsg (''task not found: '' @ i))
               | Some t \<Rightarrow>
                   if tm_hostname t = [] then cmd_fail (CliMsg ''task has no Tailscale hostname'')
                   else
                     cmd_bind (println (''Copying '' @ source @ '' to '' @ dest @ ''...'')) (\<lambda>_.
                     cmd_bind (run_program exec ''scp'' [''-o'', ''StrictHostKeyChecking=accept-new'', ''-r'',
                       user @ ''@'' @ tm_hostname t @ '':'' @ remotePath, dest]) (\<lambda>_.
                     println ''Copy complete.''))))))"

section \<open>Destruction is asked for as confirmed\<close>

text \<open>C13. Whatever the daemon answers, \<open>stockyard destroy\<close> asks it to destroy the task, and does nothing else to it after
  reading the task, exactly when \<open>--force\<close> is given, the answer is the task of that id, and the confirmation is the task's
  name, or is left out for a task without a name. The daemon then is in the state the destruction leaves it in.\<close>

theorem destroy_only_confirmed:
  "tty_daemon (snd (destroy_cmd uni qa force confirm (Inr c) i s)) =
    (case cl_GetTask c i (tty_daemon s) of (r, d) \<Rightarrow>
       if force \<and> (\<exists>t. r = Inr (Some t) \<and> tm_id t = i \<and> confirm = (if tm_name t = [] then None else Some (tm_name t)))
       then snd (cl_DestroyTask c i d) else d)"
proof -
  obtain r d where get: "cl_GetTask c i (tty_daemon s) = (r, d)" by fastforce
  have quiet: "tty_daemon (snd (preview_destroy uni qa i name s')) = tty_daemon s'" for name s'
    by (auto simp: preview_destroy_def cmd_defs split: option.split)
  show ?thesis
  proof (cases r)
    case (Inr x)
    then show ?thesis
      by (cases x) (auto simp: destroy_cmd_def with_client_def cmd_defs get quiet
          split: prod.split sum.split option.splits if_splits)
  qed (simp add: destroy_cmd_def with_client_def cmd_defs get)
qed

text \<open>The value a POSIX shell gives a word of quoted parts; within double quotes some characters are special and not
  read here.\<close>

fun sh_word :: "char option \<Rightarrow> string \<Rightarrow> string option" where
  "sh_word None [] = Some []"
| "sh_word (Some q) [] = None"
| "sh_word None (c # cs) = (if c = CHR 0x27 \<or> c = CHR 0x22 then sh_word (Some c) cs else None)"
| "sh_word (Some q) (c # cs) =
     (if c = q then sh_word None cs
      else if q = CHR 0x22 \<and> c \<in> {CHR ''$'', CHR 0x60, CHR 0x5C} then None
      else map_option ((#) c) (sh_word (Some q) cs))"

lemma sh_word_quoted:
  "sh_word (Some (CHR 0x27)) (replace_byte (CHR 0x27) [CHR 0x27, CHR 0x22, CHR 0x27, CHR 0x22, CHR 0x27] v @ [CHR 0x27]) = Some v"
  by (induction v) (auto simp: replace_byte_def)

lemma quoted_argument_roundtrip:
  "quotePOSIXShellArgument uni v = Some q \<Longrightarrow> sh_word None q = Some v"
  using sh_word_quoted [of v] by (auto simp: quotePOSIXShellArgument_def split: if_splits)

text \<open>The suffix that the preview of a destruction shows confirms it when it is pasted: a shell reads the quoted name as
  the stored name, whatever quotes are in it, so that the same command with that flag and \<open>--force\<close> passes the confirmation.\<close>

theorem pasted_confirmation_accepted:
  assumes "quotePOSIXShellArgument uni (tm_name t) = Some q" "tm_name t \<noteq> []"
    and "cl_GetTask c i (tty_daemon s) = (Inr (Some t), d)" "tm_id t = i"
  shows "tty_daemon (snd (destroy_cmd uni qa True (sh_word None q) (Inr c) i s)) = snd (cl_DestroyTask c i d)"
  using assms quoted_argument_roundtrip [OF assms(1)]
  by (simp add: destroy_cmd_def with_client_def cmd_defs split: prod.split sum.split)

text \<open>A daemon with one task, whose name holds a quote; its state is whether the task is there.\<close>

definition quoted_task :: task_message where
  "quoted_task = \<lparr>tm_id = ''t1'', tm_name = [CHR ''a'', CHR 0x27, CHR ''b''], tm_status = ''running'', tm_hostname = [], tm_ip = [],
     tm_backend = [], tm_vm_id = [], tm_image = [], tm_created_at = [], tm_stopped_at = []\<rparr>"

definition one_task_client :: "bool api_client" where
  "one_task_client =
     \<lparr>cl_CreateTask = (\<lambda>_ d. (Inl (Internal, []), d)), cl_GetTask = (\<lambda>i d. (Inr (Some quoted_task), d)), cl_ListTasks = (\<lambda>_ d. (Inr [], d)),
      cl_ListImages = (\<lambda>d. (Inr [], d)), cl_ImportImage = (\<lambda>_ _ _ d. (Inr (), d)), cl_RemoveImage = (\<lambda>_ d. (Inr (), d)),
      cl_StopTask = (\<lambda>_ d. (Inr (), d)), cl_RestartTask = (\<lambda>_ d. (Inr (), d)), cl_DestroyTask = (\<lambda>_ d. (Inr (), False)),
      cl_CreateSnapshot = (\<lambda>_ _ d. (Inr [], d)), cl_ListSnapshots = (\<lambda>_ d. (Inr [], d)), cl_RestoreSnapshot = (\<lambda>_ _ d. (Inr (), d))\<rparr>"

lemma pasted_confirmation_accepted_witness:
  "tty_daemon (snd (destroy_cmd (\<lambda>_. False) id True
     (sh_word None [CHR 0x27, CHR ''a'', CHR 0x27, CHR 0x22, CHR 0x27, CHR 0x22, CHR 0x27, CHR ''b'', CHR 0x27])
     (Inr one_task_client) ''t1'' \<lparr>tty_daemon = True, tty_out = []\<rparr>)) = False"
proof -
  have "quotePOSIXShellArgument (\<lambda>_. False) (tm_name quoted_task) =
      Some [CHR 0x27, CHR ''a'', CHR 0x27, CHR 0x22, CHR 0x27, CHR 0x22, CHR 0x27, CHR ''b'', CHR 0x27]"
    by (simp add: quotePOSIXShellArgument_def printable_def quoted_task_def replace_byte_def less_char_def less_eq_char_def)
  from pasted_confirmation_accepted [OF this, of one_task_client "''t1''" "\<lparr>tty_daemon = True, tty_out = []\<rparr>" True]
  show ?thesis by (simp add: one_task_client_def quoted_task_def)
qed

section \<open>The presence of a row\<close>

definition presence :: "task option \<Rightarrow> string" where
  "presence t = (case t of None \<Rightarrow> ''absent''
     | Some t \<Rightarrow> if Status t = TaskStatusCleanupPending then ''cleanup_pending'' else ''present'')"

text \<open>C14. \<open>stockyard task-presence --json\<close> prints exactly whether the database has a row for the id, through the API and the
  task manager: absent for no row, cleanup pending for a row that is marked, and present for any other; nothing changes.\<close>

theorem task_presence_exact:
  assumes "gs_tasks g = Some sv" "scannable (store d)" "db_faults (store d) = []"
  shows "task_presence_cmd True (Inr (daemon_client g tx new now)) i \<lparr>tty_daemon = d, tty_out = out\<rparr> =
    (Inr (), \<lparr>tty_daemon = d, tty_out = out @ presence_json i (presence (task_of (store d) i)) @ newline\<rparr>)"
proof (cases "task_of (store d) i")
  case None
  then show ?thesis
    using assms GetTask_missing [OF assms(2,3) None]
    by (simp add: task_presence_cmd_def with_client_def writeTaskPresence_def daemon_client_def mapped_def rpc_GetTask_def with_tasks_def
        answer_def cmd_defs not_found_or_def not_found_def presence_def)
next
  case (Some t)
  then have "ID t = i" by (rule task_of_ID)
  then show ?thesis
    using assms Some GetTask_present [OF assms(3) Some]
    by (simp add: task_presence_cmd_def with_client_def writeTaskPresence_def daemon_client_def mapped_def rpc_GetTask_def with_tasks_def
        answer_def cmd_defs taskToProto_def presence_def TaskStatusCleanupPending_def)
qed

lemma task_presence_exact_witness:
  "task_presence_cmd True (Inr (daemon_client \<lparr>gs_tasks = Some pid_services, gs_backend = [], gs_images = None, gs_lister = None\<rparr>
       plain_texts ''n'' 7)) ''c'' \<lparr>tty_daemon = crashed_daemon, tty_out = []\<rparr> =
    (Inr (), \<lparr>tty_daemon = crashed_daemon, tty_out = presence_json ''c'' ''absent'' @ newline\<rparr>)"
proof -
  have missing: "task_of (store crashed_daemon) ''c'' = None"
    by (auto simp: crashed_daemon_def running_row_def task_of_def scan_task_def find_row_def)
  have "scannable (store crashed_daemon)" "db_faults (store crashed_daemon) = []"
    by (simp_all add: crashed_daemon_def running_row_def scannable_def)
  from task_presence_exact [OF _ this, of "\<lparr>gs_tasks = Some pid_services, gs_backend = [], gs_images = None, gs_lister = None\<rparr>"
      pid_services plain_texts "''n''" 7 "''c''" "[]"]
  show ?thesis by (simp add: missing presence_def)
qed

end
