(* ===== verification/Console_Archive.thy ===== *)
theory Console_Archive
  imports Json
begin

text \<open>
  The console archive of \<open>pkg/consolearchive\<close>: the names of its entries, the copies
  (truncated in the middle when they are too large), the staging of an entry and the
  retention bounds. The archive is a directory of entries with the files in them; every
  file operation fails when the script says so. Times are in nanoseconds; sums of sizes are
  exact, where Go's would wrap at \<open>2 ^ 63\<close> bytes.
\<close>

section \<open>Names\<close>

definition id_char :: "char \<Rightarrow> bool" where
  "id_char c \<longleftrightarrow> (CHR ''a'' \<le> c \<and> c \<le> CHR ''z'') \<or> (CHR ''A'' \<le> c \<and> c \<le> CHR ''Z'') \<or> is_digit c \<or>
     c = CHR ''.'' \<or> c = CHR ''_'' \<or> c = CHR ''-''"

definition id_pattern :: "string \<Rightarrow> bool" where
  "id_pattern s \<longleftrightarrow> 1 \<le> length s \<and> length s \<le> 64 \<and> list_all id_char s"

definition validID :: "string \<Rightarrow> bool" where
  "validID i \<longleftrightarrow> i \<noteq> ''.'' \<and> i \<noteq> ''..'' \<and> id_pattern i"

text \<open>
  \<open>time.Parse("20060102T150405Z", s)\<close> of a text that has the digits and letters in place.
\<close>

definition days_in :: "nat \<Rightarrow> nat \<Rightarrow> nat" where
  "days_in y m =
     (if m = 2 then (if y mod 4 = 0 \<and> (y mod 100 \<noteq> 0 \<or> y mod 400 = 0) then 29 else 28)
      else if m = 4 \<or> m = 6 \<or> m = 9 \<or> m = 11 then 30 else 31)"

definition stamp_shape :: "string \<Rightarrow> bool" where
  "stamp_shape s \<longleftrightarrow> length s = 16 \<and> list_all is_digit (take 8 s) \<and> s ! 8 = CHR ''T'' \<and>
     list_all is_digit (take 6 (drop 9 s)) \<and> s ! 15 = CHR ''Z''"

definition stamp_field :: "nat \<Rightarrow> nat \<Rightarrow> string \<Rightarrow> nat" where
  "stamp_field i n s = digits_val 0 (take n (drop i s))"

definition stamp_ok :: "string \<Rightarrow> bool" where
  "stamp_ok s \<longleftrightarrow>
     1 \<le> stamp_field 4 2 s \<and> stamp_field 4 2 s \<le> 12 \<and>
     1 \<le> stamp_field 6 2 s \<and> stamp_field 6 2 s \<le> days_in (stamp_field 0 4 s) (stamp_field 4 2 s) \<and>
     stamp_field 9 2 s < 24 \<and> stamp_field 11 2 s < 60 \<and> stamp_field 13 2 s < 60"

text \<open>
  The groups of the pattern of an entry's name. The last group has no hyphen, so it starts
  after the last hyphen of the name.
\<close>

definition entry_groups :: "string \<Rightarrow> (string \<times> string \<times> string) option" where
  "entry_groups name =
     (let stamp = take 16 name; rest = drop 16 name in
      if \<not> stamp_shape stamp \<or> \<not> has_prefix rest ''-'' then None
      else (case last_index_byte (tl rest) (CHR ''-'') of
        None \<Rightarrow> None
      | Some i \<Rightarrow>
          (let vm = take i (tl rest); rnd = drop (Suc i) (tl rest) in
           if id_pattern vm \<and> rnd \<noteq> [] \<and> list_all is_digit rnd then Some (stamp, vm, rnd) else None)))"

definition validArchiveEntryName :: "string \<Rightarrow> bool" where
  "validArchiveEntryName name \<longleftrightarrow>
     (case entry_groups name of None \<Rightarrow> False | Some (stamp, vm, _) \<Rightarrow> validID vm \<and> stamp_ok stamp)"

definition stagingPrefix :: string where
  "stagingPrefix = ''.staging-''"

text \<open>\<open>now.Format(entryTimeFormat)\<close> of a UTC date and time in the years 0 to 9999.\<close>

record utc =
  year :: nat
  month :: nat
  day :: nat
  hour :: nat
  minute :: nat
  second :: nat

definition two_digits :: "nat \<Rightarrow> string" where
  "two_digits n = [digit_char (n div 10 mod 10), digit_char (n mod 10)]"

definition format_stamp :: "utc \<Rightarrow> string" where
  "format_stamp t = two_digits (year t div 100) @ two_digits (year t mod 100) @ two_digits (month t) @ two_digits (day t) @
     CHR ''T'' # two_digits (hour t) @ two_digits (minute t) @ two_digits (second t) @ ''Z''"

definition utc_ok :: "utc \<Rightarrow> bool" where
  "utc_ok t \<longleftrightarrow> year t < 10000 \<and> 1 \<le> month t \<and> month t \<le> 12 \<and> 1 \<le> day t \<and> day t \<le> days_in (year t) (month t) \<and>
     hour t < 24 \<and> minute t < 60 \<and> second t < 60"

section \<open>The archive directory\<close>

text \<open>\<open>de_info\<close> is the modification time, \<open>None\<close> when \<open>Info\<close> fails.\<close>

record dirent =
  de_name :: string
  de_isdir :: bool
  de_info :: "int option"
  de_files :: "(string \<times> string) list"

record archive_fs =
  has_dir :: bool
  archive :: "dirent list"
  fs_faults :: faults

text \<open>A file operation that fails when the script says so; otherwise it changes the entries.\<close>

definition fs_op :: "string \<Rightarrow> (dirent list \<Rightarrow> dirent list) \<Rightarrow> (archive_fs, unit) op" where
  "fs_op what f s =
     (case next_fault (fs_faults s) of
        (True, bs) \<Rightarrow> (Inl (Msg what), s\<lparr>fs_faults := bs\<rparr>)
      | (False, bs) \<Rightarrow> (Inr (), s\<lparr>archive := f (archive s), fs_faults := bs\<rparr>))"

definition remove_entry :: "string \<Rightarrow> (archive_fs, unit) op" where
  "remove_entry name = fs_op ''remove'' (filter (\<lambda>d. de_name d \<noteq> name))"

definition dirBytes :: "dirent \<Rightarrow> int" where
  "dirBytes d = int (sum_list (map (\<lambda>(_, c). length c) (de_files d)))"

record archiver =
  MaxTotalBytes :: int
  MaxAge :: int
  MaxEntryBytes :: int

section \<open>Retention\<close>

definition stagingMaxAge :: int where
  "stagingMaxAge = 3600 * 10 ^ 9"

text \<open>The pass over the directory: stale staging directories go, entries are collected.\<close>

record entry_info =
  ei_name :: string
  ei_mod :: int
  ei_bytes :: int

fun scan_entries :: "int \<Rightarrow> dirent list \<Rightarrow> (archive_fs, entry_info list) op" where
  "scan_entries now [] = ok []"
| "scan_entries now (d # ds) =
     (if \<not> de_isdir d then scan_entries now ds
      else case de_info d of
        None \<Rightarrow> scan_entries now ds
      | Some t \<Rightarrow>
          if has_prefix (de_name d) stagingPrefix then
            (if \<not> validArchiveEntryName (trim_prefix (de_name d) stagingPrefix) then scan_entries now ds
             else if stagingMaxAge < now - t then ignore (remove_entry (de_name d)) (scan_entries now ds)
             else scan_entries now ds)
          else if has_prefix (de_name d) ''.'' \<or> \<not> validArchiveEntryName (de_name d) then scan_entries now ds
          else call (scan_entries now ds) (\<lambda>es. ok (\<lparr>ei_name = de_name d, ei_mod = t, ei_bytes = dirBytes d\<rparr> # es)))"

fun drop_expired :: "archiver \<Rightarrow> int \<Rightarrow> entry_info list \<Rightarrow> (archive_fs, entry_info list) op" where
  "drop_expired a now [] = ok []"
| "drop_expired a now (e # es) =
     (if 0 < MaxAge a \<and> MaxAge a < now - ei_mod e then
        attempt (remove_entry (ei_name e)) (\<lambda>r. case r of
          Inr _ \<Rightarrow> drop_expired a now es
        | Inl _ \<Rightarrow> call (drop_expired a now es) (\<lambda>ks. ok (e # ks)))
      else call (drop_expired a now es) (\<lambda>ks. ok (e # ks)))"

text \<open>The loop over the kept entries, oldest first; the last one is never looked at.\<close>

fun drop_oldest :: "archiver \<Rightarrow> int \<Rightarrow> entry_info list \<Rightarrow> (archive_fs, unit) op" where
  "drop_oldest a n (e # e' # es) =
     (if 0 < MaxTotalBytes a \<and> MaxTotalBytes a < n then
        attempt (remove_entry (ei_name e)) (\<lambda>r. case r of
          Inl _ \<Rightarrow> drop_oldest a n (e' # es)
        | Inr _ \<Rightarrow> drop_oldest a (n - ei_bytes e) (e' # es))
      else ok ())"
| "drop_oldest a n es = ok ()"

definition pruneLocked :: "archiver \<Rightarrow> int \<Rightarrow> (archive_fs, unit) op" where
  "pruneLocked a now s =
     (if \<not> has_dir s then (Inr (), s)
      else case next_fault (fs_faults s) of
        (True, bs) \<Rightarrow> (Inl (Msg ''read directory''), s\<lparr>fs_faults := bs\<rparr>)
      | (False, bs) \<Rightarrow>
          call (scan_entries now (sort_key de_name (archive s))) (\<lambda>entries.
          call (drop_expired a now (sort_key ei_name entries)) (\<lambda>kept.
            drop_oldest a (sum_list (map ei_bytes kept)) kept)) (s\<lparr>fs_faults := bs\<rparr>))"

section \<open>Archiving\<close>

text \<open>
  The middle of an oversized console is replaced by a marker; \<open>size\<close> is what \<open>Stat\<close>
  said. The division is by a positive bound.
\<close>

definition headBytes :: int where
  "headBytes = 8 * 2 ^ 20"

definition truncated :: "int \<Rightarrow> string \<Rightarrow> string" where
  "truncated budget content =
     (let size = int (length content); head = min headBytes (budget div 2); tail = budget - head in
      take (nat head) content @
      [CHR 0x0A] @ ''--- console truncated: original '' @ itoa_int size @ '' bytes, kept first '' @ itoa_int head @ '' and last '' @
        itoa_int tail @ '' ---'' @ [CHR 0x0A] @
      drop (nat (size - tail)) content)"

record file_meta =
  fm_name :: string
  fm_bytes :: int
  fm_original :: int
  fm_truncated :: bool

definition too_large :: "archiver \<Rightarrow> string \<Rightarrow> bool" where
  "too_large a content \<longleftrightarrow> 0 < MaxEntryBytes a \<and> MaxEntryBytes a < int (length content)"

definition archived :: "archiver \<Rightarrow> string \<Rightarrow> string" where
  "archived a content = (if too_large a content then truncated (MaxEntryBytes a) content else content)"

definition meta_of :: "archiver \<Rightarrow> string \<Rightarrow> string \<Rightarrow> file_meta" where
  "meta_of a name content =
     \<lparr>fm_name = name, fm_bytes = int (length (archived a content)), fm_original = int (length content), fm_truncated = too_large a content\<rparr>"

text \<open>A write that fails leaves an empty file.\<close>

definition put_file :: "string \<Rightarrow> string \<Rightarrow> string \<Rightarrow> dirent list \<Rightarrow> dirent list" where
  "put_file dir name content = map (\<lambda>d. if de_name d = dir then d\<lparr>de_files := de_files d @ [(name, content)]\<rparr> else d)"

definition write_file :: "string \<Rightarrow> string \<Rightarrow> string \<Rightarrow> (archive_fs, unit) op" where
  "write_file dir name content s =
     (case next_fault (fs_faults s) of
        (True, bs) \<Rightarrow> (Inl (Msg ''write''), s\<lparr>archive := put_file dir name [] (archive s), fs_faults := bs\<rparr>)
      | (False, bs) \<Rightarrow> (Inr (), s\<lparr>archive := put_file dir name content (archive s), fs_faults := bs\<rparr>))"

definition archiveFile :: "archiver \<Rightarrow> string \<Rightarrow> string \<Rightarrow> string \<Rightarrow> (archive_fs, file_meta) op" where
  "archiveFile a staging name content =
     call (fs_op ''stat'' (\<lambda>ds. ds)) (\<lambda>_.
     call (write_file staging name (archived a content)) (\<lambda>_. ok (meta_of a name content)))"

fun stage_files :: "archiver \<Rightarrow> string \<Rightarrow> (string \<times> string) list \<Rightarrow> (archive_fs, file_meta list) op" where
  "stage_files a staging [] = ok []"
| "stage_files a staging ((name, content) # fs) =
     call (archiveFile a staging name content) (\<lambda>fm. call (stage_files a staging fs) (\<lambda>fms. ok (fm # fms)))"

definition meta_json :: "string \<Rightarrow> string \<Rightarrow> string \<Rightarrow> string \<Rightarrow> file_meta list \<Rightarrow> json" where
  "meta_json i namespace source destroyedAt fms = JObj
     [(''task_id'', JStr i), (''namespace'', JStr namespace), (''source'', JStr source), (''destroyed_at'', JStr destroyedAt),
      (''files'', JArr (map (\<lambda>f. JObj [(''name'', JStr (fm_name f)), (''bytes'', JNum (itoa_int (fm_bytes f))),
         (''original_bytes'', JNum (itoa_int (fm_original f))), (''truncated'', JBool (fm_truncated f))]) fms))]"

definition archive_stage ::
    "archiver \<Rightarrow> (file_meta list \<Rightarrow> json) \<Rightarrow> string \<Rightarrow> string \<Rightarrow> (string \<times> string) list \<Rightarrow> (archive_fs, file_meta list) op" where
  "archive_stage a meta staging entryName fs =
     call (stage_files a staging fs) (\<lambda>fms.
     call (write_file staging ''meta.json'' (marshal_indent (meta fms))) (\<lambda>_.
     call (fs_op ''rename'' (map (\<lambda>d. if de_name d = staging then d\<lparr>de_name := entryName\<rparr> else d))) (\<lambda>_. ok fms)))"

text \<open>
  \<open>console\<close> is what regular files the VM directory has, \<open>rnd\<close> the number that
  \<open>os.MkdirTemp\<close> appends, \<open>t\<close> and \<open>now\<close> the time as a date and in nanoseconds.
\<close>

definition consoleFiles :: "string list" where
  "consoleFiles = [''stdout.log'', ''stderr.log'']"

definition present_files :: "(string \<Rightarrow> string option) \<Rightarrow> (string \<times> string) list" where
  "present_files console = concat (map (\<lambda>n. case console n of None \<Rightarrow> [] | Some c \<Rightarrow> [(n, c)]) consoleFiles)"

definition entry_name :: "utc \<Rightarrow> string \<Rightarrow> string \<Rightarrow> string" where
  "entry_name t i rnd = format_stamp t @ ''-'' @ i @ ''-'' @ rnd"

definition ArchiveVMDir ::
    "archiver \<Rightarrow> (string \<Rightarrow> string option) \<Rightarrow> (file_meta list \<Rightarrow> json) \<Rightarrow> utc \<Rightarrow> int \<Rightarrow> string \<Rightarrow> string \<Rightarrow> (archive_fs, unit) op" where
  "ArchiveVMDir a console meta t now rnd i =
     (if \<not> validID i then fail (Msg ''invalid vm id'')
      else let present = present_files console; entryName = entry_name t i rnd; staging = stagingPrefix @ entryName in
        if present = [] then ok ()
        else
          call (fs_op ''mkdir'' (\<lambda>ds. ds)) (\<lambda>_.
          pure_step (has_dir_update (\<lambda>_. True)) (
          call (fs_op ''mkdtemp'' (\<lambda>ds. ds @ [\<lparr>de_name = staging, de_isdir = True, de_info = Some now, de_files = []\<rparr>])) (\<lambda>_.
          attempt (archive_stage a meta staging entryName present) (\<lambda>r. case r of
            Inl e \<Rightarrow> ignore (remove_entry staging) (fail e)
          | Inr _ \<Rightarrow> ignore (pruneLocked a now) (ok ()))))))"

text \<open>What the pass collects and what it removes.\<close>

definition is_entry :: "dirent \<Rightarrow> bool" where
  "is_entry d \<longleftrightarrow> de_isdir d \<and> de_info d \<noteq> None \<and> \<not> has_prefix (de_name d) stagingPrefix \<and> \<not> has_prefix (de_name d) ''.'' \<and>
     validArchiveEntryName (de_name d)"

definition is_stale :: "int \<Rightarrow> dirent \<Rightarrow> bool" where
  "is_stale now d \<longleftrightarrow> de_isdir d \<and> (\<exists>t. de_info d = Some t \<and> stagingMaxAge < now - t) \<and> has_prefix (de_name d) stagingPrefix \<and>
     validArchiveEntryName (trim_prefix (de_name d) stagingPrefix)"

definition entry_of :: "dirent \<Rightarrow> entry_info" where
  "entry_of d = \<lparr>ei_name = de_name d, ei_mod = the (de_info d), ei_bytes = dirBytes d\<rparr>"

definition entries_of :: "archive_fs \<Rightarrow> entry_info list" where
  "entries_of s = map entry_of (sort_key de_name (filter is_entry (archive s)))"

definition expired :: "archiver \<Rightarrow> int \<Rightarrow> entry_info \<Rightarrow> bool" where
  "expired a now e \<longleftrightarrow> 0 < MaxAge a \<and> MaxAge a < now - ei_mod e"

section \<open>Only entries and stale staging directories go\<close>

text \<open>\<open>X\<close> bounds the names an operation removes; it changes nothing else.\<close>

definition removes :: "string set \<Rightarrow> (archive_fs, 'a) op \<Rightarrow> bool" where
  "removes X m \<longleftrightarrow> (\<forall>s r s'. m s = (r, s') \<longrightarrow> (\<exists>R \<subseteq> X. archive s' = filter (\<lambda>d. de_name d \<notin> R) (archive s)))"

named_theorems removes_intros \<open>rules of removes\<close>

lemma removes_keep: "(\<And>s. archive (snd (m s)) = archive s) \<Longrightarrow> removes X m"
  unfolding removes_def by (metis (no_types, lifting) empty_iff empty_subsetI filter_True snd_conv)

lemma removes_ok [removes_intros]: "removes X (ok a)"
  by (intro removes_keep) simp

lemma removes_trans:
  "\<exists>R \<subseteq> X. xs' = filter (\<lambda>d. de_name d \<notin> R) xs \<Longrightarrow> \<exists>R \<subseteq> X. xs'' = filter (\<lambda>d. de_name d \<notin> R) xs' \<Longrightarrow>
     \<exists>R \<subseteq> X. xs'' = filter (\<lambda>d. de_name d \<notin> R) xs"
proof (elim exE conjE)
  fix R S assume "R \<subseteq> X" "S \<subseteq> X" "xs' = filter (\<lambda>d. de_name d \<notin> R) xs" "xs'' = filter (\<lambda>d. de_name d \<notin> S) xs'"
  then show ?thesis by (intro exI [of _ "R \<union> S"]) (auto intro: filter_cong)
qed

lemma removes_call [removes_intros]: "removes X m \<Longrightarrow> (\<And>a. removes X (k a)) \<Longrightarrow> removes X (call m k)"
  unfolding removes_def call_def by (auto split: prod.splits sum.splits) (metis removes_trans)+

lemma removes_attempt [removes_intros]: "removes X m \<Longrightarrow> (\<And>r. removes X (k r)) \<Longrightarrow> removes X (attempt m k)"
  unfolding removes_def attempt_def by (auto split: prod.splits) (metis removes_trans)

lemma removes_ignore [removes_intros]: "removes X m \<Longrightarrow> removes X k \<Longrightarrow> removes X (ignore m k)"
  unfolding removes_def ignore_def by (metis prod.collapse removes_trans)

lemma removes_sum [removes_intros]:
  "(\<And>e. removes X (f e)) \<Longrightarrow> (\<And>a. removes X (g a)) \<Longrightarrow> removes X (case r of Inl e \<Rightarrow> f e | Inr a \<Rightarrow> g a)"
  by (cases r) simp_all

lemma removes_if [removes_intros]: "(c \<Longrightarrow> removes X m) \<Longrightarrow> (\<not> c \<Longrightarrow> removes X n) \<Longrightarrow> removes X (if c then m else n)"
  by simp

lemma removes_entry: "n \<in> X \<Longrightarrow> removes X (remove_entry n)"
  unfolding removes_def remove_entry_def fs_op_def
proof (intro allI impI)
  fix s :: archive_fs and r :: "goerr + unit" and s'
  assume n: "n \<in> X" and run: "(case next_fault (fs_faults s) of (True, bs) \<Rightarrow> (Inl (Msg ''remove''), s\<lparr>fs_faults := bs\<rparr>)
      | (False, bs) \<Rightarrow> (Inr (), s\<lparr>archive := filter (\<lambda>d. de_name d \<noteq> n) (archive s), fs_faults := bs\<rparr>)) = (r, s')"
  show "\<exists>R \<subseteq> X. archive s' = filter (\<lambda>d. de_name d \<notin> R) (archive s)"
  proof (cases "fst (next_fault (fs_faults s))")
    case True
    then show ?thesis using run by (intro exI [of _ "{}"]) (auto split: prod.splits)
  next
    case False
    then show ?thesis using run n by (intro exI [of _ "{n}"]) (auto split: prod.splits)
  qed
qed

lemma removes_call_returns:
  "removes X m \<Longrightarrow> returns Q m \<Longrightarrow> (\<And>a. Q a \<Longrightarrow> removes X (k a)) \<Longrightarrow> removes X (call m k)"
  unfolding removes_def call_def returns_def by (auto split: prod.splits sum.splits) (metis removes_trans)+

lemma scan_returns: "returns (\<lambda>es. es = map entry_of (filter is_entry ds)) (scan_entries now ds)"
proof (induction ds)
  case (Cons d ds)
  have skip: "returns (\<lambda>es. es = map entry_of (filter is_entry (d # ds))) (scan_entries now ds)" if "\<not> is_entry d"
    using Cons.IH that by simp
  show ?case
  proof (cases "is_entry d")
    case True
    then have eq: "scan_entries now (d # ds) = call (scan_entries now ds) (\<lambda>es. ok (entry_of d # es))"
      by (auto simp: is_entry_def entry_of_def)
    show ?thesis unfolding eq using Cons.IH True by (auto simp: returns_def call_Inr_iff ok_def)
  next
    case False
    note sk = skip [OF False]
    then have "returns (\<lambda>es. es = map entry_of (filter is_entry (d # ds))) (ignore m (scan_entries now ds))" for m :: "(archive_fs, unit) op"
      by (rule returns_intros)
    with sk show ?thesis using False [unfolded is_entry_def]
      by (cases "de_isdir d"; cases "de_info d") (auto simp: False)
  qed
qed (simp add: returns_def)

lemma scan_removes: "\<forall>d \<in> set ds. is_stale now d \<longrightarrow> de_name d \<in> X \<Longrightarrow> removes X (scan_entries now ds)"
proof (induction ds)
  case (Cons d ds)
  then have IH: "removes X (scan_entries now ds)" by simp
  show ?case
  proof (cases "is_stale now d")
    case True
    then show ?thesis using Cons.prems IH by (auto simp: is_stale_def intro!: removes_ignore removes_entry)
  next
    case False
    then show ?thesis using IH by (auto simp: is_stale_def split: option.split intro!: removes_intros)
  qed
qed (simp add: removes_ok)

lemma expired_returns: "returns (\<lambda>ks. set ks \<subseteq> set es) (drop_expired a now es)"
proof (induction es)
  case (Cons e es)
  have more: "returns (\<lambda>ks. set ks \<subseteq> set (e # es)) (call (drop_expired a now es) (\<lambda>ks. ok (e # ks)))"
    using Cons.IH by (fastforce simp: returns_def call_Inr_iff ok_def)
  have less: "returns (\<lambda>ks. set ks \<subseteq> set (e # es)) (drop_expired a now es)"
    using Cons.IH by (auto simp: returns_def)
  show ?case using more less by (auto intro!: returns_intros)
qed (simp add: returns_def)

lemma expired_removes: "ei_name ` set es \<subseteq> X \<Longrightarrow> removes X (drop_expired a now es)"
  by (induction es) (auto intro!: removes_intros removes_entry)

lemma oldest_removes: "ei_name ` set es \<subseteq> X \<Longrightarrow> removes X (drop_oldest a n es)"
  by (induction a n es rule: drop_oldest.induct) (auto intro!: removes_intros removes_entry)

text \<open>The names the pruner may remove.\<close>

definition removable :: "int \<Rightarrow> dirent \<Rightarrow> bool" where
  "removable now d \<longleftrightarrow> is_entry d \<or> is_stale now d"

lemma prune_removes:
  assumes "pruneLocked a now s = (r, s')"
  shows "\<exists>R \<subseteq> {de_name d |d. d \<in> set (archive s) \<and> removable now d}. archive s' = filter (\<lambda>d. de_name d \<notin> R) (archive s)"
proof -
  let ?X = "{de_name d |d. d \<in> set (archive s) \<and> removable now d}"
  let ?es = "map entry_of (filter is_entry (sort_key de_name (archive s)))"
  have X: "ei_name ` set ?es \<subseteq> ?X" by (auto simp: entry_of_def removable_def)
  have "removes ?X (drop_oldest a (sum_list (map ei_bytes ks)) ks)" if "set ks \<subseteq> set (sort_key ei_name ?es)" for ks
    by (rule oldest_removes, rule subset_trans [OF image_mono [OF that]]) (simp only: set_sort X)
  then have "removes ?X (call (drop_expired a now (sort_key ei_name ?es)) (\<lambda>kept. drop_oldest a (sum_list (map ei_bytes kept)) kept))"
    using X by (intro removes_call_returns [OF expired_removes expired_returns]) auto
  then have run: "removes ?X (call (scan_entries now (sort_key de_name (archive s))) (\<lambda>entries.
      call (drop_expired a now (sort_key ei_name entries)) (\<lambda>kept. drop_oldest a (sum_list (map ei_bytes kept)) kept)))"
    by (intro removes_call_returns [OF scan_removes scan_returns]) (auto simp: removable_def)
  have none: "\<exists>R \<subseteq> ?X. archive s = filter (\<lambda>d. de_name d \<notin> R) (archive s)" by (intro exI [of _ "{}"]) simp
  show ?thesis
  proof (cases "has_dir s \<and> \<not> fst (next_fault (fs_faults s))")
    case True
    then show ?thesis using assms run unfolding removes_def
      by (auto simp: pruneLocked_def split: prod.splits dest!: spec [of _ "s\<lparr>fs_faults := snd (next_fault (fs_faults s))\<rparr>"])
  next
    case False
    then show ?thesis using assms none by (auto simp: pruneLocked_def split: prod.splits if_splits)
  qed
qed

section \<open>The bounds\<close>

lemma filter_names: "filter (\<lambda>d. de_name d \<notin> S) (filter (\<lambda>d. de_name d \<notin> R) xs) = filter (\<lambda>d. de_name d \<notin> R \<union> S) xs"
  by (auto intro: filter_cong)

lemma remove_now: "fs_faults s = [] \<Longrightarrow> remove_entry n s = (Inr (), s\<lparr>archive := filter (\<lambda>d. de_name d \<notin> {n}) (archive s)\<rparr>)"
  by (simp add: remove_entry_def fs_op_def)

lemma scan_now:
  "fs_faults s = [] \<Longrightarrow> scan_entries now ds s = (Inr (map entry_of (filter is_entry ds)),
     s\<lparr>archive := filter (\<lambda>d. de_name d \<notin> de_name ` set (filter (is_stale now) ds)) (archive s)\<rparr>)"
proof (induction ds arbitrary: s)
  case (Cons d ds)
  show ?case
  proof (cases "is_stale now d")
    case True
    then have eq: "\<not> is_entry d" "scan_entries now (d # ds) = ignore (remove_entry (de_name d)) (scan_entries now ds)"
      by (auto simp: is_stale_def is_entry_def)
    show ?thesis unfolding eq(2) using True eq(1) Cons by (simp add: ignore_def remove_now)
  next
    case False
    show ?thesis
    proof (cases "is_entry d")
      case True
      then have eq: "scan_entries now (d # ds) = call (scan_entries now ds) (\<lambda>es. ok (entry_of d # es))"
        by (auto simp: is_entry_def entry_of_def)
      show ?thesis unfolding eq using True False Cons by (simp add: call_def ok_def)
    next
      case no: False
      then have eq: "scan_entries now (d # ds) = scan_entries now ds" using False
        by (auto simp: is_entry_def is_stale_def split: option.split)
      show ?thesis unfolding eq using no False Cons by simp
    qed
  qed
qed (simp add: ok_def)

lemma expired_now:
  "fs_faults s = [] \<Longrightarrow> drop_expired a now es s = (Inr (filter (\<lambda>e. \<not> expired a now e) es),
     s\<lparr>archive := filter (\<lambda>d. de_name d \<notin> ei_name ` set (filter (expired a now) es)) (archive s)\<rparr>)"
proof (induction es arbitrary: s)
  case (Cons e es)
  then show ?case
    by (cases "expired a now e") (simp_all add: expired_def [symmetric] attempt_def call_def ok_def remove_now)
qed (simp add: ok_def)

lemma oldest_now:
  "fs_faults s = [] \<Longrightarrow> \<exists>k. drop_oldest a n es s = (Inr (), s\<lparr>archive := filter (\<lambda>d. de_name d \<notin> ei_name ` set (take k es)) (archive s)\<rparr>) \<and>
     (0 < MaxTotalBytes a \<longrightarrow> n - sum_list (map ei_bytes (take k es)) \<le> MaxTotalBytes a \<or> length es \<le> Suc k) \<and> (es \<noteq> [] \<longrightarrow> k < length es) \<and>
     (\<forall>j < k. 0 < MaxTotalBytes a \<and> MaxTotalBytes a < n - sum_list (map ei_bytes (take j es)))"
proof (induction a n es arbitrary: s rule: drop_oldest.induct)
  case (1 a n e e' es)
  show ?case
  proof (cases "0 < MaxTotalBytes a \<and> MaxTotalBytes a < n")
    case True
    let ?s = "s\<lparr>archive := filter (\<lambda>d. de_name d \<notin> {ei_name e}) (archive s)\<rparr>"
    obtain k where k: "drop_oldest a (n - ei_bytes e) (e' # es) ?s =
        (Inr (), ?s\<lparr>archive := filter (\<lambda>d. de_name d \<notin> ei_name ` set (take k (e' # es))) (archive ?s)\<rparr>)"
      "0 < MaxTotalBytes a \<longrightarrow> n - ei_bytes e - sum_list (map ei_bytes (take k (e' # es))) \<le> MaxTotalBytes a \<or> length (e' # es) \<le> Suc k"
      "k < length (e' # es)"
      "\<forall>j < k. 0 < MaxTotalBytes a \<and> MaxTotalBytes a < n - ei_bytes e - sum_list (map ei_bytes (take j (e' # es)))"
      using "1.IH"(2) [where s = ?s, OF True] "1.prems" by auto
    have "drop_oldest a n (e # e' # es) s = drop_oldest a (n - ei_bytes e) (e' # es) ?s"
      using True "1.prems" by (simp add: attempt_def remove_now)
    moreover have "\<forall>j < Suc k. 0 < MaxTotalBytes a \<and> MaxTotalBytes a < n - sum_list (map ei_bytes (take j (e # e' # es)))"
      using k(4) True by (auto simp: diff_diff_eq less_Suc_eq_0_disj)
    ultimately show ?thesis using k(1-3) by (intro exI [of _ "Suc k"]) (simp add: diff_diff_eq)
  next
    case False
    then show ?thesis by (intro exI [of _ 0]) (auto simp: ok_def)
  qed
qed (auto simp: ok_def intro: exI [of _ 0])

lemma distinct_filter_names: "distinct (map f xs) \<Longrightarrow> filter (\<lambda>x. f x \<notin> f ` set (filter P xs)) xs = filter (\<lambda>x. \<not> P x) xs"
  by (auto simp: distinct_map inj_on_def intro: filter_cong)

lemma distinct_filter_take: "distinct (map f xs) \<Longrightarrow> filter (\<lambda>x. f x \<notin> f ` set (take k xs)) xs = drop k xs"
proof -
  assume d: "distinct (map f xs)"
  let ?g = "filter (\<lambda>x. f x \<notin> f ` set (take k xs))"
  have "distinct (map f (take k xs) @ map f (drop k xs))" using d by (simp only: map_append [symmetric] append_take_drop_id)
  then have apart: "f ` set (take k xs) \<inter> f ` set (drop k xs) = {}" by simp
  have "?g xs = ?g (take k xs) @ ?g (drop k xs)" by (simp only: filter_append [symmetric] append_take_drop_id)
  also have "?g (take k xs) = []" by (auto simp: filter_empty_conv)
  also have "?g (drop k xs) = drop k xs" using apart by (intro filter_True) auto
  finally show ?thesis by simp
qed

lemma entries_filter:
  "archive s' = filter (\<lambda>d. de_name d \<notin> Z) (archive s) \<Longrightarrow> entries_of s' = filter (\<lambda>e. ei_name e \<notin> Z) (entries_of s)"
  by (simp add: entries_of_def filter_map filter_sort comp_def entry_of_def) (metis (mono_tags, lifting) filter_sort filter_filter conj_commute)

lemma stale_not_entry: "e \<in> set (entries_of s) \<Longrightarrow> ei_name e \<notin> de_name ` set (filter (is_stale now) xs)"
  by (auto simp: entries_of_def entry_of_def is_entry_def is_stale_def)

text \<open>C33. The archive keeps its bounds. Pruning removes only archive entries and stale staging directories, whatever file
  operations fail. When none fails, no entry is left that is too old, the sizes of the entries sum to at most
  \<open>MaxTotalBytes\<close> unless a single entry is left, what is left are the newest of the entries that are not too old, and the
  newest of these is never removed.\<close>

theorem prune_keeps_bounds:
  assumes "pruneLocked a now s = (r, s')" "distinct (map de_name (archive s))" "has_dir s"
    and "live = filter (\<lambda>e. \<not> (0 < MaxAge a \<and> MaxAge a < now - ei_mod e)) (entries_of s)"
  shows "set (archive s') \<subseteq> set (archive s) \<and> (\<forall>d \<in> set (archive s). is_entry d \<or> is_stale now d \<or> d \<in> set (archive s')) \<and>
    (fs_faults s = [] \<longrightarrow> r = Inr () \<and> (\<exists>k. entries_of s' = drop k live \<and>
        (\<forall>j < k. 0 < MaxTotalBytes a \<and> MaxTotalBytes a < sum_list (map ei_bytes (drop j live)))) \<and> (live \<noteq> [] \<longrightarrow> entries_of s' \<noteq> []) \<and>
      (0 < MaxTotalBytes a \<longrightarrow> sum_list (map ei_bytes (entries_of s')) \<le> MaxTotalBytes a \<or> length (entries_of s') \<le> 1))"
proof (intro conjI impI)
  obtain R where R: "R \<subseteq> {de_name d |d. d \<in> set (archive s) \<and> removable now d}" "archive s' = filter (\<lambda>d. de_name d \<notin> R) (archive s)"
    using prune_removes [OF assms(1)] by blast
  show "set (archive s') \<subseteq> set (archive s)" using R(2) by auto
  show "\<forall>d \<in> set (archive s). is_entry d \<or> is_stale now d \<or> d \<in> set (archive s')"
    using R assms(2) by (auto simp: removable_def distinct_map inj_on_def)
  assume none: "fs_faults s = []"
  let ?es = "entries_of s" and ?stale = "de_name ` set (filter (is_stale now) (archive s))"
  have sorted: "sort_key ei_name ?es = ?es"
    by (intro sort_key_id_if_sorted) (simp add: entries_of_def entry_of_def comp_def)
  have names: "distinct (map ei_name ?es)" using assms(2)
    by (simp add: entries_of_def entry_of_def comp_def distinct_map inj_on_def)
  have live: "live = filter (\<lambda>e. \<not> expired a now e) ?es" using assms(4) by (simp add: expired_def)
  let ?old = "ei_name ` set (filter (expired a now) ?es)"
  have "map entry_of (filter is_entry (sort_key de_name (archive s))) = ?es" by (simp add: entries_of_def filter_sort)
  moreover have same: "s\<lparr>fs_faults := [], archive := X\<rparr> = s\<lparr>archive := X\<rparr>" for X using none by (cases s) simp
  ultimately have "pruneLocked a now s = drop_oldest a (sum_list (map ei_bytes live)) live
      (s\<lparr>archive := filter (\<lambda>d. de_name d \<notin> ?stale \<union> ?old) (archive s)\<rparr>)"
    using none assms(3) by (simp add: pruneLocked_def call_Inr [OF scan_now] call_Inr [OF expired_now] sorted live same)
  moreover let ?s = "s\<lparr>archive := filter (\<lambda>d. de_name d \<notin> ?stale \<union> ?old) (archive s)\<rparr>"
  have "fs_faults ?s = []" using none by simp
  from oldest_now [OF this, of a "sum_list (map ei_bytes live)" live] obtain k where
      run: "drop_oldest a (sum_list (map ei_bytes live)) live ?s =
        (Inr (), ?s\<lparr>archive := filter (\<lambda>d. de_name d \<notin> ei_name ` set (take k live)) (archive ?s)\<rparr>)"
    and bound: "0 < MaxTotalBytes a \<longrightarrow> sum_list (map ei_bytes live) - sum_list (map ei_bytes (take k live)) \<le> MaxTotalBytes a \<or> length live \<le> Suc k"
    and some: "live \<noteq> [] \<longrightarrow> k < length live"
    and least: "\<forall>j < k. 0 < MaxTotalBytes a \<and> MaxTotalBytes a < sum_list (map ei_bytes live) - sum_list (map ei_bytes (take j live))"
    by blast
  ultimately have k: "r = Inr ()" "archive s' = filter (\<lambda>d. de_name d \<notin> ?stale \<union> ?old \<union> ei_name ` set (take k live)) (archive s)"
    using assms(1) run by (auto simp: conj_assoc)
  let ?taken = "ei_name ` set (take k live)"
  have "entries_of s' = filter (\<lambda>e. ei_name e \<notin> ?stale \<union> ?old \<union> ?taken) ?es"
    by (rule entries_filter [OF k(2)])
  also have "\<dots> = filter (\<lambda>e. ei_name e \<notin> ?taken) (filter (\<lambda>e. ei_name e \<notin> ?old) ?es)"
    unfolding filter_filter by (rule filter_cong [OF refl]) (use stale_not_entry [of _ s now] in blast)
  also have "\<dots> = drop k live"
    unfolding distinct_filter_names [OF names] live [symmetric]
    by (rule distinct_filter_take) (use names in \<open>simp add: live distinct_map_filter\<close>)
  finally have "entries_of s' = drop k live" .
  then show "r = Inr ()" "live \<noteq> [] \<Longrightarrow> entries_of s' \<noteq> []" using k some by auto
  have sum: "sum_list (map ei_bytes live) = sum_list (map ei_bytes (take j live)) + sum_list (map ei_bytes (drop j live))" for j
    by (simp only: sum_list_append [symmetric] map_append [symmetric] append_take_drop_id)
  show "\<exists>k. entries_of s' = drop k live \<and> (\<forall>j < k. 0 < MaxTotalBytes a \<and> MaxTotalBytes a < sum_list (map ei_bytes (drop j live)))"
  proof (intro exI conjI allI impI)
    show "entries_of s' = drop k live" by fact
    fix j assume "j < k"
    with least show "0 < MaxTotalBytes a" "MaxTotalBytes a < sum_list (map ei_bytes (drop j live))" using sum [of j] by fastforce+
  qed
  show "0 < MaxTotalBytes a \<Longrightarrow> sum_list (map ei_bytes (entries_of s')) \<le> MaxTotalBytes a \<or> length (entries_of s') \<le> 1"
    using bound \<open>entries_of s' = drop k live\<close> sum [of k] by auto
qed

definition demo_entry :: "string \<Rightarrow> int \<Rightarrow> nat \<Rightarrow> dirent" where
  "demo_entry name t n = \<lparr>de_name = name, de_isdir = True, de_info = Some t, de_files = [(''stdout.log'', replicate n CHR ''x'')]\<rparr>"

definition demo_archive :: archive_fs where
  "demo_archive = \<lparr>has_dir = True, archive = [demo_entry ''20260101T000000Z-a-1'' 5 4, demo_entry ''20260102T000000Z-b-22'' 6 4,
     demo_entry ''keep'' 0 9], fs_faults = []\<rparr>"

lemma prune_keeps_bounds_witness:
  "\<exists>s'. pruneLocked \<lparr>MaxTotalBytes = 5, MaxAge = 0, MaxEntryBytes = 0\<rparr> 10 demo_archive = (Inr (), s') \<and>
     (sum_list (map ei_bytes (entries_of s')) \<le> 5 \<or> length (entries_of s') \<le> 1)"
proof -
  let ?a = "\<lparr>MaxTotalBytes = 5, MaxAge = 0, MaxEntryBytes = 0\<rparr>"
  obtain r s' where run: "pruneLocked ?a 10 demo_archive = (r, s')" by fastforce
  have "distinct (map de_name (archive demo_archive))" "has_dir demo_archive" "fs_faults demo_archive = []"
    by (simp_all add: demo_archive_def demo_entry_def)
  with prune_keeps_bounds [OF run _ _ refl] run show ?thesis by auto
qed

section \<open>Names of entries\<close>

lemma digit_char_digit: "n < 10 \<Longrightarrow> is_digit (digit_char n)"
  using itoa_digits [of n] by simp

lemma two_digits_props [simp]: "length (two_digits n) = 2" "list_all is_digit (two_digits n)"
  by (simp_all add: two_digits_def digit_char_digit)

lemma last_index_byte_append: "c \<notin> set zs \<Longrightarrow> last_index_byte (xs @ c # zs) c = Some (length xs)"
proof -
  assume "c \<notin> set zs"
  then have "index_byte (rev zs @ c # rev xs) c = Some (length zs)" by (induction zs rule: rev_induct) auto
  then show ?thesis by (simp add: last_index_byte_def)
qed

lemma decimal: "n < 100 \<Longrightarrow> 10 * (n div 10 mod 10) + n mod 10 = (n :: nat)"
  by simp

lemma decimal4: "m < 10000 \<Longrightarrow> m mod 100 + (1000 * (m div 100 div 10 mod 10) + 100 * (m div 100 mod 10)) = (m :: nat)"
proof -
  assume "m < 10000"
  then have "10 * (m div 100 div 10 mod 10) + m div 100 mod 10 = m div 100" by (intro decimal) simp
  then have "100 * (10 * (m div 100 div 10 mod 10) + m div 100 mod 10) + m mod 100 = m" by (metis mult_div_mod_eq)
  then show ?thesis by (simp only: distrib_left mult.assoc [symmetric])
qed

lemma format_stamp_shape: "stamp_shape (format_stamp t)"
  by (simp add: stamp_shape_def format_stamp_def two_digits_def digit_char_digit)

lemma format_stamp_fields:
  assumes "utc_ok t"
  shows "stamp_field 0 4 (format_stamp t) = year t" "stamp_field 4 2 (format_stamp t) = month t"
    "stamp_field 6 2 (format_stamp t) = day t" "stamp_field 9 2 (format_stamp t) = hour t"
    "stamp_field 11 2 (format_stamp t) = minute t" "stamp_field 13 2 (format_stamp t) = second t"
proof -
  have "day t < 100" using assms by (auto simp: utc_ok_def days_in_def split: if_splits)
  then show "stamp_field 0 4 (format_stamp t) = year t" "stamp_field 4 2 (format_stamp t) = month t"
    "stamp_field 6 2 (format_stamp t) = day t" "stamp_field 9 2 (format_stamp t) = hour t"
    "stamp_field 11 2 (format_stamp t) = minute t" "stamp_field 13 2 (format_stamp t) = second t"
    using assms by (simp_all add: stamp_field_def format_stamp_def two_digits_def utc_ok_def decimal decimal4)
qed

lemma format_stamp_ok: "utc_ok t \<Longrightarrow> stamp_ok (format_stamp t)"
  by (simp add: stamp_ok_def format_stamp_fields) (simp add: utc_ok_def)

lemma digit_id_char: "is_digit c \<Longrightarrow> id_char c"
  by (simp add: id_char_def)

lemma id_char_hyphen: "id_char CHR ''-''" and id_char_T: "id_char CHR ''T''" and id_char_Z: "id_char CHR ''Z''"
  by code_simp+

lemma slash_not_id_char: "\<not> id_char CHR ''/''"
  by code_simp

text \<open>Archiving and pruning agree on names. The name \<open>ArchiveVMDir\<close> gives an entry is one the pruner recognises as an
  entry, and its parts can be read back from it; it has no slash and is not a dot name, so the entry lies directly in the
  archive directory. Its staging name is not an entry's name, and is recognised as the staging of one.\<close>

theorem entry_name_recognised:
  assumes "validID i" "utc_ok t" "rnd \<noteq> []" "list_all is_digit rnd"
  shows "validArchiveEntryName (entry_name t i rnd) \<and> entry_groups (entry_name t i rnd) = Some (format_stamp t, i, rnd) \<and>
    CHR ''/'' \<notin> set (entry_name t i rnd) \<and> \<not> has_prefix (entry_name t i rnd) ''.'' \<and>
    \<not> validArchiveEntryName (stagingPrefix @ entry_name t i rnd) \<and>
    trim_prefix (stagingPrefix @ entry_name t i rnd) stagingPrefix = entry_name t i rnd"
proof -
  have len: "length (format_stamp t) = 16" using format_stamp_shape [of t] by (simp add: stamp_shape_def)
  have "CHR ''-'' \<notin> set rnd" using assms(4) by (auto simp: list_all_iff is_digit_def)
  then have last: "last_index_byte (i @ CHR ''-'' # rnd) (CHR ''-'') = Some (length i)" by (rule last_index_byte_append)
  have groups: "entry_groups (entry_name t i rnd) = Some (format_stamp t, i, rnd)"
    using assms last format_stamp_shape [of t] by (simp add: entry_groups_def entry_name_def len Let_def has_prefix_def validID_def)
  have valid: "validArchiveEntryName (entry_name t i rnd)"
    using assms(1) format_stamp_ok [OF assms(2)] by (simp add: validArchiveEntryName_def groups)
  have "\<forall>c \<in> set (format_stamp t). is_digit c \<or> c = CHR ''T'' \<or> c = CHR ''Z''"
    by (auto simp: format_stamp_def two_digits_def digit_char_digit)
  moreover have "\<forall>c \<in> set i. id_char c" "\<forall>c \<in> set rnd. is_digit c"
    using assms(1,4) by (auto simp: validID_def id_pattern_def list_all_iff)
  ultimately have "\<forall>c \<in> set (entry_name t i rnd). id_char c"
    using digit_id_char by (auto simp: entry_name_def id_char_hyphen id_char_T id_char_Z)
  then have chars: "CHR ''/'' \<notin> set (entry_name t i rnd)" using slash_not_id_char by blast
  have first: "\<not> has_prefix (entry_name t i rnd) ''.''"
    using digit_char_digit [of "year t div 100 div 10 mod 10"]
    by (auto simp: entry_name_def format_stamp_def two_digits_def has_prefix_def is_digit_def)
  have "\<not> stamp_shape (take 16 (stagingPrefix @ entry_name t i rnd))"
    by (simp add: stamp_shape_def stagingPrefix_def is_digit_def)
  then have "\<not> validArchiveEntryName (stagingPrefix @ entry_name t i rnd)"
    by (simp add: validArchiveEntryName_def entry_groups_def Let_def)
  then show ?thesis using groups valid chars first by auto
qed

lemma entry_name_recognised_witness:
  "validArchiveEntryName (entry_name \<lparr>year = 2026, month = 2, day = 28, hour = 23, minute = 59, second = 0\<rparr> ''task-1'' ''42'')"
proof -
  have "validID ''task-1''" "utc_ok \<lparr>year = 2026, month = 2, day = 28, hour = 23, minute = 59, second = 0\<rparr>" "list_all is_digit ''42''"
    by code_simp+
  from entry_name_recognised [OF this(1,2) _ this(3)] show ?thesis by simp
qed

section \<open>Entries are complete\<close>

definition grow :: "string \<Rightarrow> (string \<times> string) list \<Rightarrow> dirent list \<Rightarrow> dirent list" where
  "grow dir xs = map (\<lambda>d. if de_name d = dir then d\<lparr>de_files := de_files d @ xs\<rparr> else d)"

lemma grow_grow: "grow dir ys (grow dir xs ds) = grow dir (xs @ ys) ds"
  by (simp add: grow_def)

lemma grow_none [simp]: "grow dir [] ds = ds"
  by (simp add: grow_def map_idI)

lemma write_file_grows:
  "write_file dir n c s = (r, s') \<Longrightarrow> \<exists>xs. archive s' = grow dir xs (archive s) \<and> (\<forall>u. r = Inr u \<longrightarrow> xs = [(n, c)])"
  by (auto simp: write_file_def put_file_def grow_def split: prod.splits bool.splits)

lemma archiveFile_grows:
  assumes "archiveFile a dir n c s = (r, s')"
  shows "\<exists>xs. archive s' = grow dir xs (archive s) \<and> (\<forall>fm. r = Inr fm \<longrightarrow> xs = [(n, archived a c)] \<and> fm = meta_of a n c)"
proof -
  obtain q u where q: "fs_op ''stat'' (\<lambda>ds. ds) s = (q, u)" by fastforce
  then have same: "archive u = archive s" by (auto simp: fs_op_def split: prod.splits bool.splits)
  show ?thesis
  proof (cases q)
    case (Inl e)
    then show ?thesis using assms q same by (intro exI [of _ "[]"]) (auto simp: archiveFile_def call_def)
  next
    case (Inr x)
    obtain p v where p: "write_file dir n (archived a c) u = (p, v)" by fastforce
    then have "archive s' = archive v" "\<forall>fm. r = Inr fm \<longrightarrow> p = Inr () \<and> fm = meta_of a n c"
      using assms q Inr by (auto simp: archiveFile_def call_def ok_def split: sum.splits)
    with write_file_grows [OF p] same show ?thesis by metis
  qed
qed

lemma stage_files_grows:
  "stage_files a dir fs s = (r, s') \<Longrightarrow> \<exists>xs. archive s' = grow dir xs (archive s) \<and>
     (\<forall>fms. r = Inr fms \<longrightarrow> xs = map (\<lambda>(n, c). (n, archived a c)) fs \<and> fms = map (\<lambda>(n, c). meta_of a n c) fs)"
proof (induction fs arbitrary: s r s')
  case Nil
  then show ?case by (intro exI [of _ "[]"]) (auto simp: ok_def)
next
  case (Cons f fs)
  obtain n c where f: "f = (n, c)" by fastforce
  obtain q u where q: "archiveFile a dir n c s = (q, u)" by fastforce
  from archiveFile_grows [OF q] obtain xs where xs: "archive u = grow dir xs (archive s)"
      "\<forall>fm. q = Inr fm \<longrightarrow> xs = [(n, archived a c)] \<and> fm = meta_of a n c" by blast
  show ?case
  proof (cases q)
    case (Inl e)
    then show ?thesis using Cons.prems q xs f by (intro exI [of _ xs]) (auto simp: call_def)
  next
    case (Inr fm)
    obtain p v where p: "stage_files a dir fs u = (p, v)" by fastforce
    from Cons.IH [OF this] obtain ys where ys: "archive v = grow dir ys (archive u)"
        "\<forall>fms. p = Inr fms \<longrightarrow> ys = map (\<lambda>(n, c). (n, archived a c)) fs \<and> fms = map (\<lambda>(n, c). meta_of a n c) fs" by blast
    have "s' = v" "\<forall>fms. r = Inr fms \<longrightarrow> (\<exists>gms. p = Inr gms \<and> fms = fm # gms)"
      using Cons.prems q p Inr f by (auto simp: call_def ok_def split: sum.splits)
    then show ?thesis using xs ys Inr f by (intro exI [of _ "xs @ ys"]) (auto simp: grow_grow)
  qed
qed

text \<open>The files of a complete entry.\<close>

definition entry_files :: "archiver \<Rightarrow> (file_meta list \<Rightarrow> json) \<Rightarrow> (string \<times> string) list \<Rightarrow> (string \<times> string) list" where
  "entry_files a meta fs = map (\<lambda>(n, c). (n, archived a c)) fs @
     [(''meta.json'', marshal_indent (meta (map (\<lambda>(n, c). meta_of a n c) fs)))]"

lemma archive_stage_result:
  assumes "archive_stage a meta dir name fs s = (r, s')"
  shows "(\<exists>e xs. r = Inl e \<and> archive s' = grow dir xs (archive s)) \<or>
    (\<exists>u. r = Inr u \<and> archive s' = map (\<lambda>d. if de_name d = dir then d\<lparr>de_name := name\<rparr> else d) (grow dir (entry_files a meta fs) (archive s)))"
proof -
  obtain q u where q: "stage_files a dir fs s = (q, u)" by fastforce
  from stage_files_grows [OF q] obtain xs where xs: "archive u = grow dir xs (archive s)"
      "\<forall>fms. q = Inr fms \<longrightarrow> xs = map (\<lambda>(n, c). (n, archived a c)) fs \<and> fms = map (\<lambda>(n, c). meta_of a n c) fs" by blast
  show ?thesis
  proof (cases q)
    case (Inl e)
    then show ?thesis using assms q xs by (auto simp: archive_stage_def call_def)
  next
    case (Inr fms)
    obtain p v where p: "write_file dir ''meta.json'' (marshal_indent (meta fms)) u = (p, v)" by fastforce
    from write_file_grows [OF p] obtain ys where ys: "archive v = grow dir ys (archive u)"
        "\<forall>x. p = Inr x \<longrightarrow> ys = [(''meta.json'', marshal_indent (meta fms))]" by blast
    show ?thesis
    proof (cases p)
      case (Inl e)
      then show ?thesis using assms q p \<open>q = Inr fms\<close> xs ys by (auto simp: archive_stage_def call_def grow_grow)
    next
      case (Inr x)
      then have all: "archive v = grow dir (entry_files a meta fs) (archive s)"
        using xs ys \<open>q = Inr fms\<close> by (simp add: grow_grow entry_files_def)
      have eq: "call (fs_op ''rename'' (map (\<lambda>d. if de_name d = dir then d\<lparr>de_name := name\<rparr> else d))) (\<lambda>_. ok fms) v = (r, s')"
        using assms q p Inr \<open>q = Inr fms\<close> by (simp add: archive_stage_def call_def)
      show ?thesis
      proof (cases "fst (next_fault (fs_faults v))")
        case True
        then have "\<exists>e. r = Inl e" "archive s' = archive v" using eq by (auto simp: call_def fs_op_def split: prod.splits)
        then show ?thesis using all by metis
      next
        case False
        then have "r = Inr fms" "archive s' = map (\<lambda>d. if de_name d = dir then d\<lparr>de_name := name\<rparr> else d) (archive v)"
          using eq by (auto simp: call_def fs_op_def ok_def split: prod.splits)
        then show ?thesis using all by metis
      qed
    qed
  qed
qed

lemma grow_new: "\<forall>d \<in> set ds. de_name d \<noteq> dir \<Longrightarrow> grow dir xs (ds @ [\<lparr>de_name = dir, de_isdir = b, de_info = t, de_files = ys\<rparr>]) =
    ds @ [\<lparr>de_name = dir, de_isdir = b, de_info = t, de_files = ys @ xs\<rparr>]"
  by (simp add: grow_def map_idI)

lemma remove_entry_subset: "remove_entry n s = (r, s') \<Longrightarrow> archive s' = archive s \<or> archive s' = filter (\<lambda>d. de_name d \<noteq> n) (archive s)"
  by (auto simp: remove_entry_def fs_op_def split: prod.splits bool.splits)

text \<open>The archive after the steps up to the retention pass: unchanged but for staging, or with the new entry.\<close>

lemma archive_outcome:
  assumes "ArchiveVMDir a console meta t now rnd i s = (r, s')" "dir = stagingPrefix @ entry_name t i rnd"
    and "\<forall>d \<in> set (archive s). de_name d \<noteq> dir"
  obtains (early) "archive s' = archive s"
  | (staged) e xs where "r = Inl e" "archive s' = archive s @ xs" "\<forall>d \<in> set xs. de_name d = dir"
  | (entered) u v where "validID i" "r = Inr ()" "pruneLocked a now u = (v, s')"
      "archive u = archive s @ [\<lparr>de_name = entry_name t i rnd, de_isdir = True, de_info = Some now,
         de_files = entry_files a meta (present_files console)\<rparr>]"
proof (cases "validID i \<and> present_files console \<noteq> []")
  case False
  then have "archive s' = archive s" using assms(1) by (auto simp: ArchiveVMDir_def fail_def ok_def split: if_splits)
  then show ?thesis by (rule early)
next
  case True
  let ?new = "\<lparr>de_name = dir, de_isdir = True, de_info = Some now, de_files = []\<rparr>"
  let ?stage = "attempt (archive_stage a meta dir (entry_name t i rnd) (present_files console)) (\<lambda>r. case r of
      Inl e \<Rightarrow> ignore (remove_entry dir) (fail e) | Inr _ \<Rightarrow> ignore (pruneLocked a now) (ok ()))"
  have run: "call (fs_op ''mkdir'' (\<lambda>ds. ds)) (\<lambda>_. pure_step (has_dir_update (\<lambda>_. True))
      (call (fs_op ''mkdtemp'' (\<lambda>ds. ds @ [?new])) (\<lambda>_. ?stage))) s = (r, s')"
    using assms(1) True unfolding ArchiveVMDir_def Let_def assms(2) [symmetric] by simp
  obtain q1 s1 where q1: "fs_op ''mkdir'' (\<lambda>ds. ds) s = (q1, s1)" by fastforce
  obtain q2 s2 where q2: "fs_op ''mkdtemp'' (\<lambda>ds. ds @ [?new]) (s1\<lparr>has_dir := True\<rparr>) = (q2, s2)" by fastforce
  have a1: "archive s1 = archive s" using q1 by (auto simp: fs_op_def split: prod.splits bool.splits)
  have a2': "archive s2 = (case q2 of Inl _ \<Rightarrow> archive s | Inr _ \<Rightarrow> archive s @ [?new])"
    using q2 a1 by (auto simp: fs_op_def split: prod.splits bool.splits)
  have steps: "(case q1 of Inl e \<Rightarrow> (Inl e, s1) | Inr _ \<Rightarrow> (case q2 of Inl e \<Rightarrow> (Inl e, s2) | Inr _ \<Rightarrow> ?stage s2)) = (r, s')"
    using run unfolding call_def pure_step_def q1 q2 prod.case by (simp add: q2 split: sum.splits)
  show ?thesis
  proof (cases "(\<exists>e. q1 = Inl e) \<or> (\<exists>e. q2 = Inl e)")
    case True
    then have "archive s' = archive s" using steps a1 a2' by (auto split: sum.splits)
    then show ?thesis by (rule early)
  next
    case False
    then have go: "?stage s2 = (r, s')" using steps by (auto split: sum.splits)
    have a2: "archive s2 = archive s @ [?new]" using False a2' by (auto split: sum.splits)
    obtain q3 s3 where q3: "archive_stage a meta dir (entry_name t i rnd) (present_files console) s2 = (q3, s3)" by fastforce
    from archive_stage_result [OF q3] show ?thesis
    proof (elim disjE exE conjE)
      fix e xs assume e: "q3 = Inl e" "archive s3 = grow dir xs (archive s2)"
      then have "r = Inl e" "\<exists>w. remove_entry dir s3 = (w, s')"
        using go q3 by (auto simp: attempt_def ignore_def fail_def) (metis prod.collapse)
      then obtain w where w: "r = Inl e" "remove_entry dir s3 = (w, s')" by blast
      have "archive s3 = archive s @ [?new\<lparr>de_files := xs\<rparr>]" using e(2) a2 grow_new [OF assms(3)] by simp
      then have "archive s' = archive s @ [?new\<lparr>de_files := xs\<rparr>] \<or> archive s' = archive s"
        using remove_entry_subset [OF w(2)] assms(3) by auto
      then show ?thesis using staged [OF w(1), of "[?new\<lparr>de_files := xs\<rparr>]"] early by auto
    next
      fix u assume u: "q3 = Inr u" "archive s3 = map (\<lambda>d. if de_name d = dir then d\<lparr>de_name := entry_name t i rnd\<rparr> else d)
          (grow dir (entry_files a meta (present_files console)) (archive s2))"
      have "archive s3 = archive s @ [\<lparr>de_name = entry_name t i rnd, de_isdir = True, de_info = Some now,
          de_files = entry_files a meta (present_files console)\<rparr>]"
        using u(2) assms(3) by (simp add: a2 grow_new map_idI)
      moreover have "r = Inr ()" "pruneLocked a now s3 = (fst (pruneLocked a now s3), s')"
        using go q3 u(1) by (auto simp: attempt_def ignore_def ok_def)
      ultimately show ?thesis using True \<open>validID i \<and> present_files console \<noteq> []\<close> by (intro entered) auto
    qed
  qed
qed

text \<open>C34. The archive never shows half an entry. Whatever file operations fail, every directory in the archive after
  \<open>ArchiveVMDir\<close> was there before, has a staging name, or is the new entry with all console files of the VM, cut to the
  bound, and the description of what they were; when an error is returned there is no new entry; and nothing but entries
  and stale staging directories has gone.\<close>

theorem archive_entries_complete:
  assumes "ArchiveVMDir a console meta t now rnd i s = (r, s')" "distinct (map de_name (archive s))"
    and "\<forall>d \<in> set (archive s). de_name d \<noteq> entry_name t i rnd \<and> de_name d \<noteq> stagingPrefix @ entry_name t i rnd"
  shows "(\<forall>d \<in> set (archive s'). d \<in> set (archive s) \<or> has_prefix (de_name d) stagingPrefix \<or>
      r = Inr () \<and> validID i \<and> d = \<lparr>de_name = entry_name t i rnd, de_isdir = True, de_info = Some now,
        de_files = entry_files a meta (present_files console)\<rparr>) \<and>
    (\<forall>d \<in> set (archive s). d \<in> set (archive s') \<or> is_entry d \<or> is_stale now d)"
proof -
  let ?dir = "stagingPrefix @ entry_name t i rnd"
  let ?new = "\<lparr>de_name = entry_name t i rnd, de_isdir = True, de_info = Some now, de_files = entry_files a meta (present_files console)\<rparr>"
  have "\<forall>d \<in> set (archive s). de_name d \<noteq> ?dir" using assms(3) by blast
  show ?thesis
  proof (rule archive_outcome [OF assms(1) refl \<open>\<forall>d \<in> set (archive s). de_name d \<noteq> ?dir\<close>], goal_cases)
    case 1
    then show ?thesis by simp
  next
    case (2 e xs)
    then show ?thesis by auto
  next
    case entered: (3 u v)
    obtain R where R: "R \<subseteq> {de_name d |d. d \<in> set (archive u) \<and> removable now d}" "archive s' = filter (\<lambda>d. de_name d \<notin> R) (archive u)"
      using prune_removes [OF entered(3)] by blast
    have "removable now d" if d: "d \<in> set (archive s)" "de_name d \<in> R" for d
    proof -
      obtain d' where "d' \<in> set (archive u)" "removable now d'" "de_name d' = de_name d" using R(1) d(2) by force
      moreover from this have "d' \<in> set (archive s)" using assms(3) d(1) entered(4) by auto
      ultimately show ?thesis using assms(2) d(1) by (metis distinct_map inj_onD)
    qed
    then show ?thesis using R(2) entered by (auto simp: removable_def)
  qed
qed

lemma archive_entries_complete_witness:
  "\<exists>r s'. ArchiveVMDir \<lparr>MaxTotalBytes = 5, MaxAge = 0, MaxEntryBytes = 0\<rparr> (\<lambda>_. Some ''boot'') (meta_json ''c'' ''ns'' ''gc'' [])
      \<lparr>year = 2026, month = 1, day = 3, hour = 0, minute = 0, second = 0\<rparr> 10 ''7'' ''c'' (demo_archive\<lparr>fs_faults := [False, False, False, True]\<rparr>) = (r, s') \<and>
     (\<forall>d \<in> set (archive demo_archive). d \<in> set (archive s') \<or> is_entry d \<or> is_stale 10 d)"
proof -
  let ?a = "\<lparr>MaxTotalBytes = 5, MaxAge = 0, MaxEntryBytes = 0\<rparr>" and ?s = "demo_archive\<lparr>fs_faults := [False, False, False, True]\<rparr>"
  let ?t = "\<lparr>year = 2026, month = 1, day = 3, hour = 0, minute = 0, second = 0\<rparr>"
  obtain r s' where run: "ArchiveVMDir ?a (\<lambda>_. Some ''boot'') (meta_json ''c'' ''ns'' ''gc'' []) ?t 10 ''7'' ''c'' ?s = (r, s')" by fastforce
  have "distinct (map de_name (archive ?s))"
    "\<forall>d \<in> set (archive ?s). de_name d \<noteq> entry_name ?t ''c'' ''7'' \<and> de_name d \<noteq> stagingPrefix @ entry_name ?t ''c'' ''7''"
    by (simp_all add: demo_archive_def demo_entry_def entry_name_def format_stamp_def two_digits_def stagingPrefix_def digit_char_def)
  from archive_entries_complete [OF run this] run show ?thesis by auto
qed

end
