(* ===== verification/Config.thy ===== *)
theory Config
  imports Shell Console_Archive
begin

text \<open>
  The configuration (\<open>pkg/config\<close>), the secret providers (\<open>pkg/secrets\<close>) and the start of the daemon's command
  (\<open>cmd/stockyardd/main.go\<close>). The file is JSON over the defaults: what is saved is what is loaded.
\<close>

section \<open>The configuration\<close>

record cfg_secrets =
  sc_provider :: string
  sc_vault :: string
  sc_prefix :: string
  sc_dir :: string

record cfg_daemon =
  dc_socket_path :: string
  dc_data_dir :: string
  dc_grpc_addr :: string

record cfg_zfs =
  zc_pool :: string
  zc_base_path :: string
  zc_images_path :: string
  zc_vms_path :: string

record cfg_firecracker =
  fk_kernel_path :: string
  fk_rootfs_path :: string
  fk_bridge_name :: string
  fk_vm_subnet :: string
  fk_vm_gateway :: string
  fk_dhcp_range_start :: string
  fk_dhcp_range_end :: string
  fk_dhcp_lease_time :: string

record cfg_http =
  hc_enabled :: bool
  hc_addr :: string

record cfg_apple =
  pc_container_bin :: string
  pc_image :: string

record cfg_archive =
  rc_enabled :: bool
  rc_dir :: string
  rc_max_total_bytes :: int
  rc_max_age_days :: int
  rc_max_entry_bytes :: int

record config =
  cf_instance_id :: string
  cf_backend :: string
  cf_secrets :: cfg_secrets
  cf_daemon :: cfg_daemon
  cf_zfs :: cfg_zfs
  cf_firecracker :: cfg_firecracker
  cf_vm_user :: string
  cf_http :: cfg_http
  cf_apple :: cfg_apple
  cf_archive :: cfg_archive

definition DefaultConfig :: config where
  "DefaultConfig =
     \<lparr>cf_instance_id = [], cf_backend = [],
      cf_secrets = \<lparr>sc_provider = ''1password'', sc_vault = ''Stockyard'', sc_prefix = [], sc_dir = []\<rparr>,
      cf_daemon = \<lparr>dc_socket_path = ''/var/run/stockyard/stockyard.sock'', dc_data_dir = ''/var/lib/stockyard'', dc_grpc_addr = []\<rparr>,
      cf_zfs = \<lparr>zc_pool = ''tank'', zc_base_path = ''stockyard/workspaces'', zc_images_path = ''stockyard/images'',
        zc_vms_path = ''stockyard/vms''\<rparr>,
      cf_firecracker = \<lparr>fk_kernel_path = ''/var/lib/stockyard/vmlinux.bin'', fk_rootfs_path = ''/var/lib/stockyard/rootfs.ext4'',
        fk_bridge_name = ''flbr0'', fk_vm_subnet = ''10.0.100.0/24'', fk_vm_gateway = ''10.0.100.1'',
        fk_dhcp_range_start = ''10.0.100.2'', fk_dhcp_range_end = ''10.0.100.254'', fk_dhcp_lease_time = ''12h''\<rparr>,
      cf_vm_user = ''mooby'', cf_http = \<lparr>hc_enabled = False, hc_addr = '':8080''\<rparr>,
      cf_apple = \<lparr>pc_container_bin = ''container'', pc_image = []\<rparr>,
      cf_archive = \<lparr>rc_enabled = False, rc_dir = ''/var/lib/stockyard/console-archive'', rc_max_total_bytes = 2 ^ 30,
        rc_max_age_days = 14, rc_max_entry_bytes = 64 * 2 ^ 20\<rparr>\<rparr>"

section \<open>JSON\<close>

definition config_json :: "config \<Rightarrow> json" where
  "config_json c = JObj
     [(''instance_id'', JStr (cf_instance_id c)), (''backend'', JStr (cf_backend c)),
      (''secrets'', let s = cf_secrets c in JObj
         [(''provider'', JStr (sc_provider s)), (''vault'', JStr (sc_vault s)), (''prefix'', JStr (sc_prefix s)), (''dir'', JStr (sc_dir s))]),
      (''daemon'', let s = cf_daemon c in JObj
         ([(''socket_path'', JStr (dc_socket_path s)), (''data_dir'', JStr (dc_data_dir s))] @
          (if dc_grpc_addr s = [] then [] else [(''grpc_addr'', JStr (dc_grpc_addr s))]))),
      (''zfs'', let s = cf_zfs c in JObj
         [(''pool'', JStr (zc_pool s)), (''base_path'', JStr (zc_base_path s)), (''images_path'', JStr (zc_images_path s)),
          (''vms_path'', JStr (zc_vms_path s))]),
      (''firecracker'', let s = cf_firecracker c in JObj
         [(''kernel_path'', JStr (fk_kernel_path s)), (''rootfs_path'', JStr (fk_rootfs_path s)), (''bridge_name'', JStr (fk_bridge_name s)),
          (''vm_subnet'', JStr (fk_vm_subnet s)), (''vm_gateway'', JStr (fk_vm_gateway s)),
          (''dhcp_range_start'', JStr (fk_dhcp_range_start s)), (''dhcp_range_end'', JStr (fk_dhcp_range_end s)),
          (''dhcp_lease_time'', JStr (fk_dhcp_lease_time s))]),
      (''vm'', JObj [(''user'', JStr (cf_vm_user c))]),
      (''http'', let s = cf_http c in JObj [(''enabled'', JBool (hc_enabled s)), (''addr'', JStr (hc_addr s))]),
      (''apple_container'', let s = cf_apple c in JObj [(''container_bin'', JStr (pc_container_bin s)), (''image'', JStr (pc_image s))]),
      (''console_archive'', let s = cf_archive c in JObj
         [(''enabled'', JBool (rc_enabled s)), (''dir'', JStr (rc_dir s)), (''max_total_bytes'', JNum (itoa_int (rc_max_total_bytes s))),
          (''max_age_days'', JNum (itoa_int (rc_max_age_days s))), (''max_entry_bytes'', JNum (itoa_int (rc_max_entry_bytes s)))])]"

text \<open>
  Decoding into a struct that holds values already: members are found by their names in any case, unknown ones are
  ignored, null leaves the old value, and a value of another kind is an error.
\<close>

type_synonym 'r member = "json \<Rightarrow> 'r \<Rightarrow> 'r option"

fun decode_members :: "(string \<times> 'r member) list \<Rightarrow> (string \<times> json) list \<Rightarrow> 'r \<Rightarrow> 'r option" where
  "decode_members fs [] r = Some r"
| "decode_members fs ((k, v) # ms) r =
     (case map_of fs (to_lower k) of
        None \<Rightarrow> decode_members fs ms r
      | Some f \<Rightarrow> (case f v r of None \<Rightarrow> None | Some r' \<Rightarrow> decode_members fs ms r'))"

definition decode_struct :: "(string \<times> 'r member) list \<Rightarrow> 'r member" where
  "decode_struct fs v r =
     (case v of JNull \<Rightarrow> Some r | JObj ms \<Rightarrow> decode_members fs ms r | _ \<Rightarrow> None)"

definition str_member :: "('r \<Rightarrow> string) \<Rightarrow> (string \<Rightarrow> 'r \<Rightarrow> 'r) \<Rightarrow> 'r member" where
  "str_member get put v r = map_option (\<lambda>x. put x r) (to_string (get r) v)"

definition int_member :: "('r \<Rightarrow> int) \<Rightarrow> (int \<Rightarrow> 'r \<Rightarrow> 'r) \<Rightarrow> 'r member" where
  "int_member get put v r = map_option (\<lambda>x. put x r) (to_int (get r) v)"

definition bool_member :: "(bool \<Rightarrow> 'r \<Rightarrow> 'r) \<Rightarrow> 'r member" where
  "bool_member put v r = (case v of JBool b \<Rightarrow> Some (put b r) | JNull \<Rightarrow> Some r | _ \<Rightarrow> None)"

definition struct_member :: "('r \<Rightarrow> 's) \<Rightarrow> ('s \<Rightarrow> 'r \<Rightarrow> 'r) \<Rightarrow> (string \<times> 's member) list \<Rightarrow> 'r member" where
  "struct_member get put fs v r = map_option (\<lambda>x. put x r) (decode_struct fs v (get r))"

definition secrets_members :: "(string \<times> cfg_secrets member) list" where
  "secrets_members =
     [(''provider'', str_member sc_provider (\<lambda>x. sc_provider_update (\<lambda>_. x))), (''vault'', str_member sc_vault (\<lambda>x. sc_vault_update (\<lambda>_. x))),
      (''prefix'', str_member sc_prefix (\<lambda>x. sc_prefix_update (\<lambda>_. x))), (''dir'', str_member sc_dir (\<lambda>x. sc_dir_update (\<lambda>_. x)))]"

definition daemon_members :: "(string \<times> cfg_daemon member) list" where
  "daemon_members =
     [(''socket_path'', str_member dc_socket_path (\<lambda>x. dc_socket_path_update (\<lambda>_. x))),
      (''data_dir'', str_member dc_data_dir (\<lambda>x. dc_data_dir_update (\<lambda>_. x))),
      (''grpc_addr'', str_member dc_grpc_addr (\<lambda>x. dc_grpc_addr_update (\<lambda>_. x)))]"

definition zfs_members :: "(string \<times> cfg_zfs member) list" where
  "zfs_members =
     [(''pool'', str_member zc_pool (\<lambda>x. zc_pool_update (\<lambda>_. x))), (''base_path'', str_member zc_base_path (\<lambda>x. zc_base_path_update (\<lambda>_. x))),
      (''images_path'', str_member zc_images_path (\<lambda>x. zc_images_path_update (\<lambda>_. x))),
      (''vms_path'', str_member zc_vms_path (\<lambda>x. zc_vms_path_update (\<lambda>_. x)))]"

definition firecracker_members :: "(string \<times> cfg_firecracker member) list" where
  "firecracker_members =
     [(''kernel_path'', str_member fk_kernel_path (\<lambda>x. fk_kernel_path_update (\<lambda>_. x))),
      (''rootfs_path'', str_member fk_rootfs_path (\<lambda>x. fk_rootfs_path_update (\<lambda>_. x))),
      (''bridge_name'', str_member fk_bridge_name (\<lambda>x. fk_bridge_name_update (\<lambda>_. x))),
      (''vm_subnet'', str_member fk_vm_subnet (\<lambda>x. fk_vm_subnet_update (\<lambda>_. x))),
      (''vm_gateway'', str_member fk_vm_gateway (\<lambda>x. fk_vm_gateway_update (\<lambda>_. x))),
      (''dhcp_range_start'', str_member fk_dhcp_range_start (\<lambda>x. fk_dhcp_range_start_update (\<lambda>_. x))),
      (''dhcp_range_end'', str_member fk_dhcp_range_end (\<lambda>x. fk_dhcp_range_end_update (\<lambda>_. x))),
      (''dhcp_lease_time'', str_member fk_dhcp_lease_time (\<lambda>x. fk_dhcp_lease_time_update (\<lambda>_. x)))]"

definition archive_members :: "(string \<times> cfg_archive member) list" where
  "archive_members =
     [(''enabled'', bool_member (\<lambda>x. rc_enabled_update (\<lambda>_. x))), (''dir'', str_member rc_dir (\<lambda>x. rc_dir_update (\<lambda>_. x))),
      (''max_total_bytes'', int_member rc_max_total_bytes (\<lambda>x. rc_max_total_bytes_update (\<lambda>_. x))),
      (''max_age_days'', int_member rc_max_age_days (\<lambda>x. rc_max_age_days_update (\<lambda>_. x))),
      (''max_entry_bytes'', int_member rc_max_entry_bytes (\<lambda>x. rc_max_entry_bytes_update (\<lambda>_. x)))]"

definition config_members :: "(string \<times> config member) list" where
  "config_members =
     [(''instance_id'', str_member cf_instance_id (\<lambda>x. cf_instance_id_update (\<lambda>_. x))),
      (''backend'', str_member cf_backend (\<lambda>x. cf_backend_update (\<lambda>_. x))),
      (''secrets'', struct_member cf_secrets (\<lambda>x. cf_secrets_update (\<lambda>_. x)) secrets_members),
      (''daemon'', struct_member cf_daemon (\<lambda>x. cf_daemon_update (\<lambda>_. x)) daemon_members),
      (''zfs'', struct_member cf_zfs (\<lambda>x. cf_zfs_update (\<lambda>_. x)) zfs_members),
      (''firecracker'', struct_member cf_firecracker (\<lambda>x. cf_firecracker_update (\<lambda>_. x)) firecracker_members),
      (''vm'', struct_member cf_vm_user (\<lambda>x. cf_vm_user_update (\<lambda>_. x)) [(''user'', str_member id (\<lambda>x _. x))]),
      (''http'', struct_member cf_http (\<lambda>x. cf_http_update (\<lambda>_. x))
         [(''enabled'', bool_member (\<lambda>x. hc_enabled_update (\<lambda>_. x))), (''addr'', str_member hc_addr (\<lambda>x. hc_addr_update (\<lambda>_. x)))]),
      (''apple_container'', struct_member cf_apple (\<lambda>x. cf_apple_update (\<lambda>_. x))
         [(''container_bin'', str_member pc_container_bin (\<lambda>x. pc_container_bin_update (\<lambda>_. x))),
          (''image'', str_member pc_image (\<lambda>x. pc_image_update (\<lambda>_. x)))]),
      (''console_archive'', struct_member cf_archive (\<lambda>x. cf_archive_update (\<lambda>_. x)) archive_members)]"

definition unmarshal_config :: "string \<Rightarrow> config \<Rightarrow> config option" where
  "unmarshal_config data c = (case json_parse data of None \<Rightarrow> None | Some v \<Rightarrow> decode_struct config_members v c)"

section \<open>Loading and saving\<close>

text \<open>Reading a file gives its text, the failure, or that there is none.\<close>

definition LoadFromDir :: "(string \<Rightarrow> goerr + string option) \<Rightarrow> string \<Rightarrow> goerr + config" where
  "LoadFromDir read dir =
     (case read (path_join [dir, ''config.json'']) of
        Inl e \<Rightarrow> Inl (Wrap ''failed to read config file'' e)
      | Inr None \<Rightarrow> Inr DefaultConfig
      | Inr (Some data) \<Rightarrow> (case unmarshal_config data DefaultConfig of
          None \<Rightarrow> Inl (Msg ''failed to parse config file'') | Some c \<Rightarrow> Inr c))"

text \<open>The files are a map; making the directory and writing may fail, the write also after a part of the text.\<close>

record save_faults =
  sf_mkdir :: "goerr option"
  sf_write :: "(nat \<times> goerr) option"

definition SaveToDir :: "save_faults \<Rightarrow> config \<Rightarrow> string \<Rightarrow> (string \<rightharpoonup> string, unit) op" where
  "SaveToDir fl c dir fs =
     (case sf_mkdir fl of
        Some e \<Rightarrow> (Inl (Wrap ''failed to create config directory'' e), fs)
      | None \<Rightarrow>
          (let path = path_join [dir, ''config.json'']; data = marshal_indent (config_json c) in
           case sf_write fl of
             Some (n, e) \<Rightarrow> (Inl (Wrap ''failed to write config file'' e), fs(path \<mapsto> take n data))
           | None \<Rightarrow> (Inr (), fs(path \<mapsto> data))))"

text \<open>\<open>env\<close> looks up a variable of the environment, \<open>system\<close> says whether \<open>/etc/stockyard/config.json\<close> is there,
  \<open>home\<close> is the home directory, if it is known.\<close>

definition ConfigDir :: "(string \<Rightarrow> string) \<Rightarrow> bool \<Rightarrow> string option \<Rightarrow> string" where
  "ConfigDir env system home =
     (if env ''STOCKYARD_CONFIG_DIR'' \<noteq> [] then env ''STOCKYARD_CONFIG_DIR''
      else if system then ''/etc/stockyard''
      else if env ''XDG_CONFIG_HOME'' \<noteq> [] then path_join [env ''XDG_CONFIG_HOME'', ''stockyard'']
      else case home of None \<Rightarrow> ''/etc/stockyard'' | Some h \<Rightarrow> path_join [h, ''.config'', ''stockyard''])"

definition VMDir :: "config \<Rightarrow> string" where
  "VMDir c = path_join [dc_data_dir (cf_daemon c), ''vms'', ''stockyard'']"

definition DHCPLeaseFile :: "config \<Rightarrow> string" where
  "DHCPLeaseFile c = path_join [dc_data_dir (cf_daemon c), ''dnsmasq.leases'']"

text \<open>Ages are durations in nanoseconds, 64 bits wide.\<close>

definition ConsoleArchiver :: "config \<Rightarrow> (string \<times> archiver) option" where
  "ConsoleArchiver c =
     (let ca = cf_archive c in
      if \<not> rc_enabled ca \<or> rc_dir ca = [] then None
      else Some (rc_dir ca, \<lparr>MaxTotalBytes = rc_max_total_bytes ca,
        MaxAge = sint (word_of_int (rc_max_age_days ca) * 24 * (3600 * 10 ^ 9) :: 64 word), MaxEntryBytes = rc_max_entry_bytes ca\<rparr>))"

definition secrets_dir :: "config \<Rightarrow> string" where
  "secrets_dir c = (if sc_dir (cf_secrets c) = [] then ''/etc/stockyard/secrets'' else sc_dir (cf_secrets c))"

section \<open>Secrets\<close>

text \<open>A provider is its name and how it gets a secret; \<open>txt\<close> renders an error.\<close>

record 'w provider =
  pv_name :: string
  pv_get :: "string \<Rightarrow> ('w, string) op"

text \<open>\<open>read\<close> reads a file, \<open>None\<close> when there is none.\<close>

definition FileProvider :: "(string \<Rightarrow> ('w, string option) op) \<Rightarrow> string \<Rightarrow> 'w provider" where
  "FileProvider read dir =
     \<lparr>pv_name = ''file'',
      pv_get = (\<lambda>name. attempt (read (path_join [dir, name])) (\<lambda>r. case r of
          Inl e \<Rightarrow> fail (Wrap (''failed to read secret '' @ go_quote name) e)
        | Inr None \<Rightarrow> fail (Msg (''secret '' @ go_quote name @ '' not found in '' @ dir))
        | Inr (Some data) \<Rightarrow> ok (trim_space data)))\<rparr>"

text \<open>\<open>run\<close> runs a command: its output, or its error and what it wrote to the standard error.\<close>

definition OnePasswordProvider :: "(string list \<Rightarrow> ('w, (goerr \<times> string) + string) op) \<Rightarrow> string \<Rightarrow> string \<Rightarrow> 'w provider" where
  "OnePasswordProvider run vault pfx =
     \<lparr>pv_name = ''1password'',
      pv_get = (\<lambda>name. call (run [''op'', ''read'', ''op://'' @ vault @ ''/'' @ pfx @ ''/'' @ name]) (\<lambda>r. case r of
          Inl (e, msg) \<Rightarrow> fail (Wrap (''op read failed: '' @ msg) e)
        | Inr out \<Rightarrow> ok (trim_space out)))\<rparr>"

fun try_providers :: "(goerr \<Rightarrow> string) \<Rightarrow> 'w provider list \<Rightarrow> string list \<Rightarrow> string \<Rightarrow> ('w, string) op" where
  "try_providers txt [] errors name =
     fail (Msg (''all providers failed for secret '' @ go_quote name @ '': '' @ join_with ''; '' errors))"
| "try_providers txt (p # ps) errors name =
     attempt (pv_get p name) (\<lambda>r. case r of
       Inr secret \<Rightarrow> ok secret
     | Inl e \<Rightarrow> try_providers txt ps (errors @ [pv_name p @ '': '' @ txt e]) name)"

definition FallbackProvider :: "(goerr \<Rightarrow> string) \<Rightarrow> 'w provider list \<Rightarrow> 'w provider" where
  "FallbackProvider txt ps =
     \<lparr>pv_name = ''fallback('' @ join_with '','' (map pv_name ps) @ '')'', pv_get = try_providers txt ps []\<rparr>"

text \<open>What the daemon's command does before it makes the daemon: the configuration, which must be initialised, and the
  provider of secrets.\<close>

definition start_setup ::
    "(goerr \<Rightarrow> string) \<Rightarrow> (string list \<Rightarrow> ('w, (goerr \<times> string) + string) op) \<Rightarrow> (string \<Rightarrow> ('w, string option) op) \<Rightarrow>
     goerr + config \<Rightarrow> goerr + config \<times> 'w provider" where
  "start_setup txt run read loaded =
     (case loaded of
        Inl e \<Rightarrow> Inl (Wrap ''failed to load config'' e)
      | Inr c \<Rightarrow>
          if cf_instance_id c = [] then Inl (Msg ''stockyard not initialized. Run: stockyard init --instance <name>'')
          else Inr (c, FallbackProvider txt
            [OnePasswordProvider run (sc_vault (cf_secrets c)) (sc_prefix (cf_secrets c)), FileProvider read (secrets_dir c)]))"

text \<open>\<open>stockyard init\<close> without its printing: the instance is also the prefix of the secrets.\<close>

definition init_config :: "string \<Rightarrow> config \<Rightarrow> config" where
  "init_config name c = c\<lparr>cf_instance_id := name, cf_secrets := (cf_secrets c)\<lparr>sc_prefix := name\<rparr>\<rparr>"

definition init_cmd :: "save_faults \<Rightarrow> string \<Rightarrow> string \<Rightarrow> (string \<rightharpoonup> string, unit) op" where
  "init_cmd fl name dir fs =
     (case LoadFromDir (\<lambda>p. Inr (fs p)) dir of
        Inl e \<Rightarrow> (Inl (Wrap ''failed to load config'' e), fs)
      | Inr c \<Rightarrow> wrap ''failed to save config'' (SaveToDir fl (init_config name c) dir) fs)"

section \<open>What is saved is loaded\<close>

definition int64_range :: "int \<Rightarrow> bool" where
  "int64_range n \<longleftrightarrow> - (2 ^ 63) \<le> n \<and> n < 2 ^ 63"

definition config_fits :: "config \<Rightarrow> bool" where
  "config_fits c \<longleftrightarrow> int64_range (rc_max_total_bytes (cf_archive c)) \<and> int64_range (rc_max_age_days (cf_archive c)) \<and>
     int64_range (rc_max_entry_bytes (cf_archive c))"

lemma member_simps [simp]:
  "str_member get put (JStr s) r = Some (put s r)"
  "bool_member bput (JBool b) r = Some (bput b r)"
  "int64_range n \<Longrightarrow> int_member iget iput (JNum (itoa_int n)) r = Some (iput n r)"
  by (simp_all add: str_member_def bool_member_def int_member_def to_string_def to_int_def int64_range_def parse_itoa_int)

lemmas key_simps = decode_struct_def to_lower_def to_lower_char_def

lemma int_config: "int_json (config_json c)"
  by (auto simp: config_json_def Let_def)

lemma decode_secrets:
  "decode_struct secrets_members (JObj [(''provider'', JStr (sc_provider s)), (''vault'', JStr (sc_vault s)), (''prefix'', JStr (sc_prefix s)),
     (''dir'', JStr (sc_dir s))]) r = Some s"
  by (cases s; cases r) (simp add: key_simps secrets_members_def)

lemma decode_daemon:
  "dc_grpc_addr r = [] \<Longrightarrow> decode_struct daemon_members (JObj ((''socket_path'', JStr (dc_socket_path s)) # (''data_dir'', JStr (dc_data_dir s)) #
     (if dc_grpc_addr s = [] then [] else [(''grpc_addr'', JStr (dc_grpc_addr s))]))) r = Some s"
  by (cases s; cases r) (simp add: key_simps daemon_members_def)

lemma decode_zfs:
  "decode_struct zfs_members (JObj [(''pool'', JStr (zc_pool s)), (''base_path'', JStr (zc_base_path s)), (''images_path'', JStr (zc_images_path s)),
     (''vms_path'', JStr (zc_vms_path s))]) r = Some s"
  by (cases s; cases r) (simp add: key_simps zfs_members_def)

lemma decode_firecracker:
  "decode_struct firecracker_members (JObj
     [(''kernel_path'', JStr (fk_kernel_path s)), (''rootfs_path'', JStr (fk_rootfs_path s)), (''bridge_name'', JStr (fk_bridge_name s)),
      (''vm_subnet'', JStr (fk_vm_subnet s)), (''vm_gateway'', JStr (fk_vm_gateway s)),
      (''dhcp_range_start'', JStr (fk_dhcp_range_start s)), (''dhcp_range_end'', JStr (fk_dhcp_range_end s)),
      (''dhcp_lease_time'', JStr (fk_dhcp_lease_time s))]) r = Some s"
  by (cases s; cases r) (simp add: key_simps firecracker_members_def)

lemma decode_archive:
  "config_fits c \<Longrightarrow> s = cf_archive c \<Longrightarrow> decode_struct archive_members (JObj
     [(''enabled'', JBool (rc_enabled s)), (''dir'', JStr (rc_dir s)), (''max_total_bytes'', JNum (itoa_int (rc_max_total_bytes s))),
      (''max_age_days'', JNum (itoa_int (rc_max_age_days s))), (''max_entry_bytes'', JNum (itoa_int (rc_max_entry_bytes s)))]) r = Some s"
  by (cases s; cases r) (simp add: key_simps archive_members_def config_fits_def)

lemma decode_user: "decode_struct [(''user'', str_member id (\<lambda>x _. x))] (JObj [(''user'', JStr u)]) u' = Some u"
  by (simp add: key_simps)

lemma decode_http:
  "decode_struct [(''enabled'', bool_member (\<lambda>x. hc_enabled_update (\<lambda>_. x))), (''addr'', str_member hc_addr (\<lambda>x. hc_addr_update (\<lambda>_. x)))]
     (JObj [(''enabled'', JBool (hc_enabled h)), (''addr'', JStr (hc_addr h))]) h' = Some (h :: cfg_http)"
  by (cases h; cases h') (simp add: key_simps)

lemma decode_apple:
  "decode_struct [(''container_bin'', str_member pc_container_bin (\<lambda>x. pc_container_bin_update (\<lambda>_. x))),
      (''image'', str_member pc_image (\<lambda>x. pc_image_update (\<lambda>_. x)))]
     (JObj [(''container_bin'', JStr (pc_container_bin a)), (''image'', JStr (pc_image a))]) a' = Some (a :: cfg_apple)"
  by (cases a; cases a') (simp add: key_simps)

lemma decode_config:
  assumes "config_fits c" "dc_grpc_addr (cf_daemon r) = []"
  shows "decode_struct config_members (config_json c) r = Some c"
  unfolding decode_struct_def [of config_members] config_json_def json.case
  using assms(2) decode_archive [OF assms(1) refl]
  by (cases c; cases r)
    (simp add: config_members_def struct_member_def Let_def decode_secrets decode_daemon decode_zfs decode_firecracker decode_user
      decode_http decode_apple to_lower_def to_lower_char_def)

text \<open>C39. A configuration that was saved without a failure is loaded again exactly as it was, every member of it, whatever the
  directory held before; a failure to make the directory leaves the files alone. The numbers must fit Go's integers.\<close>

theorem saved_config_is_loaded:
  assumes "config_fits c"
  shows "let (r, fs') = SaveToDir fl c dir fs in
    (sf_mkdir fl = None \<and> sf_write fl = None \<longrightarrow> r = Inr () \<and> LoadFromDir (\<lambda>p. Inr (fs' p)) dir = Inr c) \<and>
    (sf_mkdir fl \<noteq> None \<longrightarrow> isl r \<and> fs' = fs)"
proof -
  have "unmarshal_config (marshal_indent (config_json c)) DefaultConfig = Some c"
    using decode_config [OF assms, of DefaultConfig] json_parse_indent [OF int_config]
    by (simp add: unmarshal_config_def DefaultConfig_def)
  then show ?thesis by (auto simp: SaveToDir_def LoadFromDir_def Let_def)
qed

lemma saved_config_is_loaded_witness:
  "LoadFromDir (\<lambda>p. Inr (snd (SaveToDir \<lparr>sf_mkdir = None, sf_write = None\<rparr> DefaultConfig ''/etc/stockyard'' Map.empty) p)) ''/etc/stockyard'' =
    Inr DefaultConfig"
proof -
  have "config_fits DefaultConfig" by (simp add: config_fits_def int64_range_def DefaultConfig_def)
  from saved_config_is_loaded [OF this, of "\<lparr>sf_mkdir = None, sf_write = None\<rparr>" "''/etc/stockyard''" Map.empty]
  show ?thesis by (simp add: split_beta)
qed

text \<open>A fallback gives the secret of the first provider that has it, and asks no later one.\<close>

lemma fallback_first:
  "pv_get p name w = (Inr secret, w') \<Longrightarrow> try_providers txt (p # ps) errors name w = (Inr secret, w')"
  by (simp add: attempt_def)

lemma fallback_next:
  "pv_get p name w = (Inl e, w') \<Longrightarrow>
   try_providers txt (p # ps) errors name w = try_providers txt ps (errors @ [pv_name p @ '': '' @ txt e]) name w'"
  by (simp add: attempt_def)

end
