(* ===== verification/Log_Tail.thy ===== *)
theory Log_Tail
  imports Prelude Go_Strings
begin

text \<open>
  The loop of the log tailer (\<open>pkg/daemon/logtailer.go\<close>), which follows a file that grows and sends each line it
  reads. Lines are sent whole as long as the file grows by whole lines; a line that is written in two steps is sent
  as two.
\<close>

section \<open>Reading lines\<close>

text \<open>
  \<open>bufio.Reader.ReadLine\<close> with its buffer of 4096 bytes, on what the file holds beyond the reader's position: a line without its
  end, a piece of a line that does not fit, or what is there before the end of the file. A carriage return at the end
  of a piece is left for the next one.
\<close>

definition LF :: char where "LF = CHR 0x0A"

definition trim_cr :: "string \<Rightarrow> string" where
  "trim_cr l = (if l \<noteq> [] \<and> last l = CHR 0x0D then butlast l else l)"

definition read_line :: "string \<Rightarrow> (string \<times> bool \<times> string) option" where
  "read_line s =
     (if s = [] then None
      else case index_byte (take 4096 s) LF of
        Some k \<Rightarrow> Some (trim_cr (take k s), False, drop (Suc k) s)
      | None \<Rightarrow>
          if length s < 4096 then Some (s, False, [])
          else if last (take 4096 s) = CHR 0x0D then Some (take 4095 s, True, drop 4095 s)
          else Some (take 4096 s, True, drop 4096 s))"

lemma read_line_shorter: "read_line s = Some (l, p, r) \<Longrightarrow> length r < length s"
  by (auto simp: read_line_def split: option.splits if_splits)

section \<open>The loop\<close>

text \<open>Up to the end of the file: the lines that are sent, and the pieces of a line that are kept.\<close>

function drain :: "string \<Rightarrow> string \<Rightarrow> string list \<times> string" where
  "drain lineBuf s =
     (case read_line s of
        None \<Rightarrow> ([], lineBuf)
      | Some (line, isPrefix, rest) \<Rightarrow>
          if isPrefix then drain (lineBuf @ line) rest
          else (case drain [] rest of (ls, b) \<Rightarrow> ((lineBuf @ line) # ls, b)))"
  by pat_completeness auto
termination
  by (relation "measure (\<lambda>(_, s). length s)") (auto dest!: read_line_shorter)

declare drain.simps [simp del]

text \<open>The file grows by chunks, and each is read to its end before the next one is there.\<close>

fun tail_loop :: "string \<Rightarrow> string list \<Rightarrow> string list" where
  "tail_loop lineBuf [] = []"
| "tail_loop lineBuf (c # cs) = (case drain lineBuf c of (ls, b) \<Rightarrow> ls @ tail_loop b cs)"

section \<open>Whole lines are sent whole\<close>

lemma trim_cr_append: "ys \<noteq> [] \<Longrightarrow> trim_cr (xs @ ys) = xs @ trim_cr ys"
  by (simp add: trim_cr_def butlast_append)

lemma drain_end: "drain b [] = ([], b)"
  by (subst drain.simps) (simp add: read_line_def)

lemma in_set_part: "x \<notin> set l \<Longrightarrow> x \<notin> set (take n l) \<and> x \<notin> set (drop n l)"
  by (auto dest: in_set_takeD in_set_dropD)

lemma drain_line:
  "LF \<notin> set l \<Longrightarrow> drain buf (l @ LF # s) = (case drain [] s of (ls, b) \<Rightarrow> ((buf @ trim_cr l) # ls, b))"
proof (induction "length l" arbitrary: buf l rule: less_induct)
  case less
  show ?case
  proof (cases "length l < 4096")
    case True
    then have "take 4096 (l @ LF # s) = l @ LF # take (4095 - length l) s" by (simp add: take_Cons')
    then have "index_byte (take 4096 (l @ LF # s)) LF = Some (length l)"
      using less.prems by (simp add: index_byte_append)
    then show ?thesis by (subst drain.simps) (simp add: read_line_def)
  next
    case False
    have none: "index_byte (take 4096 (l @ LF # s)) LF = None"
      using less.prems False by (simp add: index_byte_None in_set_part)
    show ?thesis
    proof (cases "last (take 4096 l) = CHR 0x0D")
      case True
      have "trim_cr l = take 4095 l @ trim_cr (drop 4095 l)"
        using False trim_cr_append [of "drop 4095 l" "take 4095 l"] by simp
      then show ?thesis
        using less.hyps [of "drop 4095 l" "buf @ take 4095 l"] less.prems False none True
        by (subst drain.simps) (auto simp: read_line_def in_set_part)
    next
      case nocr: False
      have "trim_cr l = take 4096 l @ trim_cr (drop 4096 l)"
      proof (cases "length l = 4096")
        case True
        with nocr show ?thesis by (simp add: trim_cr_def)
      next
        case len: False
        with False show ?thesis using trim_cr_append [of "drop 4096 l" "take 4096 l"] by simp
      qed
      then show ?thesis
        using less.hyps [of "drop 4096 l" "buf @ take 4096 l"] less.prems False none nocr
        by (subst drain.simps) (auto simp: read_line_def in_set_part)
    qed
  qed
qed

lemma drain_lines: "\<forall>l \<in> set ls. LF \<notin> set l \<Longrightarrow> drain [] (concat (map (\<lambda>l. l @ [LF]) ls)) = (map trim_cr ls, [])"
proof (induction ls)
  case Nil
  then show ?case by (simp add: drain_end)
next
  case (Cons l ls)
  then show ?case using drain_line [of l "[]" "concat (map (\<lambda>l. l @ [LF]) ls)"] by simp
qed

lemma drain_part: "l \<noteq> [] \<Longrightarrow> LF \<notin> set l \<Longrightarrow> length l < 4096 \<Longrightarrow> drain [] l = ([l], [])"
  by (subst drain.simps) (simp add: read_line_def index_byte_None [THEN iffD2] drain_end)

text \<open>C40. The log tailer sends the lines of the file, each once, in order and without its end, however long they are and
  however many come at a time, as long as the file grows by whole lines. A line that is written in two steps with the
  reader in between is sent as two lines.\<close>

theorem tailer_sends_lines:
  assumes "\<forall>ls \<in> set chunks. \<forall>l \<in> set ls. LF \<notin> set l"
    and "a \<noteq> []" "LF \<notin> set a" "length a < 4096" "LF \<notin> set b"
  shows "tail_loop [] (map (\<lambda>ls. concat (map (\<lambda>l. l @ [LF]) ls)) chunks) = map trim_cr (concat chunks) \<and>
    tail_loop [] [a, b @ [LF]] = [a, trim_cr b]"
proof
  show "tail_loop [] (map (\<lambda>ls. concat (map (\<lambda>l. l @ [LF]) ls)) chunks) = map trim_cr (concat chunks)"
    using assms(1) by (induction chunks) (simp_all add: drain_lines)
  show "tail_loop [] [a, b @ [LF]] = [a, trim_cr b]"
    using assms(2-) drain_lines [of "[b]"] by (simp add: drain_part)
qed

lemma tailer_sends_lines_witness:
  "tail_loop [] [''boot'' @ [LF] @ ''ok'' @ [CHR 0x0D] @ [LF], ''login'' @ [LF]] = [''boot'', ''ok'', ''login''] \<and>
   tail_loop [] [''pan'', ''ic'' @ [LF]] = [''pan'', ''ic'']"
  using tailer_sends_lines [of "[[''boot'', ''ok'' @ [CHR 0x0D]], [''login'']]" "''pan''" "''ic''"]
  by (simp add: LF_def trim_cr_def)

end
