(* ===== verification/Apple_Container.thy ===== *)
theory Apple_Container
  imports Vm_Backend Shell
begin

text \<open>
  The VM backend over Apple's \<open>container\<close> command (\<open>pkg/vmbackend/apple_container.go\<close>).
  The command itself, files and processes are parameters (\<open>ac_host\<close>); the backend's own state
  is the map of log followers. What the command prints is parsed as the code does.
\<close>

section \<open>What the command prints\<close>

text \<open>The fields of a JSON object one after the other, as \<open>json.Unmarshal\<close> stores them into a struct: a later one
  overwrites, unknown ones are skipped, null leaves the value, and any other type is an error. The fields of a struct match
  in any ASCII case.\<close>

fun decode_members :: "(string \<Rightarrow> json \<Rightarrow> 'a \<Rightarrow> 'a option) \<Rightarrow> (string \<times> json) list \<Rightarrow> 'a \<Rightarrow> 'a option" where
  "decode_members field [] m = Some m"
| "decode_members field ((k, v) # ms) m = (case field (to_lower k) v m of None \<Rightarrow> None | Some m' \<Rightarrow> decode_members field ms m')"

definition decode_object :: "(string \<Rightarrow> json \<Rightarrow> 'a \<Rightarrow> 'a option) \<Rightarrow> json \<Rightarrow> 'a \<Rightarrow> 'a option" where
  "decode_object field v m = (case v of JNull \<Rightarrow> Some m | JObj ms \<Rightarrow> decode_members field ms m | _ \<Rightarrow> None)"

fun decode_all :: "(json \<Rightarrow> 'a option) \<Rightarrow> json list \<Rightarrow> 'a list option" where
  "decode_all f [] = Some []"
| "decode_all f (v # vs) = (case f v of None \<Rightarrow> None | Some x \<Rightarrow> map_option ((#) x) (decode_all f vs))"

definition decode_array :: "(json \<Rightarrow> 'a option) \<Rightarrow> json \<Rightarrow> 'a list option" where
  "decode_array f v = (case v of JNull \<Rightarrow> Some [] | JArr vs \<Rightarrow> decode_all f vs | _ \<Rightarrow> None)"

definition unmarshal_array :: "(json \<Rightarrow> 'a option) \<Rightarrow> string \<Rightarrow> 'a list option" where
  "unmarshal_array f s = (case json_parse s of None \<Rightarrow> None | Some v \<Rightarrow> decode_array f v)"

record container_json =
  cj_status :: string
  cj_id :: string
  cj_addresses :: "string list"

definition address_field :: "string \<Rightarrow> json \<Rightarrow> string \<Rightarrow> string option" where
  "address_field k v m = (if k = ''ipv4address'' then to_string m v else Some m)"

definition configuration_field :: "string \<Rightarrow> json \<Rightarrow> container_json \<Rightarrow> container_json option" where
  "configuration_field k v m = (if k = ''id'' then map_option (\<lambda>x. m\<lparr>cj_id := x\<rparr>) (to_string (cj_id m) v) else Some m)"

definition container_field :: "string \<Rightarrow> json \<Rightarrow> container_json \<Rightarrow> container_json option" where
  "container_field k v m =
     (if k = ''status'' then map_option (\<lambda>x. m\<lparr>cj_status := x\<rparr>) (to_string (cj_status m) v)
      else if k = ''configuration'' then decode_object configuration_field v m
      else if k = ''networks'' then
        map_option (\<lambda>x. m\<lparr>cj_addresses := x\<rparr>) (decode_array (\<lambda>n. decode_object address_field n []) v)
      else Some m)"

definition unmarshal_containers :: "string \<Rightarrow> container_json list option" where
  "unmarshal_containers =
     unmarshal_array (\<lambda>v. decode_object container_field v \<lparr>cj_status = [], cj_id = [], cj_addresses = []\<rparr>)"

record image_json =
  ij_size :: string
  ij_digest :: string
  ij_annotations :: "(string \<times> string) list"
  ij_reference :: string

definition descriptor_field :: "string \<Rightarrow> json \<Rightarrow> image_json \<Rightarrow> image_json option" where
  "descriptor_field k v m =
     (if k = ''digest'' then map_option (\<lambda>x. m\<lparr>ij_digest := x\<rparr>) (to_string (ij_digest m) v)
      else if k = ''annotations'' then
        (case v of
           JNull \<Rightarrow> Some (m\<lparr>ij_annotations := []\<rparr>)
         | JObj ms \<Rightarrow> map_option (\<lambda>x. m\<lparr>ij_annotations := x\<rparr>) (to_env ms (ij_annotations m))
         | _ \<Rightarrow> None)
      else Some m)"

definition image_field :: "string \<Rightarrow> json \<Rightarrow> image_json \<Rightarrow> image_json option" where
  "image_field k v m =
     (if k = ''fullsize'' then map_option (\<lambda>x. m\<lparr>ij_size := x\<rparr>) (to_string (ij_size m) v)
      else if k = ''descriptor'' then decode_object descriptor_field v m
      else if k = ''reference'' then map_option (\<lambda>x. m\<lparr>ij_reference := x\<rparr>) (to_string (ij_reference m) v)
      else Some m)"

definition unmarshal_images :: "string \<Rightarrow> image_json list option" where
  "unmarshal_images =
     unmarshal_array (\<lambda>v. decode_object image_field v \<lparr>ij_size = [], ij_digest = [], ij_annotations = [], ij_reference = []\<rparr>)"

text \<open>The text of a parse error is not modelled.\<close>

definition parsed :: "string \<Rightarrow> 'a option \<Rightarrow> ('s, 'a) op" where
  "parsed what r = (case r of None \<Rightarrow> fail (Wrap what (Msg ''json'')) | Some x \<Rightarrow> ok x)"

section \<open>The backend\<close>

record ac_config =
  ac_image :: string
  ac_state_dir :: string
  ac_skip_follower :: bool

text \<open>
  \<open>ac_run\<close> runs the command with arguments and returns its output; \<open>ac_spawn\<close> starts the log
  follower, \<open>ac_kill\<close> kills one and waits for its end; \<open>ac_archive\<close> keeps the console of a VM.
\<close>

record 'w ac_host =
  ac_run :: "string list \<Rightarrow> ('w, string) op"
  ac_mkdir :: "string \<Rightarrow> ('w, unit) op"
  ac_remove :: "string \<Rightarrow> ('w, unit) op"
  ac_create :: "string \<Rightarrow> ('w, unit) op"
  ac_spawn :: "string list \<Rightarrow> ('w, nat) op"
  ac_kill :: "nat \<Rightarrow> ('w, unit) op"
  ac_archive :: "(string \<Rightarrow> string \<Rightarrow> string \<Rightarrow> ('w, unit) op) option"

type_synonym 'w ac_state = "(string \<times> nat) list \<times> 'w"

definition on_host :: "('w, 'a) op \<Rightarrow> ('w ac_state, 'a) op" where
  "on_host m = zoom snd (\<lambda>w (fs, _). (fs, w)) m"

definition containerName :: "string \<Rightarrow> string" where
  "containerName vmID = ''stockyard-'' @ vmID"

definition vmIDFromName :: "string \<Rightarrow> string option" where
  "vmIDFromName name = (if has_prefix name ''stockyard-'' then Some (trim_prefix name ''stockyard-'') else None)"

definition addressToIP :: "string \<Rightarrow> string" where
  "addressToIP addr = (case index_byte addr (CHR ''/'') of None \<Rightarrow> addr | Some i \<Rightarrow> take i addr)"

definition vmStateDir :: "ac_config \<Rightarrow> string \<Rightarrow> string" where
  "vmStateDir c i = path_join [ac_state_dir c, i]"

definition ensureStateDir :: "ac_config \<Rightarrow> 'w ac_host \<Rightarrow> string \<Rightarrow> ('w ac_state, string) op" where
  "ensureStateDir c h i =
     call_wrap ''create VM state dir'' (on_host (ac_mkdir h (vmStateDir c i))) (\<lambda>_. ok (vmStateDir c i))"

definition key_values :: "string \<Rightarrow> (string \<times> string) list \<Rightarrow> string list" where
  "key_values flag m = concat (map (\<lambda>k. [flag, k @ ''='' @ map_get m k]) (sort (map fst m)))"

definition buildRunArgs :: "ac_config \<Rightarrow> vmb_config \<Rightarrow> string list" where
  "buildRunArgs c cfg =
     [''run'', ''-d'', ''--name'', containerName (vb_id cfg), ''--cpus'', itoa_int (sint (vb_vcpu cfg)),
      ''--memory'', itoa_int (sint (vb_memory cfg)) @ ''M''] @
     key_values ''--env'' (vb_env cfg) @ key_values ''--label'' (vb_metadata cfg) @
     [if vb_image cfg = [] then ac_image c else vb_image cfg]"

section \<open>Log followers\<close>

text \<open>The follower is forgotten before it is killed.\<close>

definition stopLogFollower :: "'w ac_host \<Rightarrow> string \<Rightarrow> ('w ac_state, 'a) op \<Rightarrow> ('w ac_state, 'a) op" where
  "stopLogFollower h i k = (\<lambda>(fs, w). case map_of fs i of
     None \<Rightarrow> k (fs, w)
   | Some p \<Rightarrow> ignore (on_host (ac_kill h p)) k (AList.delete i fs, w))"

definition startLogFollower :: "ac_config \<Rightarrow> 'w ac_host \<Rightarrow> string \<Rightarrow> ('w ac_state, unit) op" where
  "startLogFollower c h i =
     stopLogFollower h i
       (call_wrap ''create stdout.log'' (on_host (ac_create h (path_join [vmStateDir c i, ''stdout.log'']))) (\<lambda>_.
        call_wrap ''create stderr.log'' (on_host (ac_create h (path_join [vmStateDir c i, ''stderr.log'']))) (\<lambda>_.
        call_wrap ''start log follower'' (on_host (ac_spawn h [''logs'', ''-f'', containerName i])) (\<lambda>p.
        pure_step (\<lambda>(fs, w). (AList.update i p fs, w)) (ok ())))))"

definition EnsureLogFollower :: "ac_config \<Rightarrow> 'w ac_host \<Rightarrow> string \<Rightarrow> ('w ac_state, unit) op" where
  "EnsureLogFollower c h i = (\<lambda>(fs, w).
     if map_of fs i \<noteq> None then (Inr (), (fs, w))
     else if ac_skip_follower c then (Inr (), (fs, w))
     else startLogFollower c h i (fs, w))"

fun stop_followers :: "'w ac_host \<Rightarrow> string list \<Rightarrow> ('w ac_state, unit) op" where
  "stop_followers h [] = ok ()"
| "stop_followers h (i # is) = stopLogFollower h i (stop_followers h is)"

definition ac_Close :: "'w ac_host \<Rightarrow> ('w ac_state, unit) op" where
  "ac_Close h = (\<lambda>(fs, w). stop_followers h (map fst fs) (fs, w))"

section \<open>The operations\<close>

definition inspectIP :: "'w ac_host \<Rightarrow> string \<Rightarrow> ('w ac_state, string) op" where
  "inspectIP h i =
     call_wrap ''container inspect'' (on_host (ac_run h [''inspect'', containerName i])) (\<lambda>out.
     call (parsed ''parse container inspect JSON'' (unmarshal_containers out)) (\<lambda>arr.
     ok (case arr of c # _ \<Rightarrow> (case cj_addresses c of a # _ \<Rightarrow> addressToIP a | [] \<Rightarrow> []) | [] \<Rightarrow> [])))"

text \<open>Twenty attempts, with a pause after each.\<close>

fun poll_ip :: "'w ac_host \<Rightarrow> string \<Rightarrow> nat \<Rightarrow> ('w ac_state, string) op" where
  "poll_ip h i 0 = ok []"
| "poll_ip h i (Suc n) =
     attempt (inspectIP h i) (\<lambda>r. case r of Inr (c # ip) \<Rightarrow> ok (c # ip) | _ \<Rightarrow> poll_ip h i n)"

definition pollIP :: "'w ac_host \<Rightarrow> string \<Rightarrow> ('w ac_state, string) op" where
  "pollIP h i = poll_ip h i 20"

text \<open>The follower of a started container, whose failure is only a warning, and its address.\<close>

definition started :: "ac_config \<Rightarrow> 'w ac_host \<Rightarrow> string \<Rightarrow> ('w ac_state, vm_info) op" where
  "started c h i =
     ignore (if ac_skip_follower c then ok () else startLogFollower c h i)
       (call (pollIP h i) (\<lambda>ip. ok \<lparr>vi_id = i, vi_ip = ip, vi_cid = 0, vi_vsock = []\<rparr>))"

definition ac_CreateVM :: "ac_config \<Rightarrow> 'w ac_host \<Rightarrow> vmb_config \<Rightarrow> ('w ac_state, vm_info) op" where
  "ac_CreateVM c h cfg =
     call (ensureStateDir c h (vb_id cfg)) (\<lambda>stateDir.
     attempt (on_host (ac_run h (buildRunArgs c cfg))) (\<lambda>r. case r of
       Inl e \<Rightarrow> ignore (on_host (ac_remove h stateDir)) (fail (Wrap ''container run'' e))
     | Inr _ \<Rightarrow> started c h (vb_id cfg)))"

definition ac_StartVM :: "ac_config \<Rightarrow> 'w ac_host \<Rightarrow> vmb_config \<Rightarrow> ('w ac_state, vm_info) op" where
  "ac_StartVM c h cfg =
     call (ensureStateDir c h (vb_id cfg)) (\<lambda>_.
     call_wrap ''container start'' (on_host (ac_run h [''start'', containerName (vb_id cfg)])) (\<lambda>_.
     started c h (vb_id cfg)))"

text \<open>\<open>strings.Contains\<close>, and the test of an error's text for an absent container.\<close>

fun has_substring :: "string \<Rightarrow> string \<Rightarrow> bool" where
  "has_substring [] p = (p = [])"
| "has_substring (c # s) p = (has_prefix (c # s) p \<or> has_substring s p)"

definition containerGone :: "(goerr \<Rightarrow> string) \<Rightarrow> goerr \<Rightarrow> bool" where
  "containerGone txt e =
     (let s = to_lower (txt e) in has_substring s ''not found'' \<or> has_substring s ''notfound'')"

definition ac_StopVM :: "'w ac_host \<Rightarrow> (goerr \<Rightarrow> string) \<Rightarrow> string \<Rightarrow> ('w ac_state, unit) op" where
  "ac_StopVM h txt i =
     stopLogFollower h i
       (attempt (on_host (ac_run h [''stop'', containerName i])) (\<lambda>r. case r of
          Inr _ \<Rightarrow> ok ()
        | Inl e \<Rightarrow> if containerGone txt e then ok () else fail (Wrap ''container stop'' e)))"

definition ac_DeleteVM :: "ac_config \<Rightarrow> 'w ac_host \<Rightarrow> (goerr \<Rightarrow> string) \<Rightarrow> string \<Rightarrow> ('w ac_state, unit) op" where
  "ac_DeleteVM c h txt i =
     stopLogFollower h i
       (ignore (on_host (ac_run h [''stop'', containerName i]))
         (attempt (on_host (ac_run h [''rm'', containerName i])) (\<lambda>r.
            if (case r of Inl e \<Rightarrow> \<not> containerGone txt e | Inr _ \<Rightarrow> False)
            then fail (Wrap ''container rm'' (case r of Inl e \<Rightarrow> e | Inr _ \<Rightarrow> Msg []))
            else
              ignore (case ac_archive h of None \<Rightarrow> ok () | Some a \<Rightarrow> on_host (a (vmStateDir c i) i ''delete_vm''))
                (ignore (on_host (ac_remove h (vmStateDir c i))) (ok ())))))"

definition ac_GetVM :: "'w ac_host \<Rightarrow> string \<Rightarrow> ('w ac_state, vm_state) op" where
  "ac_GetVM h i =
     call_wrap ''container inspect'' (on_host (ac_run h [''inspect'', containerName i])) (\<lambda>out.
     call (parsed ''parse container inspect JSON'' (unmarshal_containers out)) (\<lambda>arr.
     case arr of [] \<Rightarrow> fail (Msg (''VM not found: '' @ i))
       | c # _ \<Rightarrow> ok \<lparr>vs_id = i, vs_pid = 0, vs_status = cj_status c\<rparr>))"

definition listed_state :: "container_json \<Rightarrow> vm_state option" where
  "listed_state c = map_option (\<lambda>vmID. \<lparr>vs_id = vmID, vs_pid = 0, vs_status = cj_status c\<rparr>) (vmIDFromName (cj_id c))"

definition ac_ListVMs :: "'w ac_host \<Rightarrow> ('w ac_state, vm_state list) op" where
  "ac_ListVMs h =
     call_wrap ''container ls'' (on_host (ac_run h [''ls'', ''--all'', ''--format'', ''json''])) (\<lambda>out.
     call (parsed ''parse container ls JSON'' (unmarshal_containers out)) (\<lambda>arr. ok (List.map_filter listed_state arr)))"

definition ac_ValidateImage :: "'w ac_host \<Rightarrow> string \<Rightarrow> ('w ac_state, unit) op" where
  "ac_ValidateImage h ref =
     attempt (on_host (ac_run h [''image'', ''inspect'', ref])) (\<lambda>r. case r of
       Inr _ \<Rightarrow> ok ()
     | Inl _ \<Rightarrow> attempt (on_host (ac_run h [''image'', ''ls''])) (\<lambda>l.
         fail (Msg (''image '' @ go_quote ref @ '' not found on host; available images:'' @ [CHR 0x0A] @
           (case l of Inl _ \<Rightarrow> ''(could not list images)'' | Inr out \<Rightarrow> trim_space out)))))"

text \<open>Reference, digest, size and creation time of each image.\<close>

definition ac_ListImages :: "'w ac_host \<Rightarrow> ('w ac_state, (string \<times> string \<times> string \<times> string) list) op" where
  "ac_ListImages h =
     call_wrap ''container image ls'' (on_host (ac_run h [''image'', ''ls'', ''--format'', ''json''])) (\<lambda>out.
     call (parsed ''parse container image ls JSON'' (unmarshal_images out)) (\<lambda>arr.
     ok (map (\<lambda>m. (ij_reference m, ij_digest m, ij_size m, map_get (ij_annotations m) ''org.opencontainers.image.created'')) arr)))"

section \<open>Followers and processes\<close>

text \<open>
  What the backend relies on: \<open>live\<close> are the follower processes there are; a started one is new, a
  killed one is gone, and nothing else starts or ends one.
\<close>

definition same_live :: "('w \<Rightarrow> nat set) \<Rightarrow> ('w, 'a) op \<Rightarrow> bool" where
  "same_live live m \<longleftrightarrow> (\<forall>w. live (snd (m w)) = live w)"

definition follower_contract :: "'w ac_host \<Rightarrow> ('w \<Rightarrow> nat set) \<Rightarrow> bool" where
  "follower_contract h live \<longleftrightarrow>
     (\<forall>args. same_live live (ac_run h args)) \<and> (\<forall>p. same_live live (ac_mkdir h p) \<and> same_live live (ac_remove h p) \<and> same_live live (ac_create h p)) \<and>
     (\<forall>a x y z. ac_archive h = Some a \<longrightarrow> same_live live (a x y z)) \<and>
     (\<forall>p w. live (snd (ac_kill h p w)) = live w - {p}) \<and>
     (\<forall>args w. case ac_spawn h args w of (Inl _, w') \<Rightarrow> live w' = live w | (Inr p, w') \<Rightarrow> p \<notin> live w \<and> live w' = insert p (live w))"

definition followers_ok :: "('w \<Rightarrow> nat set) \<Rightarrow> 'w ac_state \<Rightarrow> bool" where
  "followers_ok live s \<longleftrightarrow> distinct (map fst (fst s)) \<and> distinct (map snd (fst s)) \<and> live (snd s) = set (map snd (fst s))"

definition preserves :: "('s \<Rightarrow> bool) \<Rightarrow> ('s, 'a) op \<Rightarrow> bool" where
  "preserves I m \<longleftrightarrow> (\<forall>s. I s \<longrightarrow> I (snd (m s)))"

named_theorems preserves_intros

lemma preserves_sequence [preserves_intros]:
  "preserves I (ok a)" "preserves I (fail e)"
  "preserves I m \<Longrightarrow> (\<And>a. preserves I (f a)) \<Longrightarrow> preserves I (call m f)"
  "preserves I m \<Longrightarrow> (\<And>a. preserves I (f a)) \<Longrightarrow> preserves I (call_wrap msg m f)"
  "preserves I m \<Longrightarrow> (\<And>r. preserves I (g r)) \<Longrightarrow> preserves I (attempt m g)"
  "preserves I m \<Longrightarrow> preserves I k \<Longrightarrow> preserves I (ignore m k)"
  by (auto simp: preserves_def call_def call_wrap_def wrap_def attempt_def ignore_def split: prod.split sum.split)

lemma on_host_eq: "on_host m (fs, w) = (fst (m w), (fs, snd (m w)))"
  by (simp add: on_host_def zoom_def split: prod.split)

lemma preserves_on_host: "same_live live m \<Longrightarrow> preserves (followers_ok live) (on_host m)"
  by (simp add: preserves_def same_live_def on_host_eq followers_ok_def)

lemma delete_follower:
  assumes "distinct (map fst fs)" "distinct (map snd fs)" "map_of fs i = Some p"
  shows "set (map snd (AList.delete i fs)) = set (map snd fs) - {p}" "distinct (map snd (AList.delete i fs))"
    "distinct (map fst (AList.delete i fs))" "map_of (AList.delete i fs) i = None"
proof -
  have ip: "(i, p) \<in> set fs" using assms(3) by (rule map_of_SomeD)
  have iff: "fst x = i \<longleftrightarrow> snd x = p" if "x \<in> set fs" for x
  proof
    assume "fst x = i"
    then show "snd x = p" using eq_key_imp_eq_value [OF assms(1), of i "snd x" p] that ip by (cases x) simp
  next
    assume "snd x = p"
    moreover have "inj_on snd (set fs)" using assms(2) by (simp add: distinct_map)
    ultimately have "x = (i, p)" using inj_onD [of snd "set fs" x "(i, p)"] that ip by simp
    then show "fst x = i" by simp
  qed
  have "AList.delete i fs = filter (\<lambda>x. snd x \<noteq> p) fs"
    unfolding AList.delete_eq
  proof (rule filter_cong [OF refl])
    fix x assume "x \<in> set fs"
    from iff [OF this] show "(case x of (k', _) \<Rightarrow> i \<noteq> k') = (snd x \<noteq> p)" by (cases x) auto
  qed
  then show "set (map snd (AList.delete i fs)) = set (map snd fs) - {p}" "distinct (map snd (AList.delete i fs))"
    using assms(2) by (auto simp: distinct_map_filter)
  show "distinct (map fst (AList.delete i fs))" using assms(1) by (rule AList.distinct_delete)
  show "map_of (AList.delete i fs) i = None" by (simp add: AList.delete_conv)
qed

text \<open>Stopping a follower ends its process, whatever goes on afterwards.\<close>

lemma preserves_stop [preserves_intros]:
  assumes "follower_contract h live" "preserves (followers_ok live) k"
  shows "preserves (followers_ok live) (stopLogFollower h i k)"
  unfolding preserves_def
proof (intro allI impI)
  fix s assume ok: "followers_ok live s"
  obtain fs w where s: "s = (fs, w)" by fastforce
  show "followers_ok live (snd (stopLogFollower h i k s))"
  proof (cases "map_of fs i")
    case None
    then show ?thesis using assms(2) ok by (simp add: stopLogFollower_def s preserves_def)
  next
    case (Some p)
    have "live (snd (ac_kill h p w)) = live w - {p}" using assms(1) by (simp add: follower_contract_def)
    then have "followers_ok live (AList.delete i fs, snd (ac_kill h p w))"
      using ok delete_follower [OF _ _ Some] by (simp add: followers_ok_def s)
    then show ?thesis using assms(2) Some by (simp add: stopLogFollower_def s ignore_def on_host_eq preserves_def)
  qed
qed

text \<open>The new process is recorded once no follower of the VM is.\<close>

lemma spawn_follower:
  fixes h :: "'w ac_host"
  assumes "follower_contract h live" "followers_ok live (fs, w)" "map_of fs i = None"
  shows "followers_ok live (snd (call_wrap msg (on_host (ac_spawn h args)) (\<lambda>p. pure_step (\<lambda>(fs, w). (AList.update i p fs, w)) (ok ())) (fs, w)))"
proof -
  obtain r w' where run: "ac_spawn h args w = (r, w')" by fastforce
  have "\<forall>args (w :: 'w). case ac_spawn h args w of (Inl _, w') \<Rightarrow> live w' = live w | (Inr p, w') \<Rightarrow> p \<notin> live w \<and> live w' = insert p (live w)"
    using assms(1) unfolding follower_contract_def by (elim conjE)
  from this [THEN spec, of args, THEN spec, of w] run
  have "case r of Inl _ \<Rightarrow> live w' = live w | Inr p \<Rightarrow> p \<notin> live w \<and> live w' = insert p (live w)" by (simp split: sum.split)
  moreover have "AList.update i p fs = fs @ [(i, p)]" for p using assms(3) by (induction fs) (auto split: if_splits)
  ultimately show ?thesis using assms(2,3)
    by (cases r) (auto simp: call_wrap_def call_def wrap_def on_host_eq run pure_step_def followers_ok_def map_of_eq_None_iff)
qed

lemma contract_calls [preserves_intros]:
  assumes "follower_contract h live"
  shows "preserves (followers_ok live) (on_host (ac_run h args))" "preserves (followers_ok live) (on_host (ac_mkdir h p))"
    "preserves (followers_ok live) (on_host (ac_remove h p))" "preserves (followers_ok live) (on_host (ac_create h p))"
    "ac_archive h = Some a \<Longrightarrow> preserves (followers_ok live) (on_host (a x y z))"
  using assms by (auto simp: follower_contract_def intro: preserves_on_host)

text \<open>The state in which a follower is started: the invariant, and no follower of this VM.\<close>

lemma preserves_start [preserves_intros]:
  assumes "follower_contract h live"
  shows "preserves (followers_ok live) (startLogFollower c h i)"
proof -
  let ?I = "\<lambda>s. followers_ok live s \<and> map_of (fst s) i = None"
  let ?spawn = "call_wrap ''start log follower'' (on_host (ac_spawn h [''logs'', ''-f'', containerName i]))
    (\<lambda>p. pure_step (\<lambda>(fs, w). (AList.update i p fs, w)) (ok ()))"
  let ?files = "\<lambda>k. call_wrap ''create stdout.log'' (on_host (ac_create h (path_join [vmStateDir c i, ''stdout.log'']))) (\<lambda>_.
    call_wrap ''create stderr.log'' (on_host (ac_create h (path_join [vmStateDir c i, ''stderr.log'']))) (\<lambda>_. k))"
  have create: "?I (fs, w) \<Longrightarrow> ?I (fs, snd (ac_create h p w))" for fs w p
    using assms by (simp add: follower_contract_def same_live_def followers_ok_def)
  have inner: "followers_ok live (snd (?files ?spawn (fs, w)))" if I: "?I (fs, w)" for fs w
  proof -
    obtain r1 w1 where w1: "ac_create h (path_join [vmStateDir c i, ''stdout.log'']) w = (r1, w1)" by fastforce
    obtain r2 w2 where w2: "ac_create h (path_join [vmStateDir c i, ''stderr.log'']) w1 = (r2, w2)" by fastforce
    have I1: "?I (fs, w1)" using create [OF I, of "path_join [vmStateDir c i, ''stdout.log'']"] w1 by simp
    have I2: "?I (fs, w2)" using create [OF I1, of "path_join [vmStateDir c i, ''stderr.log'']"] w2 by simp
    from I2 have "followers_ok live (snd (?spawn (fs, w2)))" using spawn_follower [OF assms] by simp
    then show ?thesis using I1 I2
      by (cases r1; cases r2)
         (simp_all add: call_wrap_def call_def wrap_def on_host_eq w1 w2)
  qed
  show ?thesis
    unfolding preserves_def
  proof (intro allI impI)
    fix s assume ok: "followers_ok live s"
    obtain fs w where s: "s = (fs, w)" by fastforce
    show "followers_ok live (snd (startLogFollower c h i s))"
    proof (cases "map_of fs i")
      case None
      then show ?thesis using inner [of fs w] ok by (simp add: startLogFollower_def stopLogFollower_def s)
    next
      case (Some p)
      have "live (snd (ac_kill h p w)) = live w - {p}" using assms by (simp add: follower_contract_def)
      then have "?I (AList.delete i fs, snd (ac_kill h p w))"
        using ok delete_follower [OF _ _ Some] by (simp add: followers_ok_def s)
      then show ?thesis using inner [of "AList.delete i fs" "snd (ac_kill h p w)"] Some
        by (simp add: startLogFollower_def stopLogFollower_def s ignore_def on_host_eq)
    qed
  qed
qed

lemma preserves_parsed [preserves_intros]: "preserves I (parsed what r)"
  by (cases r) (simp_all add: parsed_def preserves_intros)

lemma preserves_ensure_dir [preserves_intros]:
  "follower_contract h live \<Longrightarrow> preserves (followers_ok live) (ensureStateDir c h i)"
  unfolding ensureStateDir_def by (intro preserves_intros)

lemma preserves_inspect [preserves_intros]:
  "follower_contract h live \<Longrightarrow> preserves (followers_ok live) (inspectIP h i)"
  unfolding inspectIP_def by (intro preserves_intros)

lemma preserves_poll [preserves_intros]:
  "follower_contract h live \<Longrightarrow> preserves (followers_ok live) (poll_ip h i n)"
  by (induction n) (auto intro!: preserves_intros split: sum.split list.split)

lemma preserves_started [preserves_intros]:
  "follower_contract h live \<Longrightarrow> preserves (followers_ok live) (started c h i)"
  unfolding started_def pollIP_def by (auto intro!: preserves_intros)

lemma preserves_stop_all: "follower_contract h live \<Longrightarrow> preserves (followers_ok live) (stop_followers h is)"
  by (induction "is") (auto intro!: preserves_intros)

text \<open>After the loop of \<open>Close\<close> none of the followers is tracked.\<close>

lemma stop_all_untracks: "fst (snd (stop_followers h is (fs, w))) = filter (\<lambda>x. fst x \<notin> set is) fs"
proof (induction "is" arbitrary: fs w)
  case (Cons i "is")
  show ?case
  proof (cases "map_of fs i")
    case None
    then have "i \<notin> fst ` set fs" by (simp add: map_of_eq_None_iff)
    then have "filter (\<lambda>x. fst x \<notin> set (i # is)) fs = filter (\<lambda>x. fst x \<notin> set is) fs" by (intro filter_cong) auto
    then show ?thesis using Cons.IH None by (simp add: stopLogFollower_def)
  next
    case (Some p)
    have "filter (\<lambda>x. fst x \<notin> set is) (AList.delete i fs) = filter (\<lambda>x. fst x \<notin> set (i # is)) fs"
      unfolding AList.delete_eq filter_filter by (intro filter_cong) auto
    then show ?thesis using Cons.IH Some by (simp add: stopLogFollower_def ignore_def on_host_eq)
  qed
qed (simp add: ok_def)


text \<open>A host whose world is the list of the follower processes.\<close>

definition ps_host :: "nat list ac_host" where
  "ps_host = \<lparr>ac_run = (\<lambda>args w. (Inr [], w)), ac_mkdir = (\<lambda>_ w. (Inr (), w)), ac_remove = (\<lambda>_ w. (Inr (), w)),
     ac_create = (\<lambda>_ w. (Inr (), w)), ac_spawn = (\<lambda>_ w. (Inr (Suc (sum_list w)), Suc (sum_list w) # w)),
     ac_kill = (\<lambda>p w. (Inr (), removeAll p w)), ac_archive = None\<rparr>"

lemma ps_contract: "follower_contract ps_host set"
proof -
  have "Suc (sum_list w) \<notin> set w" for w using member_le_sum_list [of "Suc (sum_list w)" w] by auto
  then show ?thesis by (auto simp: follower_contract_def ps_host_def same_live_def)
qed

definition demo_container :: ac_config where
  "demo_container = \<lparr>ac_image = ''task'', ac_state_dir = ''/s'', ac_skip_follower = False\<rparr>"


section \<open>A missing command\<close>

lemma substring_append: "has_substring s p \<Longrightarrow> has_substring (r @ s) p"
  by (induction r) (auto simp: has_prefix_def)

lemma substring_here: "has_substring (p @ s) p"
proof (cases "p @ s")
  case (Cons c x)
  have "has_prefix (p @ s) p" by (simp add: has_prefix_def)
  then show ?thesis by (simp add: Cons)
qed simp

lemma to_lower_append: "to_lower (x @ y) = to_lower x @ to_lower y"
  by (simp add: to_lower_def)

text \<open>C38. Without the \<open>container\<close> command every deletion succeeds. When the command is not found, the error of
  \<open>os/exec\<close> says \<open>executable file not found in $PATH\<close>, which the backend takes for an absent container: it
  reports a stopped and a deleted VM and removes the VM's directory, while no command has run and the containers are what
  they were.\<close>

theorem missing_command_counts_as_deleted:
  assumes "\<And>args w. ac_run h args w = (Inl (missing args), w)"
    and "\<And>args. txt (missing args) = text args @ ''executable file not found in $PATH'' @ rest args"
    and "\<And>p w. containers (snd (ac_kill h p w)) = containers w" "\<And>p w. containers (snd (ac_remove h p w)) = containers w"
    and "\<And>a x y z w. ac_archive h = Some a \<Longrightarrow> containers (snd (a x y z w)) = containers w"
  shows "fst (ac_DeleteVM c h txt i s) = Inr () \<and> fst (ac_StopVM h txt i s) = Inr () \<and>
    containers (snd (snd (ac_DeleteVM c h txt i s))) = containers (snd s) \<and>
    containers (snd (snd (ac_StopVM h txt i s))) = containers (snd s)"
proof -
  have gone: "containerGone txt (missing args)" for args
  proof -
    have "to_lower (txt (missing args)) = (to_lower (text args) @ ''executable file '') @ ''not found'' @ to_lower ('' in $PATH'' @ rest args)"
      by (simp add: assms(2) to_lower_append) (simp add: to_lower_def to_lower_char_def)
    then show ?thesis unfolding containerGone_def Let_def using substring_append [OF substring_here] by metis
  qed
  obtain fs w where s: "s = (fs, w)" by fastforce
  have run: "on_host (ac_run h args) (fs, w) = (Inl (missing args), (fs, w))" for args fs w by (simp add: on_host_eq assms(1))
  let ?delete = "ignore (on_host (ac_run h [''stop'', containerName i]))
    (attempt (on_host (ac_run h [''rm'', containerName i])) (\<lambda>r.
       if (case r of Inl e \<Rightarrow> \<not> containerGone txt e | Inr _ \<Rightarrow> False)
       then fail (Wrap ''container rm'' (case r of Inl e \<Rightarrow> e | Inr _ \<Rightarrow> Msg []))
       else ignore (case ac_archive h of None \<Rightarrow> ok () | Some a \<Rightarrow> on_host (a (vmStateDir c i) i ''delete_vm''))
         (ignore (on_host (ac_remove h (vmStateDir c i))) (ok ()))))"
  let ?stop = "attempt (on_host (ac_run h [''stop'', containerName i])) (\<lambda>r. case r of
      Inr _ \<Rightarrow> ok () | Inl e \<Rightarrow> if containerGone txt e then ok () else fail (Wrap ''container stop'' e))"
  have delete: "fst (?delete (fs, w)) = Inr () \<and> containers (snd (snd (?delete (fs, w)))) = containers w" for fs w
    by (cases "ac_archive h") (simp_all add: ignore_def attempt_def assms(1) gone on_host_eq assms(4,5))
  have stop: "?stop (fs, w) = (Inr (), (fs, w))" for fs w by (simp add: attempt_def run gone)
  show ?thesis
  proof (cases "map_of fs i")
    case None
    then have "ac_DeleteVM c h txt i s = ?delete (fs, w)" "ac_StopVM h txt i s = ?stop (fs, w)"
      unfolding ac_DeleteVM_def ac_StopVM_def stopLogFollower_def s by simp_all
    then show ?thesis using delete stop by (simp add: s)
  next
    case (Some p)
    let ?s = "(AList.delete i fs, snd (ac_kill h p w))"
    have "ignore (on_host (ac_kill h p)) m (AList.delete i fs, w) = m ?s" for m :: "('a ac_state, unit) op"
      unfolding ignore_def on_host_eq by simp
    then have "ac_DeleteVM c h txt i s = ?delete ?s" "ac_StopVM h txt i s = ?stop ?s"
      using Some unfolding ac_DeleteVM_def ac_StopVM_def stopLogFollower_def s by simp_all
    then show ?thesis using delete stop assms(3) by (simp add: s)
  qed
qed

text \<open>A container that is still there: the world is the list of containers.\<close>

definition bare_host :: "string list ac_host" where
  "bare_host = \<lparr>ac_run = (\<lambda>args w. (Inl (Msg ''container [rm]: exec: container: executable file not found in $PATH: ''), w)),
     ac_mkdir = (\<lambda>_ w. (Inr (), w)), ac_remove = (\<lambda>_ w. (Inr (), w)), ac_create = (\<lambda>_ w. (Inr (), w)),
     ac_spawn = (\<lambda>_ w. (Inl (Msg ''no such file''), w)), ac_kill = (\<lambda>p w. (Inr (), w)), ac_archive = None\<rparr>"

lemma missing_command_counts_as_deleted_witness:
  "\<exists>s. ac_DeleteVM demo_container bare_host (\<lambda>e. case e of Msg m \<Rightarrow> m | _ \<Rightarrow> []) ''a'' ([], [''stockyard-a'']) = (Inr (), s) \<and>
     snd s = [''stockyard-a'']"
proof -
  let ?txt = "\<lambda>e. case e of Msg m \<Rightarrow> m | _ \<Rightarrow> []"
  let ?del = "ac_DeleteVM demo_container bare_host ?txt ''a'' ([], [''stockyard-a''])"
  have "fst ?del = Inr () \<and> snd (snd ?del) = [''stockyard-a'']"
    using missing_command_counts_as_deleted [of bare_host "\<lambda>_. Msg ''container [rm]: exec: container: executable file not found in $PATH: ''"
        ?txt "\<lambda>_. ''container [rm]: exec: container: ''" "\<lambda>_. '': ''" id demo_container "''a''" "([], [''stockyard-a''])"]
    by (simp add: bare_host_def)
  then show ?thesis by (cases ?del) auto
qed

end
