(* ===== verification/Address_Loop.thy ===== *)
theory Address_Loop
  imports Ip_Pool
begin

text \<open>
  The \<open>for\<close> without a condition in \<open>generateAvailableIPs\<close> (\<open>pkg/network/ip_pool.go\<close>),
  with a bound on its iterations: it returns, after at most as many iterations as the
  network has addresses.
\<close>

text \<open>\<open>None\<close> is a loop that has not left within the fuel.\<close>

fun address_loop :: "nat \<Rightarrow> octets \<times> octets \<Rightarrow> nat \<Rightarrow> string \<Rightarrow> octets \<Rightarrow> string list \<Rightarrow> string list option" where
  "address_loop 0 nw maxHosts gw ip acc = None"
| "address_loop (Suc n) nw maxHosts gw ip acc =
     (let ip' = inc_ip ip in
      if \<not> contains_ip nw ip' then Some acc
      else if word_of_nat maxHosts \<le> be32 ip' - be32 (fst nw) then Some acc
      else address_loop n nw maxHosts gw ip' (if ip_string ip' \<noteq> gw then acc @ [ip_string ip'] else acc))"

lemma address_loop_returns:
  assumes "maxHosts < 2 ^ 32" "1 \<le> n" "maxHosts \<le> unat (be32 ip - be32 (fst nw)) + n" "be32 ip - be32 (fst nw) \<noteq> - 1"
  shows "address_loop n nw maxHosts gw ip acc = Some (acc @ available_from nw maxHosts gw ip)"
  using assms(2-4)
proof (induction n arbitrary: ip acc)
  case (Suc n)
  let ?ip = "inc_ip ip"
  let ?d = "be32 ip - be32 (fst nw)"
  have step: "available_from nw maxHosts gw ip = (if \<not> contains_ip nw ?ip then []
      else if word_of_nat maxHosts \<le> be32 ?ip - be32 (fst nw) then []
      else (if ip_string ?ip \<noteq> gw then [ip_string ?ip] else []) @ available_from nw maxHosts gw ?ip)"
    by (subst available_from.simps) (simp add: Let_def)
  show ?case
  proof (cases "contains_ip nw ?ip \<and> \<not> word_of_nat maxHosts \<le> be32 ?ip - be32 (fst nw)")
    case True
    have d: "be32 ?ip - be32 (fst nw) = ?d + 1" by (simp add: be32_inc)
    have less: "unat (?d + 1) < maxHosts"
      using True assms(1) by (simp add: d not_le word_less_nat_alt unat_of_nat)
    have "?d + 1 \<noteq> 0" using Suc.prems(3) by (simp add: eq_neg_iff_add_eq_0)
    then have suc: "unat (?d + 1) = Suc (unat ?d)" using unatSuc [of ?d] by (simp add: add.commute)
    have "?d + 1 \<noteq> - 1"
    proof
      assume "?d + 1 = - 1"
      with less have "unat (- 1 :: 32 word) < maxHosts" by simp
      with assms(1) show False by (simp add: unat32_minus_1)
    qed
    with Suc.prems less suc have "1 \<le> n" "maxHosts \<le> unat (be32 ?ip - be32 (fst nw)) + n" "be32 ?ip - be32 (fst nw) \<noteq> - 1"
      by (simp_all add: d)
    from Suc.IH [OF this] True show ?thesis by (simp add: Let_def step)
  next
    case False
    then show ?thesis by (auto simp: Let_def step)
  qed
qed simp

text \<open>C36. The loop that fills the pool returns. For every network a gateway and a prefix length give, down to the network
  of all addresses, \<open>2 ^ (32 - prefix)\<close> iterations are enough, and the addresses collected are the ones the pool offers.\<close>

theorem address_loop_terminates:
  assumes "cidr_mask prefixLen = Some m" "2 ^ (32 - mask_ones m) \<le> iterations"
  shows "address_loop iterations (and_octets ip m, m) (2 ^ (32 - mask_ones m) - 1) gw (and_octets ip m) [] =
    Some (generateAvailableIPs (Some (and_octets ip m, m)) gw)"
proof -
  have "(2 :: nat) ^ (32 - mask_ones m) \<le> 2 ^ 32" by (intro power_increasing) simp_all
  then have "(2 :: nat) ^ (32 - mask_ones m) - 1 < 2 ^ 32" by (metis diff_less le_less_trans less_le_trans less_numeral_extra(1) linorder_not_less zero_less_numeral zero_less_power not_le)
  moreover have "1 \<le> iterations" using assms(2) by (metis le_trans one_le_numeral one_le_power)
  ultimately show ?thesis
    using address_loop_returns [of "2 ^ (32 - mask_ones m) - 1" iterations "and_octets ip m" "(and_octets ip m, m)" gw "[]"] assms(2)
    by (simp add: generateAvailableIPs_def Let_def)
qed

lemma address_loop_terminates_witness:
  "\<exists>ips. address_loop 8 (and_octets (192, 168, 1, 1) (255, 255, 255, 248), (255, 255, 255, 248)) 7 ''192.168.1.1''
     (and_octets (192, 168, 1, 1) (255, 255, 255, 248)) [] = Some ips"
proof -
  have "cidr_mask 29 = Some (255, 255, 255, 248)" "mask_ones (255, 255, 255, 248) = 29" by code_simp+
  from address_loop_terminates [OF this(1), of 8 "(192, 168, 1, 1)" "''192.168.1.1''"] this(2) show ?thesis by simp
qed

end
