(* ===== verification/Host_Metrics.thy ===== *)
theory Host_Metrics
  imports Leases "HOL-Library.Word"
begin

text \<open>
  The host metrics of \<open>pkg/daemon/host_metrics.go\<close>, read from the files of \<open>/proc\<close>. Counters are
  \<open>int64\<close> and wrap; the CPU load is the pair of ticks whose float quotient the code takes.
\<close>

section \<open>Lines and fields\<close>

text \<open>A file is its text or the failure to open it; \<open>scan_err\<close> is the error of the scanner at its end.\<close>

definition read_proc :: "goerr + string \<Rightarrow> (string list \<Rightarrow> 'a) \<Rightarrow> goerr + 'a" where
  "read_proc file f =
     (case file of
        Inl e \<Rightarrow> Inl e
      | Inr txt \<Rightarrow> (case scan_err txt of Some e \<Rightarrow> Inl e | None \<Rightarrow> Inr (f (scanned txt))))"

definition int64 :: "string \<Rightarrow> 64 word option" where
  "int64 s = map_option word_of_int (parse_int 64 s)"

section \<open>CPU\<close>

record cpu_stats =
  cpu_user :: "64 word"
  cpu_nice :: "64 word"
  cpu_system :: "64 word"
  cpu_idle :: "64 word"
  cpu_iowait :: "64 word"
  cpu_irq :: "64 word"
  cpu_softirq :: "64 word"

definition cpu_line :: "string \<Rightarrow> cpu_stats option" where
  "cpu_line line =
     (if \<not> has_prefix line ''cpu '' then None
      else case Go_Strings.fields line of
        _ # f1 # f2 # f3 # f4 # f5 # f6 # f7 # _ \<Rightarrow>
          (case (int64 f1, int64 f2, int64 f3, int64 f4, int64 f5, int64 f6, int64 f7) of
             (Some a, Some b, Some c, Some d, Some e, Some f, Some g) \<Rightarrow>
               Some \<lparr>cpu_user = a, cpu_nice = b, cpu_system = c, cpu_idle = d, cpu_iowait = e, cpu_irq = f, cpu_softirq = g\<rparr>
           | _ \<Rightarrow> None)
      | _ \<Rightarrow> None)"

text \<open>The ticks that count as active and all ticks since the last reading.\<close>

definition active_delta :: "cpu_stats \<Rightarrow> cpu_stats \<Rightarrow> 64 word" where
  "active_delta old new =
     (cpu_user new - cpu_user old) + (cpu_nice new - cpu_nice old) + (cpu_system new - cpu_system old) +
     (cpu_irq new - cpu_irq old) + (cpu_softirq new - cpu_softirq old)"

definition total_delta :: "cpu_stats \<Rightarrow> cpu_stats \<Rightarrow> 64 word" where
  "total_delta old new =
     (cpu_user new - cpu_user old) + (cpu_nice new - cpu_nice old) + (cpu_system new - cpu_system old) +
     (cpu_idle new - cpu_idle old) + (cpu_iowait new - cpu_iowait old) +
     (cpu_irq new - cpu_irq old) + (cpu_softirq new - cpu_softirq old)"

text \<open>The state is the last reading, \<open>None\<close> before the first; the load is active over total, or (0, 1). The scanner's
  error only matters when no line was usable.\<close>

definition collectCPU :: "goerr + string \<Rightarrow> (cpu_stats option, int \<times> int) op" where
  "collectCPU file = (\<lambda>c. case file of
     Inl e \<Rightarrow> (Inl e, c)
   | Inr txt \<Rightarrow> (case List.map_filter cpu_line (scanned txt) of
       current # _ \<Rightarrow>
         (Inr (case c of
            None \<Rightarrow> (0, 1)
          | Some old \<Rightarrow> if 0 < sint (total_delta old current)
              then (sint (active_delta old current), sint (total_delta old current)) else (0, 1)), Some current)
     | [] \<Rightarrow> ((case scan_err txt of Some e \<Rightarrow> Inl e | None \<Rightarrow> Inr (0, 1)), c)))"

section \<open>Memory, network and disks\<close>

definition memory_line :: "string \<Rightarrow> 64 word \<times> 64 word \<Rightarrow> 64 word \<times> 64 word" where
  "memory_line line = (\<lambda>(memTotal, memAvailable).
     case Go_Strings.fields line of
       f0 # f1 # _ \<Rightarrow> (case int64 f1 of
           None \<Rightarrow> (memTotal, memAvailable)
         | Some v \<Rightarrow>
             if f0 = ''MemTotal:'' then (v * 1024, memAvailable)
             else if f0 = ''MemAvailable:'' then (memTotal, v * 1024)
             else (memTotal, memAvailable))
     | _ \<Rightarrow> (memTotal, memAvailable))"

definition collectMemory :: "goerr + string \<Rightarrow> goerr + 64 word \<times> 64 word" where
  "collectMemory file = read_proc file (\<lambda>ls. case fold memory_line ls (0, 0) of (t, a) \<Rightarrow> (t - a, t))"

text \<open>\<open>strings.SplitN(line, ":", 2)\<close> and the columns of an interface that is not the loopback.\<close>

definition network_line :: "string \<Rightarrow> (64 word \<times> 64 word) option" where
  "network_line line =
     (if CHR ''|'' \<in> set line then None
      else case index_byte line (CHR '':'') of
        None \<Rightarrow> None
      | Some i \<Rightarrow>
          if trim_space (take i line) = ''lo'' then None
          else (let fs = Go_Strings.fields (drop (Suc i) line) in
            if length fs < 9 then None
            else case (int64 (fs ! 0), int64 (fs ! 8)) of (Some rx, Some tx) \<Rightarrow> Some (rx, tx) | _ \<Rightarrow> None))"

definition isPhysicalDisk :: "string \<Rightarrow> bool" where
  "isPhysicalDisk name =
     (if has_prefix name ''loop'' then False
      else if has_prefix name ''dm-'' then False
      else if has_prefix name ''ram'' then False
      else if has_prefix name ''zram'' then False
      else if has_prefix name ''sd'' then length name = 3
      else if has_prefix name ''nvme'' then CHR ''p'' \<notin> set name
      else if has_prefix name ''vd'' then length name = 3
      else if has_prefix name ''xvd'' then length name = 4
      else False)"

definition disk_line :: "string \<Rightarrow> (64 word \<times> 64 word) option" where
  "disk_line line =
     (let fs = Go_Strings.fields line in
      if length fs < 14 then None
      else if \<not> isPhysicalDisk (fs ! 2) then None
      else case (int64 (fs ! 5), int64 (fs ! 9)) of (Some r, Some w) \<Rightarrow> Some (r * 512, w * 512) | _ \<Rightarrow> None)"

definition add_counts :: "64 word \<times> 64 word \<Rightarrow> 64 word \<times> 64 word \<Rightarrow> 64 word \<times> 64 word" where
  "add_counts x acc = (fst acc + fst x, snd acc + snd x)"

definition collectNetwork :: "goerr + string \<Rightarrow> goerr + 64 word \<times> 64 word" where
  "collectNetwork file = read_proc file (\<lambda>ls. fold add_counts (List.map_filter network_line ls) (0, 0))"

definition collectDiskIO :: "goerr + string \<Rightarrow> goerr + 64 word \<times> 64 word" where
  "collectDiskIO file = read_proc file (\<lambda>ls. fold add_counts (List.map_filter disk_line ls) (0, 0))"

section \<open>The collection\<close>

record host_metrics =
  hm_cpu :: "int \<times> int"
  hm_memory :: "64 word \<times> 64 word"
  hm_network :: "64 word \<times> 64 word"
  hm_disk :: "64 word \<times> 64 word"

text \<open>The metrics come with the text of the failures of CPU and memory, which are critical; the other two are left zero.\<close>

definition Collect ::
    "(goerr \<Rightarrow> string) \<Rightarrow> (string \<Rightarrow> goerr + string) \<Rightarrow> cpu_stats option \<Rightarrow> (host_metrics \<times> goerr option) \<times> cpu_stats option" where
  "Collect txt proc c =
     (let (cpu, c') = collectCPU (proc ''/proc/stat'') c;
          mem = collectMemory (proc ''/proc/meminfo'');
          zero = (\<lambda>r. case r of Inl _ \<Rightarrow> (0, 0) | Inr x \<Rightarrow> x);
          critical = (case cpu of Inl e \<Rightarrow> [''cpu: '' @ txt e] | Inr _ \<Rightarrow> []) @ (case mem of Inl e \<Rightarrow> [''memory: '' @ txt e] | Inr _ \<Rightarrow> [])
      in ((\<lparr>hm_cpu = (case cpu of Inl _ \<Rightarrow> (0, 1) | Inr x \<Rightarrow> x), hm_memory = zero mem,
            hm_network = zero (collectNetwork (proc ''/proc/net/dev'')), hm_disk = zero (collectDiskIO (proc ''/proc/diskstats''))\<rparr>,
           if critical = [] then None else Some (Msg (''failed to collect critical metrics: '' @ join_with ''; '' critical))), c'))"

section \<open>What is counted\<close>

lemma fold_counts: "fold add_counts xs acc = (fst acc + (\<Sum>x\<leftarrow>xs. fst x), snd acc + (\<Sum>x\<leftarrow>xs. snd x))"
  by (induction xs arbitrary: acc) (auto simp: add_counts_def algebra_simps)

lemma sint_word_of_int: "- (2 ^ 63) \<le> n \<Longrightarrow> n < 2 ^ 63 \<Longrightarrow> sint (word_of_int n :: 64 word) = n"
  by (simp add: signed_of_int signed_take_bit_int_eq_self)

lemma word_diff: "a - b = (word_of_int (uint a - uint b) :: 64 word)"
  by simp

text \<open>As long as no counter runs backwards and all fit, the load is exactly the quotient of the mathematical differences,
  and a percentage: the active ticks are among all ticks.\<close>

definition counters :: "(cpu_stats \<Rightarrow> 64 word) list" where
  "counters = [cpu_user, cpu_nice, cpu_system, cpu_irq, cpu_softirq, cpu_idle, cpu_iowait]"

definition ticks :: "cpu_stats \<Rightarrow> cpu_stats \<Rightarrow> (cpu_stats \<Rightarrow> 64 word) list \<Rightarrow> int" where
  "ticks old new fs = (\<Sum>f\<leftarrow>fs. uint (f new) - uint (f old))"

lemma deltas_exact:
  assumes "\<forall>f\<in>set counters. uint (f old) \<le> uint (f new) \<and> uint (f new) < 2 ^ 60"
  shows "sint (active_delta old new) = ticks old new (take 5 counters)"
    and "sint (total_delta old new) = ticks old new counters"
    and "0 \<le> ticks old new (take 5 counters)" and "ticks old new (take 5 counters) \<le> ticks old new counters"
proof -
  have d: "0 \<le> uint (f new) - uint (f old) \<and> uint (f new) - uint (f old) < 2 ^ 60" if "f \<in> set counters" for f
    using bspec [OF assms that] uint_ge_0 [of "f old"] by linarith
  have ds: "0 \<le> uint (cpu_user new) - uint (cpu_user old) \<and> uint (cpu_user new) - uint (cpu_user old) < 2 ^ 60"
    "0 \<le> uint (cpu_nice new) - uint (cpu_nice old) \<and> uint (cpu_nice new) - uint (cpu_nice old) < 2 ^ 60"
    "0 \<le> uint (cpu_system new) - uint (cpu_system old) \<and> uint (cpu_system new) - uint (cpu_system old) < 2 ^ 60"
    "0 \<le> uint (cpu_irq new) - uint (cpu_irq old) \<and> uint (cpu_irq new) - uint (cpu_irq old) < 2 ^ 60"
    "0 \<le> uint (cpu_softirq new) - uint (cpu_softirq old) \<and> uint (cpu_softirq new) - uint (cpu_softirq old) < 2 ^ 60"
    "0 \<le> uint (cpu_idle new) - uint (cpu_idle old) \<and> uint (cpu_idle new) - uint (cpu_idle old) < 2 ^ 60"
    "0 \<le> uint (cpu_iowait new) - uint (cpu_iowait old) \<and> uint (cpu_iowait new) - uint (cpu_iowait old) < 2 ^ 60"
    by (rule d, simp add: counters_def)+
  have a: "active_delta old new = word_of_int (ticks old new (take 5 counters))"
    and t: "total_delta old new = word_of_int (ticks old new counters)"
    by (simp_all add: active_delta_def total_delta_def ticks_def counters_def)
  show "sint (active_delta old new) = ticks old new (take 5 counters)"
    unfolding a using ds by (intro sint_word_of_int) (simp_all add: ticks_def counters_def)
  show "sint (total_delta old new) = ticks old new counters"
    unfolding t using ds by (intro sint_word_of_int) (simp_all add: ticks_def counters_def)
  show "0 \<le> ticks old new (take 5 counters)" "ticks old new (take 5 counters) \<le> ticks old new counters"
    using ds by (simp_all add: ticks_def counters_def)
qed

lemma collectCPU_load:
  assumes "List.map_filter cpu_line (scanned txt) = new # rest"
    and "\<forall>f\<in>set counters. uint (f old) \<le> uint (f new) \<and> uint (f new) < 2 ^ 60"
    and "ticks old new counters \<noteq> 0"
  shows "collectCPU (Inr txt) (Some old) =
    (Inr (ticks old new (take 5 counters), ticks old new counters), Some new)"
  using assms(1,3) deltas_exact [OF assms(2)] by (simp add: collectCPU_def)

text \<open>The traffic is the sum over the interfaces other than the loopback, the disk traffic that over the physical disks.\<close>

lemma collectNetwork_sum:
  "scan_err txt = None \<Longrightarrow>
   collectNetwork (Inr txt) = Inr (\<Sum>x\<leftarrow>List.map_filter network_line (scanned txt). fst x,
                                   \<Sum>x\<leftarrow>List.map_filter network_line (scanned txt). snd x)"
  by (simp add: collectNetwork_def read_proc_def fold_counts)

lemma collectDiskIO_sum:
  "scan_err txt = None \<Longrightarrow>
   collectDiskIO (Inr txt) = Inr (\<Sum>x\<leftarrow>List.map_filter disk_line (scanned txt). fst x,
                                  \<Sum>x\<leftarrow>List.map_filter disk_line (scanned txt). snd x)"
  by (simp add: collectDiskIO_def read_proc_def fold_counts)

text \<open>A disk with a name of one letter after \<open>sd\<close> or \<open>vd\<close> is counted, anything longer, such as its partitions, is not.\<close>

lemma disk_not_partition:
  assumes "pre = ''sd'' \<or> pre = ''vd''" "p \<noteq> []"
  shows "isPhysicalDisk (pre @ [c])" "\<not> isPhysicalDisk (pre @ [c] @ p)"
  using assms by (auto simp: isPhysicalDisk_def has_prefix_def)

end
