(* ===== verification/Task_Safety.thy ===== *)
theory Task_Safety
  imports Tasks Triples
begin

text \<open>
  What the task manager guarantees, proved once for any backend, workspaces and files that
  keep their contracts (locale \<open>task_host\<close>, which extends \<open>vm_backend\<close>): a VM
  that may run keeps its address, so no two running VMs share one; a task's row goes only
  after its VM and workspace are gone and its address is free; a failed destruction keeps
  the row. The assertions speak of the task map, the pool and the outside world.
\<close>

section \<open>Assertions about the daemon\<close>

type_synonym tasks_map = "string \<Rightarrow> task option"

definition holds_in :: "(tasks_map \<Rightarrow> ip_pool option \<Rightarrow> 'e \<Rightarrow> bool) \<Rightarrow> 'e daemon \<Rightarrow> bool" where
  "holds_in K d \<longleftrightarrow> scannable (store d) \<and> K (task_of (store d)) (pool d) (outside (world d))"

lemma holds_in_mono: "holds_in K d \<Longrightarrow> (\<And>m p o'. K m p o' \<Longrightarrow> K' m p o') \<Longrightarrow> holds_in K' d"
  by (simp add: holds_in_def)

lemma observers_abs [simp]:
  "holds_in K (stop_observers sv i d) = holds_in K d"
  "holds_in K (record_activity sv a d) = holds_in K d"
  "holds_in K (start_tailing sv i v d) = holds_in K d"
  by (simp_all add: holds_in_def stop_observers_def stop_tailing_def record_activity_def start_tailing_def
      tail_file_def Let_def)

text \<open>Statements of the store.\<close>

lemma sql_read:
  assumes "sql_stmt (\<lambda>d. (Inr (f d), d)) d = (r, d')"
  shows "task_of d' = task_of d \<and> scannable d' = scannable d \<and> tasks d' = tasks d"
  using assms by (auto simp: sql_stmt_cases)

lemma GetTask_outcome:
  assumes "state_GetTask i d = (r, d')" "scannable d"
  shows "scannable d'" "task_of d' = task_of d"
    "r = Inr t \<Longrightarrow> task_of d i = Some t" "r = Inl e \<Longrightarrow> errors_is e ErrTaskNotFound \<Longrightarrow> task_of d i = None"
proof -
  obtain row d1 where row: "sql_stmt (\<lambda>d. (Inr (find_row i (tasks d)), d)) d = (row, d1)" by fastforce
  note same = sql_read [OF row]
  have d1: "d' = d1"
    using assms(1) row by (cases row) (auto simp: state_GetTask_def call_wrap_Inl call_wrap_Inr split: option.splits)
  then show "scannable d'" "task_of d' = task_of d" using same assms(2) by auto
  have val: "row = Inr x \<Longrightarrow> x = find_row i (tasks d)" for x
    using row by (auto simp: sql_stmt_cases)
  have err: "row = Inl x \<Longrightarrow> x = Msg ''sql''" for x
    using row by (auto simp: sql_stmt_cases)
  show "r = Inr t \<Longrightarrow> task_of d i = Some t"
    using assms(1) row val by (cases row)
      (auto simp: state_GetTask_def call_wrap_Inl call_wrap_Inr task_of_def split: option.splits sum.splits)
  show "r = Inl e \<Longrightarrow> errors_is e ErrTaskNotFound \<Longrightarrow> task_of d i = None"
  proof (cases row)
    case (Inr x)
    assume "r = Inl e"
    then show ?thesis
      using assms(1) row val [OF Inr] Inr
      by (auto simp: state_GetTask_def call_wrap_Inr task_of_def split: option.splits sum.splits)
  next
    case (Inl x)
    assume "r = Inl e" "errors_is e ErrTaskNotFound"
    then show ?thesis using assms(1) row err [OF Inl] Inl by (auto simp: state_GetTask_def call_wrap_Inl)
  qed
qed

lemma valid_get:
  "valid (holds_in K) (on_store (state_GetTask i))
     (\<lambda>t. holds_in (\<lambda>m p o'. K m p o' \<and> m i = Some t))
     (\<lambda>e. holds_in (\<lambda>m p o'. K m p o' \<and> (errors_is e ErrTaskNotFound \<longrightarrow> m i = None)))"
  by (rule validI) (auto simp: on_store_def zoom_def holds_in_def GetTask_outcome(1,2) split: prod.splits
    dest: GetTask_outcome(3,4))

lemma valid_store:
  assumes "\<And>m p o' m'. K m p o' \<Longrightarrow> map_step req m = Some m' \<Longrightarrow> K' m' p o'"
  shows "valid (holds_in K) (on_store (store_step req)) (\<lambda>_. holds_in K') (\<lambda>_. holds_in K)"
proof (rule validI)
  fix d a d' assume K: "holds_in K d" and run: "on_store (store_step req) d = (Inr a, d')"
  then obtain x where x: "store_step req (store d) = (Inr a, x)" "d' = d\<lparr>store := x\<rparr>"
    by (auto simp: on_store_def zoom_def split: prod.splits)
  from store_step_refines [OF _ x(1)] K have "scannable x" "map_step req (task_of (store d)) = Some (task_of x)"
    by (simp_all add: holds_in_def refines_map_def)
  then show "holds_in K' d'" using K x(2) assms [OF _ \<open>map_step req (task_of (store d)) = Some (task_of x)\<close>]
    by (simp add: holds_in_def)
next
  fix d e d' assume K: "holds_in K d" and run: "on_store (store_step req) d = (Inl e, d')"
  then obtain x where x: "store_step req (store d) = (Inl e, x)" "d' = d\<lparr>store := x\<rparr>"
    by (auto simp: on_store_def zoom_def split: prod.splits)
  from store_step_refines [OF _ x(1)] K show "holds_in K d'"
    using x(2) by (simp add: holds_in_def refines_map_def)
qed

lemma valid_read:
  assumes "\<And>x r x'. f x = (r, x') \<Longrightarrow> scannable x \<Longrightarrow> scannable x' \<and> task_of x' = task_of x"
  shows "valid (holds_in K) (on_store f) (\<lambda>_. holds_in K) (\<lambda>_. holds_in K)"
  by (rule validI) (auto simp: on_store_def zoom_def holds_in_def split: prod.splits dest: assms)

text \<open>Calls to the outside.\<close>

lemma valid_world:
  assumes "\<And>m p w a w'. K m p (outside w) \<Longrightarrow> f w = (Inr a, w') \<Longrightarrow> K' a m p (outside w')"
    and "\<And>m p w e w'. K m p (outside w) \<Longrightarrow> f w = (Inl e, w') \<Longrightarrow> K'' e m p (outside w')"
  shows "valid (holds_in K) (on_world f) (\<lambda>a. holds_in (K' a)) (\<lambda>e. holds_in (K'' e))"
  by (rule validI) (auto simp: on_world_def zoom_def holds_in_def split: prod.splits intro: assms)

lemma valid_ctx [valid_rules]: "valid (holds_in K) d_ctx (\<lambda>_. holds_in K) (\<lambda>_. holds_in K)"
  unfolding d_ctx_def by (rule valid_world) (auto dest!: ctx_err_outsideD)

text \<open>The files of the pool leave alone what each file operation leaves alone.\<close>

definition files_keep :: "('e \<Rightarrow> 'x) \<Rightarrow> 'e persistence_ops \<Rightarrow> bool" where
  "files_keep f ops \<longleftrightarrow>
     (\<forall>x y. keeps f (mkdirAll ops x) \<and> keeps f (createTemp ops x y) \<and> keeps f (writeFile ops x y) \<and>
       keeps f (syncFile ops x) \<and> keeps f (closeFile ops x) \<and> keeps f (renameFile ops x y) \<and>
       keeps f (openDir ops x) \<and> keeps f (removeFile ops x))"

lemma persist_keeps: "files_keep f ops \<Longrightarrow> keeps f (persistLocked ops p al)"
  unfolding persistLocked_def replaceFile_def fill_temp_def sync_dir_def Let_def files_keep_def
  by (intro frame_intros) auto

lemma Release_outcome:
  assumes "Release ops i (p, f) = (r, (p', f'))" "files_keep obs ops" "pool_ok p"
  shows "obs f' = obs f" "pool_ok p'"
    "r = Inr () \<Longrightarrow> map_of (allocated p') = (map_of (allocated p))(i := None)"
    "isl r \<Longrightarrow> p' = p"
proof -
  show "obs f' = obs f"
    using assms(1) keepsD [OF persist_keeps [OF assms(2)]] by (cases rule: Release_cases) auto
  show "pool_ok p'" using Release_keeps [OF assms(1,3)] by simp
  show "r = Inr () \<Longrightarrow> map_of (allocated p') = (map_of (allocated p))(i := None)"
    using assms(1) by (cases rule: Release_cases) (auto simp: fun_eq_iff)
  show "isl r \<Longrightarrow> p' = p" using assms(1) by (cases rule: Release_cases) auto
qed

lemma Allocate_outcome:
  assumes "Allocate ops i (p, f) = (r, (p', f'))" "files_keep obs ops" "pool_ok p"
  shows "obs f' = obs f" "pool_ok p'"
    "r = Inr ip \<Longrightarrow> map_of (allocated p') = (map_of (allocated p))(i \<mapsto> ip)"
    "isl r \<Longrightarrow> p' = p"
proof -
  show "obs f' = obs f"
    using assms(1) keepsD [OF persist_keeps [OF assms(2)]] by (cases rule: Allocate_cases) auto
  show "pool_ok p'" using Allocate_keeps [OF assms(1,3)] by simp
  show "r = Inr ip \<Longrightarrow> map_of (allocated p') = (map_of (allocated p))(i \<mapsto> ip)"
    using assms(1) by (cases rule: Allocate_cases) (auto simp: fun_eq_iff map_add_def split: option.splits)
  show "isl r \<Longrightarrow> p' = p" using assms(1) by (cases rule: Allocate_cases) auto
qed

section \<open>The host of the task manager\<close>

text \<open>
  The daemon's backend keeps the contract \<open>vm_backend\<close>; workspaces, secrets,
  validation and waiting for a peer bring no VM to life; the pool's files touch neither VMs
  nor workspaces; a workspace reported absent is.
\<close>

locale task_host = vm_backend b live good
  for b :: "'e backend_ops" and live :: "'e \<Rightarrow> string \<Rightarrow> bool" and good :: "string \<Rightarrow> bool" +
  fixes sv :: "'e services" and workspace :: "'e \<Rightarrow> string \<Rightarrow> bool"
  assumes the_backend: "sv_backend sv = Some b"
    and good_named: "good i \<Longrightarrow> i \<noteq> []"
    and files_quiet: "files_keep (\<lambda>o'. (live o', workspace o')) (sv_files sv)"
    and ws_quiet:
      "sv_zfs sv = Some z \<Longrightarrow> shrinks (\<lambda>w. live (outside w)) (ws_create z i)"
      "sv_zfs sv = Some z \<Longrightarrow> shrinks (\<lambda>w. live (outside w)) (ws_mountpoint z i)"
      "sv_zfs sv = Some z \<Longrightarrow> shrinks (\<lambda>w. live (outside w)) (ws_destroy z i)"
      "sv_zfs sv = Some z \<Longrightarrow> shrinks (\<lambda>w. live (outside w)) (ws_exists z i)"
      "sv_zfs sv = Some z \<Longrightarrow> shrinks (\<lambda>w. live (outside w)) (ws_rollback z i s)"
    and other_quiet:
      "shrinks (\<lambda>w. live (outside w)) (sv_secret sv s)"
      "shrinks (\<lambda>w. live (outside w)) (sv_wait_peer sv s)"
      "sv_validator sv = Some v \<Longrightarrow> shrinks (\<lambda>w. live (outside w)) (v s)"
    and ws_exists_sound: "sv_zfs sv = Some z \<Longrightarrow> ws_exists z i w = (Inr False, w') \<Longrightarrow> \<not> workspace (outside w') i"
begin

text \<open>
  The invariant: a pool with its own invariant; whatever runs holds an address; a task is
  named as its VM, its VM does not run once the cleanup is pending, and until then it holds
  an address.
\<close>

definition entry_safe :: "ip_pool \<Rightarrow> 'e \<Rightarrow> string \<Rightarrow> task \<Rightarrow> bool" where
  "entry_safe q o' i t \<longleftrightarrow> VMID t = i \<and> good i \<and>
     (if Status t = TaskStatusCleanupPending then \<not> live o' i else map_of (allocated q) i \<noteq> None)"

definition safe :: "tasks_map \<Rightarrow> ip_pool option \<Rightarrow> 'e \<Rightarrow> bool" where
  "safe m p o' \<longleftrightarrow> (\<exists>q. p = Some q \<and> pool_ok q \<and>
     (\<forall>v. live o' v \<longrightarrow> map_of (allocated q) v \<noteq> None) \<and>
     (\<forall>i t. m i = Some t \<longrightarrow> entry_safe q o' i t))"

lemma safe_world: "safe m p o' \<Longrightarrow> (\<And>v. live o'' v \<Longrightarrow> live o' v) \<Longrightarrow> safe m p o''"
  unfolding safe_def entry_safe_def by (metis (mono_tags, lifting))

lemma safe_named: "safe m p o' \<Longrightarrow> m i = Some t \<Longrightarrow> VMID t = i \<and> good i"
  by (auto simp: safe_def entry_safe_def)

lemma safe_update:
  "safe m p o' \<Longrightarrow> (\<And>q. p = Some q \<Longrightarrow> entry_safe q o' i t) \<Longrightarrow> safe (m(i \<mapsto> t)) p o'"
  by (auto simp: safe_def)

lemma safe_delete: "safe m p o' \<Longrightarrow> safe (m(i := None)) p o'"
  by (auto simp: safe_def)

lemma quiet_world:
  assumes "shrinks (\<lambda>w. live (outside w)) f"
    and "\<And>m p o' o''. K m p o' \<Longrightarrow> (\<And>v. live o'' v \<Longrightarrow> live o' v) \<Longrightarrow> K' m p o''"
  shows "valid (holds_in K) (on_world f) (\<lambda>_. holds_in K') (\<lambda>_. holds_in K')"
  by (rule valid_world) (rule assms(2), assumption, erule (1) shrinksD [OF assms(1)])+

text \<open>The steps of a destruction.\<close>

abbreviation kept :: "string \<Rightarrow> task \<Rightarrow> tasks_map \<Rightarrow> bool" where
  "kept i t m \<equiv> (\<exists>st. m i = Some (t\<lparr>Status := st\<rparr>) \<and> (st = Status t \<or> st = TaskStatusCleanupPending))"

lemma kept_self: "m i = Some t \<Longrightarrow> kept i t m"
  by (rule exI [of _ "Status t"]) simp

lemma valid_destroy_vm:
  "valid (holds_in (\<lambda>m p o'. safe m p o' \<and> m i = Some t)) (destroy_vm sv t)
     (\<lambda>_. holds_in (\<lambda>m p o'. safe m p o' \<and> m i = Some t \<and> \<not> live o' i))
     (\<lambda>_. holds_in (\<lambda>m p o'. safe m p o' \<and> m i = Some t))"
proof -
  have vm: "valid (holds_in (\<lambda>m p o'. safe m p o' \<and> m i = Some t)) (on_world (backend_DeleteVM b (VMID t)))
     (\<lambda>_. holds_in (\<lambda>m p o'. safe m p o' \<and> m i = Some t \<and> \<not> live o' i))
     (\<lambda>_. holds_in (\<lambda>m p o'. safe m p o' \<and> m i = Some t))"
  proof (rule valid_world, goal_cases)
    case (1 m p w a w')
    then have "VMID t = i" using safe_named by blast
    then have run: "backend_DeleteVM b i w = (Inr (), w')" using 1 by simp
    then show ?case using 1 safe_world [OF _ delete_births [OF run]] delete_sound [OF run] by blast
  next
    case (2 m p w e w')
    then show ?case using safe_world [OF _ delete_births [OF 2(2)]] by blast
  qed
  have named: "VMID t \<noteq> []" if "safe m p o'" "m i = Some t" for m p o'
    using that good_named safe_named by blast
  show ?thesis
    unfolding destroy_vm_def the_backend option.case
    by (rule valid_if) (rule validI, use named in \<open>auto simp: holds_in_def\<close>, (rule valid_call_wrap vm valid_ctx [THEN valid_post])+, auto elim!: holds_in_mono)
qed

definition no_workspace :: "string \<Rightarrow> 'e \<Rightarrow> bool" where
  "no_workspace i o' \<longleftrightarrow> sv_zfs sv \<noteq> None \<and> firecracker_mode sv \<longrightarrow> \<not> workspace o' i"

text \<open>Assertions that survive when nothing comes to life.\<close>

definition calm :: "(tasks_map \<Rightarrow> ip_pool option \<Rightarrow> 'e \<Rightarrow> bool) \<Rightarrow> bool" where
  "calm K \<longleftrightarrow> (\<forall>m p o' o''. K m p o' \<longrightarrow> (\<forall>v. live o'' v \<longrightarrow> live o' v) \<longrightarrow> K m p o'')"

lemma calm_world:
  "calm K \<Longrightarrow> shrinks (\<lambda>w. live (outside w)) f \<Longrightarrow> valid (holds_in K) (on_world f) (\<lambda>_. holds_in K) (\<lambda>_. holds_in K)"
  by (rule quiet_world) (auto simp: calm_def)

lemma calm_safe: "calm (\<lambda>m p o'. safe m p o' \<and> P m p)"
  unfolding calm_def using safe_world by blast

lemma calm_dead: "calm (\<lambda>m p o'. safe m p o' \<and> P m p \<and> \<not> live o' i)"
  unfolding calm_def using safe_world by blast

lemma valid_destroy_workspace:
  assumes "calm K"
  shows "valid (holds_in K) (destroy_workspace sv i) (\<lambda>_. holds_in (\<lambda>m p o'. K m p o' \<and> no_workspace i o')) (\<lambda>_. holds_in K)"
proof (cases "sv_zfs sv")
  case None
  then show ?thesis by (simp add: destroy_workspace_def valid_ok no_workspace_def)
next
  case (Some z)
  have exists: "valid (holds_in K) (on_world (ws_exists z i))
      (\<lambda>e. holds_in (\<lambda>m p o'. K m p o' \<and> (\<not> e \<longrightarrow> \<not> workspace o' i))) (\<lambda>_. holds_in K)"
  proof (rule valid_world, goal_cases)
    case (1 m p w e w')
    then have "K m p (outside w')" using shrinksD [OF ws_quiet(4) [OF Some] 1(2)] assms unfolding calm_def by blast
    moreover have "\<not> e \<Longrightarrow> \<not> workspace (outside w') i" using ws_exists_sound [OF Some, of i w w'] 1(2) by simp
    ultimately show ?case by blast
  next
    case (2 m p w e w')
    then show ?case using shrinksD [OF ws_quiet(4) [OF Some] 2(2)] assms unfolding calm_def by blast
  qed
  have ctx: "valid (holds_in (\<lambda>m p o'. K m p o' \<and> \<not> workspace o' i)) d_ctx
      (\<lambda>_. holds_in (\<lambda>m p o'. K m p o' \<and> no_workspace i o')) (\<lambda>_. holds_in K)"
    by (rule valid_post [OF valid_ctx]) (auto simp: no_workspace_def elim: holds_in_mono)
  show ?thesis
    unfolding destroy_workspace_def Some option.case
  proof (rule valid_if)
    assume "\<not> firecracker_mode sv"
    then show "valid (holds_in K) (ok ()) (\<lambda>_. holds_in (\<lambda>m p o'. K m p o' \<and> no_workspace i o')) (\<lambda>_. holds_in K)"
      by (simp add: valid_ok no_workspace_def)
  next
    show "valid (holds_in K) (call_wrap (''destroy workspace dataset '' @ i) (on_world (ws_destroy z i)) (\<lambda>_.
            call d_ctx (\<lambda>_.
            call_wrap (''verify workspace dataset deletion '' @ i) (on_world (ws_exists z i)) (\<lambda>exists.
            if exists then fail (Msg (''verify workspace dataset deletion '' @ i @ '': dataset remains''))
            else d_ctx)))) (\<lambda>_. holds_in (\<lambda>m p o'. K m p o' \<and> no_workspace i o')) (\<lambda>_. holds_in K)"
    proof (rule valid_call_wrap [OF calm_world [OF assms ws_quiet(3) [OF Some]]], rule valid_call [OF valid_ctx],
        rule valid_call_wrap [OF exists], rule valid_if)
      fix exists assume "exists"
      then show "valid (holds_in (\<lambda>m p o'. K m p o' \<and> (\<not> exists \<longrightarrow> \<not> workspace o' i)))
          (fail (Msg (''verify workspace dataset deletion '' @ i @ '': dataset remains'')))
          (\<lambda>_. holds_in (\<lambda>m p o'. K m p o' \<and> no_workspace i o')) (\<lambda>_. holds_in K)"
        by (intro valid_fail) (simp add: holds_in_def)
    next
      fix exists assume "\<not> exists"
      then show "valid (holds_in (\<lambda>m p o'. K m p o' \<and> (\<not> exists \<longrightarrow> \<not> workspace o' i))) d_ctx
          (\<lambda>_. holds_in (\<lambda>m p o'. K m p o' \<and> no_workspace i o')) (\<lambda>_. holds_in K)"
        using ctx by simp
    qed
  qed
qed

lemma valid_mark_pending:
  "valid (holds_in (\<lambda>m p o'. safe m p o' \<and> m i = Some t \<and> \<not> live o' i \<and> R o')) (mark_pending t i)
     (\<lambda>_. holds_in (\<lambda>m p o'. safe m p o' \<and> m i = Some (t\<lparr>Status := TaskStatusCleanupPending\<rparr>) \<and> \<not> live o' i \<and> R o'))
     (\<lambda>_. holds_in (\<lambda>m p o'. safe m p o' \<and> kept i t m))"
proof (cases "Status t = TaskStatusCleanupPending")
  case True
  then have eq: "t\<lparr>Status := TaskStatusCleanupPending\<rparr> = t" by (cases t) simp
  show ?thesis unfolding mark_pending_def eq using True by (simp add: valid_ok)
next
  case False
  let ?t = "t\<lparr>Status := TaskStatusCleanupPending\<rparr>"
  let ?K = "\<lambda>m p o'. safe m p o' \<and> m i = Some ?t \<and> \<not> live o' i \<and> R o'"
  have "valid (holds_in (\<lambda>m p o'. safe m p o' \<and> m i = Some t \<and> \<not> live o' i \<and> R o'))
      (on_store (store_step (PendingReq i))) (\<lambda>_. holds_in ?K)
      (\<lambda>_. holds_in (\<lambda>m p o'. safe m p o' \<and> m i = Some t \<and> \<not> live o' i \<and> R o'))"
    by (rule valid_store) (auto simp: change_def entry_safe_def dest: safe_named intro!: safe_update)
  then have mark: "valid (holds_in (\<lambda>m p o'. safe m p o' \<and> m i = Some t \<and> \<not> live o' i \<and> R o'))
      (on_store (state_MarkTaskCleanupPending i)) (\<lambda>_. holds_in ?K)
      (\<lambda>_. holds_in (\<lambda>m p o'. safe m p o' \<and> kept i t m))"
    by (auto elim!: valid_post holds_in_mono intro: kept_self)
  have ctx: "valid (holds_in ?K) d_ctx (\<lambda>_. holds_in ?K) (\<lambda>_. holds_in (\<lambda>m p o'. safe m p o' \<and> kept i t m))"
    by (rule valid_post [OF valid_ctx]) (auto elim!: holds_in_mono)
  show ?thesis by (simp add: mark_pending_def False valid_call [OF mark ctx])
qed

text \<open>Releasing the address of a VM that does not run.\<close>

lemma safe_released:
  assumes "safe m (Some q) o'" "\<not> live o' i" "\<And>t. m i = Some t \<Longrightarrow> Status t = TaskStatusCleanupPending"
    and "pool_ok q'" "map_of (allocated q') = (map_of (allocated q))(i := None)"
  shows "safe m (Some q') o'"
  using assms by (auto simp: safe_def entry_safe_def split: if_splits)

definition unheld :: "string \<Rightarrow> ip_pool option \<Rightarrow> bool" where
  "unheld i p \<longleftrightarrow> (\<forall>q. p = Some q \<longrightarrow> map_of (allocated q) i = None)"

lemma valid_release_msg:
  assumes W: "\<And>o' o''. W o' \<Longrightarrow> live o'' = live o' \<Longrightarrow> workspace o'' = workspace o' \<Longrightarrow> W o''"
    and P: "\<And>m t. P m \<Longrightarrow> m i = Some t \<Longrightarrow> Status t = TaskStatusCleanupPending"
  shows "valid (holds_in (\<lambda>m p o'. safe m p o' \<and> \<not> live o' i \<and> W o' \<and> P m))
     (\<lambda>d. case pool d of None \<Rightarrow> ok () d | Some p \<Rightarrow> wrap msg (on_pool (Release (sv_files sv) i) p) d)
     (\<lambda>_. holds_in (\<lambda>m p o'. safe m p o' \<and> \<not> live o' i \<and> W o' \<and> P m \<and> unheld i p))
     (\<lambda>_. holds_in (\<lambda>m p o'. safe m p o' \<and> \<not> live o' i \<and> W o' \<and> P m))"
proof -
  have step: "holds_in (\<lambda>m p o'. safe m p o' \<and> \<not> live o' i \<and> W o' \<and> P m \<and> (\<not> isl r \<longrightarrow> unheld i p)) d'"
    if K: "holds_in (\<lambda>m p o'. safe m p o' \<and> \<not> live o' i \<and> W o' \<and> P m) d"
      and q: "pool d = Some q" and run: "on_pool (Release (sv_files sv) i) q d = (r, d')" for d r d' q
  proof -
    from run obtain q' f' where rel: "Release (sv_files sv) i (q, outside (world d)) = (r, (q', f'))"
      and d': "d' = d\<lparr>pool := Some q', world := (world d)\<lparr>outside := f'\<rparr>\<rparr>"
      by (auto simp: on_pool_def split: prod.splits)
    have ok: "pool_ok q" using K q by (auto simp: holds_in_def safe_def)
    note out = Release_outcome [OF rel files_quiet ok]
    from out(1) have same: "live f' = live (outside (world d))" "workspace f' = workspace (outside (world d))"
      by simp_all
    have safe_q: "safe (task_of (store d)) (Some q) f'"
      using K q same safe_world [of _ _ "outside (world d)" f'] by (auto simp: holds_in_def)
    have "safe (task_of (store d)) (Some q') f' \<and> (\<not> isl r \<longrightarrow> unheld i (Some q'))"
    proof (cases r)
      case (Inl e)
      then show ?thesis using out(4) safe_q by simp
    next
      case (Inr u)
      then have al: "map_of (allocated q') = (map_of (allocated q))(i := None)" using out(3) by simp
      have "safe (task_of (store d)) (Some q') f'"
        using safe_released [OF safe_q _ _ out(2) al] K P same by (auto simp: holds_in_def)
      then show ?thesis using al by (simp add: unheld_def)
    qed
    then show ?thesis using K d' same W by (auto simp: holds_in_def)
  qed
  show ?thesis
  proof (rule valid_state_option)
    show "valid (\<lambda>s. holds_in (\<lambda>m p o'. safe m p o' \<and> \<not> live o' i \<and> W o' \<and> P m) s \<and> pool s = None) (ok ())
        (\<lambda>_. holds_in (\<lambda>m p o'. safe m p o' \<and> \<not> live o' i \<and> W o' \<and> P m \<and> unheld i p))
        (\<lambda>_. holds_in (\<lambda>m p o'. safe m p o' \<and> \<not> live o' i \<and> W o' \<and> P m))"
      by (rule valid_ok) (auto simp: holds_in_def unheld_def)
    show "valid (\<lambda>s. holds_in (\<lambda>m p o'. safe m p o' \<and> \<not> live o' i \<and> W o' \<and> P m) s \<and> pool s = Some q)
        (wrap msg (on_pool (Release (sv_files sv) i) q))
        (\<lambda>_. holds_in (\<lambda>m p o'. safe m p o' \<and> \<not> live o' i \<and> W o' \<and> P m \<and> unheld i p))
        (\<lambda>_. holds_in (\<lambda>m p o'. safe m p o' \<and> \<not> live o' i \<and> W o' \<and> P m))" for q
      by (rule valid_wrap, rule validI) (auto dest!: step elim: holds_in_mono)
  qed
qed

lemmas valid_release = valid_release_msg [where msg = "''release IP allocation''", folded release_address_def]

text \<open>
  The whole destruction. Success: no row, no VM, no workspace, no address. Failure: the
  invariant, and the row still there, at most marked.
\<close>

lemma no_workspace_same: "no_workspace i o' \<Longrightarrow> workspace o'' = workspace o' \<Longrightarrow> no_workspace i o''"
  by (simp add: no_workspace_def)

definition destroyed :: "string \<Rightarrow> tasks_map \<Rightarrow> ip_pool option \<Rightarrow> 'e \<Rightarrow> bool" where
  "destroyed i m p o' \<longleftrightarrow> safe m p o' \<and> m i = None \<and> \<not> live o' i \<and> no_workspace i o' \<and> unheld i p"

lemma valid_destroy_steps:
  "valid (holds_in (\<lambda>m p o'. safe m p o' \<and> m i = Some t))
     (call (destroy_vm sv t) (\<lambda>_.
      call (destroy_workspace sv i) (\<lambda>_.
      pure_step (if Status t = ''running'' then record_activity sv (VMStopped i (Name t)) else (\<lambda>d. d))
        (call d_ctx (\<lambda>_. call (mark_pending t i) (\<lambda>_. call (release_address sv i) (\<lambda>_.
         call d_ctx (\<lambda>_. on_store (state_DeleteTask i)))))))))
     (\<lambda>_. holds_in (destroyed i)) (\<lambda>_. holds_in (\<lambda>m p o'. safe m p o' \<and> kept i t m))"
proof -
  let ?E = "\<lambda>_. holds_in (\<lambda>m p o'. safe m p o' \<and> kept i t m)"
  let ?pend = "\<lambda>m :: tasks_map. m i = Some (t\<lparr>Status := TaskStatusCleanupPending\<rparr>)"
  have vm: "valid (holds_in (\<lambda>m p o'. safe m p o' \<and> m i = Some t)) (destroy_vm sv t)
      (\<lambda>_. holds_in (\<lambda>m p o'. safe m p o' \<and> m i = Some t \<and> \<not> live o' i)) ?E"
    by (rule valid_post [OF valid_destroy_vm]) (auto elim!: holds_in_mono intro: kept_self)
  have ws: "valid (holds_in (\<lambda>m p o'. safe m p o' \<and> m i = Some t \<and> \<not> live o' i)) (destroy_workspace sv i)
      (\<lambda>_. holds_in (\<lambda>m p o'. safe m p o' \<and> m i = Some t \<and> \<not> live o' i \<and> no_workspace i o')) ?E"
    by (rule valid_post [OF valid_destroy_workspace [OF calm_dead [where P = "\<lambda>m p. m i = Some t"]]])
       (auto elim!: holds_in_mono intro: kept_self)
  have ctx: "valid (holds_in (\<lambda>m p o'. safe m p o' \<and> m i = Some t \<and> \<not> live o' i \<and> no_workspace i o')) d_ctx
      (\<lambda>_. holds_in (\<lambda>m p o'. safe m p o' \<and> m i = Some t \<and> \<not> live o' i \<and> no_workspace i o')) ?E"
    by (rule valid_post [OF valid_ctx]) (auto elim!: holds_in_mono intro: kept_self)
  have rel: "valid (holds_in (\<lambda>m p o'. safe m p o' \<and> ?pend m \<and> \<not> live o' i \<and> no_workspace i o')) (release_address sv i)
      (\<lambda>_. holds_in (\<lambda>m p o'. safe m p o' \<and> \<not> live o' i \<and> no_workspace i o' \<and> ?pend m \<and> unheld i p)) ?E"
    by (rule valid_post [OF valid_pre [OF valid_release [where W = "no_workspace i" and P = ?pend]]])
       (auto elim!: holds_in_mono dest: no_workspace_same)
  have ctx': "valid (holds_in (\<lambda>m p o'. safe m p o' \<and> \<not> live o' i \<and> no_workspace i o' \<and> ?pend m \<and> unheld i p)) d_ctx
      (\<lambda>_. holds_in (\<lambda>m p o'. safe m p o' \<and> \<not> live o' i \<and> no_workspace i o' \<and> ?pend m \<and> unheld i p)) ?E"
    by (rule valid_post [OF valid_ctx]) (auto elim!: holds_in_mono)
  have del: "valid (holds_in (\<lambda>m p o'. safe m p o' \<and> \<not> live o' i \<and> no_workspace i o' \<and> ?pend m \<and> unheld i p))
      (on_store (store_step (DeleteReq i))) (\<lambda>_. holds_in (destroyed i))
      (\<lambda>_. holds_in (\<lambda>m p o'. safe m p o' \<and> \<not> live o' i \<and> no_workspace i o' \<and> ?pend m \<and> unheld i p))"
    by (rule valid_store) (auto simp: destroyed_def intro: safe_delete)
  have del': "valid (holds_in (\<lambda>m p o'. safe m p o' \<and> \<not> live o' i \<and> no_workspace i o' \<and> ?pend m \<and> unheld i p))
      (on_store (state_DeleteTask i)) (\<lambda>_. holds_in (destroyed i)) ?E"
    by (rule valid_post [OF del [simplified store_step.simps]]) (auto elim!: holds_in_mono)
  show ?thesis
    by (rule valid_call [OF vm], rule valid_call [OF ws], rule valid_pure_step [OF
        valid_call [OF ctx, OF valid_call [OF valid_mark_pending, OF valid_call [OF rel, OF valid_call [OF ctx' del']]]]])
       simp
qed

lemma kept_option: "m i = x \<Longrightarrow> case x of None \<Rightarrow> m i = None | Some t \<Rightarrow> kept i t m"
  by (cases x) (auto simp only: option.case intro: kept_self)

lemma valid_destroy:
  "valid (holds_in (\<lambda>m p o'. safe m p o' \<and> m i = x)) (destroyTaskLocked sv i)
     (\<lambda>_. holds_in (\<lambda>m p o'. safe m p o' \<and> (x = None \<and> m i = None \<or> destroyed i m p o')))
     (\<lambda>_. holds_in (\<lambda>m p o'. safe m p o' \<and> (case x of None \<Rightarrow> m i = None | Some t \<Rightarrow> kept i t m)))"
    (is "valid ?P _ ?Q ?E")
proof -
  have get: "valid ?P (on_store (state_GetTask i))
      (\<lambda>t. holds_in (\<lambda>m p o'. safe m p o' \<and> m i = Some t \<and> x = Some t))
      (\<lambda>e. holds_in (\<lambda>m p o'. safe m p o' \<and> m i = x \<and> (errors_is e ErrTaskNotFound \<longrightarrow> x = None)))"
    by (rule valid_post [OF valid_get]) (auto elim!: holds_in_mono)
  have ctx: "valid ?P d_ctx (\<lambda>_. ?P) ?E"
    by (rule valid_post [OF valid_ctx]) (assumption, erule holds_in_mono, use kept_option in blast)
  show ?thesis
    unfolding destroyTaskLocked_def
  proof (rule valid_call [OF ctx], rule valid_attempt [OF get], unfold sum.case)
    fix t
    show "valid (holds_in (\<lambda>m p o'. safe m p o' \<and> m i = Some t \<and> x = Some t))
       (pure_step (stop_observers sv i)
         (call (destroy_vm sv t) (\<lambda>_.
          call (destroy_workspace sv i) (\<lambda>_.
          pure_step (if Status t = ''running'' then record_activity sv (VMStopped i (Name t)) else (\<lambda>d. d))
            (call d_ctx (\<lambda>_. call (mark_pending t i) (\<lambda>_. call (release_address sv i) (\<lambda>_.
             call d_ctx (\<lambda>_. on_store (state_DeleteTask i)))))))))) ?Q ?E"
    proof (cases "x = Some t")
      case True
      show ?thesis
        by (rule valid_pure_step [OF valid_post [OF valid_destroy_steps [of i t]]])
           (auto simp: destroyed_def True elim!: holds_in_mono)
    next
      case False
      then show ?thesis by (auto simp: valid_def holds_in_def)
    qed
  next
    fix e
    show "valid (holds_in (\<lambda>m p o'. safe m p o' \<and> m i = x \<and> (errors_is e ErrTaskNotFound \<longrightarrow> x = None)))
        (if errors_is e ErrTaskNotFound then ok () else fail e) ?Q ?E"
      by (rule valid_if; intro valid_ok valid_fail; erule holds_in_mono; use kept_option in blast)
  qed
qed

text \<open>A task outside of the retained cleanup.\<close>

lemma valid_admitted:
  "valid (holds_in safe) (admitted_task i)
     (\<lambda>t. holds_in (\<lambda>m p o'. safe m p o' \<and> m i = Some t \<and> Status t \<noteq> TaskStatusCleanupPending)) (\<lambda>_. holds_in safe)"
  unfolding admitted_task_def
proof (rule valid_call)
  show "valid (holds_in safe) (on_store (state_GetTask i)) (\<lambda>t. holds_in (\<lambda>m p o'. safe m p o' \<and> m i = Some t)) (\<lambda>_. holds_in safe)"
    by (rule valid_post [OF valid_get]) (auto elim: holds_in_mono)
  show "valid (holds_in (\<lambda>m p o'. safe m p o' \<and> m i = Some t)) (call (rejectCleanupPending t) (\<lambda>_. ok t))
      (\<lambda>t. holds_in (\<lambda>m p o'. safe m p o' \<and> m i = Some t \<and> Status t \<noteq> TaskStatusCleanupPending)) (\<lambda>_. holds_in safe)" for t
    unfolding rejectCleanupPending_def
    by (rule valid_call [where R = "\<lambda>_. holds_in (\<lambda>m p o'. safe m p o' \<and> m i = Some t \<and> Status t \<noteq> TaskStatusCleanupPending)"])
       (auto intro!: valid_if valid_ok valid_fail elim: holds_in_mono)
qed

text \<open>
  Updates of a task that stays out of the cleanup keep the invariant; what the other
  operations of the manager need.
\<close>

abbreviation active :: "string \<Rightarrow> tasks_map \<Rightarrow> ip_pool option \<Rightarrow> 'e \<Rightarrow> bool" where
  "active i \<equiv> \<lambda>m p o'. safe m p o' \<and> (\<exists>t. m i = Some t \<and> Status t \<noteq> TaskStatusCleanupPending)"

lemma active_held: "active i m p o' \<Longrightarrow> \<exists>q. p = Some q \<and> map_of (allocated q) i \<noteq> None"
  by (auto simp: safe_def entry_safe_def split: if_splits)

lemma active_update:
  assumes "active i m p o'" "change i f m = Some m'"
    and "\<And>t. Status t \<noteq> TaskStatusCleanupPending \<Longrightarrow> Status (f t) \<noteq> TaskStatusCleanupPending" "\<And>t. VMID (f t) = VMID t"
  shows "active i m' p o'"
proof -
  from assms(1) obtain t where t: "m i = Some t" "Status t \<noteq> TaskStatusCleanupPending" "safe m p o'" by blast
  then have m': "m' = m(i \<mapsto> f t)" using assms(2) by (simp add: change_def)
  have "safe m' p o'" unfolding m'
    using t assms(3,4) by (intro safe_update) (auto simp: safe_def entry_safe_def split: if_splits)
  then show ?thesis using m' t(2) assms(3) by auto
qed

lemma valid_status:
  assumes "st \<noteq> TaskStatusCleanupPending"
  shows "valid (holds_in (active i)) (on_store (state_UpdateTaskStatus i st now)) (\<lambda>_. holds_in (active i)) (\<lambda>_. holds_in (active i))"
proof -
  have "valid (holds_in (active i)) (on_store (store_step (StatusReq i st now))) (\<lambda>_. holds_in (active i)) (\<lambda>_. holds_in (active i))"
    by (rule valid_store, erule active_update [where f = "\<lambda>t. if st = ''stopped'' then t\<lparr>Status := st, StoppedAt := Some now\<rparr>
        else t\<lparr>Status := st\<rparr>"]) (use assms in \<open>simp_all only: map_step.simps if_False\<close>, auto split: if_splits)
  then show ?thesis by simp
qed

lemma valid_connection:
  "valid (holds_in (active i)) (on_store (state_UpdateTaskCID i c)) (\<lambda>_. holds_in (active i)) (\<lambda>_. holds_in (active i))"
  "valid (holds_in (active i)) (on_store (state_UpdateTaskVsockPath i v)) (\<lambda>_. holds_in (active i)) (\<lambda>_. holds_in (active i))"
  "valid (holds_in (active i)) (on_store (state_UpdateTaskIP i a)) (\<lambda>_. holds_in (active i)) (\<lambda>_. holds_in (active i))"
proof -
  have upd: "valid (holds_in (active i)) (on_store (store_step req)) (\<lambda>_. holds_in (active i)) (\<lambda>_. holds_in (active i))"
    if "\<And>m. map_step req m = change i f m" "\<And>t. Status (f t) = Status t" "\<And>t. VMID (f t) = VMID t" for req f
    by (rule valid_store, erule active_update [where f = f]) (simp_all add: that)
  from upd [of "CIDReq i c" "\<lambda>t. t\<lparr>CID := c\<rparr>"] upd [of "VsockReq i v" "\<lambda>t. t\<lparr>VsockPath := v\<rparr>"]
    upd [of "IPReq i a" "\<lambda>t. t\<lparr>IP := a\<rparr>"]
  show "valid (holds_in (active i)) (on_store (state_UpdateTaskCID i c)) (\<lambda>_. holds_in (active i)) (\<lambda>_. holds_in (active i))"
    "valid (holds_in (active i)) (on_store (state_UpdateTaskVsockPath i v)) (\<lambda>_. holds_in (active i)) (\<lambda>_. holds_in (active i))"
    "valid (holds_in (active i)) (on_store (state_UpdateTaskIP i a)) (\<lambda>_. holds_in (active i)) (\<lambda>_. holds_in (active i))"
    by simp_all
qed

lemma active_world: "active i m p o' \<Longrightarrow> (\<And>v. live o'' v \<Longrightarrow> live o' v \<or> v = i) \<Longrightarrow> active i m p o''"
proof -
  assume act: "active i m p o'" and births: "\<And>v. live o'' v \<Longrightarrow> live o' v \<or> v = i"
  then obtain q t where q: "p = Some q" "pool_ok q" "\<forall>v. live o' v \<longrightarrow> map_of (allocated q) v \<noteq> None"
      "\<forall>j t. m j = Some t \<longrightarrow> entry_safe q o' j t"
    and t: "m i = Some t" "Status t \<noteq> TaskStatusCleanupPending"
    unfolding safe_def by blast
  then have held: "map_of (allocated q) i \<noteq> None" by (auto simp: entry_safe_def)
  have "entry_safe q o'' j t" if "m j = Some t" for j t
    using that q(4) [rule_format, OF that] births [of j] t held by (cases "j = i") (auto simp: entry_safe_def)
  then have "safe m p o''" using q births held unfolding safe_def by metis
  then show ?thesis using act by blast
qed

lemma not_pending_status [simp]:
  "''stopped'' \<noteq> TaskStatusCleanupPending" "''failed'' \<noteq> TaskStatusCleanupPending"
  "''starting'' \<noteq> TaskStatusCleanupPending" "''running'' \<noteq> TaskStatusCleanupPending"
  by (simp_all add: TaskStatusCleanupPending_def)

abbreviation preserves :: "('e daemon, 'a) op \<Rightarrow> bool" where
  "preserves f \<equiv> valid (holds_in safe) f (\<lambda>_. holds_in safe) (\<lambda>_. holds_in safe)"

lemma admitted_active:
  "valid (holds_in safe) (admitted_task i) (\<lambda>t. holds_in (\<lambda>m p o'. active i m p o' \<and> m i = Some t)) (\<lambda>_. holds_in safe)"
  by (rule valid_post [OF valid_admitted]) (auto elim!: holds_in_mono)

lemma active_safe: "holds_in (active i) d \<Longrightarrow> holds_in safe d"
  by (erule holds_in_mono) simp

lemma done_safe: "valid (holds_in (active i)) (pure_step (record_activity sv a) (ok ())) (\<lambda>_. holds_in safe) (\<lambda>_. holds_in safe)"
  by (rule valid_pure_step, rule valid_ok, assumption) (simp, erule active_safe)

lemma stop_preserves: "preserves (stopTaskLocked sv now i)"
  unfolding stopTaskLocked_def
proof (rule valid_call [OF admitted_active], rule valid_pure_step [where P' = "holds_in (active i)"], rule valid_ignore)
  show "valid (holds_in (active i)) (with_backend sv t (\<lambda>b. backend_StopVM b (VMID t)))
      (\<lambda>_. holds_in (active i)) (\<lambda>_. holds_in (active i))" for t
    unfolding with_backend_def the_backend option.case
    by (rule valid_if, simp add: valid_ok)
       (rule valid_world; erule active_world; blast dest: stop_births)
  show "valid (holds_in (active i)) (call (on_store (state_UpdateTaskStatus i ''stopped'' now)) (\<lambda>_.
          pure_step (record_activity sv (VMStopped i (Name t))) (ok ()))) (\<lambda>_. holds_in safe) (\<lambda>_. holds_in safe)" for t
    by (rule valid_call [OF valid_post [OF valid_status] done_safe]) (auto elim: active_safe)
qed (auto elim: holds_in_mono)

lemma fail_preserves: "preserves (failTaskLocked sv now i reason)"
  unfolding failTaskLocked_def
proof (rule valid_call [OF admitted_active], rule valid_pure_step [where P' = "holds_in (active i)"])
  show "valid (holds_in (active i)) (call (on_store (state_UpdateTaskStatus i ''failed'' now)) (\<lambda>_.
          pure_step (record_activity sv (VMFailed i (Name t) reason)) (ok ()))) (\<lambda>_. holds_in safe) (\<lambda>_. holds_in safe)" for t
    by (rule valid_call [OF valid_post [OF valid_status] done_safe]) (auto elim: active_safe)
qed (auto elim: holds_in_mono)

lemma store_info_active:
  assumes "valid (holds_in (active i)) k Q E"
  shows "valid (holds_in (active i)) (store_vm_info i info k) Q E"
  unfolding store_vm_info_def
  by (rule valid_case_option [OF assms])
     (intro valid_ignore [where R = "holds_in (active i)"] valid_if valid_connection assms valid_ok; assumption)

lemma start_active:
  assumes "VMID t = i" "good i"
  shows "valid (holds_in (active i)) (start_vm sv now i t) (\<lambda>_. holds_in (active i)) (\<lambda>_. holds_in (active i))"
proof -
  have start: "valid (holds_in (active i)) (on_world (backend_StartVM b (restart_config (VMID t))))
      (\<lambda>_. holds_in (active i)) (\<lambda>_. holds_in (active i))"
    using start_births [of "restart_config i"] assms
    by (intro valid_world; elim active_world) (auto simp: restart_config_def)
  have failed: "valid (holds_in (active i)) (ignore (on_store (state_UpdateTaskStatus i ''failed'' now))
      (fail (Wrap ''failed to start VM'' e))) (\<lambda>_. holds_in (active i)) (\<lambda>_. holds_in (active i))" for e
    by (rule valid_ignore [OF valid_status valid_fail]) simp_all
  show ?thesis
    unfolding start_vm_def the_backend option.case
    by (rule valid_if, simp add: valid_ok, rule valid_attempt [OF start]) (auto intro: failed valid_ok)
qed

lemma restart_preserves: "preserves (restartTaskLocked sv now i)"
  unfolding restartTaskLocked_def
proof (rule valid_call [OF admitted_active], rule valid_if)
  fix t
  show "valid (holds_in (\<lambda>m p o'. active i m p o' \<and> m i = Some t))
      (fail (Wrap (i @ '' (status: '' @ Status t @ '')'') (Sentinel ErrTaskNotStopped))) (\<lambda>_. holds_in safe) (\<lambda>_. holds_in safe)"
    by (rule valid_fail) (erule holds_in_mono, simp)
  show "valid (holds_in (\<lambda>m p o'. active i m p o' \<and> m i = Some t))
      (call (on_store (state_UpdateTaskStatus i ''starting'' now)) (\<lambda>_.
       call (start_vm sv now i t) (\<lambda>info.
       call (on_store (state_UpdateTaskStatus i ''running'' now)) (\<lambda>_.
       store_vm_info i info (pure_step (start_tailing sv i (VMID t))
           (pure_step (record_activity sv (VMStarted i (Name t))) (ok ())))))))
      (\<lambda>_. holds_in safe) (\<lambda>_. holds_in safe)"
  proof (cases "VMID t = i \<and> good i")
    case False
    then show ?thesis by (auto simp: valid_def holds_in_def dest: safe_named)
  next
    case True
    have last: "valid (holds_in (active i)) (pure_step (start_tailing sv i (VMID t))
        (pure_step (record_activity sv (VMStarted i (Name t))) (ok ()))) (\<lambda>_. holds_in safe) (\<lambda>_. holds_in safe)"
      by (rule valid_pure_step [OF done_safe]) simp
    have st: "valid (holds_in (active i)) (on_store (state_UpdateTaskStatus i s now)) (\<lambda>_. holds_in (active i)) (\<lambda>_. holds_in safe)"
      if "s \<noteq> TaskStatusCleanupPending" for s
      by (rule valid_post [OF valid_status [OF that]]) (auto elim: active_safe)
    have start: "valid (holds_in (active i)) (start_vm sv now i t) (\<lambda>_. holds_in (active i)) (\<lambda>_. holds_in safe)"
      using True by (intro valid_post [OF start_active]) (auto elim: active_safe)
    show ?thesis
      by (rule valid_pre, rule valid_call [OF st valid_call [OF start valid_call [OF st store_info_active [OF last]]]])
         (auto elim: holds_in_mono)
  qed
qed

section \<open>Creation\<close>

abbreviation unborn :: "string \<Rightarrow> tasks_map \<Rightarrow> ip_pool option \<Rightarrow> 'e \<Rightarrow> bool" where
  "unborn i \<equiv> \<lambda>m p o'. safe m p o' \<and> m i = None"

abbreviation fresh :: "string \<Rightarrow> tasks_map \<Rightarrow> ip_pool option \<Rightarrow> 'e \<Rightarrow> bool" where
  "fresh i \<equiv> \<lambda>m p o'. safe m p o' \<and> m i = None \<and> \<not> live o' i"

lemma calm_fresh: "calm (fresh i)" and calm_unborn: "calm (unborn i)"
  unfolding calm_def using safe_world by blast+

lemma release_unborn:
  "valid (holds_in (fresh i)) (\<lambda>d. case pool d of
       Some p \<Rightarrow> wrap msg (on_pool (Release (sv_files sv) i) p) d | None \<Rightarrow> ok () d)
     (\<lambda>_. holds_in (unborn i)) (\<lambda>_. holds_in (unborn i))"
  by (rule valid_pre, rule valid_post [OF valid_release_msg [where W = "\<lambda>_. True" and P = "\<lambda>m. m i = None"]])
     (auto elim!: holds_in_mono)

definition cleaned :: "string \<Rightarrow> goerr + unit \<Rightarrow> tasks_map \<Rightarrow> ip_pool option \<Rightarrow> 'e \<Rightarrow> bool" where
  "cleaned i r m p o' \<longleftrightarrow> safe m p o' \<and> m i = None \<and> (\<not> isl r \<longrightarrow> \<not> live o' i)"

lemma calm_cleaned: "calm (cleaned i r)"
  unfolding calm_def cleaned_def using safe_world by blast

lemma delete_cleaned:
  "valid (holds_in (unborn i)) (wrap msg (on_world (backend_DeleteVM b i)))
     (\<lambda>u. holds_in (cleaned i (Inr u))) (\<lambda>e. holds_in (cleaned i (Inl e)))"
proof (rule valid_wrap, rule valid_world, goal_cases)
  case (1 m p w a w')
  then show ?case using safe_world [OF _ delete_births [OF 1(2)]] delete_sound [of i w w']
    by (cases a) (auto simp: cleaned_def)
next
  case (2 m p w e w')
  then show ?case using safe_world [OF _ delete_births [OF 2(2)]] by (auto simp: cleaned_def)
qed

lemma cleanup_steps:
  assumes "vmID = i \<and> i \<noteq> [] \<and> K = unborn i \<or> vmID = [] \<and> K = fresh i"
  shows "valid (holds_in K) (cleanupCreateTask sv i vmID dc) (\<lambda>_. holds_in (unborn i)) (\<lambda>_. holds_in (unborn i))"
proof -
  have vm: "valid (holds_in K)
      (case sv_backend sv of
         Some b \<Rightarrow> if vmID = [] then ok ()
           else wrap ''delete VM during task creation cleanup'' (on_world (backend_DeleteVM b vmID))
       | None \<Rightarrow> ok ()) (\<lambda>u. holds_in (cleaned i (Inr u))) (\<lambda>e. holds_in (cleaned i (Inl e)))"
    using assms delete_cleaned [of i]
    by (auto simp: the_backend intro!: valid_ok) (erule holds_in_mono, simp add: cleaned_def)
  have ws: "valid (holds_in (cleaned i r))
      (case sv_zfs sv of
         Some z \<Rightarrow> if dc
           then wrap ''destroy workspace during task creation cleanup'' (on_world (ws_destroy z i)) else ok ()
       | None \<Rightarrow> ok ()) (\<lambda>_. holds_in (cleaned i r)) (\<lambda>_. holds_in (cleaned i r))" for r
    by (cases "sv_zfs sv") (auto intro!: valid_ok valid_wrap calm_world calm_cleaned ws_quiet)
  have rel: "valid (holds_in (cleaned i r))
      (\<lambda>d. case pool d of
         Some p \<Rightarrow> if \<not> isl r
           then wrap ''release IP allocation during task creation cleanup'' (on_pool (Release (sv_files sv) i) p) d
           else ok () d
       | None \<Rightarrow> ok () d) (\<lambda>_. holds_in (unborn i)) (\<lambda>_. holds_in (unborn i))" for r
  proof (cases r)
    case (Inl e)
    then show ?thesis by (auto simp: valid_def cleaned_def elim!: holds_in_mono split: option.split)
  next
    case (Inr u)
    then have clean: "cleaned i r = fresh i" by (intro ext) (simp add: cleaned_def)
    have r: "isl r = False" using Inr by simp
    show ?thesis unfolding clean r not_False_eq_True if_True by (rule release_unborn)
  qed
  show ?thesis
    unfolding cleanupCreateTask_def
    by (rule valid_attempt [OF vm]; rule valid_attempt [OF ws])
       (rule valid_attempt [OF rel]; rule valid_ok; assumption)+
qed

lemma undo_valid:
  assumes "vmID = i \<and> i \<noteq> [] \<and> K = unborn i \<or> vmID = [] \<and> K = fresh i"
    and "valid P f R (\<lambda>_. holds_in K)" "\<And>a. valid (R a) (k a) Q (\<lambda>_. holds_in (unborn i))"
  shows "valid P (or_undo sv i vmID dc msg f k) Q (\<lambda>_. holds_in (unborn i))"
  unfolding or_undo_def fail_create_def
  by (rule valid_attempt [OF assms(2)]) (auto intro: assms(3) valid_call [OF cleanup_steps [OF assms(1)]] valid_fail)

end

end
