(* ===== verification/Task_Creation.thy ===== *)
theory Task_Creation
  imports Task_Safety
begin

text \<open>
  \<open>CreateTask\<close> keeps the invariant of \<open>task_host\<close>: a created task has its row and
  its address before its VM can run without them, and a failed creation leaves no row.
\<close>

section \<open>Calls that only read\<close>

lemma keeps_read [frame_intros]: "keeps tasks (sql_stmt (\<lambda>d. (Inr (f d), d)))"
  by (auto simp: keeps_outcome sql_stmt_cases)

lemma keeps_tasks_read:
  assumes "keeps tasks f"
  shows "valid (holds_in K) (on_store f) (\<lambda>_. holds_in K) (\<lambda>_. holds_in K)"
  by (rule valid_read) (auto dest!: keepsD [OF assms] simp: scannable_def task_of_def fun_eq_iff)

lemma GetImage_keeps [frame_intros]: "keeps tasks (state_GetImage n)"
  unfolding state_GetImage_def by (intro frame_intros)

lemma ListImages_keeps [frame_intros]: "keeps tasks state_ListImages"
  unfolding state_ListImages_def by (intro frame_intros)

lemma ValidateImage_keeps: "keeps tasks (registry_ValidateImage r)"
  unfolding registry_ValidateImage_def Let_def by (intro frame_intros)

context task_host
begin

text \<open>The id has no row; its VM does not run; it holds an address.\<close>

abbreviation owns :: "string \<Rightarrow> ip_pool option \<Rightarrow> bool" where
  "owns i p \<equiv> (\<exists>q. p = Some q \<and> map_of (allocated q) i \<noteq> None)"

abbreviation ready :: "string \<Rightarrow> tasks_map \<Rightarrow> ip_pool option \<Rightarrow> 'e \<Rightarrow> bool" where
  "ready i \<equiv> \<lambda>m p o'. safe m p o' \<and> m i = None \<and> \<not> live o' i \<and> owns i p"

abbreviation born :: "string \<Rightarrow> tasks_map \<Rightarrow> ip_pool option \<Rightarrow> 'e \<Rightarrow> bool" where
  "born i \<equiv> \<lambda>m p o'. safe m p o' \<and> m i = None \<and> owns i p"

lemma calm_ready: "calm (ready i)"
  unfolding calm_def using safe_world by blast

lemma image_calm:
  assumes "calm K"
  shows "valid (holds_in K) (image_of_request sv rq) (\<lambda>_. holds_in K) (\<lambda>_. holds_in K)"
proof -
  have validate: "valid (holds_in K) (v ref) (\<lambda>_. holds_in K) (\<lambda>_. holds_in K)" if "task_validator sv = Some v" for v ref
    using that keeps_tasks_read [OF ValidateImage_keeps] calm_world [OF assms other_quiet(3)]
    by (auto simp: task_validator_def split: option.splits)
  show ?thesis
    unfolding image_of_request_def resolveTaskImage_def Let_def
    by (intro valid_if valid_case_option valid_ok valid_fail valid_call [OF validate]) auto
qed

lemma allocate_ready:
  "valid (holds_in (fresh i)) (allocate_address sv i) (\<lambda>_. holds_in (ready i)) (\<lambda>_. holds_in (unborn i))"
proof -
  have step: "holds_in (\<lambda>m p o'. fresh i m p o' \<and> (\<not> isl r \<longrightarrow> owns i p)) d'"
    if K: "holds_in (fresh i) d" and q: "pool d = Some q"
      and run: "on_pool (Allocate (sv_files sv) i) q d = (r, d')" for d r d' q
  proof -
    from run obtain q' f' where al: "Allocate (sv_files sv) i (q, outside (world d)) = (r, (q', f'))"
      and d': "d' = d\<lparr>pool := Some q', world := (world d)\<lparr>outside := f'\<rparr>\<rparr>"
      by (auto simp: on_pool_def split: prod.splits)
    have ok: "pool_ok q" using K q by (auto simp: holds_in_def safe_def)
    note out = Allocate_outcome [OF al files_quiet ok]
    from out(1) have same: "live f' = live (outside (world d))" by simp
    have safe_q: "safe (task_of (store d)) (Some q) f'"
      using K q same safe_world [of _ _ "outside (world d)" f'] by (auto simp: holds_in_def)
    have "safe (task_of (store d)) (Some q') f' \<and> (\<not> isl r \<longrightarrow> owns i (Some q'))"
    proof (cases r)
      case (Inl e)
      then show ?thesis using out(4) safe_q by simp
    next
      case (Inr ip)
      then show ?thesis using out(2) out(3) [OF Inr] safe_q by (auto simp: safe_def entry_safe_def split: if_splits)
    qed
    then show ?thesis using K d' same by (auto simp: holds_in_def)
  qed
  have alloc: "valid (\<lambda>d. holds_in (fresh i) d \<and> pool d = Some q) (on_pool (Allocate (sv_files sv) i) q)
      (\<lambda>_. holds_in (ready i)) (\<lambda>_. holds_in (unborn i))" for q
    by (rule validI) (auto dest!: step elim!: holds_in_mono)
  have last: "valid (holds_in (ready i)) (\<lambda>d. case pool d of None \<Rightarrow> ok ([], None) d
      | Some p' \<Rightarrow> ok (KernelIPArgs p' i, NetworkConfig p' i) d) (\<lambda>_. holds_in (ready i)) (\<lambda>_. holds_in (unborn i))"
    by (rule valid_state_option) (simp_all add: valid_def)
  show ?thesis
    unfolding allocate_address_def
  proof (rule valid_state_option)
    show "valid (\<lambda>d. holds_in (fresh i) d \<and> pool d = None) (ok ([], None)) (\<lambda>_. holds_in (ready i)) (\<lambda>_. holds_in (unborn i))"
      by (auto simp: valid_def holds_in_def safe_def)
  qed (rule valid_call_wrap [OF alloc last])
qed

lemma ready_calm_world:
  assumes "shrinks (\<lambda>w. live (outside w)) f"
  shows "valid (holds_in (ready i)) (on_world f) (\<lambda>_. holds_in (ready i)) (\<lambda>_. holds_in (fresh i))"
  by (rule valid_post [OF calm_world [OF calm_ready assms]]) (auto elim: holds_in_mono)

lemma workspace_ready:
  assumes "\<And>x. valid (holds_in (ready i)) (k x) Q (\<lambda>_. holds_in (unborn i))"
  shows "valid (holds_in (ready i)) (create_workspace sv i k) Q (\<lambda>_. holds_in (unborn i))"
proof (cases "sv_zfs sv")
  case None
  then show ?thesis unfolding create_workspace_def by (simp only: option.case assms)
next
  case (Some z)
  have undo: "valid (holds_in (ready i)) (or_undo sv i [] dc msg (on_world f) k') Q (\<lambda>_. holds_in (unborn i))"
    if "shrinks (\<lambda>w. live (outside w)) f" "\<And>a. valid (holds_in (ready i)) (k' a) Q (\<lambda>_. holds_in (unborn i))"
    for dc msg k' and f :: "('e env, 'x) op"
    by (rule undo_valid [OF _ ready_calm_world [OF that(1)] that(2)]) simp
  show ?thesis
    unfolding create_workspace_def Some option.case
    by (rule valid_if, rule assms) (intro undo ws_quiet [OF Some] assms)
qed

lemma secrets_calm:
  assumes "calm K"
  shows "valid (holds_in K) (add_secrets sv names env) (\<lambda>_. holds_in K) (\<lambda>_. holds_in K)"
proof (induction names arbitrary: env)
  case (Cons n ns)
  show ?case unfolding add_secrets.simps
    by (rule valid_attempt [OF calm_world [OF assms other_quiet(1)]]) (simp_all add: Cons)
qed (simp add: valid_ok)

lemma tailscale_calm:
  assumes "calm K"
  shows "valid (holds_in K) (tailscale_setup sv rq i) (\<lambda>_. holds_in K) (\<lambda>_. holds_in K)"
proof -
  have "valid (holds_in K) (if rq_authkey rq \<noteq> [] then ok (rq_authkey rq) else on_world (sv_secret sv s))
      (\<lambda>_. holds_in K) (\<lambda>_. holds_in K)" for s
    by (simp add: valid_ok calm_world [OF assms other_quiet(1)])
  note key = valid_attempt [OF this]
  show ?thesis
    unfolding tailscale_setup_def Let_def by (intro valid_if key valid_ok)
qed

text \<open>After the VM may run.\<close>

lemma born_create:
  assumes "good i" "vb_id cfg = i"
  shows "valid (holds_in (ready i)) (on_world (backend_CreateVM b cfg))
    (\<lambda>v d. vi_id v = i \<and> holds_in (born i) d) (\<lambda>_. holds_in (unborn i))"
proof -
  have after: "born i m p o''" if "ready i m p o'" and births: "\<And>v. live o'' v \<Longrightarrow> live o' v \<or> v = i" for m p o' o''
  proof -
    from that obtain q where q: "p = Some q" "pool_ok q" "\<forall>v. live o' v \<longrightarrow> map_of (allocated q) v \<noteq> None"
      "\<forall>j t. m j = Some t \<longrightarrow> entry_safe q o' j t" "map_of (allocated q) i \<noteq> None" "m i = None"
      unfolding safe_def by blast
    have "entry_safe q o'' j t" if "m j = Some t" for j t
    proof -
      have "j \<noteq> i" using that q(6) by auto
      then show ?thesis using q(4) that births [of j] by (auto simp: entry_safe_def)
    qed
    then have "safe m p o''" using q births unfolding safe_def by metis
    then show ?thesis using \<open>ready i m p o'\<close> by simp
  qed
  show ?thesis
  proof (rule validI)
    fix d v d' assume K: "holds_in (ready i) d" and run: "on_world (backend_CreateVM b cfg) d = (Inr v, d')"
    then obtain w' where w: "backend_CreateVM b cfg (world d) = (Inr v, w')" "d' = d\<lparr>world := w'\<rparr>"
      by (auto simp: on_world_def zoom_def split: prod.splits)
    show "vi_id v = i \<and> holds_in (born i) d'"
    proof -
      have "born i (task_of (store d)) (pool d) (outside w')"
        using K by (intro after [of _ _ "outside (world d)"]) (use create_births [OF w(1)] assms in \<open>auto simp: holds_in_def\<close>)
      then show ?thesis using K w(2) create_name [OF w(1)] assms(2) by (simp add: holds_in_def)
    qed
  next
    fix d e d' assume K: "holds_in (ready i) d" and run: "on_world (backend_CreateVM b cfg) d = (Inl e, d')"
    then obtain w' where w: "backend_CreateVM b cfg (world d) = (Inl e, w')" "d' = d\<lparr>world := w'\<rparr>"
      by (auto simp: on_world_def zoom_def split: prod.splits)
    have "born i (task_of (store d)) (pool d) (outside w')"
      using K by (intro after [of _ _ "outside (world d)"]) (use create_births [OF w(1)] assms in \<open>auto simp: holds_in_def\<close>)
    then show "holds_in (unborn i) d'" using K w(2) by (simp add: holds_in_def)
  qed
qed

lemma record_task:
  assumes "good i" "ID t = i" "VMID t = i" "Status t \<noteq> TaskStatusCleanupPending"
  shows "valid (holds_in (born i)) (on_store (state_CreateTask t))
    (\<lambda>_. holds_in (\<lambda>m p o'. safe m p o' \<and> m i = Some t)) (\<lambda>_. holds_in (unborn i))"
proof -
  have "valid (holds_in (born i)) (on_store (store_step (CreateReq t)))
      (\<lambda>_. holds_in (\<lambda>m p o'. safe m p o' \<and> m i = Some t)) (\<lambda>_. holds_in (born i))"
    using assms by (intro valid_store) (auto simp: entry_safe_def split: if_splits intro!: safe_update)
  then show ?thesis unfolding store_step.simps by (rule valid_post) (auto elim: holds_in_mono)
qed

lemma CreateTask_valid:
  assumes "good i"
  shows "valid (holds_in (fresh i)) (tm_CreateTask sv rq i now)
    (\<lambda>t. holds_in (\<lambda>m p o'. safe m p o' \<and> m i = Some t)) (\<lambda>_. holds_in (unborn i))"
proof -
  let ?Q = "\<lambda>t. holds_in (\<lambda>m p o'. safe m p o' \<and> m i = Some t)" and ?E = "\<lambda>_. holds_in (unborn i)"
  have K: "holds_in (fresh i) d \<Longrightarrow> holds_in (unborn i) d" "holds_in (ready i) d \<Longrightarrow> holds_in (unborn i) d"
    "holds_in (ready i) d \<Longrightarrow> holds_in (fresh i) d" for d by (auto elim: holds_in_mono)
  have image: "valid (holds_in (fresh i)) (image_of_request sv rq) (\<lambda>_. holds_in (fresh i)) ?E"
    by (rule valid_post [OF image_calm [OF calm_fresh]]) (auto intro: K)
  have secrets: "valid (holds_in (ready i)) (add_secrets sv ns env) (\<lambda>_. holds_in (ready i)) ?E" for ns env
    by (rule valid_post [OF secrets_calm [OF calm_ready]]) (auto intro: K)
  have tailscale: "valid (holds_in (ready i)) (tailscale_setup sv rq i) (\<lambda>_. holds_in (ready i)) ?E"
    by (rule valid_post [OF tailscale_calm [OF calm_ready]]) (auto intro: K)
  have undo: "valid (holds_in (ready i)) (or_undo sv i [] dc msg f k) ?Q ?E"
    if "valid (holds_in (ready i)) f (\<lambda>_. holds_in (ready i)) (\<lambda>_. holds_in (ready i))"
      "\<And>a. valid (holds_in (ready i)) (k a) ?Q ?E" for dc msg f k
    by (rule undo_valid [where K = "fresh i", OF _ valid_post [OF that(1)] that(2)]) (auto intro: K)
  have registered: "valid (holds_in (ready i)) (registered_image sv img) (\<lambda>_. holds_in (ready i)) (\<lambda>_. holds_in (ready i))" for img
    unfolding registered_image_def
    by (intro valid_case_option valid_case_prod valid_call [OF keeps_tasks_read [OF GetImage_keeps]] valid_ok)
  have cloud: "valid (holds_in (ready i)) (\<lambda>d. (cloud_init_for sv h env ws, d)) (\<lambda>_. holds_in (ready i)) (\<lambda>_. holds_in (ready i))"
    for h env ws
    by (cases "cloud_init_for sv h env ws") (simp_all add: valid_def)
  have peer: "valid (?Q t) (pure_step (record_activity sv a) (pure_step (start_tailing sv i v)
      (ignore (if h \<noteq> [] then on_world (sv_wait_peer sv h) else ok ()) (ok t)))) ?Q ?E" for t a v h
  proof -
    have "calm (\<lambda>m p o'. safe m p o' \<and> m i = Some t)" by (rule calm_safe)
    note wait = calm_world [OF this other_quiet(2)]
    have "valid (?Q t) (if h \<noteq> [] then on_world (sv_wait_peer sv h) else ok ()) (\<lambda>_. ?Q t) (\<lambda>_. ?Q t)"
      by (rule valid_if [OF wait]) (simp add: valid_ok)
    then have "valid (?Q t) (ignore (if h \<noteq> [] then on_world (sv_wait_peer sv h) else ok ()) (ok t)) ?Q ?E"
      by (rule valid_ignore) (rule valid_ok)
    then have "valid (?Q t) (pure_step (start_tailing sv i v)
        (ignore (if h \<noteq> [] then on_world (sv_wait_peer sv h) else ok ()) (ok t))) ?Q ?E"
      by (rule valid_pure_step) simp
    then show ?thesis by (rule valid_pure_step) simp
  qed
  have recorded: "valid (\<lambda>d. vi_id v = i \<and> holds_in (born i) d)
      (or_undo sv i (vi_id v) dc msg (on_store (state_CreateTask (new_task rq i now img h v)))
        (\<lambda>_. pure_step (record_activity sv (VMStarted i (rq_name rq))) (pure_step (start_tailing sv i (vi_id v))
          (ignore (if h \<noteq> [] then on_world (sv_wait_peer sv h) else ok ()) (ok (new_task rq i now img h v)))))) ?Q ?E"
    for v dc msg img h
  proof (cases "vi_id v = i")
    case True
    have "valid (holds_in (born i)) (on_store (state_CreateTask (new_task rq i now img h v)))
        (\<lambda>_. ?Q (new_task rq i now img h v)) ?E"
      by (rule record_task) (use assms True in \<open>simp_all add: new_task_def\<close>)
    note undo = undo_valid [where K = "unborn i" and vmID = "vi_id v", OF _ this peer]
    show ?thesis
      by (rule valid_pre [OF undo]) (use True good_named [OF assms] in auto)
  qed (simp add: valid_def)
  have vm: "valid (holds_in (ready i)) (create_vm sv rq i dc cfg k) ?Q ?E"
    if "vb_id cfg = i" "\<And>v. valid (\<lambda>d. vi_id v = i \<and> holds_in (born i) d) (k v) ?Q ?E" for dc cfg k
    unfolding create_vm_def the_backend option.case
    by (rule undo_valid [OF _ born_create [OF assms that(1)] that(2)]) (use good_named [OF assms] in simp)
  show ?thesis
    unfolding tm_CreateTask_def Let_def
    by (rule valid_call [OF image], rule valid_call [OF allocate_ready], rule valid_case_prod, rule workspace_ready,
        rule valid_case_prod, rule valid_call [OF secrets], rule valid_call [OF tailscale], rule valid_case_prod,
        rule undo [OF cloud], rule undo [OF registered], rule valid_case_prod, rule vm [OF _ recorded])
       (simp split: prod.split)
qed

section \<open>The other operations\<close>

lemma destroy_preserves: "preserves (destroyTaskLocked sv i)"
proof (rule validI)
  fix d a d' assume K: "holds_in safe d" and run: "destroyTaskLocked sv i d = (Inr a, d')"
  have "holds_in (\<lambda>m p o'. safe m p o' \<and> m i = task_of (store d) i) d" using K by (simp add: holds_in_def)
  from valid_Inr [OF valid_destroy this run] show "holds_in safe d'" by (auto elim: holds_in_mono)
next
  fix d e d' assume K: "holds_in safe d" and run: "destroyTaskLocked sv i d = (Inl e, d')"
  have "holds_in (\<lambda>m p o'. safe m p o' \<and> m i = task_of (store d) i) d" using K by (simp add: holds_in_def)
  from valid_Inl [OF valid_destroy this run] show "holds_in safe d'" by (auto elim: holds_in_mono)
qed

lemma each_preserves: "preserves (destroy_each sv img ts)"
proof (induction ts)
  case (Cons t ts)
  show ?case unfolding destroy_each.simps
    by (rule valid_if [OF Cons]) (rule valid_call_wrap [OF destroy_preserves Cons])
qed (simp add: valid_def)

lemma ListTasks_keeps: "keeps tasks (state_ListTasks st)"
  unfolding state_ListTasks_def by (intro frame_intros)

lemma by_image_preserves: "preserves (DestroyTasksByImage sv img)"
  unfolding DestroyTasksByImage_def
  by (rule valid_call [OF keeps_tasks_read [OF ListTasks_keeps] each_preserves])

lemma restore_preserves: "preserves (tm_RestoreSnapshot sv now i name)"
  unfolding tm_RestoreSnapshot_def need_zfs_def
proof (rule valid_call [OF admitted_active], rule valid_case_option)
  fix t z assume z: "sv_zfs sv = Some z"
  have ws: "preserves (on_world (ws_rollback z i name))"
    by (rule calm_world [OF _ ws_quiet(5) [OF z]]) (use calm_safe [of "\<lambda>_ _. True"] in simp)
  have "valid (holds_in (\<lambda>m p o'. active i m p o' \<and> m i = Some t))
      (if Status t = ''running'' then stopTaskLocked sv now i else ok ()) (\<lambda>_. holds_in safe) (\<lambda>_. holds_in safe)"
    by (rule valid_if; rule valid_pre [where P' = "holds_in safe"]) (auto intro: stop_preserves valid_ok elim: holds_in_mono)
  then show "valid (holds_in (\<lambda>m p o'. active i m p o' \<and> m i = Some t))
      (call (if Status t = ''running'' then stopTaskLocked sv now i else ok ()) (\<lambda>_. on_world (ws_rollback z i name)))
      (\<lambda>_. holds_in safe) (\<lambda>_. holds_in safe)"
    by (rule valid_call) (rule ws)
next
  fix t
  show "valid (holds_in (\<lambda>m p o'. active i m p o' \<and> m i = Some t)) (fail (Msg ''ZFS manager not available''))
      (\<lambda>_. holds_in safe) (\<lambda>_. holds_in safe)"
    by (rule valid_fail) (erule holds_in_mono, simp)
qed

end

end
