(* ===== verification/Host.thy ===== *)
theory Host
  imports Task_Creation
begin

text \<open>
  The whole host: the machine with the Firecracker client's state, and the disk with the
  address pool's file. The backend, the workspaces and the pool's files of the task manager
  become operations on it, which gives \<open>task_host\<close> its model. The daemon serves
  requests while processes exit, the database fails and contexts are cancelled; the
  properties hold for every run.
\<close>

section \<open>The services of the host\<close>

record host =
  vms :: "machine fc_world"
  disk :: fs

definition on_vms :: "(machine fc_world env, 'a) op \<Rightarrow> (host env, 'a) op" where
  "on_vms m = zoom (\<lambda>w. \<lparr>ctx = ctx w, outside = vms (outside w)\<rparr>)
     (\<lambda>v w. w\<lparr>ctx := ctx v, outside := (outside w)\<lparr>vms := outside v\<rparr>\<rparr>) m"

definition on_disk :: "(fs, 'a) op \<Rightarrow> (host, 'a) op" where
  "on_disk m = zoom disk (\<lambda>x h. h\<lparr>disk := x\<rparr>) m"

definition host_backend :: "client_config \<Rightarrow> string \<Rightarrow> host backend_ops" where
  "host_backend c bridge =
     (let b = firecracker_backend (client_defaults c) linux_ops machine_deletes (machine_launch bridge) in
      \<lparr>backend_CreateVM = (\<lambda>cfg. on_vms (backend_CreateVM b cfg)),
       backend_StartVM = (\<lambda>cfg. on_vms (backend_StartVM b cfg)),
       backend_StopVM = (\<lambda>i. on_vms (backend_StopVM b i)),
       backend_DeleteVM = (\<lambda>i. on_vms (backend_DeleteVM b i))\<rparr>)"

definition host_files :: "host persistence_ops" where
  "host_files =
     \<lparr>mkdirAll = (\<lambda>x. on_disk (mkdirAll os_ops x)), createTemp = (\<lambda>x y. on_disk (createTemp os_ops x y)),
      writeFile = (\<lambda>x y. on_disk (writeFile os_ops x y)), syncFile = (\<lambda>x. on_disk (syncFile os_ops x)),
      closeFile = (\<lambda>x. on_disk (closeFile os_ops x)), renameFile = (\<lambda>x y. on_disk (renameFile os_ops x y)),
      openDir = (\<lambda>x. on_disk (openDir os_ops x)), removeFile = (\<lambda>x. on_disk (removeFile os_ops x))\<rparr>"

text \<open>The workspaces are the datasets of the ZFS manager on the same machine; \<open>stamp\<close> is the clock's text.\<close>

definition host_workspaces :: "zfs_manager \<Rightarrow> string \<Rightarrow> host workspace_ops" where
  "host_workspaces m stamp =
     \<lparr>ws_create = (\<lambda>i. on_vms (on_os (CreateDataset m zfs_sim i))),
      ws_mountpoint = (\<lambda>i. on_vms (on_os (GetMountpoint m zfs_sim i))),
      ws_destroy = (\<lambda>i. on_vms (on_os (DestroyDataset m zfs_sim i))),
      ws_exists = (\<lambda>i. on_vms (on_os (DatasetExists m zfs_sim i))),
      ws_sync = (\<lambda>i. on_vms (on_os (Sync m zfs_sim zfs_sim i))),
      ws_snapshot = (\<lambda>i label. on_vms (on_os (CreateSnapshot m zfs_sim stamp i label))),
      ws_rollback = (\<lambda>i s. on_vms (on_os (RollbackSnapshot m zfs_sim i s))),
      ws_list = (\<lambda>i. on_vms (on_os (ListSnapshots m zfs_sim i)))\<rparr>"

text \<open>What the daemon is configured with; secrets, \<open>yaml.Marshal\<close> and the wait for a peer answer as given.\<close>

record daemon_config =
  dc_client :: client_config
  dc_bridge :: string
  dc_zfs :: zfs_manager
  dc_registry :: "(string \<times> string) option"
  dc_secret :: "string \<Rightarrow> goerr + string"
  dc_yaml :: "cloud_init_data \<Rightarrow> goerr + string"
  dc_peer :: "string \<Rightarrow> goerr + unit"
  dc_data_dir :: string
  dc_stamp :: string

definition host_services :: "daemon_config \<Rightarrow> host services" where
  "host_services dc =
     \<lparr>sv_backend_name = ''firecracker'', sv_apple_image = [], sv_data_dir = dc_data_dir dc,
      sv_backend = Some (host_backend (dc_client dc) (dc_bridge dc)), sv_validator = None,
      sv_registry = dc_registry dc, sv_zfs = Some (host_workspaces (dc_zfs dc) (dc_stamp dc)),
      sv_files = host_files, sv_secret = (\<lambda>n w. (dc_secret dc n, w)), sv_yaml = dc_yaml dc,
      sv_wait_peer = (\<lambda>h w. (dc_peer dc h, w)), sv_feed = True, sv_tailer = True, sv_poller = True\<rparr>"

definition host_live :: "daemon_config \<Rightarrow> host \<Rightarrow> string \<Rightarrow> bool" where
  "host_live dc h i = vm_live (client_defaults (dc_client dc)) (vms h) i"

definition host_workspace :: "daemon_config \<Rightarrow> host \<Rightarrow> string \<Rightarrow> bool" where
  "host_workspace dc h i = has_dataset (fc_os (vms h)) (DatasetPath (dc_zfs dc) i)"

section \<open>The contract holds\<close>

lemma on_vms_outcome:
  "on_vms m w = (r, w') \<Longrightarrow> \<exists>v. m \<lparr>ctx = ctx w, outside = vms (outside w)\<rparr> = (r, v) \<and>
     vms (outside w') = outside v \<and> disk (outside w') = disk (outside w)"
  by (auto simp: on_vms_def zoom_def split: prod.splits)

lemma shrinks_on_vms:
  "shrinks (\<lambda>w. P (outside w)) m \<Longrightarrow> shrinks (\<lambda>w. P (vms (outside w))) (on_vms m)"
  unfolding shrinks_outcome by (metis env.select_convs(2) on_vms_outcome)

lemma live_quiet:
  assumes "shrinks (\<lambda>w. machine_owned (outside w)) m"
  shows "shrinks (\<lambda>w. host_live dc (outside w)) (on_vms (on_os m))"
proof -
  have "shrinks (\<lambda>w. vm_live c (outside w)) (on_os m)" for c
    unfolding shrinks_outcome vm_live_def
  proof (intro allI impI, elim conjE exE)
    fix w r w' i n assume run: "on_os m w = (r, w')"
      and o': "plain i" "machine_owner (fc_os (outside w')) n (api_socket c ''stockyard'' i)"
    have "machine_owned (fc_os (outside w)) (n, api_socket c ''stockyard'' i)"
      using on_os_shrinksD [OF assms run, of "(n, api_socket c ''stockyard'' i)"] o'(2) by (simp add: machine_owned_def)
    then show "plain i \<and> (\<exists>n. machine_owner (fc_os (outside w)) n (api_socket c ''stockyard'' i))"
      using o'(1) by (auto simp: machine_owned_def)
  qed
  then show ?thesis unfolding host_live_def by (rule shrinks_on_vms)
qed

lemma disk_quiet: "(\<And>x. keeps (\<lambda>h. (host_live dc h, host_workspace dc h)) (on_disk x))"
  by (auto simp: keeps_def on_disk_def zoom_def host_live_def host_workspace_def fun_eq_iff split: prod.split)

lemma workspace_tools:
  "shrinks (\<lambda>w. machine_owned (outside w)) (CreateDataset m zfs_sim i)"
  "shrinks (\<lambda>w. machine_owned (outside w)) (GetMountpoint m zfs_sim i)"
  "shrinks (\<lambda>w. machine_owned (outside w)) (DestroyDataset m zfs_sim i)"
  "shrinks (\<lambda>w. machine_owned (outside w)) (DatasetExists m zfs_sim i)"
  "shrinks (\<lambda>w. machine_owned (outside w)) (RollbackSnapshot m zfs_sim i s)"
  unfolding CreateDataset_def GetMountpoint_def get_mountpoint_def DestroyDataset_def DatasetExists_def
    RollbackSnapshot_def runZFS_def DatasetPathExists_def
  by (intro frame_intros)+

interpretation host: task_host "host_backend (dc_client dc) (dc_bridge dc)" "host_live dc" plain
  "host_services dc" "host_workspace dc"
proof unfold_locales
  let ?b = "host_backend (dc_client dc) (dc_bridge dc)"
  fix i j r w and w' :: "host env"
  show "backend_DeleteVM ?b i w = (Inr (), w') \<Longrightarrow> \<not> host_live dc (outside w') i"
    by (auto simp: host_backend_def Let_def host_live_def dest!: on_vms_outcome dest: firecracker.delete_sound)
  show "backend_DeleteVM ?b i w = (r, w') \<Longrightarrow> host_live dc (outside w') j \<Longrightarrow> host_live dc (outside w) j"
    by (auto simp: host_backend_def Let_def host_live_def dest!: on_vms_outcome dest: firecracker.delete_births)
  show "backend_StopVM ?b i w = (r, w') \<Longrightarrow> host_live dc (outside w') j \<Longrightarrow> host_live dc (outside w) j"
    by (auto simp: host_backend_def Let_def host_live_def dest!: on_vms_outcome dest: firecracker.stop_births)
next
  let ?b = "host_backend (dc_client dc) (dc_bridge dc)"
  fix cfg :: vmb_config and w r' and w' :: "host env" and j
  assume good: "plain (vb_id cfg)" and live: "host_live dc (outside w') j"
  show "backend_CreateVM ?b cfg w = (r', w') \<Longrightarrow> host_live dc (outside w) j \<or> j = vb_id cfg"
    using live by (auto simp: host_backend_def Let_def host_live_def dest!: on_vms_outcome dest: firecracker.create_births [OF _ good])
  show "backend_StartVM ?b cfg w = (r', w') \<Longrightarrow> host_live dc (outside w) j \<or> j = vb_id cfg"
    using live by (auto simp: host_backend_def Let_def host_live_def dest!: on_vms_outcome dest: firecracker.start_births [OF _ good])
next
  show "backend_CreateVM (host_backend (dc_client dc) (dc_bridge dc)) cfg w = (Inr v, w') \<Longrightarrow> vi_id v = vb_id cfg" for cfg w v w'
    by (auto simp: host_backend_def Let_def dest!: on_vms_outcome dest: firecracker.create_name)
  show "files_keep (\<lambda>o'. (host_live dc o', host_workspace dc o')) (sv_files (host_services dc))"
    by (simp add: files_keep_def host_services_def host_files_def disk_quiet)
next
  fix z i s assume "sv_zfs (host_services dc) = Some z"
  then have z: "z = host_workspaces (dc_zfs dc) (dc_stamp dc)" by (simp add: host_services_def)
  show "shrinks (\<lambda>w. host_live dc (outside w)) (ws_create z i)"
    "shrinks (\<lambda>w. host_live dc (outside w)) (ws_mountpoint z i)"
    "shrinks (\<lambda>w. host_live dc (outside w)) (ws_destroy z i)"
    "shrinks (\<lambda>w. host_live dc (outside w)) (ws_exists z i)"
    "shrinks (\<lambda>w. host_live dc (outside w)) (ws_rollback z i s)"
    by (simp_all add: z host_workspaces_def live_quiet workspace_tools)
next
  fix z i w and w' :: "host env"
  assume "sv_zfs (host_services dc) = Some z" "ws_exists z i w = (Inr False, w')"
  then obtain v where v: "on_os (DatasetExists (dc_zfs dc) zfs_sim i) \<lparr>ctx = ctx w, outside = vms (outside w)\<rparr> = (Inr False, v)"
    "vms (outside w') = outside v"
    by (auto simp: host_services_def host_workspaces_def dest!: on_vms_outcome)
  from on_os_outcome [OF v(1)] machine_zfs.DatasetPathExists_sound v(2)
  show "\<not> host_workspace dc (outside w') i"
    by (fastforce simp: host_workspace_def DatasetExists_def)
qed (auto simp: host_services_def plain_def shrinks_def)

section \<open>Runs of the daemon\<close>

text \<open>
  The requests, each under its task's lock and so one sequence of calls. \<open>i\<close> is the id
  \<open>GenerateVMID\<close> made, \<open>now\<close> the time.
\<close>

datatype task_request =
    CreateTask create_request string nat
  | StopTask string nat
  | FailTask string string nat
  | RestartTask string nat
  | DestroyTask string
  | DestroyByImage string
  | RestoreSnapshot string string nat

fun handle_request :: "daemon_config \<Rightarrow> task_request \<Rightarrow> host daemon \<Rightarrow> host daemon" where
  "handle_request dc (CreateTask rq i now) d = snd (tm_CreateTask (host_services dc) rq i now d)"
| "handle_request dc (StopTask i now) d = snd (stopTaskLocked (host_services dc) now i d)"
| "handle_request dc (FailTask i reason now) d = snd (failTaskLocked (host_services dc) now i reason d)"
| "handle_request dc (RestartTask i now) d = snd (restartTaskLocked (host_services dc) now i d)"
| "handle_request dc (DestroyTask i) d = snd (destroyTaskLocked (host_services dc) i d)"
| "handle_request dc (DestroyByImage img) d = snd (DestroyTasksByImage (host_services dc) img d)"
| "handle_request dc (RestoreSnapshot i s now) d = snd (tm_RestoreSnapshot (host_services dc) now i s d)"

text \<open>A new id is a plain name that no task and no VM has.\<close>

definition fresh_id :: "daemon_config \<Rightarrow> string \<Rightarrow> host daemon \<Rightarrow> bool" where
  "fresh_id dc i d \<longleftrightarrow> plain i \<and> task_of (store d) i = None \<and> \<not> host_live dc (outside (world d)) i"

fun admissible :: "daemon_config \<Rightarrow> task_request \<Rightarrow> host daemon \<Rightarrow> bool" where
  "admissible dc (CreateTask rq i now) d = fresh_id dc i d"
| "admissible dc _ d = True"

text \<open>A process exits by itself.\<close>

definition process_exits :: "nat \<Rightarrow> host daemon \<Rightarrow> host daemon" where
  "process_exits n d =
     (let h = outside (world d); v = vms h; o' = fc_os v in
      d\<lparr>world := (world d)\<lparr>outside := h\<lparr>vms := v\<lparr>fc_os := o'\<lparr>procs := filter (\<lambda>x. proc_pid x \<noteq> n) (procs o')\<rparr>\<rparr>\<rparr>\<rparr>\<rparr>)"

text \<open>
  The environment between requests: a new request brings its own context; statements of the
  database, file operations and calls of the machine fail as scripted.
\<close>

definition new_context :: "nat option \<Rightarrow> faults \<Rightarrow> faults \<Rightarrow> faults \<Rightarrow> host daemon \<Rightarrow> host daemon" where
  "new_context c sql io calls d =
     (let h = outside (world d); v = vms h in
      d\<lparr>store := (store d)\<lparr>db_faults := sql\<rparr>,
        world := \<lparr>ctx = c, outside = h\<lparr>disk := (disk h)\<lparr>fs_faults := io\<rparr>,
          vms := v\<lparr>fc_os := (fc_os v)\<lparr>mfaults := calls\<rparr>\<rparr>\<rparr>\<rparr>\<rparr>)"

inductive daemon_step :: "daemon_config \<Rightarrow> host daemon \<Rightarrow> host daemon \<Rightarrow> bool" for dc where
  request: "admissible dc req d \<Longrightarrow> daemon_step dc d (handle_request dc req d)"
| exits: "daemon_step dc d (process_exits n d)"
| environment: "daemon_step dc d (new_context c sql io calls d)"

text \<open>
  A state the daemon can take over: the pool is sound, every VM that runs holds an address;
  a task is named as its VM and holds an address, except that one whose cleanup is pending
  has no running VM.
\<close>

definition consistent :: "daemon_config \<Rightarrow> host daemon \<Rightarrow> bool" where
  "consistent dc d \<longleftrightarrow> scannable (store d) \<and> (\<exists>q. pool d = Some q \<and> pool_ok q \<and>
     (\<forall>v. host_live dc (outside (world d)) v \<longrightarrow> map_of (allocated q) v \<noteq> None) \<and>
     (\<forall>i t. task_of (store d) i = Some t \<longrightarrow> VMID t = i \<and> plain i \<and>
        (if Status t = TaskStatusCleanupPending then \<not> host_live dc (outside (world d)) i
         else map_of (allocated q) i \<noteq> None)))"

inductive daemon_reachable :: "daemon_config \<Rightarrow> host daemon \<Rightarrow> bool" for dc where
  start: "consistent dc d \<Longrightarrow> daemon_reachable dc d"
| step: "daemon_reachable dc d \<Longrightarrow> daemon_step dc d d' \<Longrightarrow> daemon_reachable dc d'"

inductive_cases daemon_stepE: "daemon_step dc d d'"

lemma valid_snd: "valid P m (\<lambda>_. R) (\<lambda>_. R) \<Longrightarrow> P d \<Longrightarrow> R (snd (m d))"
  using valid_outcome [of P m R d "fst (m d)" "snd (m d)"] by simp

lemma request_safe:
  assumes "holds_in (host.safe dc) d" "admissible dc req d"
  shows "holds_in (host.safe dc) (handle_request dc req d)"
proof (cases req)
  case (CreateTask rq i now)
  then have i: "plain i" "holds_in (host.fresh dc i) d" using assms by (auto simp: fresh_id_def holds_in_def)
  have "valid (holds_in (host.fresh dc i)) (tm_CreateTask (host_services dc) rq i now)
      (\<lambda>_. holds_in (host.safe dc)) (\<lambda>_. holds_in (host.safe dc))"
    by (rule valid_post [OF host.CreateTask_valid [OF i(1)]]) (erule holds_in_mono, simp)+
  from valid_snd [OF this i(2)] show ?thesis using CreateTask by simp
next
  case (StopTask i now)
  then show ?thesis using valid_snd [OF host.stop_preserves assms(1)] by simp
next
  case (FailTask i reason now)
  then show ?thesis using valid_snd [OF host.fail_preserves assms(1)] by simp
next
  case (RestartTask i now)
  then show ?thesis using valid_snd [OF host.restart_preserves assms(1)] by simp
next
  case (DestroyTask i)
  then show ?thesis using valid_snd [OF host.destroy_preserves assms(1)] by simp
next
  case (DestroyByImage img)
  then show ?thesis using valid_snd [OF host.by_image_preserves assms(1)] by simp
next
  case (RestoreSnapshot i name now)
  then show ?thesis using valid_snd [OF host.restore_preserves assms(1)] by simp
qed

lemma fewer_live:
  assumes "\<And>n. proc_of o'' n = None \<or> proc_of o'' n = proc_of (fc_os v) n"
  shows "vm_live c (v\<lparr>fc_os := o''\<rparr>) i \<Longrightarrow> vm_live c v i"
  using owned_fewer [of o'' "fc_os v", OF assms]
  by (simp add: vm_live_def machine_owned_def) (metis fst_conv snd_conv)

lemma step_safe: "daemon_step dc d d' \<Longrightarrow> holds_in (host.safe dc) d \<Longrightarrow> holds_in (host.safe dc) d'"
proof (erule daemon_stepE)
  fix req assume "d' = handle_request dc req d" "admissible dc req d" "holds_in (host.safe dc) d"
  then show "holds_in (host.safe dc) d'" using request_safe by simp
next
  fix n assume d': "d' = process_exits n d" and K: "holds_in (host.safe dc) d"
  have "host_live dc (outside (world d')) v \<Longrightarrow> host_live dc (outside (world d)) v" for v
    unfolding host_live_def d' process_exits_def Let_def
    by (simp, erule fewer_live [rotated]) (auto simp: proc_of_def find_filter_pid)
  then show "holds_in (host.safe dc) d'"
    using K host.safe_world [of dc _ _ "outside (world d)" "outside (world d')"]
    by (auto simp: holds_in_def d' process_exits_def Let_def)
next
  fix c sql io calls assume d': "d' = new_context c sql io calls d" and K: "holds_in (host.safe dc) d"
  have "host_live dc (outside (world d')) v \<Longrightarrow> host_live dc (outside (world d)) v" for v
    unfolding host_live_def d' new_context_def Let_def
    by (simp, erule fewer_live [rotated]) (auto simp: proc_of_def)
  then show "holds_in (host.safe dc) d'"
    using K host.safe_world [of dc _ _ "outside (world d)" "outside (world d')"]
    by (auto simp: holds_in_def d' new_context_def Let_def)
qed

lemma consistent_safe: "consistent dc d = holds_in (host.safe dc) d"
  by (simp add: consistent_def holds_in_def host.safe_def host.entry_safe_def)

lemma reachable_safe: "daemon_reachable dc d \<Longrightarrow> holds_in (host.safe dc) d"
  by (induction rule: daemon_reachable.induct) (simp_all add: consistent_safe step_safe)

text \<open>An empty host with a new pool.\<close>

lemma consistent_empty:
  "tasks (store d) = [] \<Longrightarrow> pool d = Some q \<Longrightarrow> pool_ok q \<Longrightarrow> procs (fc_os (vms (outside (world d)))) = [] \<Longrightarrow> consistent dc d"
  by (simp add: consistent_def scannable_def task_of_def find_row_def host_live_def vm_live_def machine_owner_def proc_of_def)

end
