(* ===== verification/Task_Properties.thy ===== *)
theory Task_Properties
  imports Host
begin

text \<open>
  What the task manager promises on the host, in every reachable state of the daemon: the
  facts of \<open>task_host\<close> written out over the model, each with an instance.
\<close>

section \<open>An example host\<close>

definition host_process :: "nat \<Rightarrow> string \<Rightarrow> process" where
  "host_process n i = \<lparr>proc_pid = n, proc_start = n,
     proc_cmdline = spawn_cmdline ''/fc'' (api_socket (client_defaults demo_config) ''stockyard'' i),
     proc_exe = ''/fc'', proc_ignores_term = True\<rparr>"

definition host_task :: "string \<Rightarrow> string \<Rightarrow> task" where
  "host_task i st = \<lparr>ID = i, Name = i, Command = [], Status = st, VMID = i, CID = 100, VsockPath = [], IP = [],
     Owner = [], TailscaleHostname = [], Image = ''default'', CreatedAt = 1, StoppedAt = None\<rparr>"

definition host_demo :: "host daemon" where
  "host_demo =
     \<lparr>store = db0\<lparr>tasks := [row_of_task (host_task ''vm1'' ''running''), row_of_task (host_task ''vm2'' ''running''),
        row_of_task (host_task ''vm3'' TaskStatusCleanupPending)]\<rparr>,
      pool = Some (pool29\<lparr>persistPath := ''/s'', allocated := [(''vm1'', ''10.0.0.2''), (''vm2'', ''10.0.0.3'')],
        available := [''10.0.0.4'']\<rparr>),
      world = \<lparr>ctx = None, outside =
        \<lparr>vms = \<lparr>fc_procs = [], cid_counter = 100, fc_os =
           \<lparr>procs = [host_process 7 ''vm1'', host_process 8 ''vm2''], datasets = [''t/vms/vm1'', ''t/w/vm1'', ''t/w/vm2''],
            links = [''tap-vm1''], paths = [''/v/stockyard/vm1''], contents = [], api_log = [], mfaults = []\<rparr>\<rparr>,
         disk = \<lparr>files = [], fs_faults = []\<rparr>\<rparr>\<rparr>,
      activities = [], tailers = [], polled = []\<rparr>"

definition host_config :: daemon_config where
  "host_config = \<lparr>dc_client = demo_config, dc_bridge = [], dc_zfs = \<lparr>PoolName = ''t'', BasePath = ''w''\<rparr>,
     dc_registry = None, dc_secret = (\<lambda>_. Inl (Msg ''no secret'')), dc_yaml = (\<lambda>_. Inr ''yaml''),
     dc_peer = (\<lambda>_. Inr ()), dc_data_dir = ''/d'', dc_stamp = ''now''\<rparr>"

lemma host_demo_live: "host_live host_config (outside (world host_demo)) i \<longleftrightarrow> i = ''vm1'' \<or> i = ''vm2''"
proof -
  let ?o = "fc_os (vms (outside (world host_demo)))" and ?c = "client_defaults demo_config"
  have socks: "machine_owner ?o n s \<longleftrightarrow> n = 7 \<and> s = api_socket ?c ''stockyard'' ''vm1'' \<or> n = 8 \<and> s = api_socket ?c ''stockyard'' ''vm2''" for n s
  proof -
    have "cmdline_args (proc_cmdline (host_process m j)) = [''--api-sock'', api_socket ?c ''stockyard'' j]"
      if "j = ''vm1'' \<or> j = ''vm2''" for m j
    proof -
      have "CHR 0x00 \<notin> set ''/fc''" "CHR 0x00 \<notin> set (api_socket ?c ''stockyard'' j)" using that by (auto, (code_simp | simp)+)
      from spawn_args [OF this] show ?thesis by (simp add: host_process_def)
    qed
    then show ?thesis
      by (auto simp: machine_owner_def proc_of_def host_demo_def host_process_def)
  qed
  have "plain ''vm1''" "plain ''vm2''" by code_simp+
  then show ?thesis
    using api_socket_inj [of ?c _ i] api_socket_inj [of ?c i] default_defaults [of demo_config]
    by (auto simp: host_live_def vm_live_def socks host_config_def)
qed

lemma host_demo_rows:
  "task_of (store host_demo) i = (if i = ''vm1'' then Some (host_task ''vm1'' ''running'')
     else if i = ''vm2'' then Some (host_task ''vm2'' ''running'')
     else if i = ''vm3'' then Some (host_task ''vm3'' TaskStatusCleanupPending) else None)"
  by (simp add: host_demo_def task_of_def host_task_def find_row_def scan_row_of_task)

lemma host_demo_facts:
  "scannable (store host_demo)" "db_faults (store host_demo) = []"
  "plain ''vm1''" "plain ''vm2''" "plain ''vm3''" "plain ''vm4''"
  "''running'' \<noteq> TaskStatusCleanupPending"
  by code_simp+

lemma host_demo_pool:
  "\<exists>q. pool host_demo = Some q \<and> pool_ok q \<and> map_of (allocated q) = [''vm1'' \<mapsto> ''10.0.0.2'', ''vm2'' \<mapsto> ''10.0.0.3'']"
  by (simp add: host_demo_def pool_ok_def fun_eq_iff)

lemma host_demo_consistent: "consistent host_config host_demo"
proof -
  from host_demo_pool obtain q where q: "pool host_demo = Some q" "pool_ok q"
    "map_of (allocated q) = [''vm1'' \<mapsto> ''10.0.0.2'', ''vm2'' \<mapsto> ''10.0.0.3'']" by blast
  show ?thesis
    unfolding consistent_def
    by (intro conjI exI [of _ q] q(1,2) host_demo_facts(1))
       (use host_demo_facts in \<open>auto simp: host_demo_live host_demo_rows q(3) host_task_def split: if_splits\<close>)
qed

lemma host_demo_reachable: "daemon_reachable host_config host_demo"
  by (rule daemon_reachable.start [OF host_demo_consistent])

section \<open>Addresses\<close>

text \<open>C1. Two VMs that run at the same time never have the same address: in every state the daemon reaches, through
  requests that succeed or fail at any call, cancelled contexts, exiting processes and failing statements and file
  operations, every running VM holds an address of the pool and different VMs hold different ones.\<close>

theorem running_vms_hold_distinct_addresses:
  assumes "daemon_reachable dc d"
  shows "\<exists>q. pool d = Some q \<and> {v. host_live dc (outside (world d)) v} \<subseteq> dom (map_of (allocated q)) \<and>
    inj_on (map_of (allocated q)) {v. host_live dc (outside (world d)) v}"
proof -
  from reachable_safe [OF assms] obtain q where q: "pool d = Some q" "pool_ok q"
    "\<And>v. host_live dc (outside (world d)) v \<Longrightarrow> map_of (allocated q) v \<noteq> None"
    by (auto simp: holds_in_def host.safe_def)
  have "inj_on (map_of (allocated q)) {v. host_live dc (outside (world d)) v}"
    using pool_ok_exclusive(2) [OF q(2)] q(3) by (auto simp: inj_on_def) (metis not_Some_eq)
  with q show ?thesis by (auto simp: domIff)
qed

lemma running_vms_hold_distinct_addresses_witness:
  "\<exists>q a b. pool (handle_request host_config (DestroyTask ''vm3'') host_demo) = Some q \<and>
     daemon_reachable host_config host_demo \<and>
     map_of (allocated (the (pool host_demo))) ''vm1'' = Some a \<and> map_of (allocated (the (pool host_demo))) ''vm2'' = Some b \<and> a \<noteq> b"
proof -
  have "daemon_reachable host_config (handle_request host_config (DestroyTask ''vm3'') host_demo)"
    by (rule daemon_reachable.step [OF host_demo_reachable], rule daemon_step.request) simp
  from running_vms_hold_distinct_addresses [OF this] running_vms_hold_distinct_addresses [OF host_demo_reachable]
  show ?thesis
    using host_demo_pool host_demo_reachable
    by (auto simp: host_demo_live inj_on_def dom_def subset_iff)
qed

section \<open>Destroying a task\<close>

lemma host_zfs: "firecracker_mode (host_services dc)" "\<exists>z. sv_zfs (host_services dc) = Some z"
  by (simp_all add: host_services_def firecracker_mode_def)

text \<open>C2. A destruction that returns nil leaves nothing of the task behind: its row is gone, its VM does not run, its
  workspace dataset does not exist and its address is free again.\<close>

theorem destroyed_task_leaves_nothing:
  assumes "daemon_reachable dc d" "task_of (store d) i = Some t"
    and "destroyTaskLocked (host_services dc) i d = (Inr (), d')"
  shows "task_of (store d') i = None \<and> \<not> host_live dc (outside (world d')) i \<and>
    \<not> host_workspace dc (outside (world d')) i \<and> (\<exists>q. pool d' = Some q \<and> map_of (allocated q) i = None)"
proof -
  have "holds_in (\<lambda>m p o'. host.safe dc m p o' \<and> m i = Some t) d"
    using reachable_safe [OF assms(1)] assms(2) by (simp add: holds_in_def)
  from valid_Inr [OF host.valid_destroy this assms(3)]
  have "holds_in (\<lambda>m p o'. host.safe dc m p o' \<and> host.destroyed dc i m p o') d'" by (auto elim!: holds_in_mono)
  then show ?thesis
    by (auto simp: holds_in_def host.destroyed_def host.no_workspace_def host.unheld_def host.safe_def host_zfs)
qed

lemma demo_destroy_run: "fst (destroyTaskLocked (host_services host_config) ''vm2'' host_demo) = Inr ()"
  by code_simp

lemma destroyed_task_leaves_nothing_witness:
  "\<exists>d'. destroyTaskLocked (host_services host_config) ''vm2'' host_demo = (Inr (), d') \<and>
     host_live host_config (outside (world host_demo)) ''vm2'' \<and> \<not> host_live host_config (outside (world d')) ''vm2''"
proof -
  obtain d' where run: "destroyTaskLocked (host_services host_config) ''vm2'' host_demo = (Inr (), d')"
    using demo_destroy_run by (metis prod.collapse)
  from destroyed_task_leaves_nothing [OF host_demo_reachable _ run] run show ?thesis
    by (simp add: host_demo_rows host_demo_live)
qed

text \<open>C3. A destruction that fails never loses the task: its row is still there, unchanged or marked as pending
  cleanup, so that the destruction can be retried.\<close>

theorem failed_destroy_keeps_row:
  assumes "daemon_reachable dc d" "task_of (store d) i = Some t"
    and "destroyTaskLocked (host_services dc) i d = (Inl e, d')"
  shows "\<exists>st. task_of (store d') i = Some (t\<lparr>Status := st\<rparr>) \<and> st \<in> {Status t, TaskStatusCleanupPending}"
proof -
  have "holds_in (\<lambda>m p o'. host.safe dc m p o' \<and> m i = Some t) d"
    using reachable_safe [OF assms(1)] assms(2) by (simp add: holds_in_def)
  from valid_Inl [OF host.valid_destroy this assms(3)] show ?thesis by (simp add: holds_in_def)
qed

text \<open>The context is cancelled after the VM is deleted.\<close>

definition cancelled_demo :: "host daemon" where
  "cancelled_demo = new_context (Some 3) [] [] [] host_demo"

lemma cancelled_demo_run: "isl (fst (destroyTaskLocked (host_services host_config) ''vm2'' cancelled_demo))"
  by code_simp

lemma failed_destroy_keeps_row_witness:
  "task_of (store (snd (destroyTaskLocked (host_services host_config) ''vm2'' cancelled_demo))) ''vm2'' \<noteq> None"
proof -
  have "daemon_reachable host_config cancelled_demo"
    unfolding cancelled_demo_def by (rule daemon_reachable.step [OF host_demo_reachable daemon_step.environment])
  moreover have "task_of (store cancelled_demo) ''vm2'' = Some (host_task ''vm2'' ''running'')"
    using host_demo_rows [of "''vm2''"] by (simp add: cancelled_demo_def new_context_def Let_def)
  moreover obtain e d' where "destroyTaskLocked (host_services host_config) ''vm2'' cancelled_demo = (Inl e, d')"
    using cancelled_demo_run by (metis isl_def prod.collapse)
  ultimately show ?thesis using failed_destroy_keeps_row by fastforce
qed

section \<open>Creating a task\<close>

lemma created_task: "returns (\<lambda>t. ID t = i \<and> Status t = ''running'' \<and> Name t = rq_name rq \<and> CreatedAt t = now) (tm_CreateTask sv rq i now)"
  unfolding tm_CreateTask_def Let_def or_undo_def create_workspace_def create_vm_def fail_create_def
  by (intro returns_intros; simp add: new_task_def)

text \<open>C6. A creation either records the task, running, under its id and with an address of its own, or leaves no row; and
  when it fails while the VM may still run, that VM keeps its address.\<close>

theorem CreateTask_all_or_nothing:
  assumes "daemon_reachable dc d" "fresh_id dc i d"
    and "tm_CreateTask (host_services dc) rq i now d = (r, d')"
  shows "\<exists>q. pool d' = Some q \<and>
    (case r of
       Inr t \<Rightarrow> task_of (store d') i = Some t \<and> ID t = i \<and> VMID t = i \<and> Status t = ''running'' \<and>
         Name t = rq_name rq \<and> map_of (allocated q) i \<noteq> None
     | Inl _ \<Rightarrow> task_of (store d') i = None \<and>
         (map_of (allocated q) i \<noteq> None \<or> \<not> host_live dc (outside (world d')) i))"
proof -
  have i: "plain i" "holds_in (host.fresh dc i) d"
    using reachable_safe [OF assms(1)] assms(2) by (auto simp: fresh_id_def holds_in_def)
  note run = host.CreateTask_valid [OF i(1), of dc rq now]
  show ?thesis
  proof (cases r)
    case (Inl e)
    from valid_Inl [OF run i(2) assms(3) [unfolded Inl]] show ?thesis
      by (auto simp: Inl holds_in_def host.safe_def)
  next
    case (Inr t)
    have t: "ID t = i" "Status t = ''running''" "Name t = rq_name rq"
      using returnsD [OF created_task assms(3) [unfolded Inr]] by simp_all
    from valid_Inr [OF run i(2) assms(3) [unfolded Inr]] obtain q where q: "pool d' = Some q"
      "host.entry_safe dc q (outside (world d')) i t" "task_of (store d') i = Some t"
      by (auto simp: holds_in_def host.safe_def)
    then show ?thesis using t host_demo_facts(7) by (simp add: Inr host.entry_safe_def)
  qed
qed

lemma demo_fresh: "fresh_id host_config ''vm4'' host_demo"
  by (simp add: fresh_id_def host_demo_live host_demo_rows host_demo_facts)

definition demo_request :: create_request where
  "demo_request = \<lparr>rq_name = ''build'', rq_command = [''make''], rq_env = [], rq_cpus = 0, rq_memory = 0,
     rq_no_tailscale = True, rq_authkey = [], rq_ssh_keys = [], rq_dotenv = [], rq_image = []\<rparr>"

lemma CreateTask_all_or_nothing_witness:
  "\<exists>r d' q. tm_CreateTask (host_services host_config) demo_request ''vm4'' 5 host_demo = (r, d') \<and> pool d' = Some q \<and>
     (task_of (store d') ''vm4'' \<noteq> None) = (\<not> isl r)"
proof -
  obtain r d' where run: "tm_CreateTask (host_services host_config) demo_request ''vm4'' 5 host_demo = (r, d')" by fastforce
  from CreateTask_all_or_nothing [OF host_demo_reachable demo_fresh run] show ?thesis
    using run by (cases r) auto
qed

section \<open>Tasks whose cleanup is pending\<close>

lemma admitted_pending:
  assumes "db_faults (store d) = []" "task_of (store d) i = Some t" "Status t = TaskStatusCleanupPending"
  shows "admitted_task i d = (Inl (Sentinel ErrTaskCleanupPending), d)"
  using GetTask_run [OF assms(1,2)] assms(3)
  by (simp add: admitted_task_def on_store_def zoom_def call_def rejectCleanupPending_def)

text \<open>Only destruction may touch a task whose cleanup is pending: stopping, failing, restarting, its snapshots and the
  connection data are all refused with the cleanup-pending error, and nothing at all changes.\<close>

theorem pending_task_is_left_alone:
  assumes "db_faults (store d) = []" "task_of (store d) i = Some t" "Status t = TaskStatusCleanupPending"
  shows "stopTaskLocked sv now i d = (Inl (Sentinel ErrTaskCleanupPending), d) \<and>
    failTaskLocked sv now i reason d = (Inl (Sentinel ErrTaskCleanupPending), d) \<and>
    restartTaskLocked sv now i d = (Inl (Sentinel ErrTaskCleanupPending), d) \<and>
    tm_CreateSnapshot sv now i label d = (Inl (Sentinel ErrTaskCleanupPending), d) \<and>
    tm_RestoreSnapshot sv now i label d = (Inl (Sentinel ErrTaskCleanupPending), d) \<and>
    tm_ListTaskSnapshots sv i d = (Inl (Sentinel ErrTaskCleanupPending), d) \<and>
    tm_ListRecordedSnapshots i d = (Inl (Sentinel ErrTaskCleanupPending), d) \<and>
    tm_GetVMCID i d = (Inl (Sentinel ErrTaskCleanupPending), d) \<and>
    tm_GetVsockPath i d = (Inl (Sentinel ErrTaskCleanupPending), d)"
  using admitted_pending [OF assms]
  by (simp add: stopTaskLocked_def failTaskLocked_def restartTaskLocked_def tm_CreateSnapshot_def tm_RestoreSnapshot_def
      tm_ListTaskSnapshots_def tm_ListRecordedSnapshots_def tm_GetVMCID_def tm_GetVsockPath_def call_def)

lemma pending_task_is_left_alone_witness:
  "stopTaskLocked (host_services host_config) 9 ''vm3'' host_demo = (Inl (Sentinel ErrTaskCleanupPending), host_demo)"
  using pending_task_is_left_alone [of host_demo "''vm3''" "host_task ''vm3'' TaskStatusCleanupPending"]
  by (simp add: host_demo_facts host_demo_rows host_task_def)

section \<open>Stopping a task\<close>

text \<open>Stopping an existing task succeeds whenever the database works, whatever the VM does: the task alone becomes
  stopped, with the time, its log tailers and its poller are gone, and the activity is recorded.\<close>

theorem StopTask_outcome:
  assumes "scannable (store d)" "db_faults (store d) = []" "task_of (store d) i = Some t"
    and "Status t \<noteq> TaskStatusCleanupPending"
  shows "\<exists>d'. stopTaskLocked (host_services dc) now i d = (Inr (), d') \<and>
    task_of (store d') = (task_of (store d))(i \<mapsto> t\<lparr>Status := ''stopped'', StoppedAt := Some now\<rparr>) \<and>
    (\<forall>x \<in> set (tailers d'). \<not> has_prefix (fst x) (i @ '':'')) \<and> i \<notin> set (polled d') \<and>
    activities d' = activities d @ [VMStopped i (Name t)] \<and> pool d' = pool d"
proof -
  let ?sv = "host_services dc" and ?b = "host_backend (dc_client dc) (dc_bridge dc)"
  have adm: "admitted_task i d = (Inr t, d)"
    using GetTask_run [OF assms(2,3)] assms(4)
    by (simp add: admitted_task_def on_store_def zoom_def call_def rejectCleanupPending_def)
  define d1 where "d1 = stop_observers ?sv i d"
  have d1: "store d1 = store d" "pool d1 = pool d" "activities d1 = activities d"
    "\<forall>x \<in> set (tailers d1). \<not> has_prefix (fst x) (i @ '':'')" "i \<notin> set (polled d1)"
    by (auto simp: d1_def stop_observers_def stop_tailing_def host_services_def Let_def)
  define d2 where "d2 = snd (with_backend ?sv t (\<lambda>b. backend_StopVM b (VMID t)) d1)"
  have d2: "\<exists>w. d2 = d1\<lparr>world := w\<rparr>"
    by (auto simp: d2_def with_backend_def host_services_def on_world_def zoom_def split: prod.split)
       (metis daemon.surjective daemon.update_convs(3))
  obtain r x where upd: "state_UpdateTaskStatus i ''stopped'' now (store d2) = (r, x)" by fastforce
  have st: "store d2 = store d" using d1 d2 by auto
  have stopped: "''stopped'' \<noteq> TaskStatusCleanupPending" by (simp add: TaskStatusCleanupPending_def)
  note x = update_run [OF assms(2,3,1) stopped upd [unfolded st]]
  have "stopTaskLocked ?sv now i d = (Inr (), record_activity ?sv (VMStopped i (Name t)) (d2\<lparr>store := x\<rparr>))"
    using adm upd x(1)
    by (simp add: stopTaskLocked_def call_def pure_step_def ignore_def d1_def [symmetric] d2_def [symmetric]
        on_store_def zoom_def)
  then show ?thesis using x(2) d1 d2 by (auto simp: record_activity_def host_services_def)
qed

lemma StopTask_outcome_witness:
  "\<exists>d'. stopTaskLocked (host_services host_config) 9 ''vm1'' host_demo = (Inr (), d') \<and>
     map_option Status (task_of (store d') ''vm1'') = Some ''stopped''"
  using StopTask_outcome [of host_demo "''vm1''" "host_task ''vm1'' ''running''" host_config 9]
  by (auto simp: host_demo_facts host_demo_rows host_task_def)

end
