(* ===== verification/Spec2Isabelle.thy ===== *)
theory Spec2Isabelle
  imports Task_Locks Store_Types Snapshot_Service Dashboard Command_Line Config Log_Tail Apple_Container Address_Loop Host_Metrics Task_Properties
    Snapshot_Wire Console_Archive
begin

text \<open>
  A model of stockyard, a daemon that runs tasks in micro VMs, and the theorems that make it correct.

  \<^bold>\<open>The program.\<close> The daemon (\<open>cmd/stockyardd\<close>, \<open>pkg/daemon\<close>) keeps its tasks in an
  SQLite database (\<open>state.go\<close>) and hands every task an address of a static pool
  (\<open>pkg/network/ip_pool.go\<close>), a ZFS workspace (\<open>pkg/zfs\<close>) and a VM, which a backend
  (\<open>pkg/vmbackend\<close>) starts: Firecracker (\<open>pkg/firecracker\<close>) or Apple's container command. The
  task manager (\<open>tasks.go\<close>, \<open>task_lifecycle.go\<close>) creates, restarts, stops and destroys tasks
  under a lock for each task; gRPC handlers (\<open>grpc.go\<close>), a dashboard (\<open>pkg/dashboard\<close>) and the snapshot
  service for guests (\<open>snapshots.go\<close>, \<open>pkg/vsock\<close>) call it. At its start the daemon reconciles the
  database with the machine (\<open>daemon.go\<close>); beside it the command line audits and collects orphans
  (\<open>cmd/stockyard/gc_audit.go\<close>, \<open>gc.go\<close>). Inside the guest, \<open>stockyard-shell\<close> and
  \<open>stockyard-snapshot\<close> speak the protocols of \<open>pkg/shell\<close> and \<open>pkg/vsock\<close>.

  \<^bold>\<open>How it is modelled.\<close> A function that can fail and change state is an \<open>op\<close>: it takes the state and returns
  an error or a value together with the new state (\<open>Prelude\<close>). \<open>call\<close>, \<open>call_wrap\<close>, \<open>ignore\<close> and
  \<open>attempt\<close> are the ways the code goes on after a call: return the error, wrap it, drop it, or branch on it.
  Errors keep their wrapping and their sentinels, so that \<open>errors.Is\<close> can be computed; their texts are not. What the code calls
  outside (SQL statements, file operations, commands, processes, the HTTP API of Firecracker) is a parameter record of
  operations, or an executable world on which operations fail as a list of faults says, one entry for each
  call; no theorem bounds the list, so the theorems hold for every pattern of failures. Machine integers are
  words where they wrap. Contexts count the checks left until they are cancelled.

  \<^bold>\<open>The theories.\<close>
  \<^item> \<open>Prelude\<close>: errors, operations, contexts, faults, commands. \<open>Go_Strings\<close>, \<open>Json\<close>, \<open>Ipv4\<close>, \<open>Paths\<close>, \<open>Wire\<close>: what the
    program uses of Go's \<open>strings\<close>, \<open>strconv\<close>, \<open>encoding/json\<close>, \<open>net\<close>, \<open>filepath\<close> and
    \<open>encoding/binary\<close>. \<open>Triples\<close>: partial correctness of operations with a postcondition for success and one for failure.
  \<^item> \<open>Persistence\<close>, \<open>Ip_Pool\<close>, \<open>Address_Loop\<close>: \<open>ip_pool.go\<close>. \<open>Persistence\<close> states the contract of the file
    operations as a locale, interpreted on a file system with directories, temporary files and faults. The pool
    neither shares nor loses an address, its state file is whole at all times, and a restart recovers it.
  \<^item> \<open>Leases\<close>: \<open>pkg/network/dhcp.go\<close> and \<open>pkg/vmbackend/leases.go\<close>, the readers of lease files and the DHCP server.
  \<^item> \<open>Task_Store\<close>, \<open>Store_Types\<close>: \<open>state.go\<close>; the table refines a map and stays well formed.
    \<open>Task_Locks\<close>: \<open>withTaskLock\<close> as an interleaving of goroutines, with mutual exclusion and progress.
  \<^item> \<open>Zfs\<close>: \<open>pkg/zfs/zfs.go\<close>. \<open>Process_Handle\<close>, \<open>Firecracker\<close>, \<open>Cloud_Init\<close>, \<open>Logs\<close>, \<open>Vm_Client\<close>,
    \<open>Vm_Machine\<close>: \<open>pkg/firecracker\<close>. \<open>Machine\<close> is the machine the client runs on in the theorems about it: processes
    with recycled identifiers, sockets, TAP devices, datasets and the recorded requests to the API.
    \<open>Vm_Backend\<close>: \<open>pkg/vmbackend/backend.go\<close> and \<open>firecracker.go\<close>. \<open>Apple_Container\<close>: \<open>apple_container.go\<close>.
  \<^item> \<open>Tasks\<close>: \<open>tasks.go\<close> and \<open>task_lifecycle.go\<close>. \<open>Task_Safety\<close> and \<open>Task_Creation\<close> prove the invariant of the whole
    daemon over the locale of its services, \<open>Host\<close> interprets it on the machine with the Firecracker client, the pool and
    ZFS, and \<open>Task_Properties\<close> states the results: running VMs hold distinct addresses, a destroyed task leaves
    nothing, a failed destruction keeps the row, a creation is done or undone.
  \<^item> \<open>Images\<close>: \<open>image_registry.go\<close>. \<open>Reconcile\<close>: the reconciliation of \<open>daemon.go\<close>. \<open>Grpc\<close>: \<open>grpc.go\<close>.
    \<open>Shell\<close>: \<open>pkg/shell\<close> and the session set-up of \<open>stockyard-shell\<close>. \<open>Snapshot_Wire\<close>, \<open>Snapshot_Service\<close>: the
    snapshot protocol, its guest and its service, put together: a success of the guest means a recorded snapshot.
  \<^item> \<open>Dashboard\<close>: \<open>dashboard_facade.go\<close>, \<open>adapter.go\<close> and the handlers of \<open>server.go\<close>: a request runs exactly
    the operation of the task manager it names, except that the restoration of a snapshot takes a new one.
    \<open>Command_Line\<close>: the commands of \<open>cmd/stockyard\<close> over \<open>pkg/client\<close>: \<open>destroy\<close> calls the daemon only for
    a confirmed task. \<open>Config\<close>: \<open>pkg/config\<close>, \<open>pkg/secrets\<close>, \<open>init\<close> and the set-up of \<open>stockyardd\<close>: what is saved
    is what is loaded.
  \<^item> \<open>Orphan_Audit\<close>, \<open>Audit_Readers\<close>, \<open>Gc\<close>: \<open>gc_audit.go\<close> and \<open>gc.go\<close>: the audit is exact, and the collector spares
    known tasks as long as the daemon answers. \<open>Resources\<close>: the listings of \<open>pkg/dashboard/resources.go\<close> and of
    \<open>cmd/stockyard/resources.go\<close>, which agree with each other and with the plan of the collector.
  \<^item> \<open>Hub\<close>, \<open>Feeds\<close>: \<open>websocket.go\<close>, the activity feed, the log history and the messages of \<open>pkg/dashboard\<close>.
    \<open>Console_Archive\<close>: \<open>pkg/consolearchive\<close>. \<open>Log_Tail\<close>: the loop of \<open>logtailer.go\<close>. \<open>Host_Metrics\<close>: the counters of
    \<open>pkg/daemon/host_metrics.go\<close>.

  \<^bold>\<open>Bounds and fuel.\<close> Fuel appears where Go loops without a bound: \<open>address_loop\<close> counts iterations, and the size of the network
  is shown to be enough; the polls of \<open>Vm_Client\<close> and \<open>Apple_Container\<close> have the attempts the code has. The JSON
  parser recurses on the length of its input. Text is bytes; case folding is that of ASCII.

  \<^bold>\<open>Not modelled.\<close> Code whose work is input and output of libraries: the routing, the WebSocket upgrade and the settings page of the
  dashboard, its terminal sessions, templates and users, the construction, start and shutdown of the daemon, the accept
  loops, the pumps between pseudo terminals and sockets, and the tables the command line prints. The metrics and
  alerts of VMs (\<open>pkg/daemon/metrics.go\<close>, \<open>pkg/dashboard/alerts.go\<close>) compute in floating point, and no task is ever
  registered with their poller. The Tailscale client only runs commands, nothing calls the Flintlock client, and
  the API is generated. Goroutines are modelled where their interleaving is the point (\<open>Task_Locks\<close>, \<open>Hub\<close>,
  \<open>Apple_Container\<close>); elsewhere an operation runs alone under its lock. Durations and time zones are numbers and texts.
\<close>

end
